(* ===== verification/Prelude.thy ===== *)
theory Prelude
  imports Main
begin

text \<open>
  Shared vocabulary of the development: ASCII text as the service handles it (\<open>lower\<close>,
  \<open>TrimSpace\<close>), SQL's NULL helpers, tables as lists of rows with the statements the service
  issues against them (\<open>SELECT\<close>, \<open>UPDATE\<close>, \<open>DELETE\<close>, \<open>INSERT .. ON CONFLICT\<close>), partial
  unique indexes, JSON values, the clock, and two generic interfaces: an upsert-keyed table and
  a system of operations with an invariant.
\<close>

named_theorems table_simps \<open>rewrite rules for statements over tables\<close>
named_theorems inv_intros \<open>introduction rules that carry an invariant through one statement\<close>

subsection \<open>Text\<close>

definition lower_char :: "char \<Rightarrow> char" where
  "lower_char c = (let n = (of_char c :: nat) in if 65 \<le> n \<and> n \<le> 90 then char_of (n + 32) else c)"

definition lower :: "string \<Rightarrow> string" where
  "lower s = map lower_char s"

definition is_space :: "char \<Rightarrow> bool" where
  "is_space c = (let n = (of_char c :: nat) in n = 32 \<or> (9 \<le> n \<and> n \<le> 13))"

definition trim_right :: "(char \<Rightarrow> bool) \<Rightarrow> string \<Rightarrow> string" where
  "trim_right p s = rev (dropWhile p (rev s))"

definition trim_both :: "(char \<Rightarrow> bool) \<Rightarrow> string \<Rightarrow> string" where
  "trim_both p s = trim_right p (dropWhile p s)"

definition TrimSpace :: "string \<Rightarrow> string" where
  "TrimSpace s = trim_both is_space s"

lemma lower_char_idem [simp]: "lower_char (lower_char c) = lower_char c"
  by (simp add: lower_char_def Let_def)

lemma lower_idem [simp]: "lower (lower s) = lower s"
  by (simp add: lower_def)

lemma lower_Nil [simp]: "lower [] = []" and lower_eq_Nil [simp]: "lower s = [] \<longleftrightarrow> s = []"
  and Nil_eq_lower [simp]: "[] = lower s \<longleftrightarrow> s = []"
  by (simp_all add: lower_def)

lemma lower_append: "lower (s @ t) = lower s @ lower t"
  by (simp add: lower_def)

lemma set_dropWhile_subset: "set (dropWhile p xs) \<subseteq> set xs"
  by (induction xs) auto

lemma set_trim_both: "set (trim_both p s) \<subseteq> set s"
  unfolding trim_both_def trim_right_def
  by (metis (no_types, lifting) order_trans set_dropWhile_subset set_rev)

lemma dropWhile_hd_idem: "dropWhile p (dropWhile p xs) = dropWhile p xs"
  by (induction xs) auto

lemma trim_right_idem: "trim_right p (trim_right p s) = trim_right p s"
  by (simp add: trim_right_def dropWhile_hd_idem)

lemma trim_right_last: "trim_right p s \<noteq> [] \<Longrightarrow> \<not> p (last (trim_right p s))"
  unfolding trim_right_def
  by (metis hd_dropWhile last_rev rev_is_Nil_conv)

lemma trim_right_snoc: "trim_right p (xs @ [x]) = (if p x then trim_right p xs else xs @ [x])"
  by (simp add: trim_right_def)

lemma trim_right_fixed: "\<not> p (last s) \<or> s = [] \<Longrightarrow> trim_right p s = s"
  by (cases s rule: rev_cases) (auto simp: trim_right_def)

lemma trim_right_prefix: "\<exists>t. s = trim_right p s @ t"
  by (metis rev_append rev_rev_ident takeWhile_dropWhile_id trim_right_def)

lemma trim_right_hd: "trim_right p s \<noteq> [] \<Longrightarrow> hd (trim_right p s) = hd s"
  by (metis hd_append2 trim_right_prefix)

lemma trim_both_last: "trim_both p s \<noteq> [] \<Longrightarrow> \<not> p (last (trim_both p s))"
  unfolding trim_both_def by (rule trim_right_last)

lemma trim_both_hd: "trim_both p s \<noteq> [] \<Longrightarrow> \<not> p (hd (trim_both p s))"
proof -
  assume a: "trim_both p s \<noteq> []"
  then have "dropWhile p s \<noteq> []" by (metis dropWhile.simps(1) rev.simps(1) trim_both_def trim_right_def)
  with a show ?thesis by (metis hd_dropWhile trim_both_def trim_right_hd)
qed

lemma trim_both_fixed:
  assumes "s \<noteq> [] \<Longrightarrow> \<not> p (hd s) \<and> \<not> p (last s)"
  shows "trim_both p s = s"
proof (cases s)
  case (Cons c cs)
  with assms have "dropWhile p s = s" by simp
  with assms Cons show ?thesis by (simp add: trim_both_def trim_right_fixed)
qed (simp add: trim_both_def trim_right_def)

lemma trim_both_idem [simp]: "trim_both p (trim_both p s) = trim_both p s"
  by (rule trim_both_fixed) (simp add: trim_both_hd trim_both_last)

lemma TrimSpace_idem [simp]: "TrimSpace (TrimSpace s) = TrimSpace s"
  by (simp add: TrimSpace_def)

lemmas text_eval = lower_def lower_char_def Let_def char_of_def bit_Suc_0_iff

definition hex_char :: "nat \<Rightarrow> char" where
  "hex_char n = (if n < 10 then char_of (48 + n) else char_of (87 + n))"

definition hexEncode :: "string \<Rightarrow> string" where
  "hexEncode bs = concat (map (\<lambda>c. let n = (of_char c :: nat) in [hex_char (n div 16), hex_char (n mod 16)]) bs)"

text \<open>Decimal digits, and \<open>strconv.FormatInt\<close> in base 10.\<close>

fun decimal :: "nat \<Rightarrow> string" where
  "decimal n = (if n < 10 then [char_of (48 + n)] else decimal (n div 10) @ [char_of (48 + n mod 10)])"

definition FormatInt :: "int \<Rightarrow> string" where
  "FormatInt i = (if i < 0 then CHR ''-'' # decimal (nat (- i)) else decimal (nat i))"

declare decimal.simps [simp del]

subsection \<open>NULL\<close>

definition nullif :: "string \<Rightarrow> string option" where
  "nullif s = (if s = [] then None else Some s)"

definition coalesce :: "'a option \<Rightarrow> 'a option \<Rightarrow> 'a option" where
  "coalesce a b = (case a of None \<Rightarrow> b | Some _ \<Rightarrow> a)"

lemma nullif_simps [simp]: "nullif [] = None" "s \<noteq> [] \<Longrightarrow> nullif s = Some s"
  by (simp_all add: nullif_def)

lemma coalesce_simps [simp]: "coalesce None b = b" "coalesce (Some x) b = Some x" "coalesce a None = a"
  by (simp_all add: coalesce_def split: option.splits)

lemma nullif_eq_None [simp]: "nullif s = None \<longleftrightarrow> s = []"
  by (simp add: nullif_def)

subsection \<open>Tables\<close>

text \<open>
  A table is the list of its rows. The list order stands for the physical order, which decides
  what a query without \<open>ORDER BY\<close> returns first; every theorem holds for every order.
  \<open>upd P f\<close> is \<open>UPDATE .. SET f WHERE P\<close>, \<open>filter (Not \<circ> P)\<close> is \<open>DELETE .. WHERE P\<close>,
  \<open>find P\<close> is the row a single-row query scans, and \<open>affected P\<close> is \<open>RowsAffected\<close>.
\<close>

definition upd :: "('r \<Rightarrow> bool) \<Rightarrow> ('r \<Rightarrow> 'r) \<Rightarrow> 'r list \<Rightarrow> 'r list" where
  "upd P f rs = map (\<lambda>r. if P r then f r else r) rs"

definition del :: "('r \<Rightarrow> bool) \<Rightarrow> 'r list \<Rightarrow> 'r list" where
  "del P rs = filter (\<lambda>r. \<not> P r) rs"

definition affected :: "('r \<Rightarrow> bool) \<Rightarrow> 'r list \<Rightarrow> nat" where
  "affected P rs = length (filter P rs)"

definition upsert_row :: "('r \<Rightarrow> 'k) \<Rightarrow> 'r \<Rightarrow> ('r \<Rightarrow> 'r) \<Rightarrow> 'r list \<Rightarrow> 'r list" where
  "upsert_row key new merge rs =
     (if \<exists>r\<in>set rs. key r = key new then upd (\<lambda>r. key r = key new) merge rs else rs @ [new])"

text \<open>\<open>UNIQUE (k) WHERE P\<close>: no two rows that satisfy \<open>P\<close> agree on \<open>k\<close>.\<close>

definition unique_on :: "('r \<Rightarrow> bool) \<Rightarrow> ('r \<Rightarrow> 'k) \<Rightarrow> 'r list \<Rightarrow> bool" where
  "unique_on P k rs \<longleftrightarrow> distinct (map k (filter P rs))"

lemma set_upd [table_simps]: "set (upd P f rs) = {f r |r. r \<in> set rs \<and> P r} \<union> {r \<in> set rs. \<not> P r}"
  by (auto simp: upd_def image_iff split: if_splits)

lemma ball_upd [table_simps]: "(\<forall>r\<in>set (upd P f rs). Q r) \<longleftrightarrow> (\<forall>r\<in>set rs. if P r then Q (f r) else Q r)"
  by (auto simp: upd_def)

lemma bex_upd [table_simps]: "(\<exists>r\<in>set (upd P f rs). Q r) \<longleftrightarrow> (\<exists>r\<in>set rs. if P r then Q (f r) else Q r)"
  by (auto simp: upd_def)

lemma set_del [table_simps]: "set (del P rs) = {r \<in> set rs. \<not> P r}"
  by (auto simp: del_def)

lemma upd_Nil [simp]: "upd P f [] = []" and upd_Cons [simp]:
  "upd P f (r # rs) = (if P r then f r else r) # upd P f rs"
  by (simp_all add: upd_def)

lemma upd_append [simp]: "upd P f (rs @ rs') = upd P f rs @ upd P f rs'"
  by (simp add: upd_def)

lemma del_simps [simp]: "del P [] = []" "del P (r # rs) = (if P r then del P rs else r # del P rs)"
  by (simp_all add: del_def)

lemma affected_0 [simp]: "affected P rs = 0 \<longleftrightarrow> (\<forall>r\<in>set rs. \<not> P r)"
  by (auto simp: affected_def filter_empty_conv)

lemma upd_none: "\<forall>r\<in>set rs. \<not> P r \<Longrightarrow> upd P f rs = rs"
  by (induction rs) auto

lemma length_upd [simp]: "length (upd P f rs) = length rs"
  by (simp add: upd_def)

lemma find_upd_other:
  "(\<And>r. Q r \<Longrightarrow> \<not> P r) \<Longrightarrow> (\<And>r. P r \<Longrightarrow> \<not> Q (f r)) \<Longrightarrow> find Q (upd P f rs) = find Q rs"
  by (induction rs) auto

lemma find_upd_same:
  "(\<And>r. P r \<Longrightarrow> P (f r)) \<Longrightarrow> find P (upd P f rs) = map_option f (find P rs)"
  by (induction rs) auto

lemma find_upd_keep:
  "(\<And>r. P r \<Longrightarrow> Q (f r) = Q r) \<Longrightarrow>
     find Q (upd P f rs) = map_option (\<lambda>r. if P r then f r else r) (find Q rs)"
  by (induction rs) auto

lemma find_SomeD: "find P rs = Some r \<Longrightarrow> r \<in> set rs \<and> P r"
  by (induction rs) (auto split: if_splits)

lemma find_append: "find P (rs @ rs') = (case find P rs of None \<Rightarrow> find P rs' | Some r \<Rightarrow> Some r)"
  by (induction rs) auto

lemma find_del_other: "(\<And>r. Q r \<Longrightarrow> \<not> P r) \<Longrightarrow> find Q (del P rs) = find Q rs"
  by (induction rs) auto

lemma find_del_same: "find P (del P rs) = None"
  by (induction rs) auto

lemma find_None: "find P rs = None \<longleftrightarrow> (\<forall>r\<in>set rs. \<not> P r)"
  by (auto simp: find_None_iff)

lemma find_cong_on: "(\<And>r. r \<in> set rs \<Longrightarrow> P r = Q r) \<Longrightarrow> find P rs = find Q rs"
  by (induction rs) auto

lemma filter_upd_other:
  "(\<And>r. P r \<Longrightarrow> \<not> Q r \<and> \<not> Q (f r)) \<Longrightarrow> filter Q (upd P f rs) = filter Q rs"
  by (induction rs) auto

lemma filter_del_other: "(\<And>r. P r \<Longrightarrow> \<not> Q r) \<Longrightarrow> filter Q (del P rs) = filter Q rs"
  by (induction rs) auto

lemma list_ex_upd: "(\<And>r. Q (f r) = Q r) \<Longrightarrow> list_ex Q (upd P f rs) = list_ex Q rs"
  by (induction rs) auto

lemma find_upsert_row:
  assumes "\<And>r. key r = key new \<Longrightarrow> key (merge r) = key new"
  shows "find (\<lambda>r. key r = k) (upsert_row key new merge rs) =
     (if k = key new
      then Some (case find (\<lambda>r. key r = k) rs of None \<Rightarrow> new | Some old \<Rightarrow> merge old)
      else find (\<lambda>r. key r = k) rs)"
proof (cases "\<exists>r\<in>set rs. key r = key new")
  case True
  then obtain r where "find (\<lambda>r. key r = key new) rs = Some r"
    by (metis (mono_tags, lifting) find_None not_Some_eq)
  moreover have "k \<noteq> key new \<Longrightarrow>
      find (\<lambda>r. key r = k) (upd (\<lambda>r. key r = key new) merge rs) = find (\<lambda>r. key r = k) rs"
    using assms by (intro find_upd_other) auto
  ultimately show ?thesis using True assms
    by (simp add: upsert_row_def find_upd_same)
next
  case False
  then have "find (\<lambda>r. key r = key new) rs = None" by (simp add: find_None)
  with False show ?thesis by (auto simp: upsert_row_def find_append split: option.splits)
qed

lemma set_upsert_row:
  "r \<in> set (upsert_row key new merge rs) \<longleftrightarrow>
     (r \<in> set rs \<and> key r \<noteq> key new) \<or>
     (\<exists>x\<in>set rs. key x = key new \<and> r = merge x) \<or>
     (r = new \<and> (\<forall>x\<in>set rs. key x \<noteq> key new))"
  by (auto simp: upsert_row_def set_upd)

subsubsection \<open>Rows that survive\<close>

text \<open>Every row of one table has a successor in another.\<close>

definition rows_rel :: "('r \<Rightarrow> 'r \<Rightarrow> bool) \<Rightarrow> 'r list \<Rightarrow> 'r list \<Rightarrow> bool" where
  "rows_rel R rs rs' \<longleftrightarrow> (\<forall>r\<in>set rs. \<exists>r'\<in>set rs'. R r r')"

lemma rows_relD: "rows_rel R rs rs' \<Longrightarrow> r \<in> set rs \<Longrightarrow> \<exists>r'\<in>set rs'. R r r'"
  by (simp add: rows_rel_def)

lemma rows_rel_refl: "(\<And>r. R r r) \<Longrightarrow> rows_rel R rs rs"
  unfolding rows_rel_def by blast

lemma rows_rel_trans:
  "rows_rel R rs rs' \<Longrightarrow> rows_rel R rs' rs'' \<Longrightarrow> (\<And>x y z. R x y \<Longrightarrow> R y z \<Longrightarrow> R x z) \<Longrightarrow> rows_rel R rs rs''"
  unfolding rows_rel_def by meson

lemma rows_rel_append: "(\<And>r. R r r) \<Longrightarrow> rows_rel R rs (rs @ xs)"
  by (auto simp: rows_rel_def)

lemma rows_rel_upd:
  assumes "\<And>r. R r r" and "\<And>r. r \<in> set rs \<Longrightarrow> P r \<Longrightarrow> R r (f r)"
  shows "rows_rel R rs (upd P f rs)"
  unfolding rows_rel_def
proof
  fix r assume "r \<in> set rs"
  then show "\<exists>r'\<in>set (upd P f rs). R r r'"
    using assms by (intro bexI [of _ "if P r then f r else r"]) (auto simp: upd_def)
qed

subsubsection \<open>Unique indexes\<close>

lemma unique_on_Nil [simp]: "unique_on P k []"
  by (simp add: unique_on_def)

lemma unique_on_Cons [simp]:
  "unique_on P k (r # rs) \<longleftrightarrow> unique_on P k rs \<and> (P r \<longrightarrow> (\<forall>x\<in>set rs. P x \<longrightarrow> k x \<noteq> k r))"
  by (auto simp: unique_on_def image_iff)

lemma unique_on_snoc [simp]:
  "unique_on P k (rs @ [r]) \<longleftrightarrow> unique_on P k rs \<and> (P r \<longrightarrow> (\<forall>x\<in>set rs. P x \<longrightarrow> k x \<noteq> k r))"
  by (induction rs) auto

lemma unique_on_del [inv_intros]: "unique_on P k rs \<Longrightarrow> unique_on P k (del Q rs)"
  by (induction rs) (auto simp: set_del)

lemma unique_on_filter: "unique_on P k rs \<Longrightarrow> unique_on P k (filter Q rs)"
  by (induction rs) auto

lemma unique_on_upd [inv_intros]:
  assumes "unique_on P k rs" and "\<And>r. Q r \<Longrightarrow> P (f r) \<Longrightarrow> P r \<and> k (f r) = k r"
  shows "unique_on P k (upd Q f rs)"
  using assms(1)
proof (induction rs)
  case (Cons r rs)
  then show ?case using assms(2) by (auto simp: set_upd)
qed simp

lemma unique_on_inj:
  "unique_on P k rs \<Longrightarrow> r \<in> set rs \<Longrightarrow> r' \<in> set rs \<Longrightarrow> P r \<Longrightarrow> P r' \<Longrightarrow> k r = k r' \<Longrightarrow> r = r'"
  by (induction rs) auto

lemma unique_on_weaken:
  "unique_on P k rs \<Longrightarrow> (\<And>r. P' r \<Longrightarrow> P r) \<Longrightarrow> unique_on P' k rs"
  by (induction rs) auto

lemma unique_on_finer:
  "unique_on P k rs \<Longrightarrow>
   (\<And>r r'. r \<in> set rs \<Longrightarrow> r' \<in> set rs \<Longrightarrow> k' r = k' r' \<Longrightarrow> k r = k r') \<Longrightarrow> unique_on P k' rs"
  by (induction rs) auto

lemma unique_on_upd_one:
  assumes u: "unique_on P k rs" and one: "\<And>r r'. r \<in> set rs \<Longrightarrow> r' \<in> set rs \<Longrightarrow> Q r \<Longrightarrow> Q r' \<Longrightarrow> r = r'"
    and d: "distinct rs"
    and new: "\<And>r x. r \<in> set rs \<Longrightarrow> Q r \<Longrightarrow> P (f r) \<Longrightarrow> x \<in> set rs \<Longrightarrow> \<not> Q x \<Longrightarrow> P x \<Longrightarrow> k x \<noteq> k (f r)"
  shows "unique_on P k (upd Q f rs)"
  using assms
proof (induction rs)
  case (Cons r rs)
  have IH: "unique_on P k (upd Q f rs)"
    using Cons.prems by (intro Cons.IH) auto
  show ?case
  proof (cases "Q r")
    case True
    then have nq: "\<forall>x\<in>set rs. \<not> Q x" using Cons.prems(2,3) by (metis distinct.simps(2) list.set_intros)
    then have "upd Q f rs = rs" by (rule upd_none)
    with True IH nq Cons.prems(4) [of r] show ?thesis by auto
  next
    case False
    have "P r \<Longrightarrow> \<forall>x\<in>set (upd Q f rs). P x \<longrightarrow> k x \<noteq> k r"
      using Cons.prems(1) Cons.prems(4) [where x = r] False by (auto simp: set_upd) metis+
    with IH False show ?thesis by auto
  qed
qed simp

lemma unique_on_upsert_row [inv_intros]:
  assumes "unique_on (\<lambda>_. True) key rs" and "\<And>r. key r = key new \<Longrightarrow> key (merge r) = key new"
  shows "unique_on (\<lambda>_. True) key (upsert_row key new merge rs)"
proof (cases "\<exists>r\<in>set rs. key r = key new")
  case True
  have "unique_on (\<lambda>_. True) key (upd (\<lambda>r. key r = key new) merge rs)"
    using assms by (intro unique_on_upd) auto
  with True show ?thesis by (simp add: upsert_row_def)
next
  case False
  with assms(1) show ?thesis by (simp add: upsert_row_def)
qed

subsubsection \<open>The contract of a table keyed by its primary key\<close>

text \<open>
  What a component relies on when it writes through \<open>INSERT .. ON CONFLICT (key) DO UPDATE\<close>
  and reads back by key.
\<close>

locale upsert_table =
  fixes lookup :: "'k \<Rightarrow> 't \<Rightarrow> 'r option"
    and put :: "'r \<Rightarrow> 't \<Rightarrow> 't"
    and remove :: "'k \<Rightarrow> 't \<Rightarrow> 't"
    and key :: "'r \<Rightarrow> 'k"
    and merge :: "'r \<Rightarrow> 'r \<Rightarrow> 'r"
  assumes lookup_put_same:
    "lookup (key new) (put new t) =
       Some (case lookup (key new) t of None \<Rightarrow> new | Some old \<Rightarrow> merge new old)"
    and lookup_put_other: "k \<noteq> key new \<Longrightarrow> lookup k (put new t) = lookup k t"
    and lookup_remove_same: "lookup k (remove k t) = None"
    and lookup_remove_other: "k' \<noteq> k \<Longrightarrow> lookup k' (remove k t) = lookup k' t"
    and merge_idem: "merge new (merge new old) = merge new old"
    and merge_self: "merge new new = new"
begin

lemma put_twice: "lookup k (put new (put new t)) = lookup k (put new t)"
  by (cases "k = key new")
     (auto simp: lookup_put_same lookup_put_other merge_idem merge_self split: option.splits)

lemma put_after_remove: "lookup (key new) (put new (remove (key new) t)) = Some new"
  by (simp add: lookup_put_same lookup_remove_same)

lemma remove_after_put: "lookup k (remove (key new) (put new t)) = lookup k (remove (key new) t)"
  by (cases "k = key new") (simp_all add: lookup_remove_same lookup_remove_other lookup_put_other)

lemma put_present: "lookup (key new) (put new t) \<noteq> None"
  by (simp add: lookup_put_same)

end

subsection \<open>Systems of operations\<close>

text \<open>
  Several operations of a component share one contract: each keeps the component's invariant,
  and never moves a record backwards. Both lift to every sequence of calls.
\<close>

locale op_system =
  fixes step :: "'op \<Rightarrow> 's \<Rightarrow> 's"
    and inv :: "'s \<Rightarrow> bool"
  assumes step_inv: "inv s \<Longrightarrow> inv (step op s)"
begin

lemma run_inv: "inv s \<Longrightarrow> inv (fold step ops s)"
  by (induction ops arbitrary: s) (simp_all add: step_inv)

end

locale op_history = op_system +
  fixes later :: "'s \<Rightarrow> 's \<Rightarrow> bool"
  assumes later_refl: "later s s"
    and later_trans: "later s t \<Longrightarrow> later t u \<Longrightarrow> later s u"
    and step_later: "inv s \<Longrightarrow> later s (step op s)"
begin

lemma run_later: "inv s \<Longrightarrow> later s (fold step ops s)"
proof (induction ops arbitrary: s)
  case (Cons op ops)
  then have "later (step op s) (fold step ops (step op s))" by (simp add: step_inv)
  with Cons.prems step_later have "later s (fold step ops (step op s))" by (blast intro: later_trans)
  then show ?case by simp
qed (simp add: later_refl)

end

subsection \<open>JSON values\<close>

datatype json = JNull | JBool bool | JNum int | JStr string | JArr "json list" | JObj "(string \<times> json) list"

text \<open>
  \<open>json.Unmarshal\<close> into a \<open>[]string\<close>: \<open>null\<close> leaves the slice nil, a \<open>null\<close> element leaves
  the element empty, any other non-string is an error.
\<close>

fun unmarshal_elem :: "json \<Rightarrow> string option" where
  "unmarshal_elem (JStr s) = Some s"
| "unmarshal_elem JNull = Some []"
| "unmarshal_elem _ = None"

fun unmarshal_elems :: "json list \<Rightarrow> string list option" where
  "unmarshal_elems [] = Some []"
| "unmarshal_elems (j # js) =
     (case unmarshal_elem j of None \<Rightarrow> None
      | Some s \<Rightarrow> map_option (\<lambda>ss. s # ss) (unmarshal_elems js))"

fun unmarshal_strings :: "json \<Rightarrow> string list option option" where
  "unmarshal_strings JNull = Some None"
| "unmarshal_strings (JArr js) = map_option Some (unmarshal_elems js)"
| "unmarshal_strings _ = None"

definition marshal_strings :: "string list \<Rightarrow> json" where
  "marshal_strings ss = JArr (map JStr ss)"

lemma unmarshal_marshal_elems [simp]: "unmarshal_elems (map JStr ss) = Some ss"
  by (induction ss) simp_all

lemma unmarshal_marshal_strings [simp]: "unmarshal_strings (marshal_strings ss) = Some (Some ss)"
  by (simp add: marshal_strings_def)

subsection \<open>Clock and statement faults\<close>

text \<open>
  Times are microseconds since the epoch, as Postgres stores them. A fault plan says, for each
  database statement of one call in the order the call issues them, whether the driver reports
  an error outside the model (a lost connection, a malformed uuid). Every operation takes a
  plan, so its error paths are branches of the model.
\<close>

type_synonym time = int
type_synonym faults = "nat \<Rightarrow> bool"

abbreviation no_faults :: faults where
  "no_faults \<equiv> \<lambda>_. False"

definition second :: time where
  "second = 1000000"

text \<open>RFC 3339 text with whole seconds: what a time is on the wire, and what parsing it gives.\<close>

definition wireTime :: "time \<Rightarrow> int" where
  "wireTime t = t div second"

definition parseWireTime :: "int \<Rightarrow> time" where
  "parseWireTime w = w * second"

lemma parse_wire_le: "parseWireTime (wireTime t) \<le> t"
  by (simp add: parseWireTime_def wireTime_def second_def)

lemma parse_wire_close: "t < parseWireTime (wireTime t) + second"
  by (simp add: parseWireTime_def wireTime_def second_def)

end
