(* ===== verification/Schema.thy ===== *)
theory Schema
  imports Prelude
begin

text \<open>
  The state the service keeps: one record per table of \<open>internal/db/migrations\<close>, the database
  as the record of its tables, the errors the services return, the wire types of
  \<open>internal/models\<close>, and the third-party functions the code calls (go-ethereum addresses,
  google/uuid, Postgres month arithmetic) as the fields of a parameter. Columns that no
  statement of the service reads (most \<open>updated_at\<close>) are left out.
\<close>

subsection \<open>Third-party functions\<close>

record library =
  HexAddr :: "string \<Rightarrow> string"       \<comment> \<open>common.HexToAddress(s).Hex()\<close>
  IsHexAddress :: "string \<Rightarrow> bool"    \<comment> \<open>common.IsHexAddress\<close>
  uuidParse :: "string \<Rightarrow> bool"       \<comment> \<open>uuid.Parse succeeds\<close>
  addMonths :: "nat \<Rightarrow> time \<Rightarrow> time"   \<comment> \<open>t + make_interval(months => n)\<close>

text \<open>
  What the code relies on. An address renders in one canonical casing whatever the casing it
  was read from, and never as the empty string; adding one month or more, up to the four years
  of the longest term, moves a time forward. (Not that later times stay later: Postgres clamps
  the day to the month, so noon of 30 January and midnight of 31 January change places.)
\<close>

definition address_laws :: "library \<Rightarrow> bool" where
  "address_laws L \<longleftrightarrow>
     (\<forall>w. HexAddr L (HexAddr L w) = HexAddr L w) \<and>
     (\<forall>v w. lower v = lower w \<longrightarrow> HexAddr L v = HexAddr L w) \<and>
     (\<forall>w. HexAddr L w \<noteq> [])"

definition month_laws :: "library \<Rightarrow> bool" where
  "month_laws L \<longleftrightarrow> (\<forall>n t. 0 < n \<and> n \<le> 48 \<longrightarrow> t < addMonths L n t)"

lemma HexAddr_idem: "address_laws L \<Longrightarrow> HexAddr L (HexAddr L w) = HexAddr L w"
  unfolding address_laws_def by blast

lemma HexAddr_lower: "address_laws L \<Longrightarrow> lower v = lower w \<Longrightarrow> HexAddr L v = HexAddr L w"
  unfolding address_laws_def by blast

lemma HexAddr_nonempty: "address_laws L \<Longrightarrow> HexAddr L w \<noteq> []"
  unfolding address_laws_def by blast

lemma lower_HexAddr_eq_iff:
  "address_laws L \<Longrightarrow> lower (HexAddr L v) = lower (HexAddr L w) \<longleftrightarrow> HexAddr L v = HexAddr L w"
  by (metis HexAddr_idem HexAddr_lower)

text \<open>A concrete instance, used where a theorem is applied to concrete data.\<close>

definition demo_library :: library where
  "demo_library = \<lparr>
     HexAddr = (\<lambda>w. if w = [] then ''0x0'' else lower w),
     IsHexAddress = (\<lambda>w. take 2 w = ''0x''),
     uuidParse = (\<lambda>s. s \<noteq> []),
     addMonths = (\<lambda>n t. t + int n * 30 * 86400 * second)\<rparr>"

lemma demo_address_laws: "address_laws demo_library"
proof -
  have "lower ''0x0'' = ''0x0''" by code_simp
  then show ?thesis by (auto simp: address_laws_def demo_library_def)
qed

lemma demo_month_laws: "month_laws demo_library"
  by (auto simp: month_laws_def demo_library_def second_def)

subsection \<open>Errors\<close>

datatype svc_error =
    ErrTenantNotFound | ErrNameTaken | ErrNotAnOperator | ErrInvalidStatus | ErrInvalidTenantID
  | ErrInvalidSurface | ErrMemberNotFound | ErrEntitlementNotFound | ErrNotExplicitMode
  | ErrMembershipNotFound | ErrVehicleNotEntitled | ErrMembershipExists | ErrInvalidTerm
  | ErrInvalidStartsAt | ErrSameVehicle | ErrGroupNotFound | ErrGroupNameTaken
  | ErrInvalidGroupInput string | ErrInviteInvalid | ErrEmailNotSent
  | ErrNoCredential | ErrClientIDRegistered | ErrCredentialInvalid | ErrNoSignerAddress
  | ErrUpstream | ErrNoAAWallet
  | ErrNotEntitled | ErrVehicleUnknown | ErrGranteeInvalid string | ErrNoSignerKey | ErrNoClientID
  | ErrSignerNotAuthorized | ErrSignerExists | ErrAAWalletInvalid string | ErrAANotCredentialHolder
  | ErrChainUnavailable string | ErrShareDocumentRequired | ErrOwnerModeNotConfigured | ErrOpInvalid string
  | ErrQueueUnavailable | ErrJobNotFound
  | DeadlineExceeded \<comment> \<open>\<open>context.DeadlineExceeded\<close>\<close>
  | Canceled \<comment> \<open>\<open>context.Canceled\<close>\<close>
  | BadRequest string \<comment> \<open>an argument the operation refuses before it reads anything\<close>
  | DbError string \<comment> \<open>a wrapped driver error\<close>
  | FiberError nat \<comment> \<open>\<open>fiber.NewError\<close>: an answer already chosen\<close>
  | Remote string \<comment> \<open>an error a third-party service or client returned\<close>
  | Wrapped string svc_error \<comment> \<open>\<open>fmt.Errorf\<close> with \<open>%w\<close>\<close>

text \<open>\<open>errors.Is(e, target)\<close> for a sentinel \<open>target\<close>.\<close>

fun errors_is :: "svc_error \<Rightarrow> svc_error \<Rightarrow> bool" where
  "errors_is (Wrapped _ e) target = errors_is e target"
| "errors_is e target = (e = target)"

text \<open>What a constraint reports when a statement violates it.\<close>

datatype pg_error = UniqueViolation | ForeignKeyViolation

subsection \<open>Constants of internal/models\<close>

datatype tenant_kind = KindOperator | KindCustomer

definition StatusActive :: string where "StatusActive = ''active''"
definition StatusSuspended :: string where "StatusSuspended = ''suspended''"
definition EntitlementImplicit :: string where "EntitlementImplicit = ''implicit''"
definition EntitlementExplicit :: string where "EntitlementExplicit = ''explicit''"

definition CapManageMembers :: string where "CapManageMembers = ''manage_members''"
definition CapManageSettings :: string where "CapManageSettings = ''manage_settings''"
definition CapOnboardVehicle :: string where "CapOnboardVehicle = ''onboard_vehicles''"
definition CapReports :: string where "CapReports = ''reports''"
definition CapManageVehicles :: string where "CapManageVehicles = ''manage_vehicles''"

definition DelegationScopes :: "string list" where
  "DelegationScopes = [''manage_members'', ''manage_vehicles'', ''manage_settings'']"

lemma status_distinct [simp]: "StatusActive \<noteq> StatusSuspended" "StatusSuspended \<noteq> StatusActive"
  by (simp_all add: StatusActive_def StatusSuspended_def)

lemma mode_distinct [simp]:
  "EntitlementImplicit \<noteq> EntitlementExplicit" "EntitlementExplicit \<noteq> EntitlementImplicit"
  by (simp_all add: EntitlementImplicit_def EntitlementExplicit_def)

subsection \<open>Rows\<close>

type_synonym uuid = string
type_synonym token_id = int
type_synonym scope = "string list option" \<comment> \<open>NULL is unrestricted, the empty array is nothing\<close>

record tenant_row =
  t_id :: uuid
  t_name :: string
  t_kind :: tenant_kind
  t_parent :: "uuid option"
  t_status :: string
  t_managed :: bool
  t_mode :: string
  t_fleet_lite :: bool
  t_enforced :: bool
  t_external_ref :: "string option"
  t_created :: time

record credential_row =
  c_tenant :: uuid
  c_client_id :: "string option"
  c_api_key_enc :: "string option"
  c_signer_address :: "string option"
  c_signer_key_enc :: "string option"
  c_is_service :: bool
  c_aa_address :: "string option"
  c_aa_key_enc :: "string option"

record user_row =
  u_wallet :: string
  u_email :: "string option"

record membership_row =
  m_tenant :: uuid
  m_wallet :: string
  m_role :: string
  m_perms :: json
  m_scope :: scope
  m_granted_by_tenant :: "uuid option"
  m_granted_by_wallet :: "string option"
  m_last_login :: "time option"
  m_created :: time

record delegation_row =
  d_operator :: uuid
  d_customer :: uuid
  d_scopes :: "string list"
  d_created_by :: "string option"

record entitlement_row =
  e_tenant :: uuid
  e_token :: token_id
  e_source :: string
  e_source_group :: "string option"
  e_granted_by_tenant :: "uuid option"
  e_granted_by_wallet :: "string option"
  e_created :: time
  e_revoked :: "time option"

record group_row =
  g_id :: string
  g_tenant :: uuid
  g_name :: string
  g_color :: string
  g_created :: time
  g_updated :: time

record group_vehicle_row =
  gv_tenant :: uuid
  gv_token :: token_id
  gv_group :: string

record vm_row =
  vm_id :: uuid
  vm_tenant :: uuid
  vm_token :: token_id
  vm_term :: nat
  vm_starts :: time
  vm_expires :: time
  vm_canceled :: "time option"
  vm_created_by :: "string option"

record vm_move_row =
  mv_membership :: uuid
  mv_from :: token_id
  mv_to :: token_id
  mv_by :: "string option"
  mv_at :: time

record invitation_row =
  i_id :: uuid
  i_tenant :: uuid
  i_email :: string
  i_role :: string
  i_token_hash :: string
  i_status :: string
  i_invited_by :: string
  i_invitee :: "string option"
  i_created_by_tenant :: "uuid option"
  i_scope :: scope
  i_message_id :: "string option"
  i_email_status :: "string option"
  i_email_status_at :: "time option"
  i_email_detail :: "string option"
  i_created :: time
  i_expires :: time
  i_accepted :: "time option"

record vehicle_row =
  v_token :: token_id
  v_owner :: "string option"
  v_definition :: "string option"
  v_make :: "string option"
  v_model :: "string option"
  v_year :: "int option"
  v_minted :: "time option"
  v_vin :: "string option"
  v_plate :: "string option"
  v_synthetic :: "token_id option"
  v_aftermarket :: "token_id option"
  v_first_seen :: time
  v_reconciled :: time
  v_unseen_since :: "time option"

record owner_change_row =
  oc_token :: token_id
  oc_previous :: "string option"
  oc_new :: string
  oc_observed :: time

record shared_account_row =
  sa_wallet :: string
  sa_signer :: "string option"
  sa_checked :: time

record attestation_row =
  at_tenant :: uuid
  at_token :: token_id
  at_digest :: string

record db =
  tenants :: "tenant_row list"
  credentials :: "credential_row list"
  users :: "user_row list"
  memberships :: "membership_row list"
  delegations :: "delegation_row list"
  entitlements :: "entitlement_row list"
  fleet_groups :: "group_row list"
  group_vehicles :: "group_vehicle_row list"
  vehicle_memberships :: "vm_row list"
  membership_moves :: "vm_move_row list"
  invitations :: "invitation_row list"
  vehicles :: "vehicle_row list"
  owner_changes :: "owner_change_row list"
  shared_accounts :: "shared_account_row list"
  attestation_state :: "attestation_row list"

definition empty_db :: db where
  "empty_db = \<lparr>tenants = [], credentials = [], users = [], memberships = [], delegations = [],
     entitlements = [], fleet_groups = [], group_vehicles = [], vehicle_memberships = [],
     membership_moves = [], invitations = [], vehicles = [], owner_changes = [],
     shared_accounts = [], attestation_state = []\<rparr>"

definition tenant_by_id :: "uuid \<Rightarrow> db \<Rightarrow> tenant_row option" where
  "tenant_by_id tid s = find (\<lambda>t. t_id t = tid) (tenants s)"

lemma tenant_by_id_SomeD: "tenant_by_id tid s = Some t \<Longrightarrow> t \<in> set (tenants s) \<and> t_id t = tid"
  unfolding tenant_by_id_def by (drule find_SomeD) simp

lemma tenant_by_id_None: "tenant_by_id tid s = None \<longleftrightarrow> (\<forall>t\<in>set (tenants s). t_id t \<noteq> tid)"
  by (simp add: tenant_by_id_def find_None)

subsection \<open>A small concrete database\<close>

text \<open>
  An operator, a managed customer beneath it and a suspended one, the operator's licence, one
  operator member, one customer member and the delegations. The theorems are applied to it.
\<close>

definition mk_tenant :: "uuid \<Rightarrow> string \<Rightarrow> tenant_kind \<Rightarrow> uuid option \<Rightarrow> string \<Rightarrow> string \<Rightarrow> tenant_row" where
  "mk_tenant i n k p st mo = \<lparr>t_id = i, t_name = n, t_kind = k, t_parent = p, t_status = st,
     t_managed = (p \<noteq> None), t_mode = mo, t_fleet_lite = True, t_enforced = False,
     t_external_ref = None, t_created = 0\<rparr>"

definition mk_member :: "uuid \<Rightarrow> string \<Rightarrow> string \<Rightarrow> string list \<Rightarrow> scope \<Rightarrow> membership_row" where
  "mk_member t w r ps sc = \<lparr>m_tenant = t, m_wallet = w, m_role = r, m_perms = marshal_strings ps,
     m_scope = sc, m_granted_by_tenant = None, m_granted_by_wallet = None, m_last_login = None,
     m_created = 0\<rparr>"

definition demo_db :: db where
  "demo_db = empty_db\<lparr>
     tenants := [mk_tenant ''op'' ''Acme'' KindOperator None StatusActive EntitlementImplicit,
                 mk_tenant ''cu'' ''Beta'' KindCustomer (Some ''op'') StatusActive EntitlementExplicit,
                 mk_tenant ''su'' ''Gone'' KindCustomer (Some ''op'') StatusSuspended EntitlementExplicit],
     credentials := [\<lparr>c_tenant = ''op'', c_client_id = Some ''0xLIC'', c_api_key_enc = Some ''k'',
                      c_signer_address = Some ''0xsig'', c_signer_key_enc = None, c_is_service = False,
                      c_aa_address = None, c_aa_key_enc = None\<rparr>],
     users := [\<lparr>u_wallet = ''0xaa'', u_email = None\<rparr>, \<lparr>u_wallet = ''0xbb'', u_email = Some ''b@x''\<rparr>],
     memberships := [mk_member ''op'' ''0xaa'' ''admin'' [CapManageMembers] None,
                     mk_member ''cu'' ''0xbb'' ''member'' [CapReports] (Some [''cu_vans'']),
                     mk_member ''su'' ''0xbb'' ''member'' [CapReports] None],
     delegations := [\<lparr>d_operator = ''op'', d_customer = ''cu'', d_scopes = DelegationScopes, d_created_by = None\<rparr>,
                     \<lparr>d_operator = ''op'', d_customer = ''su'', d_scopes = DelegationScopes, d_created_by = None\<rparr>],
     entitlements := [\<lparr>e_tenant = ''cu'', e_token = 7, e_source = ''operator'', e_source_group = None,
                       e_granted_by_tenant = Some ''op'', e_granted_by_wallet = None, e_created = 0,
                       e_revoked = None\<rparr>],
     fleet_groups := [\<lparr>g_id = ''cu_vans'', g_tenant = ''cu'', g_name = ''Vans'', g_color = ''#00ff00'',
                       g_created = 0, g_updated = 0\<rparr>]\<rparr>"

lemmas demo_defs = demo_db_def empty_db_def mk_tenant_def mk_member_def demo_library_def

end
