(* ===== verification/Access.thy ===== *)
theory Access
  imports Schema "HOL-Library.Char_ord" "HOL-Library.List_Lexorder" "HOL-Library.Product_Lexorder"
begin

text \<open>
  The hot path and the rules around it: what a wallet may do in a tenant
  (\<open>service/authz.go\<close>), whose licence reaches which tenant (\<open>service/scope.go\<close>,
  \<open>service/credentials.go\<close>), which tenant a licence belongs to
  (\<open>service/tenant_resolve.go\<close>) and which tenants a wallet belongs to
  (\<open>service/wallet_tenants.go\<close>). Reads only; every operation takes the database and a fault
  plan and returns a result or an error.
\<close>

subsection \<open>Authorization\<close>

datatype access_via = ViaDirect | ViaDelegation | ViaNone

record authz_result =
  ar_tenant :: uuid
  ar_wallet :: string
  ar_member :: bool
  ar_role :: string
  ar_via :: access_via
  ar_perms :: "string list"
  ar_scope :: scope
  ar_operator :: uuid
  ar_status :: string
  ar_ttl :: nat

definition DefaultAuthzCacheTTLSeconds :: nat where
  "DefaultAuthzCacheTTLSeconds = 60"

definition HasCapability :: "authz_result \<Rightarrow> string \<Rightarrow> bool" where
  "HasCapability a c = list_ex (\<lambda>p. p = c) (ar_perms a)"

definition Unrestricted :: "authz_result \<Rightarrow> bool" where
  "Unrestricted a \<longleftrightarrow> ar_scope a = None"

definition parsePermissions :: "json \<Rightarrow> string list" where
  "parsePermissions raw =
     (case unmarshal_strings raw of
        Some (Some out) \<Rightarrow> out
      | Some None \<Rightarrow> []
      | None \<Rightarrow> [])"

definition membership_of :: "db \<Rightarrow> uuid \<Rightarrow> string \<Rightarrow> membership_row option" where
  "membership_of s tid w = find (\<lambda>m. m_tenant m = tid \<and> lower (m_wallet m) = lower w) (memberships s)"

definition delegation_for :: "db \<Rightarrow> uuid \<Rightarrow> string \<Rightarrow> delegation_row option" where
  "delegation_for s tid w =
     find (\<lambda>d. d_customer d = tid \<and>
               list_ex (\<lambda>m. m_tenant m = d_operator d \<and> lower (m_wallet m) = lower w) (memberships s))
          (delegations s)"

definition Authorize :: "library \<Rightarrow> faults \<Rightarrow> db \<Rightarrow> uuid \<Rightarrow> string \<Rightarrow> svc_error + authz_result" where
  "Authorize L flt s tenantID wallet =
     (if tenantID = [] \<or> wallet = [] then Inl (BadRequest ''tenantID and wallet are required'')
      else let checksummed = HexAddr L wallet;
               result = \<lparr>ar_tenant = tenantID, ar_wallet = checksummed, ar_member = False, ar_role = [],
                         ar_via = ViaNone, ar_perms = [], ar_scope = None, ar_operator = [],
                         ar_status = [], ar_ttl = DefaultAuthzCacheTTLSeconds\<rparr>
        in if flt 0 then Inl (DbError ''load tenant'')
        else case tenant_by_id tenantID s of
          None \<Rightarrow> Inr result
        | Some t \<Rightarrow>
          let result = result\<lparr>ar_status := t_status t\<rparr> in
          if t_status t \<noteq> StatusActive then Inr result
          else if flt 1 then Inl (DbError ''load membership'')
          else case membership_of s tenantID checksummed of
            Some m \<Rightarrow> Inr (result\<lparr>ar_member := True, ar_role := m_role m, ar_via := ViaDirect,
                                  ar_perms := parsePermissions (m_perms m), ar_scope := m_scope m\<rparr>)
          | None \<Rightarrow>
            if flt 2 then Inl (DbError ''load delegation'')
            else case delegation_for s tenantID checksummed of
              None \<Rightarrow> Inr result
            | Some d \<Rightarrow> Inr (result\<lparr>ar_member := False, ar_via := ViaDelegation,
                                    ar_operator := d_operator d, ar_perms := d_scopes d\<rparr>))"

subsection \<open>Whose licence reaches which tenant\<close>

record caller_tenant =
  ct_tenant :: uuid
  ct_name :: string
  ct_kind :: tenant_kind
  ct_status :: string
  ct_client :: string
  ct_is_service :: bool

definition mk_caller :: "uuid \<Rightarrow> bool \<Rightarrow> caller_tenant" where
  "mk_caller tid svc = \<lparr>ct_tenant = tid, ct_name = [], ct_kind = KindOperator, ct_status = StatusActive,
     ct_client = [], ct_is_service = svc\<rparr>"

lemma mk_caller_simps [simp]: "ct_tenant (mk_caller tid svc) = tid" "ct_is_service (mk_caller tid svc) = svc"
  by (simp_all add: mk_caller_def)

definition holds_licence :: "db \<Rightarrow> uuid \<Rightarrow> bool" where
  "holds_licence s tid = list_ex (\<lambda>c. c_tenant c = tid \<and> c_client_id c \<noteq> None) (credentials s)"

text \<open>
  The first \<open>EXISTS\<close>: a left join, so a tenant with no credential row passes the
  \<open>IS NULL\<close> test, and a tenant with one passes it when that row has no client id.
\<close>

definition reaches_child :: "db \<Rightarrow> uuid \<Rightarrow> uuid \<Rightarrow> bool" where
  "reaches_child s caller subject =
     list_ex (\<lambda>t. t_id t = subject \<and> t_parent t = Some caller \<and>
                  (let cs = filter (\<lambda>c. c_tenant c = t_id t) (credentials s) in
                   cs = [] \<or> list_ex (\<lambda>c. c_client_id c = None) cs))
             (tenants s)"

definition has_delegation :: "db \<Rightarrow> uuid \<Rightarrow> uuid \<Rightarrow> bool" where
  "has_delegation s operator customer =
     list_ex (\<lambda>d. d_operator d = operator \<and> d_customer d = customer) (delegations s)"

definition CallerMayAccess :: "library \<Rightarrow> faults \<Rightarrow> db \<Rightarrow> caller_tenant option \<Rightarrow> uuid \<Rightarrow> svc_error + bool" where
  "CallerMayAccess L flt s caller subject =
     (case caller of
        None \<Rightarrow> Inr False
      | Some c \<Rightarrow>
        if ct_is_service c then Inr True
        else if \<not> uuidParse L subject then Inl ErrInvalidTenantID
        else if ct_tenant c = subject then Inr True
        else if flt 0 then Inl (DbError ''caller scope check'')
        else Inr (reaches_child s (ct_tenant c) subject \<or> has_delegation s (ct_tenant c) subject))"

subsection \<open>Effective credentials\<close>

record effective_credential =
  ec_tenant :: uuid
  ec_client_id :: string
  ec_signer :: string
  ec_aa_wallet :: string

text \<open>
  \<open>ORDER BY (c.tenant_id = t.id) DESC LIMIT 1\<close>: the tenant's own row first, then its parent's.
  The encrypted keys of the chosen row ride along.
\<close>

definition null_str :: "string option \<Rightarrow> string" where
  "null_str x = (case x of None \<Rightarrow> [] | Some v \<Rightarrow> v)"

definition effective_row :: "db \<Rightarrow> tenant_row \<Rightarrow> credential_row option" where
  "effective_row s t =
     (case find (\<lambda>c. c_tenant c = t_id t \<and> c_client_id c \<noteq> None) (credentials s) of
        Some c \<Rightarrow> Some c
      | None \<Rightarrow> find (\<lambda>c. Some (c_tenant c) = t_parent t \<and> c_client_id c \<noteq> None) (credentials s))"

definition effectiveWithKey ::
  "faults \<Rightarrow> db \<Rightarrow> uuid \<Rightarrow> svc_error + effective_credential \<times> string \<times> string" where
  "effectiveWithKey flt s tenantID =
     (if flt 0 then Inl (DbError ''resolve effective credential'')
      else case Option.bind (tenant_by_id tenantID s) (effective_row s) of
        None \<Rightarrow>
          if flt 1 then Inl (DbError ''load tenant'')
          else if tenant_by_id tenantID s = None then Inl ErrTenantNotFound
          else Inl ErrNoCredential
      | Some c \<Rightarrow>
          Inr (\<lparr>ec_tenant = c_tenant c, ec_client_id = null_str (c_client_id c),
                ec_signer = null_str (c_signer_address c), ec_aa_wallet = null_str (c_aa_address c)\<rparr>,
               null_str (c_api_key_enc c), null_str (c_aa_key_enc c)))"

definition Effective :: "faults \<Rightarrow> db \<Rightarrow> uuid \<Rightarrow> svc_error + effective_credential" where
  "Effective flt s tenantID = map_sum id fst (effectiveWithKey flt s tenantID)"

subsection \<open>Which tenant a licence belongs to\<close>

record tenant_ref =
  tr_tenant :: uuid
  tr_name :: string
  tr_kind :: tenant_kind
  tr_status :: string
  tr_parent :: "uuid option"
  tr_mode :: string
  tr_fleet_lite :: bool

definition tenant_ref_of :: "tenant_row \<Rightarrow> tenant_ref" where
  "tenant_ref_of t = \<lparr>tr_tenant = t_id t, tr_name = t_name t, tr_kind = t_kind t, tr_status = t_status t,
     tr_parent = t_parent t, tr_mode = t_mode t, tr_fleet_lite = t_fleet_lite t\<rparr>"

definition ResolveByClientID :: "faults \<Rightarrow> db \<Rightarrow> string \<Rightarrow> svc_error + tenant_ref" where
  "ResolveByClientID flt s clientID =
     (if clientID = [] then Inl (BadRequest ''clientID is required'')
      else if flt 0 then Inl (DbError ''resolve client id'')
      else case List.map_filter (\<lambda>c. if map_option lower (c_client_id c) = Some (lower clientID)
                                     then tenant_by_id (c_tenant c) s else None) (credentials s) of
        [] \<Rightarrow> Inl ErrTenantNotFound
      | t # _ \<Rightarrow> Inr (tenant_ref_of t))"

subsection \<open>Which tenants a wallet belongs to\<close>

definition SurfaceFleetLite :: string where "SurfaceFleetLite = ''fleet_lite''"
definition SurfaceB2B :: string where "SurfaceB2B = ''b2b''"

record wallet_tenant =
  wt_tenant :: uuid
  wt_name :: string
  wt_kind :: tenant_kind
  wt_mode :: string
  wt_role :: string
  wt_perms :: "string list"
  wt_scope :: scope

definition surface_filter :: "string \<Rightarrow> (tenant_row \<Rightarrow> bool) option" where
  "surface_filter surface =
     (if surface = SurfaceFleetLite then Some (\<lambda>t. t_status t = StatusActive \<and> t_fleet_lite t)
      else if surface = SurfaceB2B then Some (\<lambda>t. t_kind t = KindOperator)
      else if surface = [] then Some (\<lambda>_. True)
      else None)"

definition caller_filter :: "db \<Rightarrow> caller_tenant \<Rightarrow> tenant_row \<Rightarrow> bool" where
  "caller_filter s c t \<longleftrightarrow>
     ct_is_service c \<or> t_id t = ct_tenant c \<or>
     (t_parent t = Some (ct_tenant c) \<and> \<not> holds_licence s (t_id t)) \<or>
     has_delegation s (ct_tenant c) (t_id t)"

definition wallet_tenant_of :: "membership_row \<Rightarrow> tenant_row \<Rightarrow> wallet_tenant" where
  "wallet_tenant_of m t = \<lparr>wt_tenant = t_id t, wt_name = t_name t, wt_kind = t_kind t, wt_mode = t_mode t,
     wt_role = m_role m, wt_perms = parsePermissions (m_perms m), wt_scope = m_scope m\<rparr>"

definition ListTenantsForWallet ::
  "faults \<Rightarrow> db \<Rightarrow> caller_tenant option \<Rightarrow> string \<Rightarrow> string \<Rightarrow> svc_error + wallet_tenant list" where
  "ListTenantsForWallet flt s caller wallet surface =
     (case caller of
        None \<Rightarrow> Inl (BadRequest ''caller is required'')
      | Some c \<Rightarrow>
        if wallet = [] then Inl (BadRequest ''wallet is required'')
        else case surface_filter surface of
          None \<Rightarrow> Inl ErrInvalidSurface
        | Some keep \<Rightarrow>
          if flt 0 then Inl (DbError ''list tenants for wallet'')
          else Inr (sort_key (\<lambda>w. (lower (wt_name w), wt_tenant w))
                 [wallet_tenant_of m t. m \<leftarrow> memberships s, t \<leftarrow> tenants s,
                    t_id t = m_tenant m \<and> lower (m_wallet m) = lower wallet \<and>
                    keep t \<and> caller_filter s c t]))"

subsection \<open>What access means, independently of how it is looked up\<close>

inductive grants :: "db \<Rightarrow> uuid \<Rightarrow> string \<Rightarrow> access_via \<Rightarrow> string list \<Rightarrow> scope \<Rightarrow> bool" where
  direct: "t \<in> set (tenants s) \<Longrightarrow> t_id t = tid \<Longrightarrow> t_status t = StatusActive \<Longrightarrow>
     m \<in> set (memberships s) \<Longrightarrow> m_tenant m = tid \<Longrightarrow> lower (m_wallet m) = lower w \<Longrightarrow>
     grants s tid w ViaDirect (parsePermissions (m_perms m)) (m_scope m)"
| delegated: "t \<in> set (tenants s) \<Longrightarrow> t_id t = tid \<Longrightarrow> t_status t = StatusActive \<Longrightarrow>
     \<forall>m\<in>set (memberships s). m_tenant m = tid \<longrightarrow> lower (m_wallet m) \<noteq> lower w \<Longrightarrow>
     d \<in> set (delegations s) \<Longrightarrow> d_customer d = tid \<Longrightarrow>
     m' \<in> set (memberships s) \<Longrightarrow> m_tenant m' = d_operator d \<Longrightarrow> lower (m_wallet m') = lower w \<Longrightarrow>
     grants s tid w ViaDelegation (d_scopes d) None"

inductive_cases grants_directE: "grants s tid w ViaDirect ps sc"
inductive_cases grants_delegationE: "grants s tid w ViaDelegation ps sc"
inductive_cases grants_noneE: "grants s tid w ViaNone ps sc"

text \<open>The constraints of the tables this component reads: primary keys and the licence index.\<close>

definition access_keys :: "db \<Rightarrow> bool" where
  "access_keys s \<longleftrightarrow>
     unique_on (\<lambda>_. True) t_id (tenants s) \<and>
     unique_on (\<lambda>_. True) (\<lambda>m. (m_tenant m, lower (m_wallet m))) (memberships s) \<and>
     unique_on (\<lambda>_. True) c_tenant (credentials s) \<and>
     unique_on (\<lambda>c. c_client_id c \<noteq> None) (\<lambda>c. map_option lower (c_client_id c)) (credentials s)"

subsection \<open>Lookups\<close>

lemma membership_of_SomeD:
  "membership_of s tid w = Some m \<Longrightarrow>
     m \<in> set (memberships s) \<and> m_tenant m = tid \<and> lower (m_wallet m) = lower w"
  unfolding membership_of_def by (drule find_SomeD) simp

lemma membership_of_None:
  "membership_of s tid w = None \<longleftrightarrow>
     (\<forall>m\<in>set (memberships s). m_tenant m = tid \<longrightarrow> lower (m_wallet m) \<noteq> lower w)"
  by (auto simp: membership_of_def find_None)

lemma membership_of_lower: "lower v = lower w \<Longrightarrow> membership_of s tid v = membership_of s tid w"
  by (simp add: membership_of_def)

lemma delegation_for_lower: "lower v = lower w \<Longrightarrow> delegation_for s tid v = delegation_for s tid w"
  by (simp add: delegation_for_def)

lemma delegation_for_SomeD:
  "delegation_for s tid w = Some d \<Longrightarrow>
     d \<in> set (delegations s) \<and> d_customer d = tid \<and>
     (\<exists>m\<in>set (memberships s). m_tenant m = d_operator d \<and> lower (m_wallet m) = lower w)"
  unfolding delegation_for_def by (drule find_SomeD) (auto simp: list_ex_iff)

lemma delegation_for_None:
  "delegation_for s tid w = None \<longleftrightarrow>
     (\<forall>d\<in>set (delegations s). d_customer d = tid \<longrightarrow>
        (\<forall>m\<in>set (memberships s). m_tenant m = d_operator d \<longrightarrow> lower (m_wallet m) \<noteq> lower w))"
  by (auto simp: delegation_for_def find_None list_ex_iff)

lemma tenant_by_id_unique:
  assumes "unique_on (\<lambda>_. True) t_id (tenants s)" and "t \<in> set (tenants s)"
  shows "tenant_by_id (t_id t) s = Some t"
proof -
  obtain t' where t': "tenant_by_id (t_id t) s = Some t'"
    using assms(2) by (metis not_Some_eq tenant_by_id_None)
  with assms unique_on_inj [OF assms(1)] show ?thesis by (metis tenant_by_id_SomeD)
qed

lemma parsePermissions_marshal [simp]: "parsePermissions (marshal_strings ps) = ps"
  by (simp add: parsePermissions_def)

lemma HasCapability_iff: "HasCapability a c \<longleftrightarrow> c \<in> set (ar_perms a)"
  by (auto simp: HasCapability_def list_ex_iff)

text \<open>The two ways \<open>scope.go\<close> and \<open>wallet_tenants.go\<close> say "holds no licence of its own" agree.\<close>

lemma reaches_child_if:
  assumes "t \<in> set (tenants s)" and "t_parent t = Some c" and "\<not> holds_licence s (t_id t)"
  shows "reaches_child s c (t_id t)"
proof -
  let ?cs = "filter (\<lambda>k. c_tenant k = t_id t) (credentials s)"
  have "?cs = [] \<or> list_ex (\<lambda>k. c_client_id k = None) ?cs"
    using assms(3) by (cases ?cs) (auto simp: holds_licence_def list_ex_iff filter_eq_Cons_iff)
  with assms(1,2) show ?thesis by (auto simp: reaches_child_def list_ex_iff Let_def)
qed

lemma reaches_child_no_licence:
  assumes "unique_on (\<lambda>_. True) c_tenant (credentials s)" and "reaches_child s c tid"
  shows "\<not> holds_licence s tid"
proof
  assume "holds_licence s tid"
  then obtain k where k: "k \<in> set (credentials s)" "c_tenant k = tid" "c_client_id k \<noteq> None"
    by (auto simp: holds_licence_def list_ex_iff)
  with assms(2) obtain k' where "k' \<in> set (credentials s)" "c_tenant k' = tid" "c_client_id k' = None"
    by (auto simp: reaches_child_def list_ex_iff Let_def filter_empty_conv)
  with k unique_on_inj [OF assms(1)] show False by metis
qed

subsection \<open>Properties\<close>

lemma grants_report:
  assumes "Authorize L flt s tid w = Inr r" and "ar_via r \<noteq> ViaNone"
  shows "grants s tid (HexAddr L w) (ar_via r) (ar_perms r) (ar_scope r) \<and>
    (ar_member r \<longleftrightarrow> ar_via r = ViaDirect)"
proof -
  from assms obtain t where t: "tenant_by_id tid s = Some t" "t_status t = StatusActive"
    by (auto simp: Authorize_def Let_def split: if_splits option.splits)
  show ?thesis
  proof (cases "membership_of s tid (HexAddr L w)")
    case (Some m)
    with assms t have "r = r\<lparr>ar_member := True, ar_via := ViaDirect,
        ar_perms := parsePermissions (m_perms m), ar_scope := m_scope m\<rparr>"
      by (auto simp: Authorize_def Let_def split: if_splits)
    then have "ar_member r \<and> ar_via r = ViaDirect \<and> ar_perms r = parsePermissions (m_perms m) \<and>
        ar_scope r = m_scope m"
      by (metis authz_result.select_convs(3,5,6,7) authz_result.surjective
          authz_result.update_convs(3,5,6,7))
    with t Some show ?thesis
      by (auto dest!: membership_of_SomeD tenant_by_id_SomeD intro!: grants.direct)
  next
    case None
    with assms t obtain d where d: "delegation_for s tid (HexAddr L w) = Some d"
      and r: "ar_via r = ViaDelegation" "ar_perms r = d_scopes d" "ar_scope r = None" "\<not> ar_member r"
      by (auto simp: Authorize_def Let_def split: if_splits option.splits)
    from delegation_for_SomeD [OF d] obtain m where
      "d \<in> set (delegations s)" "d_customer d = tid" "m \<in> set (memberships s)"
      "m_tenant m = d_operator d" "lower (m_wallet m) = lower (HexAddr L w)" by blast
    moreover note tenant_by_id_SomeD [OF t(1)] None [unfolded membership_of_None] t(2) r
    ultimately show ?thesis by (auto intro: grants.delegated)
  qed
qed

text \<open>
  C2. Every access \<open>Authorize\<close> reports is one the rows grant: a direct answer comes from a
  membership of an active tenant and carries exactly that membership's permissions and scope; a
  delegated answer comes from a delegation held by an operator the wallet belongs to, on an
  active tenant the wallet is no member of, and is unrestricted but never membership.
\<close>

theorem Authorize_sound:
  assumes "Authorize L flt s tid w = Inr r" and "ar_via r \<noteq> ViaNone"
  shows "grants s tid (HexAddr L w) (ar_via r) (ar_perms r) (ar_scope r) \<and>
    (ar_member r \<longleftrightarrow> ar_via r = ViaDirect)"
  using assms by (rule grants_report)

lemma Authorize_sound_witness:
  "\<exists>r. Authorize demo_library no_faults demo_db ''cu'' ''0xAA'' = Inr r \<and> ar_via r = ViaDelegation \<and>
     grants demo_db ''cu'' (HexAddr demo_library ''0xAA'') (ar_via r) (ar_perms r) (ar_scope r)"
proof -
  obtain r where r: "Authorize demo_library no_faults demo_db ''cu'' ''0xAA'' = Inr r" "ar_via r = ViaDelegation"
    by (simp add: Authorize_def membership_of_def delegation_for_def tenant_by_id_def demo_defs
        text_eval StatusActive_def)
  from r(2) have "ar_via r \<noteq> ViaNone" by simp
  from Authorize_sound [OF r(1) this] r show ?thesis by blast
qed

lemma Authorize_member:
  assumes "tenant_by_id tid s = Some t" and "t_status t = StatusActive"
    and "membership_of s tid (HexAddr L w) = Some m" and "tid \<noteq> []" and "w \<noteq> []"
  shows "\<exists>r. Authorize L no_faults s tid w = Inr r \<and> ar_via r = ViaDirect \<and> ar_member r \<and>
    ar_perms r = parsePermissions (m_perms m) \<and> ar_scope r = m_scope m"
  using assms by (simp add: Authorize_def Let_def)

lemma Authorize_operator:
  assumes "tenant_by_id tid s = Some t" and "t_status t = StatusActive"
    and "membership_of s tid (HexAddr L w) = None"
    and "delegation_for s tid (HexAddr L w) = Some d" and "tid \<noteq> []" and "w \<noteq> []"
  shows "\<exists>r. Authorize L no_faults s tid w = Inr r \<and> ar_via r = ViaDelegation \<and> \<not> ar_member r \<and>
    ar_operator r = d_operator d \<and> ar_perms r = d_scopes d \<and> ar_scope r = None"
  using assms by (simp add: Authorize_def Let_def)

lemma granted_tenant:
  assumes "access_keys s" and "grants s tid w via ps sc"
  shows "\<exists>t. tenant_by_id tid s = Some t \<and> t_status t = StatusActive"
  using assms(2)
  by (cases rule: grants.cases)
    (use assms(1) tenant_by_id_unique in \<open>auto simp: access_keys_def\<close>)

lemma granted_direct_member:
  assumes "access_keys s" and "grants s tid w ViaDirect ps sc"
  shows "\<exists>m. membership_of s tid w = Some m \<and> ps = parsePermissions (m_perms m) \<and> sc = m_scope m"
  using assms(2)
proof (cases rule: grants.cases)
  case (direct t m)
  obtain m' where m': "membership_of s tid w = Some m'"
    using direct by (metis membership_of_None not_Some_eq)
  moreover have "m' = m"
    using membership_of_SomeD [OF m'] direct assms(1)
    by (auto simp: access_keys_def dest!: unique_on_inj [where r = m' and r' = m])
  ultimately show ?thesis using direct by blast
qed

lemma granted_operator:
  assumes "grants s tid w ViaDelegation ps sc"
  shows "membership_of s tid w = None \<and> (\<exists>d. delegation_for s tid w = Some d)"
  using assms
proof (cases rule: grants.cases)
  case (delegated t d m')
  then have "membership_of s tid w = None" by (auto simp: membership_of_None)
  moreover have "delegation_for s tid w \<noteq> None" using delegated by (auto simp: delegation_for_None)
  ultimately show ?thesis by blast
qed

text \<open>
  C8. With a working database, whatever access the rows grant is reported, in full. A wallet the
  rows grant direct access is answered as a member, with exactly the permissions and the scope of
  its membership. A wallet granted access by delegation only is answered as a delegate, never as
  a member and without a scope, naming the operator and exactly the scopes of one of the
  delegations that grant it: one the customer gave to that operator, of which the wallet is a
  member. (With several such delegations the code reports one, the first the query returns.)
\<close>

theorem Authorize_complete:
  assumes "access_keys s" and "tid \<noteq> []" and "w \<noteq> []"
    and "grants s tid (HexAddr L w) via ps sc"
  shows "\<exists>r. Authorize L no_faults s tid w = Inr r \<and> ar_via r = via \<and>
    (via = ViaDirect \<longrightarrow> ar_member r \<and> ar_perms r = ps \<and> ar_scope r = sc) \<and>
    (via = ViaDelegation \<longrightarrow> \<not> ar_member r \<and> ar_scope r = None \<and>
      grants s tid (HexAddr L w) ViaDelegation (ar_perms r) None \<and>
      (\<exists>d\<in>set (delegations s). d_customer d = tid \<and> d_operator d = ar_operator r \<and>
         d_scopes d = ar_perms r \<and>
         (\<exists>m\<in>set (memberships s). m_tenant m = d_operator d \<and>
            lower (m_wallet m) = lower (HexAddr L w))))"
proof -
  obtain t where t: "tenant_by_id tid s = Some t" "t_status t = StatusActive"
    using granted_tenant [OF assms(1,4)] by blast
  consider (direct) "via = ViaDirect" | (delegated) "via = ViaDelegation"
    using assms(4) by (cases rule: grants.cases) auto
  then show ?thesis
  proof cases
    case direct
    with granted_direct_member assms(1,4) obtain m
      where "membership_of s tid (HexAddr L w) = Some m" "ps = parsePermissions (m_perms m)"
        "sc = m_scope m" by blast
    with Authorize_member [OF t _ assms(2,3)] direct show ?thesis by fastforce
  next
    case delegated
    with granted_operator assms(4) obtain d
      where n: "membership_of s tid (HexAddr L w) = None"
        and d: "delegation_for s tid (HexAddr L w) = Some d" by blast
    from delegation_for_SomeD [OF d] have row: "d \<in> set (delegations s)" "d_customer d = tid"
      "\<exists>m\<in>set (memberships s). m_tenant m = d_operator d \<and> lower (m_wallet m) = lower (HexAddr L w)"
      by auto
    have "grants s tid (HexAddr L w) ViaDelegation (d_scopes d) None"
      using row n [unfolded membership_of_None] tenant_by_id_SomeD [OF t(1)] t(2)
      by (auto intro: grants.delegated)
    with row Authorize_operator [OF t n d assms(2,3)] delegated show ?thesis by fastforce
  qed
qed

lemma demo_access_keys: "access_keys demo_db"
  by (simp add: access_keys_def demo_defs text_eval)

lemma demo_direct_grant:
  "grants demo_db ''cu'' (HexAddr demo_library ''0xBB'') ViaDirect [CapReports] (Some [''cu_vans''])"
  using grants.direct [where s = demo_db and tid = "''cu''" and w = "HexAddr demo_library ''0xBB''"
      and t = "mk_tenant ''cu'' ''Beta'' KindCustomer (Some ''op'') StatusActive EntitlementExplicit"
      and m = "mk_member ''cu'' ''0xbb'' ''member'' [CapReports] (Some [''cu_vans''])"]
  by (simp add: demo_defs text_eval)

lemma demo_delegated_grant:
  "\<exists>ps. grants demo_db ''cu'' (HexAddr demo_library ''0xAA'') ViaDelegation ps None"
proof -
  obtain r where r: "Authorize demo_library no_faults demo_db ''cu'' ''0xAA'' = Inr r" "ar_via r = ViaDelegation" "ar_scope r = None"
    by (simp add: Authorize_def membership_of_def delegation_for_def tenant_by_id_def demo_defs
        text_eval StatusActive_def)
  then show ?thesis using grants_report [OF r(1)] by auto
qed

lemma Authorize_complete_witness:
  "(\<exists>r. Authorize demo_library no_faults demo_db ''cu'' ''0xBB'' = Inr r \<and> ar_via r = ViaDirect \<and>
     ar_member r \<and> ar_perms r = [CapReports] \<and> ar_scope r = Some [''cu_vans'']) \<and>
   (\<exists>r. Authorize demo_library no_faults demo_db ''cu'' ''0xAA'' = Inr r \<and> ar_via r = ViaDelegation \<and>
     \<not> ar_member r \<and> (\<exists>d\<in>set (delegations demo_db). d_operator d = ar_operator r \<and> d_scopes d = ar_perms r))"
proof
  show "\<exists>r. Authorize demo_library no_faults demo_db ''cu'' ''0xBB'' = Inr r \<and> ar_via r = ViaDirect \<and>
     ar_member r \<and> ar_perms r = [CapReports] \<and> ar_scope r = Some [''cu_vans'']"
    using Authorize_complete [OF demo_access_keys _ _ demo_direct_grant] by simp
  obtain ps where g: "grants demo_db ''cu'' (HexAddr demo_library ''0xAA'') ViaDelegation ps None"
    using demo_delegated_grant by blast
  show "\<exists>r. Authorize demo_library no_faults demo_db ''cu'' ''0xAA'' = Inr r \<and> ar_via r = ViaDelegation \<and>
     \<not> ar_member r \<and> (\<exists>d\<in>set (delegations demo_db). d_operator d = ar_operator r \<and> d_scopes d = ar_perms r)"
    using Authorize_complete [OF demo_access_keys _ _ g] by fastforce
qed

text \<open>
  A tenant that is not active grants nobody anything: whatever memberships and delegations
  exist, the answer has no capability, no membership and access \<open>none\<close>, and names the status.
\<close>

theorem Authorize_suspended:
  assumes "tenant_by_id tid s = Some t" and "t_status t \<noteq> StatusActive"
    and "Authorize L flt s tid w = Inr r"
  shows "ar_via r = ViaNone \<and> \<not> ar_member r \<and> ar_perms r = [] \<and> ar_status r = t_status t \<and>
    (\<forall>c. \<not> HasCapability r c)"
  using assms by (auto simp: Authorize_def Let_def HasCapability_def split: if_splits)

lemma Authorize_suspended_witness:
  "\<exists>r. Authorize demo_library no_faults demo_db ''su'' ''0xbb'' = Inr r \<and> ar_via r = ViaNone \<and> ar_perms r = []"
proof -
  obtain t where t: "tenant_by_id ''su'' demo_db = Some t" "t_status t \<noteq> StatusActive"
    by (simp add: tenant_by_id_def demo_defs)
  obtain r where r: "Authorize demo_library no_faults demo_db ''su'' ''0xbb'' = Inr r"
    by (simp add: Authorize_def tenant_by_id_def demo_defs Let_def)
  from Authorize_suspended [OF t r] r show ?thesis by blast
qed

text \<open>
  The answer does not depend on how the caller cases the wallet: two spellings that differ
  only in case get the same answer, fault plan by fault plan.
\<close>

theorem Authorize_casing:
  assumes "address_laws L" and "lower v = lower w"
  shows "Authorize L flt s tid v = Authorize L flt s tid w"
proof -
  have "HexAddr L v = HexAddr L w" using assms by (rule HexAddr_lower)
  moreover have "v = [] \<longleftrightarrow> w = []" using assms(2) by (metis lower_eq_Nil)
  ultimately show ?thesis by (simp add: Authorize_def)
qed

lemma Authorize_casing_witness:
  "Authorize demo_library no_faults demo_db ''cu'' ''0xBB'' = Authorize demo_library no_faults demo_db ''cu'' ''0xbb''"
  by (rule Authorize_casing [OF demo_address_laws]) (simp add: text_eval)

text \<open>
  C9. The wallet listing never discloses a tenant whose detail read would be refused: every
  listed tenant is one the caller may ask about, and the wallet is a direct member of it.
\<close>

theorem ListTenantsForWallet_disclosure:
  assumes "ListTenantsForWallet flt s (Some c) wallet surface = Inr ts" and "x \<in> set ts"
    and "uuidParse L (wt_tenant x)"
  shows "CallerMayAccess L no_faults s (Some c) (wt_tenant x) = Inr True \<and>
    (\<exists>m\<in>set (memberships s). m_tenant m = wt_tenant x \<and> lower (m_wallet m) = lower wallet)"
proof -
  from assms(1,2) obtain m t where m: "m \<in> set (memberships s)" "t \<in> set (tenants s)"
      "t_id t = m_tenant m" "lower (m_wallet m) = lower wallet" "caller_filter s c t"
      "x = wallet_tenant_of m t"
    by (auto simp: ListTenantsForWallet_def split: if_splits option.splits)
  then have x: "wt_tenant x = t_id t" by (simp add: wallet_tenant_of_def)
  have "CallerMayAccess L no_faults s (Some c) (t_id t) = Inr True"
    using m(2,5) assms(3) x
    by (auto simp: CallerMayAccess_def caller_filter_def intro: reaches_child_if)
  with m x show ?thesis by auto
qed

lemma ListTenantsForWallet_disclosure_witness:
  "\<exists>x :: wallet_tenant. CallerMayAccess demo_library no_faults demo_db (Some (mk_caller ''op'' False)) (wt_tenant x)
     = Inr True \<and> wt_tenant x = ''cu''"
proof -
  let ?c = "mk_caller ''op'' False"
  obtain x ts where l: "ListTenantsForWallet no_faults demo_db (Some ?c) ''0xBB'' SurfaceFleetLite = Inr ts"
    and x: "x \<in> set ts" "wt_tenant x = ''cu''"
    by (simp add: ListTenantsForWallet_def surface_filter_def caller_filter_def holds_licence_def
        has_delegation_def wallet_tenant_of_def demo_defs text_eval)
  have u: "uuidParse demo_library (wt_tenant x)" using x by (simp add: demo_library_def)
  from ListTenantsForWallet_disclosure [OF l x(1) u] x(2) show ?thesis by blast
qed

text \<open>
  Scope and credential resolution agree: the tenant whose licence effectively reaches a
  tenant may ask about it, whether that is the tenant itself or its operator.
\<close>

theorem Effective_holder_may_access:
  assumes "Effective flt s tid = Inr ec" and "uuidParse L tid" and "ct_tenant c = ec_tenant ec"
  shows "CallerMayAccess L no_faults s (Some c) tid = Inr True"
proof -
  from assms(1) obtain t k where t: "tenant_by_id tid s = Some t" and k: "effective_row s t = Some k"
    and h: "ec_tenant ec = c_tenant k"
    by (auto simp: Effective_def effectiveWithKey_def bind_eq_Some_conv
        split: if_splits option.splits sum.splits)
  note t' = tenant_by_id_SomeD [OF t]
  show ?thesis
  proof (cases "find (\<lambda>c. c_tenant c = t_id t \<and> c_client_id c \<noteq> None) (credentials s)")
    case (Some k')
    with k h t' have "ec_tenant ec = tid" by (auto simp: effective_row_def dest: find_SomeD)
    with assms(2,3) show ?thesis by (simp add: CallerMayAccess_def)
  next
    case None
    then have "\<not> holds_licence s (t_id t)" by (auto simp: holds_licence_def find_None list_ex_iff)
    moreover have "t_parent t = Some (c_tenant k)"
      using k None by (auto simp: effective_row_def dest: find_SomeD)
    ultimately have "reaches_child s (ct_tenant c) tid"
      using reaches_child_if [of t s "c_tenant k"] t' h assms(3) by auto
    with assms(2) show ?thesis by (simp add: CallerMayAccess_def)
  qed
qed

lemma Effective_holder_may_access_witness:
  "CallerMayAccess demo_library no_faults demo_db (Some (mk_caller ''op'' False)) ''cu'' = Inr True"
proof -
  obtain ec where e: "Effective no_faults demo_db ''cu'' = Inr ec" "ec_tenant ec = ''op''"
    by (simp add: Effective_def effectiveWithKey_def effective_row_def tenant_by_id_def demo_defs)
  have u: "uuidParse demo_library ''cu''" by (simp add: demo_library_def)
  show ?thesis by (rule Effective_holder_may_access [OF e(1) u]) (simp add: e(2))
qed

text \<open>
  Resolving a licence is unambiguous and case-insensitive: the tenant found holds a
  credential with that client id up to case, and any credential with it belongs to that tenant.
\<close>

theorem ResolveByClientID_unique:
  assumes "access_keys s" and "ResolveByClientID flt s cid = Inr ref"
  shows "\<exists>k\<in>set (credentials s). map_option lower (c_client_id k) = Some (lower cid) \<and>
      c_tenant k = tr_tenant ref \<and>
      (\<forall>k'\<in>set (credentials s). map_option lower (c_client_id k') = Some (lower cid) \<longrightarrow>
         c_tenant k' = tr_tenant ref)"
proof -
  let ?f = "\<lambda>c. if map_option lower (c_client_id c) = Some (lower cid)
                then tenant_by_id (c_tenant c) s else None"
  from assms(2) obtain t ts where mf: "List.map_filter ?f (credentials s) = t # ts"
    and ref: "ref = tenant_ref_of t"
    by (auto simp: ResolveByClientID_def split: if_splits list.splits)
  then have "t \<in> set (List.map_filter ?f (credentials s))" by simp
  then obtain k where k: "k \<in> set (credentials s)" "map_option lower (c_client_id k) = Some (lower cid)"
    "tenant_by_id (c_tenant k) s = Some t"
    by (auto simp: List.map_filter_def split: if_splits)
  then have "c_tenant k = tr_tenant ref" using ref by (auto dest: tenant_by_id_SomeD simp: tenant_ref_of_def)
  moreover have "k' = k" if "k' \<in> set (credentials s)" "map_option lower (c_client_id k') = Some (lower cid)" for k'
  proof (rule unique_on_inj)
    show "unique_on (\<lambda>c. c_client_id c \<noteq> None) (\<lambda>c. map_option lower (c_client_id c)) (credentials s)"
      using assms(1) by (simp add: access_keys_def)
  qed (use that k(1,2) in auto)
  ultimately show ?thesis using k by blast
qed

lemma ResolveByClientID_unique_witness:
  "\<exists>k\<in>set (credentials demo_db). map_option lower (c_client_id k) = Some (lower ''0xlic'') \<and> c_tenant k = ''op''"
proof -
  obtain ref where r: "ResolveByClientID no_faults demo_db ''0xlic'' = Inr ref" "tr_tenant ref = ''op''"
    by (simp add: ResolveByClientID_def List.map_filter_def tenant_by_id_def tenant_ref_of_def demo_defs
        text_eval)
  from ResolveByClientID_unique [OF demo_access_keys r(1)] r(2) show ?thesis by auto
qed

end
