(* ===== verification/Members.thy ===== *)
theory Members
  imports Access
begin

text \<open>
  Memberships, written by \<open>service/members.go\<close> and read back by it and by
  \<open>TenantService.ListMembers\<close>. The three-valued scope of \<open>models/member.go\<close> is decoded here.
  A stateful operation returns the database it leaves and its result; a transaction that fails
  leaves the database it found.
\<close>

subsection \<open>The three-valued scope\<close>

definition decodeScope :: "json option \<Rightarrow> string list option \<times> bool \<times> bool" where
  "decodeScope raw =
     (case raw of
        None \<Rightarrow> (None, False, False)
      | Some JNull \<Rightarrow> (None, True, True)
      | Some j \<Rightarrow>
          (case unmarshal_strings j of
             None \<Rightarrow> (None, False, False)
           | Some None \<Rightarrow> (Some [], False, True)
           | Some (Some out) \<Rightarrow> (Some out, False, True)))"

record member_write =
  mw_email :: string
  mw_role :: string
  mw_perms :: "string list"
  mw_scope :: "json option"
  mw_granted_by_wallet :: string
  mw_granted_by_tenant :: string

definition Scope :: "member_write \<Rightarrow> string list option \<times> bool \<times> bool" where
  "Scope m = decodeScope (mw_scope m)"

subsection \<open>Writes\<close>

definition normaliseOptionalWallet :: "library \<Rightarrow> string \<Rightarrow> string" where
  "normaliseOptionalWallet L w = (if w = [] then [] else HexAddr L w)"

definition member_key :: "membership_row \<Rightarrow> uuid \<times> string" where
  "member_key m = (m_tenant m, m_wallet m)"

text \<open>\<open>ON CONFLICT (tenant_id, wallet) DO UPDATE SET ..\<close>\<close>

definition member_merge :: "membership_row \<Rightarrow> membership_row \<Rightarrow> membership_row" where
  "member_merge new old = old\<lparr>m_role := m_role new, m_perms := m_perms new, m_scope := m_scope new,
     m_granted_by_wallet := coalesce (m_granted_by_wallet new) (m_granted_by_wallet old),
     m_granted_by_tenant := coalesce (m_granted_by_tenant new) (m_granted_by_tenant old)\<rparr>"

definition put_member :: "membership_row \<Rightarrow> membership_row list \<Rightarrow> membership_row list" where
  "put_member new = upsert_row member_key new (member_merge new)"

definition put_user :: "string \<Rightarrow> string \<Rightarrow> user_row list \<Rightarrow> user_row list" where
  "put_user w email =
     upsert_row u_wallet \<lparr>u_wallet = w, u_email = nullif email\<rparr>
       (\<lambda>u. u\<lparr>u_email := coalesce (nullif email) (u_email u)\<rparr>)"

text \<open>
  The constraints a membership row must meet: the trigger \<open>check_scope_group_ids\<close> and the
  foreign key of \<open>granted_by_tenant_id\<close>.
\<close>

definition scope_groups_exist :: "db \<Rightarrow> uuid \<Rightarrow> scope \<Rightarrow> bool" where
  "scope_groups_exist s tid sc =
     (case sc of None \<Rightarrow> True
      | Some gs \<Rightarrow> list_all (\<lambda>g. list_ex (\<lambda>fg. g_id fg = g \<and> g_tenant fg = tid) (fleet_groups s)) gs)"

definition tenant_ref_ok :: "db \<Rightarrow> uuid option \<Rightarrow> bool" where
  "tenant_ref_ok s t = (case t of None \<Rightarrow> True | Some i \<Rightarrow> tenant_by_id i s \<noteq> None)"

text \<open>The row an upsert carries: wallet checksummed, role defaulted, empty audit fields NULL.\<close>

definition member_row_for :: "library \<Rightarrow> time \<Rightarrow> uuid \<Rightarrow> string \<Rightarrow> member_write \<Rightarrow> membership_row" where
  "member_row_for L now tenantID wallet inp =
     (let (groups, unrestricted, present) = Scope inp in
      \<lparr>m_tenant = tenantID, m_wallet = HexAddr L wallet,
       m_role = (if mw_role inp = [] then ''member'' else mw_role inp),
       m_perms = marshal_strings (mw_perms inp),
       m_scope = (if unrestricted then None else groups),
       m_granted_by_tenant = nullif (mw_granted_by_tenant inp),
       m_granted_by_wallet = nullif (normaliseOptionalWallet L (mw_granted_by_wallet inp)),
       m_last_login = None, m_created = now\<rparr>)"

definition upsertMemberTx ::
  "library \<Rightarrow> faults \<Rightarrow> time \<Rightarrow> db \<Rightarrow> uuid \<Rightarrow> string \<Rightarrow> member_write \<Rightarrow> db \<times> (svc_error + string)" where
  "upsertMemberTx L flt now s tenantID wallet inp =
     (let (groups, unrestricted, present) = Scope inp in
      if \<not> present then (s, Inl (BadRequest ''scopeGroupIds is required (null for unrestricted, [] for no groups)''))
      else let row = member_row_for L now tenantID wallet inp in
        if flt 0 then (s, Inl (DbError ''load tenant''))
        else if tenant_by_id tenantID s = None then (s, Inl ErrTenantNotFound)
        else if flt 1 then (s, Inl (DbError ''upsert user''))
        else let s1 = s\<lparr>users := put_user (m_wallet row) (mw_email inp) (users s)\<rparr> in
          if flt 2 \<or> \<not> scope_groups_exist s1 tenantID (m_scope row) \<or> \<not> tenant_ref_ok s1 (m_granted_by_tenant row)
          then (s1, Inl (DbError ''upsert membership''))
          else (s1\<lparr>memberships := put_member row (memberships s1)\<rparr>, Inr (m_wallet row)))"

definition Upsert ::
  "library \<Rightarrow> faults \<Rightarrow> time \<Rightarrow> db \<Rightarrow> uuid \<Rightarrow> string \<Rightarrow> member_write \<Rightarrow> db \<times> (svc_error + unit)" where
  "Upsert L flt now s tenantID wallet inp =
     (if tenantID = [] \<or> wallet = [] then (s, Inl (BadRequest ''tenantID and wallet are required''))
      else if flt 0 then (s, Inl (DbError ''begin''))
      else case upsertMemberTx L (\<lambda>n. flt (n + 1)) now s tenantID wallet inp of
        (_, Inl e) \<Rightarrow> (s, Inl e)
      | (s', Inr checksummed) \<Rightarrow>
          if flt 4 then (s, Inl (DbError ''commit'')) else (s', Inr ()))"

definition Remove :: "library \<Rightarrow> faults \<Rightarrow> db \<Rightarrow> uuid \<Rightarrow> string \<Rightarrow> db \<times> (svc_error + unit)" where
  "Remove L flt s tenantID wallet =
     (if tenantID = [] \<or> wallet = [] then (s, Inl (BadRequest ''tenantID and wallet are required''))
      else let checksummed = HexAddr L wallet;
               match = (\<lambda>m. m_tenant m = tenantID \<and> lower (m_wallet m) = lower checksummed)
        in if flt 0 then (s, Inl (DbError ''delete membership''))
        else if affected match (memberships s) = 0 then (s, Inl ErrMemberNotFound)
        else (s\<lparr>memberships := del match (memberships s)\<rparr>, Inr ()))"

definition TouchLogin ::
  "faults \<Rightarrow> time \<Rightarrow> db \<Rightarrow> uuid \<Rightarrow> string \<Rightarrow> string \<Rightarrow> db \<times> (svc_error + bool)" where
  "TouchLogin flt now s tenantID wallet email =
     (if tenantID = [] \<or> wallet = [] then (s, Inl (BadRequest ''tenantID and wallet are required''))
      else let match = (\<lambda>m. m_tenant m = tenantID \<and> lower (m_wallet m) = lower wallet)
        in if flt 0 then (s, Inl (DbError ''touch login''))
        else if affected match (memberships s) = 0 then (s, Inr False)
        else let s1 = s\<lparr>memberships := upd match (\<lambda>m. m\<lparr>m_last_login := Some now\<rparr>) (memberships s)\<rparr> in
          if email \<noteq> [] \<and> \<not> flt 1
          then (s1\<lparr>users := upd (\<lambda>u. lower (u_wallet u) = lower wallet \<and> null_str (u_email u) = [])
                                 (\<lambda>u. u\<lparr>u_email := Some email\<rparr>) (users s1)\<rparr>, Inr True)
          else (s1, Inr True))"

subsection \<open>Reads\<close>

record member =
  wm_wallet :: string
  wm_email :: "string option"
  wm_role :: string
  wm_perms :: "string list"
  wm_scope :: scope
  wm_granted_by_tenant :: "uuid option"
  wm_granted_by_wallet :: "string option"
  wm_last_login :: "int option"
  wm_created :: int

definition member_wire :: "db \<Rightarrow> membership_row \<Rightarrow> member" where
  "member_wire s m = \<lparr>wm_wallet = m_wallet m,
     wm_email = Option.bind (find (\<lambda>u. u_wallet u = m_wallet m) (users s)) u_email,
     wm_role = m_role m, wm_perms = parsePermissions (m_perms m), wm_scope = m_scope m,
     wm_granted_by_tenant = m_granted_by_tenant m, wm_granted_by_wallet = m_granted_by_wallet m,
     wm_last_login = map_option wireTime (m_last_login m), wm_created = wireTime (m_created m)\<rparr>"

definition GetMember :: "faults \<Rightarrow> db \<Rightarrow> uuid \<Rightarrow> string \<Rightarrow> svc_error + member" where
  "GetMember flt s tenantID wallet =
     (if flt 0 then Inl (DbError ''get member'')
      else case membership_of s tenantID wallet of
        None \<Rightarrow> Inl ErrMemberNotFound
      | Some m \<Rightarrow> Inr (member_wire s m))"

definition ListMembers :: "faults \<Rightarrow> db \<Rightarrow> uuid \<Rightarrow> svc_error + member list" where
  "ListMembers flt s tenantID =
     (if flt 0 then Inl (DbError ''list members'')
      else Inr (sort_key (\<lambda>w. lower (case wm_email w of Some e \<Rightarrow> e | None \<Rightarrow> wm_wallet w))
             (map (member_wire s) (filter (\<lambda>m. m_tenant m = tenantID) (memberships s)))))"

text \<open>A concrete write, for applying the theorems.\<close>

definition demo_write :: member_write where
  "demo_write = \<lparr>mw_email = ''c@x'', mw_role = ''admin'', mw_perms = [CapManageMembers],
     mw_scope = Some (marshal_strings [''cu_vans'']), mw_granted_by_wallet = [], mw_granted_by_tenant = ''op''\<rparr>"

subsection \<open>The table contract\<close>

lemma member_key_merge [simp]: "member_key (member_merge new old) = member_key old"
  by (simp add: member_key_def member_merge_def)

lemma find_put_member:
  "find (\<lambda>m. member_key m = k) (put_member new ms) =
     (if k = member_key new
      then Some (case find (\<lambda>m. member_key m = k) ms of None \<Rightarrow> new | Some old \<Rightarrow> member_merge new old)
      else find (\<lambda>m. member_key m = k) ms)"
  unfolding put_member_def by (rule find_upsert_row) simp

interpretation member_table: upsert_table
  "\<lambda>k. find (\<lambda>m. member_key m = k)" put_member "\<lambda>k. del (\<lambda>m. member_key m = k)" member_key member_merge
proof unfold_locales
  fix new and t :: "membership_row list"
  show "find (\<lambda>m. member_key m = member_key new) (put_member new t) =
      Some (case find (\<lambda>m. member_key m = member_key new) t of None \<Rightarrow> new | Some old \<Rightarrow> member_merge new old)"
    by (simp add: find_put_member)
qed (auto simp: find_put_member find_del_same find_del_other member_merge_def coalesce_def split: option.splits)

subsection \<open>The invariant\<close>

text \<open>
  One row per person and tenant whatever the casing of the wallet: the primary key on the
  checksummed wallet, and every stored wallet checksummed.
\<close>

definition member_inv :: "library \<Rightarrow> db \<Rightarrow> bool" where
  "member_inv L s \<longleftrightarrow>
     unique_on (\<lambda>_. True) member_key (memberships s) \<and>
     (\<forall>m\<in>set (memberships s). HexAddr L (m_wallet m) = m_wallet m) \<and>
     unique_on (\<lambda>_. True) u_wallet (users s)"

lemma member_inv_lower_unique:
  assumes "address_laws L" and "member_inv L s"
  shows "unique_on (\<lambda>_. True) (\<lambda>m. (m_tenant m, lower (m_wallet m))) (memberships s)"
proof (rule unique_on_finer)
  show "unique_on (\<lambda>_. True) member_key (memberships s)" using assms(2) by (simp add: member_inv_def)
next
  fix m m' assume m: "m \<in> set (memberships s)" "m' \<in> set (memberships s)"
    and eq: "(m_tenant m, lower (m_wallet m)) = (m_tenant m', lower (m_wallet m'))"
  from eq have "lower (m_wallet m) = lower (m_wallet m')" by simp
  then have "HexAddr L (m_wallet m) = HexAddr L (m_wallet m')" by (rule HexAddr_lower [OF assms(1)])
  moreover have "HexAddr L (m_wallet m) = m_wallet m" "HexAddr L (m_wallet m') = m_wallet m'"
    using assms(2) m unfolding member_inv_def by blast+
  ultimately have "m_wallet m = m_wallet m'" by metis
  with eq show "member_key m = member_key m'" by (simp add: member_key_def)
qed

text \<open>Under the invariant, the case-insensitive lookup is the lookup by primary key.\<close>

lemma membership_of_by_key:
  assumes "address_laws L" and "member_inv L s"
  shows "membership_of s tid (HexAddr L w) = find (\<lambda>m. member_key m = (tid, HexAddr L w)) (memberships s)"
  unfolding membership_of_def member_key_def
proof (rule find_cong_on)
  fix m assume "m \<in> set (memberships s)"
  with assms(2) have "HexAddr L (m_wallet m) = m_wallet m" by (auto simp: member_inv_def)
  with assms(1) show "(m_tenant m = tid \<and> lower (m_wallet m) = lower (HexAddr L w)) =
      ((m_tenant m, m_wallet m) = (tid, HexAddr L w))"
    by (metis lower_HexAddr_eq_iff prod.inject)
qed

lemma put_member_inv:
  assumes "unique_on (\<lambda>_. True) member_key ms" and "\<forall>m\<in>set ms. HexAddr L (m_wallet m) = m_wallet m"
    and "HexAddr L (m_wallet new) = m_wallet new"
  shows "unique_on (\<lambda>_. True) member_key (put_member new ms) \<and>
    (\<forall>m\<in>set (put_member new ms). HexAddr L (m_wallet m) = m_wallet m)"
proof
  show "unique_on (\<lambda>_. True) member_key (put_member new ms)"
    unfolding put_member_def using assms(1) by (rule unique_on_upsert_row) simp
qed (use assms in \<open>auto simp: put_member_def set_upsert_row member_merge_def\<close>)

lemma put_user_unique:
  "unique_on (\<lambda>_. True) u_wallet us \<Longrightarrow> unique_on (\<lambda>_. True) u_wallet (put_user w e us)"
  unfolding put_user_def by (rule unique_on_upsert_row) auto

subsection \<open>Operations, one by one\<close>

lemma member_row_for_simps [simp]:
  "m_tenant (member_row_for L now tid w inp) = tid"
  "m_wallet (member_row_for L now tid w inp) = HexAddr L w"
  "m_perms (member_row_for L now tid w inp) = marshal_strings (mw_perms inp)"
  "member_key (member_row_for L now tid w inp) = (tid, HexAddr L w)"
  by (simp_all add: member_row_for_def member_key_def split: prod.splits)

lemma scope_groups_exist_users [simp]:
  "scope_groups_exist (s\<lparr>users := us\<rparr>) tid sc = scope_groups_exist s tid sc"
  "scope_groups_exist (s\<lparr>memberships := ms\<rparr>) tid sc = scope_groups_exist s tid sc"
  by (simp_all add: scope_groups_exist_def split: option.splits)

lemma tenant_by_id_frame [simp]:
  "tenant_by_id tid (s\<lparr>users := us\<rparr>) = tenant_by_id tid s"
  "tenant_by_id tid (s\<lparr>memberships := ms\<rparr>) = tenant_by_id tid s"
  by (simp_all add: tenant_by_id_def)

lemma upsertMemberTx_SomeD:
  assumes "upsertMemberTx L flt now s tid w inp = (s', Inr cw)"
  shows "s' = s\<lparr>users := put_user (HexAddr L w) (mw_email inp) (users s),
               memberships := put_member (member_row_for L now tid w inp) (memberships s)\<rparr> \<and>
    cw = HexAddr L w \<and> snd (snd (Scope inp)) \<and> tenant_by_id tid s \<noteq> None \<and>
    scope_groups_exist s tid (m_scope (member_row_for L now tid w inp))"
  using assms by (auto simp: upsertMemberTx_def Let_def split: prod.splits if_splits)

lemma Upsert_SomeD:
  assumes "Upsert L flt now s tid w inp = (s', Inr ())"
  shows "s' = s\<lparr>users := put_user (HexAddr L w) (mw_email inp) (users s),
               memberships := put_member (member_row_for L now tid w inp) (memberships s)\<rparr> \<and>
    tid \<noteq> [] \<and> w \<noteq> [] \<and> snd (snd (Scope inp)) \<and> tenant_by_id tid s \<noteq> None \<and>
    scope_groups_exist s tid (m_scope (member_row_for L now tid w inp))"
  using assms upsertMemberTx_SomeD [of L "\<lambda>n. flt (n + 1)" now s tid w inp]
  by (auto simp: Upsert_def split: prod.splits if_splits sum.splits)

lemma Upsert_InlD: "Upsert L flt now s tid w inp = (s', Inl e) \<Longrightarrow> s' = s"
  by (auto simp: Upsert_def split: prod.splits if_splits sum.splits)

lemma Remove_result:
  "Remove L flt s tid w = (s', r) \<Longrightarrow>
     (case r of Inl e \<Rightarrow> s' = s
      | Inr _ \<Rightarrow> s' = s\<lparr>memberships :=
          del (\<lambda>m. m_tenant m = tid \<and> lower (m_wallet m) = lower (HexAddr L w)) (memberships s)\<rparr>)"
  by (auto simp: Remove_def Let_def split: if_splits)

subsection \<open>Sequences of member writes\<close>

datatype member_op =
    MUpsert faults time uuid string member_write
  | MRemove faults uuid string
  | MTouchLogin faults time uuid string string

fun member_step :: "library \<Rightarrow> member_op \<Rightarrow> db \<Rightarrow> db" where
  "member_step L (MUpsert flt now tid w inp) s = fst (Upsert L flt now s tid w inp)"
| "member_step L (MRemove flt tid w) s = fst (Remove L flt s tid w)"
| "member_step L (MTouchLogin flt now tid w e) s = fst (TouchLogin flt now s tid w e)"

text \<open>What a person's shared users row knows only grows: a known address is never cleared.\<close>

definition emails_kept :: "db \<Rightarrow> db \<Rightarrow> bool" where
  "emails_kept s s' \<longleftrightarrow>
     (\<forall>u\<in>set (users s). \<forall>e. u_email u = Some e \<longrightarrow>
        (\<exists>u'\<in>set (users s'). u_wallet u' = u_wallet u \<and> (\<exists>e'. u_email u' = Some e')))"

lemma Upsert_member_inv:
  assumes "address_laws L" and "member_inv L s"
  shows "member_inv L (fst (Upsert L flt now s tid w inp))"
proof (cases "Upsert L flt now s tid w inp")
  case (Pair s' r)
  show ?thesis
  proof (cases r)
    case (Inl e)
    with Pair assms(2) show ?thesis by (auto dest: Upsert_InlD)
  next
    case (Inr u)
    with Pair have "s' = s\<lparr>users := put_user (HexAddr L w) (mw_email inp) (users s),
        memberships := put_member (member_row_for L now tid w inp) (memberships s)\<rparr>"
      by (auto dest: Upsert_SomeD)
    with Pair assms show ?thesis
      using put_member_inv [of "memberships s" L "member_row_for L now tid w inp"]
      by (auto simp: member_inv_def put_user_unique HexAddr_idem)
  qed
qed

text \<open>What a member write inside a transaction leaves for the reader of the same wallet.\<close>

lemma upsertMemberTx_lookup:
  assumes "address_laws L" and "member_inv L s" and "upsertMemberTx L flt now s tid w inp = (s', Inr cw)"
  shows "member_inv L s'"
    and "\<exists>m. membership_of s' tid (HexAddr L w) = Some m \<and> m_perms m = marshal_strings (mw_perms inp) \<and>
           m_role m = (if mw_role inp = [] then ''member'' else mw_role inp) \<and>
           m_scope m = m_scope (member_row_for L now tid w inp)"
proof -
  let ?row = "member_row_for L now tid w inp"
  have s': "s' = s\<lparr>users := put_user (HexAddr L w) (mw_email inp) (users s),
      memberships := put_member ?row (memberships s)\<rparr>"
    using upsertMemberTx_SomeD [OF assms(3)] by simp
  show inv': "member_inv L s'"
    unfolding s' using assms(1,2) put_member_inv [of "memberships s" L ?row]
    by (auto simp: member_inv_def put_user_unique HexAddr_idem)
  have role: "m_role ?row = (if mw_role inp = [] then ''member'' else mw_role inp)"
    by (simp add: member_row_for_def split: prod.splits)
  have "membership_of s' tid (HexAddr L w) = Some (case find (\<lambda>m. member_key m = (tid, HexAddr L w)) (memberships s) of
      None \<Rightarrow> ?row | Some old \<Rightarrow> member_merge ?row old)"
    using member_table.lookup_put_same [of ?row "memberships s"] membership_of_by_key [OF assms(1) inv', of tid w]
    by (simp add: s')
  with role show "\<exists>m. membership_of s' tid (HexAddr L w) = Some m \<and> m_perms m = marshal_strings (mw_perms inp) \<and>
           m_role m = (if mw_role inp = [] then ''member'' else mw_role inp) \<and>
           m_scope m = m_scope ?row"
    by (cases "find (\<lambda>m. member_key m = (tid, HexAddr L w)) (memberships s)") (auto simp: member_merge_def)
qed

lemma Upsert_lookup:
  assumes "address_laws L" and "member_inv L s" and "Upsert L flt now s tid w inp = (s', Inr ())"
  shows "\<exists>m. membership_of s' tid (HexAddr L w) = Some m \<and> m_perms m = marshal_strings (mw_perms inp) \<and>
    m_role m = (if mw_role inp = [] then ''member'' else mw_role inp) \<and>
    m_scope m = (let (groups, unrestricted, present) = Scope inp in if unrestricted then None else groups)"
proof -
  obtain cw where "upsertMemberTx L (\<lambda>n. flt (n + 1)) now s tid w inp = (s', Inr cw)"
    using assms(3) by (auto simp: Upsert_def split: if_splits prod.splits sum.splits)
  from upsertMemberTx_lookup(2) [OF assms(1,2) this] show ?thesis
    by (cases "Scope inp") (simp add: member_row_for_def)
qed

lemma Remove_member_inv: "member_inv L s \<Longrightarrow> member_inv L (fst (Remove L flt s tid w))"
  by (auto simp: Remove_def Let_def member_inv_def set_del intro!: unique_on_del)

lemma TouchLogin_member_inv:
  assumes "member_inv L s" shows "member_inv L (fst (TouchLogin flt now s tid w e))"
proof -
  have "unique_on (\<lambda>_. True) member_key (upd P (\<lambda>m. m\<lparr>m_last_login := Some now\<rparr>) (memberships s))" for P
    using assms by (auto simp: member_inv_def member_key_def intro!: unique_on_upd)
  moreover have "unique_on (\<lambda>_. True) u_wallet (upd P (\<lambda>u. u\<lparr>u_email := Some e\<rparr>) (users s))" for P
    using assms by (auto simp: member_inv_def intro!: unique_on_upd)
  ultimately show ?thesis using assms by (auto simp: TouchLogin_def Let_def member_inv_def set_upd)
qed

lemma emails_keptI:
  assumes "\<And>u e. u \<in> set (users s) \<Longrightarrow> u_email u = Some e \<Longrightarrow>
    \<exists>u' e'. u' \<in> set (users s') \<and> u_wallet u' = u_wallet u \<and> u_email u' = Some e'"
  shows "emails_kept s s'"
  using assms unfolding emails_kept_def by blast

lemma put_user_keeps:
  assumes "u \<in> set us" and "u_email u = Some e0"
  shows "\<exists>u' e'. u' \<in> set (put_user w e us) \<and> u_wallet u' = u_wallet u \<and> u_email u' = Some e'"
proof (cases "u_wallet u = w")
  case True
  let ?u = "u\<lparr>u_email := coalesce (nullif e) (u_email u)\<rparr>"
  from True assms have "?u \<in> set (put_user w e us)" by (auto simp: put_user_def set_upsert_row)
  moreover have "\<exists>e'. u_email ?u = Some e'"
    using assms(2) by (cases "nullif e") simp_all
  ultimately show ?thesis by (intro exI [of _ ?u]) auto
next
  case False
  with assms show ?thesis by (auto simp: put_user_def set_upsert_row)
qed

lemma emails_kept_refl: "emails_kept s s"
  by (auto simp: emails_kept_def)

lemma emails_kept_trans: "emails_kept s t \<Longrightarrow> emails_kept t u \<Longrightarrow> emails_kept s u"
  by (fastforce simp: emails_kept_def)

lemma Upsert_emails: "emails_kept s (fst (Upsert L flt now s tid w inp))"
proof (cases "Upsert L flt now s tid w inp")
  case (Pair s' r)
  show ?thesis
  proof (cases r)
    case (Inl e)
    with Pair show ?thesis by (auto dest: Upsert_InlD simp: emails_kept_refl)
  next
    case (Inr u)
    with Pair have "users s' = put_user (HexAddr L w) (mw_email inp) (users s)"
      by (auto dest!: Upsert_SomeD)
    then have "emails_kept s s'" using put_user_keeps by (intro emails_keptI) metis
    with Pair show ?thesis by simp
  qed
qed

lemma TouchLogin_users:
  "users (fst (TouchLogin flt now s tid w e)) = users s \<or>
   users (fst (TouchLogin flt now s tid w e)) =
     upd (\<lambda>u. lower (u_wallet u) = lower w \<and> null_str (u_email u) = []) (\<lambda>u. u\<lparr>u_email := Some e\<rparr>) (users s)"
  by (simp add: TouchLogin_def Let_def)

lemma TouchLogin_emails: "emails_kept s (fst (TouchLogin flt now s tid w e))"
proof (rule emails_keptI)
  fix u e0 assume u: "u \<in> set (users s)" "u_email u = Some e0"
  let ?f = "\<lambda>u. u\<lparr>u_email := Some e\<rparr>" and ?P = "\<lambda>u. lower (u_wallet u) = lower w \<and> null_str (u_email u) = []"
  have "(if ?P u then ?f u else u) \<in> set (upd ?P ?f (users s))" using u by (simp add: upd_def)
  moreover have "\<exists>e'. u_email (if ?P u then ?f u else u) = Some e'" using u by simp
  moreover have "u_wallet (if ?P u then ?f u else u) = u_wallet u" by simp
  ultimately have "\<exists>u' e'. u' \<in> set (upd ?P ?f (users s)) \<and> u_wallet u' = u_wallet u \<and> u_email u' = Some e'"
    by blast
  with u TouchLogin_users [of flt now s tid w e]
  show "\<exists>u' e'. u' \<in> set (users (fst (TouchLogin flt now s tid w e))) \<and> u_wallet u' = u_wallet u \<and>
      u_email u' = Some e'"
    by auto
qed

lemma Remove_emails: "emails_kept s (fst (Remove L flt s tid w))"
  by (auto simp: emails_kept_def Remove_def Let_def)

lemma member_step_emails: "emails_kept s (member_step L op s)"
  by (cases op) (simp_all add: Upsert_emails TouchLogin_emails Remove_emails)

lemma member_step_inv: "address_laws L \<Longrightarrow> member_inv L s \<Longrightarrow> member_inv L (member_step L op s)"
  by (cases op) (simp_all add: Upsert_member_inv Remove_member_inv TouchLogin_member_inv)

interpretation member_ops: op_history "member_step L" "\<lambda>s. address_laws L \<and> member_inv L s" emails_kept
  for L
  by unfold_locales (auto simp: member_step_inv member_step_emails emails_kept_refl intro: emails_kept_trans)

subsection \<open>Properties\<close>

text \<open>
  C12. What was written is what is answered: after a successful \<open>Upsert\<close> on an active tenant,
  \<open>Authorize\<close> reports direct membership with exactly the written permissions and the written
  three-valued scope, and the member read shows the same.
\<close>

theorem Upsert_then_Authorize:
  assumes "address_laws L" and "member_inv L s"
    and "Upsert L flt now s tid w inp = (s', Inr ())"
    and "tenant_by_id tid s = Some t" and "t_status t = StatusActive"
  shows "\<exists>r m. Authorize L no_faults s' tid w = Inr r \<and> ar_via r = ViaDirect \<and> ar_perms r = mw_perms inp \<and>
      ar_scope r = (let (groups, unrestricted, present) = Scope inp in if unrestricted then None else groups) \<and>
      GetMember no_faults s' tid (HexAddr L w) = Inr m \<and> wm_perms m = ar_perms r \<and> wm_scope m = ar_scope r"
proof -
  have "tenant_by_id tid s' = Some t" "tid \<noteq> []" "w \<noteq> []" using Upsert_SomeD [OF assms(3)] assms(4) by simp_all
  then show ?thesis using Upsert_lookup [OF assms(1-3)] assms(5)
    by (auto simp: Authorize_def GetMember_def member_wire_def Let_def)
qed

lemma demo_member_inv: "member_inv demo_library demo_db"
  by (simp add: member_inv_def member_key_def demo_defs text_eval)

lemma demo_Upsert: "snd (Upsert demo_library no_faults 5 demo_db ''cu'' ''0xCC'' demo_write) = Inr ()"
  by (simp add: Upsert_def upsertMemberTx_def member_row_for_def Scope_def decodeScope_def demo_write_def
      marshal_strings_def scope_groups_exist_def tenant_ref_ok_def tenant_by_id_def demo_defs text_eval
      split: prod.splits)

lemma demo_tenant_cu:
  "tenant_by_id ''cu'' demo_db =
     Some (mk_tenant ''cu'' ''Beta'' KindCustomer (Some ''op'') StatusActive EntitlementExplicit)"
  by (simp add: tenant_by_id_def demo_defs)

lemma Upsert_then_Authorize_witness:
  "\<exists>s' r. Upsert demo_library no_faults 5 demo_db ''cu'' ''0xCC'' demo_write = (s', Inr ()) \<and>
     Authorize demo_library no_faults s' ''cu'' ''0xCC'' = Inr r \<and> ar_perms r = [CapManageMembers]"
proof -
  obtain s' where u: "Upsert demo_library no_faults 5 demo_db ''cu'' ''0xCC'' demo_write = (s', Inr ())"
    using demo_Upsert by (metis prod.collapse)
  have "t_status (mk_tenant ''cu'' ''Beta'' KindCustomer (Some ''op'') StatusActive EntitlementExplicit) = StatusActive"
    by (simp add: mk_tenant_def)
  from Upsert_then_Authorize [OF demo_address_laws demo_member_inv u demo_tenant_cu this] u
  show ?thesis by (auto simp: demo_write_def)
qed

text \<open>
  C13. A failed \<open>Upsert\<close> leaves no trace, whichever statement failed; a successful one changes
  nobody else's membership of any tenant.
\<close>

theorem Upsert_atomic_and_local:
  assumes "address_laws L" and "member_inv L s" and "Upsert L flt now s tid w inp = (s', r)"
  shows "(r \<noteq> Inr () \<longrightarrow> s' = s) \<and>
    (\<forall>tid' w'. (tid', HexAddr L w') \<noteq> (tid, HexAddr L w) \<longrightarrow>
       membership_of s' tid' (HexAddr L w') = membership_of s tid' (HexAddr L w'))"
proof (cases r)
  case (Inl e)
  with assms(3) show ?thesis by (auto dest: Upsert_InlD)
next
  case (Inr u)
  with assms(3) have d: "memberships s' = put_member (member_row_for L now tid w inp) (memberships s)"
    by (auto dest!: Upsert_SomeD)
  have inv': "member_inv L s'"
    using Upsert_member_inv [OF assms(1,2), of flt now tid w inp] assms(3) by simp
  show ?thesis using Inr d member_table.lookup_put_other
    by (auto simp: membership_of_by_key [OF assms(1) inv'] membership_of_by_key [OF assms(1,2)])
qed

lemma Upsert_atomic_and_local_witness:
  "fst (Upsert demo_library (\<lambda>n. n = 3) 5 demo_db ''cu'' ''0xCC'' demo_write) = demo_db"
proof -
  obtain s' r where u: "Upsert demo_library (\<lambda>n. n = 3) 5 demo_db ''cu'' ''0xCC'' demo_write = (s', r)"
    by (metis prod.collapse)
  then have "r \<noteq> Inr ()"
    by (simp add: Upsert_def upsertMemberTx_def member_row_for_def Scope_def decodeScope_def demo_write_def
        marshal_strings_def demo_tenant_cu Let_def split: prod.splits) auto
  with Upsert_atomic_and_local [OF demo_address_laws demo_member_inv u] u show ?thesis by simp
qed

text \<open>
  Removal is final and exact: after a successful \<open>Remove\<close> the wallet has no membership of
  the tenant however it is cased, so \<open>Authorize\<close> no longer answers \<open>direct\<close>; every other row
  stays.
\<close>

theorem Remove_revokes:
  assumes "address_laws L" and "Remove L flt s tid w = (s', Inr ())" and "lower v = lower w"
    and "Authorize L flt' s' tid v = Inr r"
  shows "ar_via r \<noteq> ViaDirect \<and> membership_of s' tid (HexAddr L v) = None \<and>
    (\<forall>m\<in>set (memberships s). m_tenant m \<noteq> tid \<or> lower (m_wallet m) \<noteq> lower (HexAddr L w) \<longrightarrow>
       m \<in> set (memberships s'))"
proof -
  have s': "s' = s\<lparr>memberships := del (\<lambda>m. m_tenant m = tid \<and> lower (m_wallet m) = lower (HexAddr L w)) (memberships s)\<rparr>"
    using Remove_result [OF assms(2)] by simp
  have "HexAddr L v = HexAddr L w" using assms(1,3) by (rule HexAddr_lower)
  then have none: "membership_of s' tid (HexAddr L v) = None"
    by (simp add: s' membership_of_None set_del)
  then have "ar_via r \<noteq> ViaDirect"
    using assms(4) by (auto simp: Authorize_def Let_def split: if_splits option.splits)
  with none show ?thesis by (auto simp: s' set_del)
qed

lemma Remove_revokes_witness:
  "\<exists>s' r. Remove demo_library no_faults demo_db ''cu'' ''0xBB'' = (s', Inr ()) \<and>
     Authorize demo_library no_faults s' ''cu'' ''0xbb'' = Inr r \<and> ar_via r \<noteq> ViaDirect"
proof -
  obtain s' where d: "Remove demo_library no_faults demo_db ''cu'' ''0xBB'' = (s', Inr ())"
    by (simp add: Remove_def demo_defs text_eval)
  obtain r where r: "Authorize demo_library no_faults s' ''cu'' ''0xbb'' = Inr r"
    by (cases "Authorize demo_library no_faults s' ''cu'' ''0xbb''")
       (auto simp: Authorize_def Let_def split: option.splits if_splits)
  have "lower ''0xbb'' = lower ''0xBB''" by (simp add: text_eval)
  from Remove_revokes [OF demo_address_laws d this r] d r show ?thesis by blast
qed

text \<open>
  Over any sequence of member writes, under any faults, there stays one row per person and
  tenant whatever the wallet's casing, and an email address once known is never cleared.
\<close>

theorem member_ops_invariant:
  assumes "address_laws L" and "member_inv L s"
  shows "member_inv L (fold (member_step L) ops s) \<and>
    unique_on (\<lambda>_. True) (\<lambda>m. (m_tenant m, lower (m_wallet m))) (memberships (fold (member_step L) ops s)) \<and>
    emails_kept s (fold (member_step L) ops s)"
  using member_ops.run_inv [of L s ops] member_ops.run_later [of L s ops] assms
    member_inv_lower_unique [OF assms(1)] by simp

lemma member_ops_invariant_witness:
  "member_inv demo_library (fold (member_step demo_library)
     [MUpsert no_faults 5 ''cu'' ''0xCC'' demo_write, MRemove no_faults ''cu'' ''0xcc''] demo_db)"
  using member_ops_invariant [OF demo_address_laws demo_member_inv] by blast

text \<open>
  Stamping a login grants nothing: \<open>TouchLogin\<close> changes no role, permission or scope of
  any membership, and so no authorization answer.
\<close>

theorem TouchLogin_grants_nothing:
  "Authorize L flt (fst (TouchLogin flt' now s tid w e)) tid' v = Authorize L flt s tid' v"
proof -
  let ?s = "fst (TouchLogin flt' now s tid w e)"
  let ?f = "\<lambda>m. m\<lparr>m_last_login := Some now\<rparr>" and ?P = "\<lambda>m. m_tenant m = tid \<and> lower (m_wallet m) = lower w"
  have frame: "tenants ?s = tenants s" "delegations ?s = delegations s"
    "memberships ?s = memberships s \<or> memberships ?s = upd ?P ?f (memberships s)"
    by (simp_all add: TouchLogin_def Let_def)
  have upd: "find Q (upd ?P ?f ms) = map_option (\<lambda>m. if ?P m then ?f m else m) (find Q ms)"
    if "\<And>m. Q (?f m) = Q m" for Q ms
    using that by (induction ms) auto
  have mem: "map_option (\<lambda>m. (m_role m, m_perms m, m_scope m)) (membership_of ?s tid' x) =
      map_option (\<lambda>m. (m_role m, m_perms m, m_scope m)) (membership_of s tid' x)" for x
    using frame(3) upd [of "\<lambda>m. m_tenant m = tid' \<and> lower (m_wallet m) = lower x" "memberships s"]
    by (cases "membership_of s tid' x") (auto simp: membership_of_def)
  have "delegation_for ?s tid' x = delegation_for s tid' x" for x
  proof -
    have ex: "list_ex Q (memberships ?s) = list_ex Q (memberships s)" if "\<And>m. Q (?f m) = Q m" for Q
      using frame(3)
    proof
      assume "memberships ?s = upd ?P ?f (memberships s)"
      then show ?thesis by (simp only: list_ex_upd [of Q ?f, OF that])
    qed simp
    show ?thesis unfolding delegation_for_def frame(2) by (subst ex) simp_all
  qed
  moreover have "tenant_by_id tid' ?s = tenant_by_id tid' s" by (simp add: tenant_by_id_def frame)
  ultimately show ?thesis using mem [of "HexAddr L v"]
    by (cases "membership_of ?s tid' (HexAddr L v)"; cases "membership_of s tid' (HexAddr L v)")
       (simp_all add: Authorize_def Let_def split: option.split)
qed

text \<open>
  The scope encoding keeps its three values apart: an omitted field is refused with nothing
  written, \<open>null\<close> is unrestricted, and an array restricts to exactly its groups, the empty array
  to nothing.
\<close>

theorem scope_tri_state:
  "(mw_scope inp = None \<longrightarrow> (\<exists>e. Upsert L flt now s tid w inp = (s, Inl e))) \<and>
   decodeScope (Some JNull) = (None, True, True) \<and>
   decodeScope (Some (marshal_strings gs)) = (Some gs, False, True)"
proof -
  have "mw_scope inp = None \<Longrightarrow> \<exists>e. Upsert L flt now s tid w inp = (s, Inl e)"
    by (simp add: Upsert_def upsertMemberTx_def Scope_def decodeScope_def)
  then show ?thesis by (simp add: decodeScope_def marshal_strings_def)
qed

lemma scope_tri_state_witness:
  "\<exists>e. Upsert demo_library no_faults 5 demo_db ''cu'' ''0xCC'' (demo_write\<lparr>mw_scope := None\<rparr>) = (demo_db, Inl e)"
  using scope_tri_state [of "demo_write\<lparr>mw_scope := None\<rparr>"] by simp

end
