(* ===== verification/Tenants.thy ===== *)
theory Tenants
  imports Members
begin

text \<open>
  Tenants and their licences: \<open>service/tenants.go\<close> (an operator's customers),
  \<open>service/selfserve.go\<close> (self-serve tenants and credential replacement) and the secret sealing
  of \<open>service/crypto.go\<close>. The hierarchy the authorization rules rely on (operators at the root,
  every parent an operator, names unique per parent, one holder per licence) is the invariant.
\<close>

subsection \<open>Sealed secrets\<close>

text \<open>The primitives of Go's \<open>crypto\<close> and \<open>encoding/base64\<close> packages; bytes are characters.\<close>

record crypto =
  sha256 :: "string \<Rightarrow> string"
  gcmSeal :: "string \<Rightarrow> string \<Rightarrow> string \<Rightarrow> string"        \<comment> \<open>key, nonce, plaintext\<close>
  gcmOpen :: "string \<Rightarrow> string \<Rightarrow> string \<Rightarrow> string option" \<comment> \<open>key, nonce, ciphertext\<close>
  b64enc :: "string \<Rightarrow> string"
  b64dec :: "string \<Rightarrow> string option"
  b64url :: "string \<Rightarrow> string"                         \<comment> \<open>base64.RawURLEncoding\<close>

definition NonceSize :: nat where
  "NonceSize = 12"

text \<open>
  Opening what was sealed under the same key and nonce gives the plaintext; base64 decodes what
  it encoded and encodes a non-empty input to a non-empty text.
\<close>

definition crypto_laws :: "crypto \<Rightarrow> bool" where
  "crypto_laws K \<longleftrightarrow>
     (\<forall>k n p. gcmOpen K k n (gcmSeal K k n p) = Some p) \<and>
     (\<forall>x. b64dec K (b64enc K x) = Some x) \<and>
     (\<forall>x. x \<noteq> [] \<longrightarrow> b64enc K x \<noteq> [])"

definition EncryptSecret :: "crypto \<Rightarrow> string \<Rightarrow> string \<Rightarrow> string \<Rightarrow> string" where
  "EncryptSecret K nonce passphrase plaintext =
     b64enc K (nonce @ gcmSeal K (sha256 K passphrase) nonce plaintext)"

definition DecryptSecret :: "crypto \<Rightarrow> string \<Rightarrow> string \<Rightarrow> string option" where
  "DecryptSecret K passphrase encB64 =
     (if encB64 = [] then Some []
      else case b64dec K encB64 of
        None \<Rightarrow> None
      | Some raw \<Rightarrow>
          if length raw < NonceSize then None
          else gcmOpen K (sha256 K passphrase) (take NonceSize raw) (drop NonceSize raw))"

subsection \<open>The wire shape of a tenant\<close>

record tenant =
  wt_id :: uuid
  wn_name :: string
  wn_kind :: tenant_kind
  wn_parent :: "uuid option"
  wn_status :: string
  wn_managed :: bool
  wn_mode :: string
  wn_fleet_lite :: bool
  wn_enforced :: bool
  wn_external_ref :: "string option"
  wn_created :: int
  wn_vehicles :: nat
  wn_users :: nat
  wn_last_activity :: "int option"

definition max_login :: "time option list \<Rightarrow> time option" where
  "max_login ts = (let vs = List.map_filter id ts in if vs = [] then None else Some (Max (set vs)))"

definition scanTenantWithCounts :: "db \<Rightarrow> tenant_row \<Rightarrow> tenant" where
  "scanTenantWithCounts s t =
     (let ms = filter (\<lambda>m. m_tenant m = t_id t) (memberships s) in
      \<lparr>wt_id = t_id t, wn_name = t_name t, wn_kind = t_kind t, wn_parent = t_parent t,
       wn_status = t_status t, wn_managed = t_managed t, wn_mode = t_mode t,
       wn_fleet_lite = t_fleet_lite t, wn_enforced = t_enforced t,
       wn_external_ref = t_external_ref t, wn_created = wireTime (t_created t),
       wn_vehicles = affected (\<lambda>e. e_tenant e = t_id t \<and> e_revoked e = None) (entitlements s),
       wn_users = length ms,
       wn_last_activity = map_option wireTime (max_login (map m_last_login ms))\<rparr>)"

definition ListChildren :: "faults \<Rightarrow> db \<Rightarrow> uuid \<Rightarrow> svc_error + tenant list" where
  "ListChildren flt s operatorID =
     (if flt 0 then Inl (DbError ''list children'')
      else Inr (sort_key (\<lambda>t. lower (wn_name t))
             (map (scanTenantWithCounts s) (filter (\<lambda>t. t_parent t = Some operatorID) (tenants s)))))"

definition GetTenant :: "faults \<Rightarrow> db \<Rightarrow> uuid \<Rightarrow> svc_error + tenant" where
  "GetTenant flt s tenantID =
     (if flt 0 then Inl (DbError ''get tenant'')
      else case tenant_by_id tenantID s of
        None \<Rightarrow> Inl ErrTenantNotFound
      | Some t \<Rightarrow> Inr (scanTenantWithCounts s t))"

definition nullableString :: "string option \<Rightarrow> string option" where
  "nullableString x =
     (case x of None \<Rightarrow> None | Some v \<Rightarrow> if TrimSpace v = [] then None else Some (TrimSpace v))"

subsection \<open>Creating and changing customers\<close>

text \<open>
  \<open>idx_tenants_name_per_parent\<close> and the primary key: what the \<open>INSERT\<close> and the \<open>UPDATE\<close> of
  \<open>tenants\<close> are checked against.
\<close>

definition names_per_parent :: "tenant_row list \<Rightarrow> bool" where
  "names_per_parent ts = unique_on (\<lambda>t. t_parent t \<noteq> None) (\<lambda>t. (t_parent t, lower (t_name t))) ts"

definition tenant_conflict :: "tenant_row \<Rightarrow> tenant_row list \<Rightarrow> bool" where
  "tenant_conflict new ts =
     list_ex (\<lambda>t. t_id t = t_id new \<or>
        (t_parent new \<noteq> None \<and> t_parent t = t_parent new \<and> lower (t_name t) = lower (t_name new))) ts"

record create_tenant_input =
  cti_name :: string
  cti_external_ref :: "string option"

definition customer_row :: "uuid \<Rightarrow> time \<Rightarrow> string \<Rightarrow> uuid \<Rightarrow> create_tenant_input \<Rightarrow> tenant_row" where
  "customer_row newid now name operatorID inp =
     \<lparr>t_id = newid, t_name = name, t_kind = KindCustomer, t_parent = Some operatorID,
      t_status = StatusActive, t_managed = True, t_mode = EntitlementExplicit, t_fleet_lite = True,
      t_enforced = False, t_external_ref = nullableString (cti_external_ref inp), t_created = now\<rparr>"

definition CreateCustomer ::
  "faults \<Rightarrow> uuid \<Rightarrow> time \<Rightarrow> db \<Rightarrow> uuid \<Rightarrow> create_tenant_input \<Rightarrow> string \<Rightarrow> db \<times> (svc_error + tenant)" where
  "CreateCustomer flt newid now s operatorID inp actorWallet =
     (let name = TrimSpace (cti_name inp) in
      if name = [] then (s, Inl (BadRequest ''name is required''))
      else if flt 0 then (s, Inl (DbError ''load operator''))
      else case tenant_by_id operatorID s of
        None \<Rightarrow> (s, Inl ErrTenantNotFound)
      | Some t \<Rightarrow>
        if t_kind t \<noteq> KindOperator then (s, Inl ErrNotAnOperator)
        else if flt 1 then (s, Inl (DbError ''begin''))
        else let row = customer_row newid now name operatorID inp in
        if flt 2 then (s, Inl (DbError ''insert tenant''))
        else if tenant_conflict row (tenants s) then (s, Inl ErrNameTaken)
        else let s1 = s\<lparr>tenants := tenants s @ [row]\<rparr> in
        if flt 3 \<or> has_delegation s1 operatorID newid then (s, Inl (DbError ''insert delegation''))
        else let s2 = s1\<lparr>delegations := delegations s1 @
               [\<lparr>d_operator = operatorID, d_customer = newid, d_scopes = DelegationScopes,
                 d_created_by = nullif actorWallet\<rparr>]\<rparr> in
        if flt 4 then (s, Inl (DbError ''commit''))
        else (s2, GetTenant (\<lambda>n. flt (n + 5)) s2 newid))"

record update_tenant_input =
  uti_name :: "string option"
  uti_status :: "string option"
  uti_fleet_lite :: "bool option"
  uti_enforced :: "bool option"
  uti_external_ref :: "string option"

definition patch_tenant :: "update_tenant_input \<Rightarrow> tenant_row \<Rightarrow> tenant_row" where
  "patch_tenant inp t =
     t\<lparr>t_name := (case uti_name inp of None \<Rightarrow> t_name t | Some n \<Rightarrow> TrimSpace n),
       t_status := (case uti_status inp of None \<Rightarrow> t_status t | Some v \<Rightarrow> v),
       t_fleet_lite := (case uti_fleet_lite inp of None \<Rightarrow> t_fleet_lite t | Some b \<Rightarrow> b),
       t_enforced := (case uti_enforced inp of None \<Rightarrow> t_enforced t | Some b \<Rightarrow> b),
       t_external_ref := (case uti_external_ref inp of None \<Rightarrow> t_external_ref t
                          | Some r \<Rightarrow> nullableString (Some r))\<rparr>"

definition no_sets :: "update_tenant_input \<Rightarrow> bool" where
  "no_sets inp \<longleftrightarrow> uti_name inp = None \<and> uti_status inp = None \<and> uti_fleet_lite inp = None \<and>
     uti_enforced inp = None \<and> uti_external_ref inp = None"

definition UpdateTenant ::
  "faults \<Rightarrow> db \<Rightarrow> uuid \<Rightarrow> update_tenant_input \<Rightarrow> db \<times> (svc_error + tenant)" where
  "UpdateTenant flt s tenantID inp =
     (if map_option TrimSpace (uti_name inp) = Some [] then (s, Inl (BadRequest ''name cannot be empty''))
      else if (case uti_status inp of None \<Rightarrow> False | Some v \<Rightarrow> v \<noteq> StatusActive \<and> v \<noteq> StatusSuspended)
      then (s, Inl ErrInvalidStatus)
      else if no_sets inp then (s, GetTenant flt s tenantID)
      else let ts = upd (\<lambda>t. t_id t = tenantID) (patch_tenant inp) (tenants s) in
      if flt 0 then (s, Inl (DbError ''update tenant''))
      else if \<not> names_per_parent ts then (s, Inl ErrNameTaken)
      else let s1 = s\<lparr>tenants := ts\<rparr> in
      if flt 1 then (s1, Inl (DbError ''rows affected''))
      else if affected (\<lambda>t. t_id t = tenantID) (tenants s) = 0 then (s1, Inl ErrTenantNotFound)
      else (s1, GetTenant (\<lambda>n. flt (n + 2)) s1 tenantID))"

subsection \<open>Self-serve tenants and credentials\<close>

record self_serve_input =
  ssi_name :: string
  ssi_client_id :: string
  ssi_api_key :: string
  ssi_owner_wallet :: string
  ssi_owner_email :: string

text \<open>
  \<open>validate\<close> is \<open>credentialValidator.ValidateCredential\<close>: whether the client id and key mint.
  \<open>seal\<close> is \<open>EncryptSecret\<close> under the configured passphrase and this call's nonce, \<open>None\<close> when
  the system's randomness fails.
\<close>

definition CreateSelfServe ::
  "library \<Rightarrow> (string \<Rightarrow> string \<Rightarrow> bool) \<Rightarrow> (string \<Rightarrow> string option) \<Rightarrow> faults \<Rightarrow> uuid \<Rightarrow> time \<Rightarrow> db \<Rightarrow>
   self_serve_input \<Rightarrow> db \<times> (svc_error + tenant)" where
  "CreateSelfServe L validate seal flt newid now s inp =
     (let name = TrimSpace (ssi_name inp) in
      if name = [] then (s, Inl (BadRequest ''name is required''))
      else if ssi_client_id inp = [] \<or> ssi_api_key inp = []
      then (s, Inl (BadRequest ''clientId and apiKey are required''))
      else if ssi_owner_wallet inp = [] then (s, Inl (BadRequest ''ownerWallet is required''))
      else if \<not> validate (ssi_client_id inp) (ssi_api_key inp) then (s, Inl ErrCredentialInvalid)
      else case seal (ssi_api_key inp) of
        None \<Rightarrow> (s, Inl (DbError ''encrypt API key''))
      | Some enc \<Rightarrow>
        let ownerWallet = HexAddr L (ssi_owner_wallet inp) in
        if flt 0 then (s, Inl (DbError ''begin''))
        else let row = \<lparr>t_id = newid, t_name = name, t_kind = KindCustomer, t_parent = None,
               t_status = StatusActive, t_managed = False, t_mode = EntitlementImplicit,
               t_fleet_lite = True, t_enforced = False, t_external_ref = None, t_created = now\<rparr> in
        if flt 1 \<or> tenant_conflict row (tenants s) then (s, Inl (DbError ''insert tenant''))
        else let s1 = s\<lparr>tenants := tenants s @ [row]\<rparr> in
        if flt 2 then (s, Inl (DbError ''insert credential''))
        else if list_ex (\<lambda>c. c_tenant c = newid \<or>
                  map_option lower (c_client_id c) = Some (lower (ssi_client_id inp))) (credentials s1)
        then (s, Inl ErrClientIDRegistered)
        else let s2 = s1\<lparr>credentials := credentials s1 @
               [\<lparr>c_tenant = newid, c_client_id = Some (ssi_client_id inp), c_api_key_enc = Some enc,
                 c_signer_address = None, c_signer_key_enc = None, c_is_service = False,
                 c_aa_address = None, c_aa_key_enc = None\<rparr>]\<rparr> in
        if flt 3 then (s, Inl (DbError ''upsert owner user''))
        else let s3 = s2\<lparr>users := put_user ownerWallet (ssi_owner_email inp) (users s2)\<rparr> in
        if flt 4 \<or> list_ex (\<lambda>m. member_key m = (newid, ownerWallet)) (memberships s3)
        then (s, Inl (DbError ''insert owner membership''))
        else let s4 = s3\<lparr>memberships := memberships s3 @
               [\<lparr>m_tenant = newid, m_wallet = ownerWallet, m_role = ''owner'',
                 m_perms = marshal_strings [CapManageMembers, CapManageSettings], m_scope = None,
                 m_granted_by_tenant = None, m_granted_by_wallet = Some ownerWallet,
                 m_last_login = None, m_created = now\<rparr>]\<rparr> in
        if flt 5 then (s, Inl (DbError ''commit''))
        else (s4, GetTenant (\<lambda>n. flt (n + 6)) s4 newid))"

text \<open>\<open>ON CONFLICT (tenant_id) DO UPDATE SET dimo_client_id, dimo_api_key_enc\<close>\<close>

definition put_credential :: "uuid \<Rightarrow> string \<Rightarrow> string \<Rightarrow> credential_row list \<Rightarrow> credential_row list" where
  "put_credential tid cid enc =
     upsert_row c_tenant
       \<lparr>c_tenant = tid, c_client_id = Some cid, c_api_key_enc = Some enc, c_signer_address = None,
        c_signer_key_enc = None, c_is_service = False, c_aa_address = None, c_aa_key_enc = None\<rparr>
       (\<lambda>c. c\<lparr>c_client_id := Some cid, c_api_key_enc := Some enc\<rparr>)"

definition SetCredentials ::
  "(string \<Rightarrow> string \<Rightarrow> bool) \<Rightarrow> (string \<Rightarrow> string option) \<Rightarrow> faults \<Rightarrow> db \<Rightarrow> uuid \<Rightarrow> string \<Rightarrow> string \<Rightarrow>
   db \<times> (svc_error + unit)" where
  "SetCredentials validate seal flt s tenantID clientID apiKey =
     (if clientID = [] \<or> apiKey = [] then (s, Inl (BadRequest ''clientId and apiKey are required''))
      else if \<not> validate clientID apiKey then (s, Inl ErrCredentialInvalid)
      else case seal apiKey of
        None \<Rightarrow> (s, Inl (DbError ''encrypt API key''))
      | Some enc \<Rightarrow>
        if flt 0 then (s, Inl (DbError ''load tenant''))
        else if tenant_by_id tenantID s = None then (s, Inl ErrTenantNotFound)
        else if flt 1 then (s, Inl (DbError ''upsert credential''))
        else if list_ex (\<lambda>c. c_tenant c \<noteq> tenantID \<and>
                  map_option lower (c_client_id c) = Some (lower clientID)) (credentials s)
        then (s, Inl ErrClientIDRegistered)
        else (s\<lparr>credentials := put_credential tenantID clientID enc (credentials s)\<rparr>, Inr ()))"

subsection \<open>The invariant of the hierarchy\<close>

definition tenant_exists :: "db \<Rightarrow> uuid \<Rightarrow> bool" where
  "tenant_exists s tid = list_ex (\<lambda>t. t_id t = tid) (tenants s)"

definition tenant_shape :: "db \<Rightarrow> tenant_row \<Rightarrow> bool" where
  "tenant_shape s t \<longleftrightarrow>
     t_status t \<in> {StatusActive, StatusSuspended} \<and>
     (t_kind t = KindOperator \<longrightarrow> t_parent t = None) \<and>
     (case t_parent t of None \<Rightarrow> True
      | Some p \<Rightarrow> list_ex (\<lambda>o'. t_id o' = p \<and> t_kind o' = KindOperator) (tenants s))"

definition tenant_refs :: "db \<Rightarrow> bool" where
  "tenant_refs s \<longleftrightarrow>
     list_all (\<lambda>c. tenant_exists s (c_tenant c)) (credentials s) \<and>
     list_all (\<lambda>m. tenant_exists s (m_tenant m)) (memberships s) \<and>
     list_all (\<lambda>d. tenant_exists s (d_operator d) \<and> tenant_exists s (d_customer d)) (delegations s)"

definition licence_keys :: "db \<Rightarrow> bool" where
  "licence_keys s \<longleftrightarrow>
     unique_on (\<lambda>_. True) c_tenant (credentials s) \<and>
     unique_on (\<lambda>c. c_client_id c \<noteq> None) (\<lambda>c. map_option lower (c_client_id c)) (credentials s)"

definition tenant_inv :: "db \<Rightarrow> bool" where
  "tenant_inv s \<longleftrightarrow>
     unique_on (\<lambda>_. True) t_id (tenants s) \<and> names_per_parent (tenants s) \<and>
     list_all (tenant_shape s) (tenants s) \<and> licence_keys s \<and> tenant_refs s"

lemma tenant_exists_by_id: "tenant_exists s tid \<longleftrightarrow> tenant_by_id tid s \<noteq> None"
  by (auto simp: tenant_exists_def tenant_by_id_def find_None list_ex_iff)

lemma tenants_same:
  assumes "tenants s' = tenants s"
  shows "tenant_exists s' = tenant_exists s" "tenant_shape s' = tenant_shape s"
  unfolding tenant_exists_def tenant_shape_def assms by simp_all

lemma put_credential_keys:
  assumes "licence_keys s"
    and "\<not> list_ex (\<lambda>c. c_tenant c \<noteq> tid \<and> map_option lower (c_client_id c) = Some (lower cid)) (credentials s)"
  shows "licence_keys (s\<lparr>credentials := put_credential tid cid enc (credentials s)\<rparr>)"
proof (cases "\<exists>c\<in>set (credentials s). c_tenant c = tid")
  case True
  let ?Q = "\<lambda>c. c_tenant c = tid" and ?f = "\<lambda>c. c\<lparr>c_client_id := Some cid, c_api_key_enc := Some enc\<rparr>"
  have u: "unique_on (\<lambda>_. True) c_tenant (credentials s)" using assms(1) by (simp add: licence_keys_def)
  have "distinct (credentials s)" using u by (simp add: unique_on_def distinct_map)
  then have "unique_on (\<lambda>c. c_client_id c \<noteq> None) (\<lambda>c. map_option lower (c_client_id c)) (upd ?Q ?f (credentials s))"
    using assms unique_on_inj [OF u]
    by (intro unique_on_upd_one) (auto simp: licence_keys_def list_ex_iff)
  moreover have "unique_on (\<lambda>_. True) c_tenant (upd ?Q ?f (credentials s))"
    using u by (intro unique_on_upd) auto
  ultimately show ?thesis using True by (simp add: put_credential_def upsert_row_def licence_keys_def)
next
  case False
  with assms show ?thesis
    by (auto simp: put_credential_def upsert_row_def licence_keys_def list_ex_iff)
qed

lemma put_credential_tenants: "c \<in> set (put_credential tid cid enc cs) \<Longrightarrow> c_tenant c = tid \<or> (\<exists>c'\<in>set cs. c_tenant c' = c_tenant c)"
  by (auto simp: put_credential_def set_upsert_row)

lemma put_credential_client:
  "c \<in> set (put_credential tid cid enc cs) \<Longrightarrow> c_tenant c = tid \<Longrightarrow> c_client_id c = Some cid"
  unfolding put_credential_def set_upsert_row by (elim disjE conjE bexE) simp_all

subsection \<open>What each operation does to the database\<close>

lemma CreateCustomer_result:
  assumes "CreateCustomer flt newid now s op inp a = (s', r)"
  shows "(s' = s \<and> (\<exists>e. r = Inl e)) \<or>
    (\<exists>t. tenant_by_id op s = Some t \<and> t_kind t = KindOperator \<and> TrimSpace (cti_name inp) \<noteq> [] \<and>
      \<not> tenant_conflict (customer_row newid now (TrimSpace (cti_name inp)) op inp) (tenants s) \<and>
      s' = s\<lparr>tenants := tenants s @ [customer_row newid now (TrimSpace (cti_name inp)) op inp],
         delegations := delegations s @
           [\<lparr>d_operator = op, d_customer = newid, d_scopes = DelegationScopes, d_created_by = nullif a\<rparr>]\<rparr> \<and>
      r = GetTenant (\<lambda>n. flt (n + 5)) s' newid)"
proof (cases "tenant_by_id op s")
  case None
  with assms show ?thesis by (simp add: CreateCustomer_def Let_def split: if_split_asm) blast+
next
  case (Some t)
  with assms show ?thesis
    unfolding CreateCustomer_def Let_def by (simp split: if_split_asm) blast+
qed

lemma UpdateTenant_result:
  assumes "UpdateTenant flt s tid inp = (s', r)"
  shows "s' = s \<or>
    (s' = s\<lparr>tenants := upd (\<lambda>t. t_id t = tid) (patch_tenant inp) (tenants s)\<rparr> \<and>
     names_per_parent (upd (\<lambda>t. t_id t = tid) (patch_tenant inp) (tenants s)) \<and>
     uti_status inp \<in> {None, Some StatusActive, Some StatusSuspended})"
proof (cases "uti_status inp")
  case None
  with assms show ?thesis unfolding UpdateTenant_def Let_def by (simp split: if_split_asm; blast)
next
  case (Some v)
  with assms show ?thesis unfolding UpdateTenant_def Let_def by (simp split: if_split_asm; blast)
qed

lemma SetCredentials_result:
  assumes "SetCredentials vc seal flt s tid cid key = (s', r)"
  shows "(s' = s \<and> (\<exists>e. r = Inl e)) \<or>
    (\<exists>enc. r = Inr () \<and> seal key = Some enc \<and> tenant_by_id tid s \<noteq> None \<and> vc cid key \<and>
      \<not> list_ex (\<lambda>c. c_tenant c \<noteq> tid \<and> map_option lower (c_client_id c) = Some (lower cid)) (credentials s) \<and>
      s' = s\<lparr>credentials := put_credential tid cid enc (credentials s)\<rparr>)"
proof (cases "seal key")
  case None
  with assms show ?thesis unfolding SetCredentials_def by (simp split: if_split_asm) blast+
next
  case (Some enc)
  with assms show ?thesis unfolding SetCredentials_def by (simp split: if_split_asm) blast+
qed

definition self_tenant_row :: "uuid \<Rightarrow> time \<Rightarrow> string \<Rightarrow> tenant_row" where
  "self_tenant_row newid now name = \<lparr>t_id = newid, t_name = name, t_kind = KindCustomer, t_parent = None,
     t_status = StatusActive, t_managed = False, t_mode = EntitlementImplicit,
     t_fleet_lite = True, t_enforced = False, t_external_ref = None, t_created = now\<rparr>"

definition self_credential_row :: "uuid \<Rightarrow> string \<Rightarrow> string \<Rightarrow> credential_row" where
  "self_credential_row newid cid enc = \<lparr>c_tenant = newid, c_client_id = Some cid, c_api_key_enc = Some enc,
     c_signer_address = None, c_signer_key_enc = None, c_is_service = False,
     c_aa_address = None, c_aa_key_enc = None\<rparr>"

definition self_owner_row :: "uuid \<Rightarrow> time \<Rightarrow> string \<Rightarrow> membership_row" where
  "self_owner_row newid now w = \<lparr>m_tenant = newid, m_wallet = w, m_role = ''owner'',
     m_perms = marshal_strings [CapManageMembers, CapManageSettings], m_scope = None,
     m_granted_by_tenant = None, m_granted_by_wallet = Some w, m_last_login = None, m_created = now\<rparr>"

lemma CreateSelfServe_result:
  assumes "CreateSelfServe L vc seal flt newid now s inp = (s', r)"
  shows "(s' = s \<and> (\<exists>e. r = Inl e)) \<or>
    (\<exists>enc. seal (ssi_api_key inp) = Some enc \<and> vc (ssi_client_id inp) (ssi_api_key inp) \<and>
      ssi_client_id inp \<noteq> [] \<and> ssi_owner_wallet inp \<noteq> [] \<and>
      \<not> tenant_conflict (self_tenant_row newid now (TrimSpace (ssi_name inp))) (tenants s) \<and>
      \<not> list_ex (\<lambda>c. c_tenant c = newid \<or>
          map_option lower (c_client_id c) = Some (lower (ssi_client_id inp))) (credentials s) \<and>
      s' = s\<lparr>tenants := tenants s @ [self_tenant_row newid now (TrimSpace (ssi_name inp))],
          credentials := credentials s @ [self_credential_row newid (ssi_client_id inp) enc],
          users := put_user (HexAddr L (ssi_owner_wallet inp)) (ssi_owner_email inp) (users s),
          memberships := memberships s @ [self_owner_row newid now (HexAddr L (ssi_owner_wallet inp))]\<rparr> \<and>
      r = GetTenant (\<lambda>n. flt (n + 6)) s' newid)"
proof (cases "seal (ssi_api_key inp)")
  case None
  with assms show ?thesis unfolding CreateSelfServe_def Let_def by (simp split: if_split_asm) blast+
next
  case (Some enc)
  with assms show ?thesis
    unfolding CreateSelfServe_def Let_def self_tenant_row_def self_credential_row_def self_owner_row_def
    by (simp split: if_split_asm) blast+
qed

subsection \<open>Every operation keeps the invariant\<close>

lemma tenant_exists_append: "tenant_exists (s\<lparr>tenants := tenants s @ ts\<rparr>) tid \<longleftrightarrow>
    tenant_exists s tid \<or> (\<exists>t\<in>set ts. t_id t = tid)"
  by (auto simp: tenant_exists_def list_ex_iff)

lemma not_tenant_conflict:
  "\<not> tenant_conflict new ts \<longleftrightarrow>
     (\<forall>t\<in>set ts. t_id t \<noteq> t_id new) \<and>
     (t_parent new \<noteq> None \<longrightarrow> (\<forall>t\<in>set ts. t_parent t = t_parent new \<longrightarrow> lower (t_name t) \<noteq> lower (t_name new)))"
  by (auto simp: tenant_conflict_def list_ex_iff)

lemma fresh_tenant_unreferenced:
  assumes "tenant_inv s" and "\<forall>t\<in>set (tenants s). t_id t \<noteq> i"
  shows "\<forall>m\<in>set (memberships s). m_tenant m \<noteq> i" "\<forall>c\<in>set (credentials s). c_tenant c \<noteq> i"
    "\<forall>d\<in>set (delegations s). d_operator d \<noteq> i \<and> d_customer d \<noteq> i"
  using assms by (fastforce simp: tenant_inv_def tenant_refs_def tenant_exists_def list_all_iff list_ex_iff)+

lemma tenant_shape_mono:
  "tenant_shape s t \<Longrightarrow> set (tenants s) \<subseteq> set (tenants s') \<Longrightarrow> tenant_shape s' t"
  by (fastforce simp: tenant_shape_def list_ex_iff split: option.splits)

lemma CreateCustomer_inv:
  assumes "tenant_inv s"
  shows "tenant_inv (fst (CreateCustomer flt newid now s op inp a))"
proof (cases "CreateCustomer flt newid now s op inp a")
  case (Pair s' r)
  let ?row = "customer_row newid now (TrimSpace (cti_name inp)) op inp"
  consider "s' = s" | t where "tenant_by_id op s = Some t" "t_kind t = KindOperator"
      "\<not> tenant_conflict ?row (tenants s)"
      "s' = s\<lparr>tenants := tenants s @ [?row], delegations := delegations s @
         [\<lparr>d_operator = op, d_customer = newid, d_scopes = DelegationScopes, d_created_by = nullif a\<rparr>]\<rparr>"
    using CreateCustomer_result [OF Pair] by blast
  then show ?thesis
  proof cases
    case 2
    have row [simp]: "t_id ?row = newid" "t_parent ?row = Some op" by (simp_all add: customer_row_def)
    have op: "t \<in> set (tenants s)" "t_id t = op" using tenant_by_id_SomeD [OF 2(1)] by simp_all
    have "\<forall>x\<in>set (tenants s). tenant_shape s' x"
      using assms tenant_shape_mono [of s _ s'] 2(4) by (auto simp: tenant_inv_def list_all_iff)
    moreover have "tenant_shape s' ?row"
      using op 2(2,4) by (auto simp: tenant_shape_def customer_row_def list_ex_iff)
    moreover have "tenant_exists s' x" if "tenant_exists s x \<or> x = newid" for x
      using that 2(4) by (auto simp: tenant_exists_def list_ex_iff)
    moreover have "tenant_exists s op" using op by (auto simp: tenant_exists_def list_ex_iff)
    moreover have "names_per_parent (tenants s @ [?row])" "unique_on (\<lambda>_. True) t_id (tenants s @ [?row])"
      using assms 2(3) by (auto simp: tenant_inv_def names_per_parent_def not_tenant_conflict)
    ultimately have "tenant_inv s'"
      using assms 2(4) by (simp add: tenant_inv_def licence_keys_def tenant_refs_def list_all_iff)
    with Pair show ?thesis by simp
  qed (use assms Pair in simp)
qed

lemma UpdateTenant_inv:
  assumes "tenant_inv s"
  shows "tenant_inv (fst (UpdateTenant flt s tid inp))"
proof (cases "UpdateTenant flt s tid inp")
  case (Pair s' r)
  let ?ts = "upd (\<lambda>t. t_id t = tid) (patch_tenant inp) (tenants s)"
  have keep [simp]: "t_id (patch_tenant inp t) = t_id t" "t_kind (patch_tenant inp t) = t_kind t"
    "t_parent (patch_tenant inp t) = t_parent t" for t by (simp_all add: patch_tenant_def)
  have ex: "list_ex Q ?ts = list_ex Q (tenants s)" if "\<And>t. Q (patch_tenant inp t) = Q t" for Q
    using that by (rule list_ex_upd)
  consider "s' = s" | "s' = s\<lparr>tenants := ?ts\<rparr>" "names_per_parent ?ts"
      "uti_status inp \<in> {None, Some StatusActive, Some StatusSuspended}"
    using UpdateTenant_result [OF Pair] by blast
  then show ?thesis
  proof cases
    case 2
    have te: "tenant_exists s' = tenant_exists s"
      unfolding tenant_exists_def 2(1) by (auto simp: ex)
    have "tenant_shape s' t \<longleftrightarrow> tenant_shape s t" for t
      unfolding tenant_shape_def 2(1) by (simp add: ex split: option.split)
    moreover have "tenant_shape s t \<Longrightarrow> tenant_shape s (patch_tenant inp t)" for t
      using 2(3) by (auto simp: tenant_shape_def patch_tenant_def)
    ultimately have "\<forall>t\<in>set ?ts. tenant_shape s' t"
      using assms by (auto simp: tenant_inv_def list_all_iff set_upd)
    moreover have "unique_on (\<lambda>_. True) t_id ?ts"
      using assms by (intro unique_on_upd) (auto simp: tenant_inv_def)
    ultimately have "tenant_inv s'"
      using assms 2 te unfolding tenant_inv_def licence_keys_def tenant_refs_def list_all_iff by simp
    with Pair show ?thesis by simp
  qed (use assms Pair in simp)
qed

lemma SetCredentials_inv:
  assumes "tenant_inv s"
  shows "tenant_inv (fst (SetCredentials vc seal flt s tid cid key))"
proof (cases "SetCredentials vc seal flt s tid cid key")
  case (Pair s' r)
  consider "s' = s" | enc where "tenant_by_id tid s \<noteq> None"
      "\<not> list_ex (\<lambda>c. c_tenant c \<noteq> tid \<and> map_option lower (c_client_id c) = Some (lower cid)) (credentials s)"
      "s' = s\<lparr>credentials := put_credential tid cid enc (credentials s)\<rparr>"
    using SetCredentials_result [OF Pair] by blast
  then show ?thesis
  proof cases
    case 2
    have "licence_keys s'" using assms put_credential_keys [OF _ 2(2)] 2(3) by (simp add: tenant_inv_def)
    moreover have "tenant_exists s' = tenant_exists s" "tenant_shape s' = tenant_shape s"
      using 2(3) by (intro tenants_same; simp)+
    moreover have "\<forall>c\<in>set (credentials s'). tenant_exists s (c_tenant c)"
      using 2 assms put_credential_tenants [of _ tid cid enc "credentials s"]
      by (fastforce simp: tenant_exists_by_id tenant_inv_def tenant_refs_def list_all_iff)
    ultimately have "tenant_inv s'"
      using assms 2(3) by (simp add: tenant_inv_def tenant_refs_def list_all_iff)
    with Pair show ?thesis by simp
  qed (use assms Pair in simp)
qed

lemma CreateSelfServe_inv:
  assumes "tenant_inv s"
  shows "tenant_inv (fst (CreateSelfServe L vc seal flt newid now s inp))"
proof (cases "CreateSelfServe L vc seal flt newid now s inp")
  case (Pair s' r)
  let ?row = "self_tenant_row newid now (TrimSpace (ssi_name inp))"
  consider "s' = s" | enc where "\<not> tenant_conflict ?row (tenants s)"
      "\<not> list_ex (\<lambda>c. c_tenant c = newid \<or>
          map_option lower (c_client_id c) = Some (lower (ssi_client_id inp))) (credentials s)"
      "s' = s\<lparr>tenants := tenants s @ [?row],
          credentials := credentials s @ [self_credential_row newid (ssi_client_id inp) enc],
          users := put_user (HexAddr L (ssi_owner_wallet inp)) (ssi_owner_email inp) (users s),
          memberships := memberships s @ [self_owner_row newid now (HexAddr L (ssi_owner_wallet inp))]\<rparr>"
    using CreateSelfServe_result [OF Pair] by blast
  then show ?thesis
  proof cases
    case 2
    have row [simp]: "t_id ?row = newid" "t_parent ?row = None" by (simp_all add: self_tenant_row_def)
    have "\<forall>x\<in>set (tenants s). tenant_shape s' x"
      using assms tenant_shape_mono [of s _ s'] 2(3) by (auto simp: tenant_inv_def list_all_iff)
    moreover have "tenant_shape s' ?row" by (simp add: tenant_shape_def self_tenant_row_def)
    moreover have "tenant_exists s' x" if "tenant_exists s x \<or> x = newid" for x
      using that 2(3) by (auto simp: tenant_exists_def list_ex_iff)
    moreover have "names_per_parent (tenants s @ [?row])" "unique_on (\<lambda>_. True) t_id (tenants s @ [?row])"
      using assms 2(1) by (auto simp: tenant_inv_def names_per_parent_def not_tenant_conflict)
    moreover have "licence_keys s'"
      using assms 2(2,3) by (auto simp: tenant_inv_def licence_keys_def self_credential_row_def list_ex_iff)
    ultimately have "tenant_inv s'"
      using assms 2(3)
      by (simp add: tenant_inv_def tenant_refs_def list_all_iff self_credential_row_def self_owner_row_def)
    with Pair show ?thesis by simp
  qed (use assms Pair in simp)
qed

datatype tenant_op =
    TCreate faults uuid time uuid create_tenant_input string
  | TUpdate faults uuid update_tenant_input
  | TSelfServe faults uuid time self_serve_input
  | TCredentials faults uuid string string

fun tenant_step ::
  "library \<Rightarrow> (string \<Rightarrow> string \<Rightarrow> bool) \<Rightarrow> (string \<Rightarrow> string option) \<Rightarrow> tenant_op \<Rightarrow> db \<Rightarrow> db" where
  "tenant_step L vc seal (TCreate flt i now op inp a) s = fst (CreateCustomer flt i now s op inp a)"
| "tenant_step L vc seal (TUpdate flt tid inp) s = fst (UpdateTenant flt s tid inp)"
| "tenant_step L vc seal (TSelfServe flt i now inp) s = fst (CreateSelfServe L vc seal flt i now s inp)"
| "tenant_step L vc seal (TCredentials flt tid cid key) s = fst (SetCredentials vc seal flt s tid cid key)"

text \<open>Tenants are never deleted, never change kind and never change parent.\<close>

definition tenants_kept :: "db \<Rightarrow> db \<Rightarrow> bool" where
  "tenants_kept s s' \<longleftrightarrow>
     (\<forall>t\<in>set (tenants s). \<exists>t'\<in>set (tenants s'). t_id t' = t_id t \<and> t_kind t' = t_kind t \<and> t_parent t' = t_parent t)"

lemma UpdateTenant_kept: "tenants_kept s (fst (UpdateTenant flt s tid inp))"
proof (cases "UpdateTenant flt s tid inp")
  case (Pair s' r)
  let ?P = "\<lambda>t. t_id t = tid" and ?f = "patch_tenant inp"
  have up: "tenants_kept s (s\<lparr>tenants := upd ?P ?f (tenants s)\<rparr>)"
    unfolding tenants_kept_def
  proof
    fix t assume "t \<in> set (tenants s)"
    then show "\<exists>t'\<in>set (tenants (s\<lparr>tenants := upd ?P ?f (tenants s)\<rparr>)).
        t_id t' = t_id t \<and> t_kind t' = t_kind t \<and> t_parent t' = t_parent t"
      by (intro bexI [of _ "if ?P t then ?f t else t"]) (auto simp: upd_def patch_tenant_def)
  qed
  have "tenants_kept s s" by (auto simp: tenants_kept_def)
  with up UpdateTenant_result [OF Pair] Pair show ?thesis by auto
qed

lemma tenant_step_kept: "tenants_kept s (tenant_step L vc seal op s)"
proof (cases op)
  case (TCreate flt i now o' inp a)
  with CreateCustomer_result [of flt i now s o' inp a] show ?thesis
    by (cases "CreateCustomer flt i now s o' inp a") (auto simp: tenants_kept_def)
next
  case (TSelfServe flt i now inp)
  with CreateSelfServe_result [of L vc seal flt i now s inp] show ?thesis
    by (cases "CreateSelfServe L vc seal flt i now s inp") (auto simp: tenants_kept_def)
next
  case (TCredentials flt tid cid key)
  with SetCredentials_result [of vc seal flt s tid cid key] show ?thesis
    by (cases "SetCredentials vc seal flt s tid cid key") (auto simp: tenants_kept_def)
qed (simp add: UpdateTenant_kept)

lemma tenant_step_inv: "tenant_inv s \<Longrightarrow> tenant_inv (tenant_step L vc seal op s)"
  by (cases op) (simp_all add: CreateCustomer_inv UpdateTenant_inv CreateSelfServe_inv SetCredentials_inv)

interpretation tenant_ops: op_history "tenant_step L vc seal" tenant_inv tenants_kept for L vc seal
proof unfold_locales
  fix s t u assume "tenants_kept s t" "tenants_kept t u"
  then show "tenants_kept s u" unfolding tenants_kept_def by metis
qed (auto simp: tenant_step_inv tenant_step_kept, auto simp: tenants_kept_def)

subsection \<open>Properties\<close>

lemma demo_tenant_inv: "tenant_inv demo_db"
  by (simp add: tenant_inv_def names_per_parent_def tenant_shape_def licence_keys_def tenant_refs_def
      tenant_exists_def demo_defs text_eval)

text \<open>
  A created customer is one its operator can reach: it is a managed, explicit-mode customer
  beneath the operator, the operator's licence may ask about it, and every member of the
  operator is authorized in it by delegation with exactly the management scopes.
\<close>

theorem CreateCustomer_reachable:
  assumes "tenant_inv s" and "CreateCustomer flt newid now s op inp a = (s', Inr tn)"
    and "m \<in> set (memberships s)" "m_tenant m = op" "lower (m_wallet m) = lower (HexAddr L w)"
    and "w \<noteq> []" "newid \<noteq> []" "uuidParse L newid" "ct_tenant c = op"
  shows "wt_id tn = newid \<and> wn_kind tn = KindCustomer \<and> wn_managed tn \<and> wn_mode tn = EntitlementExplicit \<and>
    wn_parent tn = Some op \<and>
    CallerMayAccess L no_faults s' (Some c) newid = Inr True \<and>
    (\<exists>r. Authorize L no_faults s' newid w = Inr r \<and> ar_via r = ViaDelegation \<and>
         ar_operator r = op \<and> ar_perms r = DelegationScopes)"
proof -
  let ?row = "customer_row newid now (TrimSpace (cti_name inp)) op inp"
  let ?d = "\<lparr>d_operator = op, d_customer = newid, d_scopes = DelegationScopes, d_created_by = nullif a\<rparr>"
  from CreateCustomer_result [OF assms(2)] have nc: "\<not> tenant_conflict ?row (tenants s)"
    and s': "s' = s\<lparr>tenants := tenants s @ [?row], delegations := delegations s @ [?d]\<rparr>"
    and g: "GetTenant (\<lambda>n. flt (n + 5)) s' newid = Inr tn" by auto
  have fresh: "\<forall>t\<in>set (tenants s). t_id t \<noteq> newid" using nc by (simp add: not_tenant_conflict customer_row_def)
  then have t: "tenant_by_id newid s' = Some ?row"
    by (simp add: tenant_by_id_def s' find_append find_None [THEN iffD2] customer_row_def)
  note unref = fresh_tenant_unreferenced [OF assms(1) fresh]
  have "membership_of s' newid (HexAddr L w) = None" using unref(1) by (simp add: membership_of_None s')
  moreover have "delegation_for s' newid (HexAddr L w) = Some ?d"
    using unref(3) assms(3-5)
    by (auto simp: delegation_for_def s' find_append list_ex_iff find_None dest!: find_SomeD split: option.split)
  ultimately have "\<exists>r. Authorize L no_faults s' newid w = Inr r \<and> ar_via r = ViaDelegation \<and>
         ar_operator r = op \<and> ar_perms r = DelegationScopes"
    using t assms(6,7) by (simp add: Authorize_def customer_row_def)
  moreover have "CallerMayAccess L no_faults s' (Some c) newid = Inr True"
    using assms(8,9) by (simp add: CallerMayAccess_def has_delegation_def s')
  moreover have "tn = scanTenantWithCounts s' ?row" using g t by (simp add: GetTenant_def split: if_splits)
  ultimately show ?thesis by (simp add: scanTenantWithCounts_def customer_row_def Let_def)
qed

definition demo_customer :: create_tenant_input where
  "demo_customer = \<lparr>cti_name = '' New '', cti_external_ref = None\<rparr>"

lemma demo_CreateCustomer:
  "\<exists>s' tn. CreateCustomer no_faults ''n1'' 9 demo_db ''op'' demo_customer [] = (s', Inr tn)"
  by (simp add: CreateCustomer_def GetTenant_def demo_customer_def customer_row_def tenant_conflict_def
      tenant_by_id_def has_delegation_def TrimSpace_def trim_both_def trim_right_def is_space_def
      demo_defs text_eval)

lemma CreateCustomer_reachable_witness:
  "\<exists>s' tn r. CreateCustomer no_faults ''n1'' 9 demo_db ''op'' demo_customer [] = (s', Inr tn) \<and>
     Authorize demo_library no_faults s' ''n1'' ''0xAA'' = Inr r \<and> ar_perms r = DelegationScopes"
proof -
  let ?m = "mk_member ''op'' ''0xaa'' ''admin'' [CapManageMembers] None"
  obtain s' tn where c: "CreateCustomer no_faults ''n1'' 9 demo_db ''op'' demo_customer [] = (s', Inr tn)"
    using demo_CreateCustomer by blast
  have "?m \<in> set (memberships demo_db)" "m_tenant ?m = ''op''"
    "lower (m_wallet ?m) = lower (HexAddr demo_library ''0xAA'')" "uuidParse demo_library ''n1''"
    by (simp_all add: demo_defs text_eval)
  from CreateCustomer_reachable [OF demo_tenant_inv c this(1-3) _ _ this(4),
      where c = "mk_caller ''op'' False"] c
  show ?thesis by auto
qed

text \<open>
  Creation is all or nothing: when \<open>CreateCustomer\<close> reports an error, nothing was written;
  the one exception is the read-back after the commit, where the customer and its delegation
  both exist.
\<close>

theorem CreateCustomer_atomic:
  assumes "CreateCustomer flt newid now s op inp a = (s', Inl e)"
  shows "s' = s \<or> (flt 5 \<and> e = DbError ''get tenant'' \<and> tenant_exists s' newid \<and> has_delegation s' op newid)"
proof -
  let ?row = "customer_row newid now (TrimSpace (cti_name inp)) op inp"
  let ?d = "\<lparr>d_operator = op, d_customer = newid, d_scopes = DelegationScopes, d_created_by = nullif a\<rparr>"
  consider "s' = s" | "s' = s\<lparr>tenants := tenants s @ [?row], delegations := delegations s @ [?d]\<rparr>"
      "GetTenant (\<lambda>n. flt (n + 5)) s' newid = Inl e"
    using CreateCustomer_result [OF assms] by auto
  then show ?thesis
  proof cases
    case 2
    then have ex: "tenant_exists s' newid" "has_delegation s' op newid"
      by (simp_all add: tenant_exists_def has_delegation_def customer_row_def)
    then have "tenant_by_id newid s' \<noteq> None" by (simp add: tenant_exists_by_id)
    with 2(2) ex show ?thesis by (auto simp: GetTenant_def split: if_splits)
  qed simp
qed

lemma CreateCustomer_atomic_witness:
  "fst (CreateCustomer (\<lambda>n. n = 3) ''n1'' 9 demo_db ''op'' demo_customer []) = demo_db"
proof -
  have "\<exists>s' e. CreateCustomer (\<lambda>n. n = 3) ''n1'' 9 demo_db ''op'' demo_customer [] = (s', Inl e)"
    by (simp add: CreateCustomer_def demo_customer_def customer_row_def tenant_conflict_def
        tenant_by_id_def TrimSpace_def trim_both_def trim_right_def is_space_def demo_defs text_eval)
  then obtain s' e where c: "CreateCustomer (\<lambda>n. n = 3) ''n1'' 9 demo_db ''op'' demo_customer [] = (s', Inl e)"
    by blast
  from CreateCustomer_atomic [OF c] c show ?thesis by simp
qed

text \<open>
  Over any sequence of tenant writes, under any faults, the hierarchy holds: operators have
  no parent, every parent is an operator, customer names are unique per operator up to case, a
  licence has one holder, and every membership, credential and delegation names a tenant. No
  tenant disappears, changes kind or moves to another operator.
\<close>

theorem tenant_ops_invariant:
  assumes "tenant_inv s"
  shows "tenant_inv (fold (tenant_step L vc seal) ops s) \<and> tenants_kept s (fold (tenant_step L vc seal) ops s)"
  using assms by (simp add: tenant_ops.run_inv tenant_ops.run_later)

lemma tenant_ops_invariant_witness:
  "tenant_inv (fold (tenant_step demo_library (\<lambda>_ _. True) Some)
     [TCreate no_faults ''n1'' 9 ''op'' demo_customer [], TCredentials no_faults ''n1'' ''0xNEW'' ''k''] demo_db)"
  using tenant_ops_invariant [OF demo_tenant_inv] by blast

text \<open>
  A successful patch touches one tenant and only the fields it names, an explicit empty
  external reference clearing it; when it suspends the tenant, nobody is authorized in it any
  more, and when it fails before its single statement nothing changed.
\<close>

theorem UpdateTenant_patch:
  assumes "UpdateTenant flt s tid inp = (s', Inr tn)"
  shows "(\<forall>i. i \<noteq> tid \<longrightarrow> tenant_by_id i s' = tenant_by_id i s) \<and>
    tenant_by_id tid s' = map_option (patch_tenant inp) (tenant_by_id tid s) \<and>
    (uti_status inp = Some StatusSuspended \<longrightarrow>
       (\<forall>L flt' w r. Authorize L flt' s' tid w = Inr r \<longrightarrow> ar_via r = ViaNone \<and> ar_perms r = []))"
proof -
  have noop_patch: "no_sets inp \<Longrightarrow> patch_tenant inp t = t" for t
    by (simp add: no_sets_def patch_tenant_def)
  have "s' = s \<and> no_sets inp \<or> s' = s\<lparr>tenants := upd (\<lambda>t. t_id t = tid) (patch_tenant inp) (tenants s)\<rparr>"
    using assms unfolding UpdateTenant_def Let_def by (simp split: if_split_asm)
  then consider (noop) "s' = s" "no_sets inp" | (patch) "s' = s\<lparr>tenants := upd (\<lambda>t. t_id t = tid) (patch_tenant inp) (tenants s)\<rparr>"
    by blast
  then have "(\<forall>i. i \<noteq> tid \<longrightarrow> tenant_by_id i s' = tenant_by_id i s) \<and>
      tenant_by_id tid s' = map_option (patch_tenant inp) (tenant_by_id tid s)"
  proof cases
    case noop
    then show ?thesis by (cases "tenant_by_id tid s") (simp_all add: noop_patch)
  next
    case patch
    have "t_id (patch_tenant inp t) = t_id t" for t by (simp add: patch_tenant_def)
    with patch show ?thesis by (simp add: tenant_by_id_def find_upd_same find_upd_other)
  qed
  then have other: "\<forall>i. i \<noteq> tid \<longrightarrow> tenant_by_id i s' = tenant_by_id i s"
    and this': "tenant_by_id tid s' = map_option (patch_tenant inp) (tenant_by_id tid s)"
    by blast+
  have "ar_via r = ViaNone \<and> ar_perms r = []"
    if st: "uti_status inp = Some StatusSuspended" and a: "Authorize L flt' s' tid w = Inr r" for L flt' w r
  proof (cases "tenant_by_id tid s'")
    case None
    with a show ?thesis by (auto simp: Authorize_def Let_def split: if_splits)
  next
    case (Some t)
    with this' st have "t_status t \<noteq> StatusActive"
      by (cases "tenant_by_id tid s") (auto simp: patch_tenant_def)
    with a Some show ?thesis by (auto simp: Authorize_def Let_def split: if_splits)
  qed
  with other this' show ?thesis by blast
qed

definition demo_suspend :: update_tenant_input where
  "demo_suspend = \<lparr>uti_name = None, uti_status = Some StatusSuspended, uti_fleet_lite = None,
     uti_enforced = None, uti_external_ref = None\<rparr>"

lemma UpdateTenant_patch_witness:
  "\<exists>s' tn. UpdateTenant no_faults demo_db ''cu'' demo_suspend = (s', Inr tn) \<and>
     tenant_by_id ''op'' s' = tenant_by_id ''op'' demo_db"
proof -
  obtain s' tn where u: "UpdateTenant no_faults demo_db ''cu'' demo_suspend = (s', Inr tn)"
    by (simp add: UpdateTenant_def demo_suspend_def no_sets_def names_per_parent_def patch_tenant_def
        GetTenant_def tenant_by_id_def demo_defs text_eval)
  from UpdateTenant_patch [OF u] have "\<forall>i. i \<noteq> ''cu'' \<longrightarrow> tenant_by_id i s' = tenant_by_id i demo_db" by blast
  with u show ?thesis by auto
qed

text \<open>
  A self-serve tenant appears whole: on success its licence resolves to it, its effective
  credential is its own, and its owner is authorized directly and unrestricted with the owner's
  capabilities; on failure nothing was written unless only the read-back failed.
\<close>

theorem CreateSelfServe_whole:
  assumes "address_laws L" and "tenant_inv s" and "newid \<noteq> []"
    and "CreateSelfServe L vc seal flt newid now s inp = (s', r)"
  shows "(s' = s \<and> (\<exists>e. r = Inl e)) \<or>
    ((\<exists>ref. ResolveByClientID no_faults s' (ssi_client_id inp) = Inr ref \<and> tr_tenant ref = newid) \<and>
     (\<exists>ec. Effective no_faults s' newid = Inr ec \<and> ec_tenant ec = newid) \<and>
     (\<exists>a. Authorize L no_faults s' newid (ssi_owner_wallet inp) = Inr a \<and> ar_via a = ViaDirect \<and>
        Unrestricted a \<and> HasCapability a CapManageMembers \<and> HasCapability a CapManageSettings))"
proof -
  let ?row = "self_tenant_row newid now (TrimSpace (ssi_name inp))"
  let ?w = "HexAddr L (ssi_owner_wallet inp)"
  consider "s' = s \<and> (\<exists>e. r = Inl e)" | enc where "\<not> tenant_conflict ?row (tenants s)"
      "ssi_client_id inp \<noteq> []" "ssi_owner_wallet inp \<noteq> []"
      "\<not> list_ex (\<lambda>c. c_tenant c = newid \<or>
          map_option lower (c_client_id c) = Some (lower (ssi_client_id inp))) (credentials s)"
      "s' = s\<lparr>tenants := tenants s @ [?row],
          credentials := credentials s @ [self_credential_row newid (ssi_client_id inp) enc],
          users := put_user ?w (ssi_owner_email inp) (users s),
          memberships := memberships s @ [self_owner_row newid now ?w]\<rparr>"
    using CreateSelfServe_result [OF assms(4)] by blast
  then show ?thesis
  proof cases
    case 2
    have fresh: "\<forall>t\<in>set (tenants s). t_id t \<noteq> newid"
      using 2(1) by (simp add: not_tenant_conflict self_tenant_row_def)
    have t: "tenant_by_id newid s' = Some ?row"
      by (simp add: tenant_by_id_def 2(5) find_append find_None [THEN iffD2] fresh self_tenant_row_def)
    have noc: "\<forall>c\<in>set (credentials s). c_tenant c \<noteq> newid"
      "\<forall>c\<in>set (credentials s). map_option lower (c_client_id c) \<noteq> Some (lower (ssi_client_id inp))"
      using 2(4) by (auto simp: list_ex_iff)
    have "List.map_filter (\<lambda>c. if map_option lower (c_client_id c) = Some (lower (ssi_client_id inp))
        then tenant_by_id (c_tenant c) s' else None) (credentials s') = [?row]"
      using noc(2) t by (auto simp: 2(5) List.map_filter_def self_credential_row_def filter_empty_conv)
    then have "\<exists>ref. ResolveByClientID no_faults s' (ssi_client_id inp) = Inr ref \<and> tr_tenant ref = newid"
      using 2(2) by (simp add: ResolveByClientID_def tenant_ref_of_def self_tenant_row_def)
    moreover have "effective_row s' ?row = Some (self_credential_row newid (ssi_client_id inp) enc)"
      using noc(1) by (simp add: effective_row_def 2(5) find_append find_None [THEN iffD2]
          self_tenant_row_def self_credential_row_def)
    then have "\<exists>ec. Effective no_faults s' newid = Inr ec \<and> ec_tenant ec = newid"
      using t by (simp add: Effective_def effectiveWithKey_def self_credential_row_def)
    moreover have "membership_of s' newid ?w = Some (self_owner_row newid now ?w)"
      using fresh_tenant_unreferenced(1) [OF assms(2) fresh]
      by (simp add: membership_of_def 2(5) find_append find_None [THEN iffD2] self_owner_row_def)
    then have "\<exists>a. Authorize L no_faults s' newid (ssi_owner_wallet inp) = Inr a \<and> ar_via a = ViaDirect \<and>
        Unrestricted a \<and> HasCapability a CapManageMembers \<and> HasCapability a CapManageSettings"
      using t 2(3) assms(3)
      by (simp add: Authorize_def self_tenant_row_def self_owner_row_def Unrestricted_def HasCapability_def)
    ultimately show ?thesis by blast
  qed blast
qed

definition demo_self :: self_serve_input where
  "demo_self = \<lparr>ssi_name = ''Solo'', ssi_client_id = ''0xSOLO'', ssi_api_key = ''k'',
     ssi_owner_wallet = ''0xDD'', ssi_owner_email = []\<rparr>"

lemma CreateSelfServe_whole_witness:
  "\<exists>s' r ref. CreateSelfServe demo_library (\<lambda>_ _. True) Some no_faults ''n2'' 9 demo_db demo_self = (s', r) \<and>
     ResolveByClientID no_faults s' ''0xSOLO'' = Inr ref \<and> tr_tenant ref = ''n2''"
proof -
  have ok: "\<exists>s' tn. CreateSelfServe demo_library (\<lambda>_ _. True) Some no_faults ''n2'' 9 demo_db demo_self = (s', Inr tn)"
    by (simp add: CreateSelfServe_def demo_self_def tenant_conflict_def TrimSpace_def trim_both_def
        trim_right_def is_space_def member_key_def GetTenant_def tenant_by_id_def demo_defs text_eval)
  then obtain s' tn where c:
    "CreateSelfServe demo_library (\<lambda>_ _. True) Some no_faults ''n2'' 9 demo_db demo_self = (s', Inr tn)" by blast
  have "ssi_client_id demo_self = ''0xSOLO''" by (simp add: demo_self_def)
  with CreateSelfServe_whole [OF demo_address_laws demo_tenant_inv _ c] c show ?thesis by auto
qed

text \<open>
  Setting credentials graduates a customer: afterwards its effective credential is its own,
  carrying the new client id, and its operator's licence reaches it only if a delegation says so.
\<close>

theorem SetCredentials_graduates:
  assumes "tenant_inv s" and "SetCredentials vc seal flt s tid cid key = (s', Inr ())"
    and "uuidParse L tid" and "ct_tenant c \<noteq> tid" "\<not> ct_is_service c"
  shows "vc cid key \<and>
    (\<exists>ec. Effective no_faults s' tid = Inr ec \<and> ec_tenant ec = tid \<and> ec_client_id ec = cid) \<and>
    CallerMayAccess L no_faults s' (Some c) tid = Inr (has_delegation s (ct_tenant c) tid)"
proof -
  from SetCredentials_result [OF assms(2)] obtain enc where vc: "vc cid key"
    and s': "s' = s\<lparr>credentials := put_credential tid cid enc (credentials s)\<rparr>"
    and t: "tenant_by_id tid s \<noteq> None" by blast
  then obtain t where t: "tenant_by_id tid s' = Some t" "t_id t = tid"
    by (auto simp: tenant_by_id_def dest: find_SomeD)
  have lk: "licence_keys s'"
    using SetCredentials_inv [OF assms(1), of vc seal flt tid cid key] assms(2) by (simp add: tenant_inv_def)
  have "find (\<lambda>c. c_tenant c = tid) (credentials s') =
      Some (case find (\<lambda>c. c_tenant c = tid) (credentials s) of
        None \<Rightarrow> self_credential_row tid cid enc
      | Some old \<Rightarrow> old\<lparr>c_client_id := Some cid, c_api_key_enc := Some enc\<rparr>)"
    by (simp add: s' put_credential_def self_credential_row_def find_upsert_row split: option.split)
  then obtain k where k: "find (\<lambda>c. c_tenant c = tid) (credentials s') = Some k" "c_client_id k = Some cid"
    by (cases "find (\<lambda>c. c_tenant c = tid) (credentials s)") (simp_all add: self_credential_row_def)
  have "find (\<lambda>c. c_tenant c = tid \<and> c_client_id c \<noteq> None) (credentials s') = Some k"
  proof -
    have "c_client_id c \<noteq> None" if "c \<in> set (credentials s')" "c_tenant c = tid" for c
      using put_credential_client [of c tid cid enc "credentials s"] that s' by simp
    then have "find (\<lambda>c. c_tenant c = tid \<and> c_client_id c \<noteq> None) (credentials s') =
        find (\<lambda>c. c_tenant c = tid) (credentials s')" by (intro find_cong_on) auto
    with k show ?thesis by simp
  qed
  then have "effective_row s' t = Some k" using t(2) by (simp add: effective_row_def)
  then have eff: "\<exists>ec. Effective no_faults s' tid = Inr ec \<and> ec_tenant ec = tid \<and> ec_client_id ec = cid"
    using t k find_SomeD [OF k(1)] by (simp add: Effective_def effectiveWithKey_def null_str_def)
  have "holds_licence s' tid"
    using find_SomeD [OF k(1)] k(2) by (auto simp: holds_licence_def list_ex_iff)
  then have "\<not> reaches_child s' (ct_tenant c) tid"
    using reaches_child_no_licence [of s'] lk by (auto simp: licence_keys_def)
  then have "CallerMayAccess L no_faults s' (Some c) tid = Inr (has_delegation s (ct_tenant c) tid)"
    using assms(3-5) by (simp add: CallerMayAccess_def s' has_delegation_def)
  with vc eff show ?thesis by blast
qed

lemma SetCredentials_graduates_witness:
  "\<exists>s' ec. SetCredentials (\<lambda>_ _. True) Some no_faults demo_db ''cu'' ''0xNEW'' ''k'' = (s', Inr ()) \<and>
     Effective no_faults s' ''cu'' = Inr ec \<and> ec_client_id ec = ''0xNEW''"
proof -
  obtain s' where c: "SetCredentials (\<lambda>_ _. True) Some no_faults demo_db ''cu'' ''0xNEW'' ''k'' = (s', Inr ())"
    by (simp add: SetCredentials_def tenant_by_id_def demo_defs text_eval)
  have "uuidParse demo_library ''cu''" by (simp add: demo_library_def)
  from SetCredentials_graduates [OF demo_tenant_inv c this,
      of "mk_caller ''op'' False"] c
  show ?thesis by auto
qed

text \<open>
  A stored secret reads back: whatever was sealed under a passphrase and a full nonce
  decrypts to itself under the same passphrase, and an absent secret decrypts to nothing.
\<close>

theorem secret_round_trip:
  assumes "crypto_laws K" and "length nonce = NonceSize"
  shows "DecryptSecret K pass (EncryptSecret K nonce pass plain) = Some plain \<and> DecryptSecret K pass [] = Some []"
proof -
  let ?raw = "nonce @ gcmSeal K (sha256 K pass) nonce plain"
  have "?raw \<noteq> []" using assms(2) by (auto simp: NonceSize_def)
  then have "b64enc K ?raw \<noteq> []" "b64dec K (b64enc K ?raw) = Some ?raw"
    using assms(1) unfolding crypto_laws_def by blast+
  then show ?thesis using assms by (simp add: DecryptSecret_def EncryptSecret_def crypto_laws_def)
qed

definition demo_crypto :: crypto where
  "demo_crypto = \<lparr>sha256 = id, gcmSeal = (\<lambda>k n p. k @ p), gcmOpen = (\<lambda>k n c.
     if take (length k) c = k then Some (drop (length k) c) else None), b64enc = id, b64dec = Some, b64url = id\<rparr>"

lemma secret_round_trip_witness:
  "DecryptSecret demo_crypto ''pw'' (EncryptSecret demo_crypto ''012345678901'' ''pw'' ''key'') = Some ''key''"
  using secret_round_trip [of demo_crypto "''012345678901''"]
  by (simp add: crypto_laws_def demo_crypto_def NonceSize_def)

end
