(* ===== verification/FleetGroups.thy ===== *)
theory FleetGroups
  imports Tenants
begin

text \<open>
  Fleet groups, \<open>service/groups.go\<close>: the slug and the id minted from a name, the group and
  group-vehicle writes, and what deleting a group does to everything that references it (the
  cascade, the \<open>SET NULL\<close> foreign key of entitlements and the trigger
  \<open>strip_deleted_group_from_scopes\<close> of the group-reference migration).
\<close>

subsection \<open>Slugs\<close>

definition slug_char :: "char \<Rightarrow> bool" where
  "slug_char c = (let n = (of_char c :: nat) in (97 \<le> n \<and> n \<le> 122) \<or> (48 \<le> n \<and> n \<le> 57))"

definition dash :: char where
  "dash = CHR ''-''"

text \<open>\<open>[^a-z0-9]+\<close> replaced by a dash; the flag says the previous character was in a run.\<close>

fun dash_runs :: "bool \<Rightarrow> string \<Rightarrow> string" where
  "dash_runs inrun [] = []"
| "dash_runs inrun (c # cs) =
     (if slug_char c then c # dash_runs False cs
      else if inrun then dash_runs True cs
      else dash # dash_runs True cs)"

definition slugify :: "string \<Rightarrow> string" where
  "slugify name = trim_both (\<lambda>c. c = dash) (dash_runs False (lower (TrimSpace name)))"

definition underscore :: char where
  "underscore = CHR ''_''"

definition GroupIDFor :: "uuid \<Rightarrow> string \<Rightarrow> string" where
  "GroupIDFor tenantID name = (let s = slugify name in if s = [] then [] else tenantID @ [underscore] @ s)"

definition hex_digit :: "char \<Rightarrow> bool" where
  "hex_digit c = (let n = (of_char c :: nat) in
     (48 \<le> n \<and> n \<le> 57) \<or> (97 \<le> n \<and> n \<le> 102) \<or> (65 \<le> n \<and> n \<le> 70))"

definition hexColor :: "string \<Rightarrow> bool" where
  "hexColor s = (length s = 7 \<and> hd s = CHR ''#'' \<and> list_all hex_digit (tl s))"

subsection \<open>Reads\<close>

record fleet_group =
  fg_id :: string
  fg_tenant :: uuid
  fg_name :: string
  fg_color :: string
  fg_count :: nat
  fg_created :: int
  fg_updated :: int

definition group_tokens :: "db \<Rightarrow> uuid \<Rightarrow> string \<Rightarrow> token_id list" where
  "group_tokens s tid gid =
     map gv_token (filter (\<lambda>v. gv_tenant v = tid \<and> gv_group v = gid) (group_vehicles s))"

definition scanGroup :: "db \<Rightarrow> group_row \<Rightarrow> fleet_group" where
  "scanGroup s g = \<lparr>fg_id = g_id g, fg_tenant = g_tenant g, fg_name = g_name g, fg_color = g_color g,
     fg_count = length (group_tokens s (g_tenant g) (g_id g)),
     fg_created = wireTime (g_created g), fg_updated = wireTime (g_updated g)\<rparr>"

definition ListGroups :: "faults \<Rightarrow> db \<Rightarrow> uuid \<Rightarrow> svc_error + fleet_group list" where
  "ListGroups flt s tenantID =
     (if flt 0 then Inl (DbError ''list groups'')
      else Inr (sort_key fg_name (map (scanGroup s) (filter (\<lambda>g. g_tenant g = tenantID) (fleet_groups s)))))"

definition ListWithVehicles :: "faults \<Rightarrow> db \<Rightarrow> uuid \<Rightarrow> svc_error + (fleet_group \<times> token_id list) list" where
  "ListWithVehicles flt s tenantID =
     (if flt 0 then Inl (DbError ''list vehicle groups'')
      else Inr (sort_key (\<lambda>(g, ts). fg_name g)
             (map (\<lambda>g. let ts = sort (group_tokens s (g_tenant g) (g_id g))
                       in ((scanGroup s g)\<lparr>fg_count := length ts\<rparr>, ts))
                  (filter (\<lambda>g. g_tenant g = tenantID) (fleet_groups s)))))"

definition group_row_of :: "db \<Rightarrow> uuid \<Rightarrow> string \<Rightarrow> group_row option" where
  "group_row_of s tid gid = find (\<lambda>g. g_tenant g = tid \<and> g_id g = gid) (fleet_groups s)"

definition GetGroup :: "faults \<Rightarrow> db \<Rightarrow> uuid \<Rightarrow> string \<Rightarrow> svc_error + fleet_group" where
  "GetGroup flt s tenantID groupID =
     (if flt 0 then Inl (DbError ''scan group'')
      else case group_row_of s tenantID groupID of
        None \<Rightarrow> Inl ErrGroupNotFound
      | Some g \<Rightarrow> Inr (scanGroup s g))"

definition ListGroupVehicles :: "faults \<Rightarrow> db \<Rightarrow> uuid \<Rightarrow> string \<Rightarrow> svc_error + token_id list" where
  "ListGroupVehicles flt s tenantID groupID =
     (case GetGroup flt s tenantID groupID of
        Inl e \<Rightarrow> Inl e
      | Inr _ \<Rightarrow>
        if flt 1 then Inl (DbError ''list vehicles of group'')
        else Inr (sort (group_tokens s tenantID groupID)))"

subsection \<open>Writes\<close>

definition CreateGroup ::
  "faults \<Rightarrow> time \<Rightarrow> db \<Rightarrow> uuid \<Rightarrow> string \<Rightarrow> string \<Rightarrow> db \<times> (svc_error + fleet_group)" where
  "CreateGroup flt now s tenantID inName inColor =
     (let name = TrimSpace inName in
      if name = [] then (s, Inl (ErrInvalidGroupInput ''name is required''))
      else if \<not> hexColor inColor then (s, Inl (ErrInvalidGroupInput ''color must be #RRGGBB''))
      else let id = GroupIDFor tenantID name in
      if id = [] then (s, Inl (ErrInvalidGroupInput ''name yields an empty id''))
      else if flt 0 then (s, Inl (DbError ''create group''))
      else if list_ex (\<lambda>g. g_id g = id \<or> (g_tenant g = tenantID \<and> g_name g = name)) (fleet_groups s)
      then (s, Inl ErrGroupNameTaken)
      else if tenant_by_id tenantID s = None then (s, Inl ErrTenantNotFound)
      else let s1 = s\<lparr>fleet_groups := fleet_groups s @
             [\<lparr>g_id = id, g_tenant = tenantID, g_name = name, g_color = inColor, g_created = now, g_updated = now\<rparr>]\<rparr>
      in (s1, GetGroup (\<lambda>n. flt (n + 1)) s1 tenantID id))"

definition patch_group :: "time \<Rightarrow> string option \<Rightarrow> string option \<Rightarrow> group_row \<Rightarrow> group_row" where
  "patch_group now inName inColor g =
     g\<lparr>g_updated := now,
       g_name := (case inName of None \<Rightarrow> g_name g | Some n \<Rightarrow> if TrimSpace n = [] then g_name g else TrimSpace n),
       g_color := (case inColor of None \<Rightarrow> g_color g | Some c \<Rightarrow> if c = [] then g_color g else c)\<rparr>"

definition UpdateGroup ::
  "faults \<Rightarrow> time \<Rightarrow> db \<Rightarrow> uuid \<Rightarrow> string \<Rightarrow> string option \<Rightarrow> string option \<Rightarrow> db \<times> (svc_error + fleet_group)" where
  "UpdateGroup flt now s tenantID groupID inName inColor =
     (if (case inColor of None \<Rightarrow> False | Some c \<Rightarrow> c \<noteq> [] \<and> \<not> hexColor c)
      then (s, Inl (ErrInvalidGroupInput ''color must be #RRGGBB''))
      else let match = (\<lambda>g. g_tenant g = tenantID \<and> g_id g = groupID);
               gs = upd match (patch_group now inName inColor) (fleet_groups s) in
      if flt 0 then (s, Inl (DbError ''update group''))
      else if \<not> unique_on (\<lambda>_. True) (\<lambda>g. (g_tenant g, g_name g)) gs then (s, Inl ErrGroupNameTaken)
      else let s1 = s\<lparr>fleet_groups := gs\<rparr> in
      if affected match (fleet_groups s) = 0 then (s1, Inl ErrGroupNotFound)
      else (s1, GetGroup (\<lambda>n. flt (n + 1)) s1 tenantID groupID))"

text \<open>
  What the \<open>DELETE\<close> of one group row carries with it: its vehicle rows, the provenance column of
  entitlements, and the scopes of memberships and invitations of its tenant. The triggers on
  those updates check that the groups left in a changed scope exist.
\<close>

definition strip_scope :: "string \<Rightarrow> scope \<Rightarrow> scope" where
  "strip_scope gid sc = map_option (removeAll gid) sc"

definition in_scope :: "string \<Rightarrow> scope \<Rightarrow> bool" where
  "in_scope gid sc = (case sc of None \<Rightarrow> False | Some gs \<Rightarrow> gid \<in> set gs)"

definition drop_group :: "group_row \<Rightarrow> db \<Rightarrow> db" where
  "drop_group g s =
     s\<lparr>fleet_groups := del (\<lambda>x. g_id x = g_id g \<and> g_tenant x = g_tenant g) (fleet_groups s),
       group_vehicles := del (\<lambda>v. gv_group v = g_id g \<and> gv_tenant v = g_tenant g) (group_vehicles s),
       entitlements := upd (\<lambda>e. e_source_group e = Some (g_id g)) (\<lambda>e. e\<lparr>e_source_group := None\<rparr>) (entitlements s),
       memberships := upd (\<lambda>m. m_tenant m = g_tenant g \<and> in_scope (g_id g) (m_scope m))
                          (\<lambda>m. m\<lparr>m_scope := strip_scope (g_id g) (m_scope m)\<rparr>) (memberships s),
       invitations := upd (\<lambda>i. i_tenant i = g_tenant g \<and> in_scope (g_id g) (i_scope i))
                          (\<lambda>i. i\<lparr>i_scope := strip_scope (g_id g) (i_scope i)\<rparr>) (invitations s)\<rparr>"

definition strip_check :: "group_row \<Rightarrow> db \<Rightarrow> bool" where
  "strip_check g s \<longleftrightarrow> (let s' = drop_group g s in
     list_all (\<lambda>m. m_tenant m = g_tenant g \<and> in_scope (g_id g) (m_scope m) \<longrightarrow>
                   scope_groups_exist s' (m_tenant m) (strip_scope (g_id g) (m_scope m))) (memberships s) \<and>
     list_all (\<lambda>i. i_tenant i = g_tenant g \<and> in_scope (g_id g) (i_scope i) \<longrightarrow>
                   scope_groups_exist s' (i_tenant i) (strip_scope (g_id g) (i_scope i))) (invitations s))"

definition DeleteGroup :: "faults \<Rightarrow> db \<Rightarrow> uuid \<Rightarrow> string \<Rightarrow> db \<times> (svc_error + unit)" where
  "DeleteGroup flt s tenantID groupID =
     (if flt 0 then (s, Inl (DbError ''delete group''))
      else case group_row_of s tenantID groupID of
        None \<Rightarrow> (s, Inl ErrGroupNotFound)
      | Some g \<Rightarrow> if strip_check g s then (drop_group g s, Inr ()) else (s, Inl (DbError ''delete group'')))"

text \<open>\<open>INSERT .. SELECT unnest(..) ON CONFLICT DO NOTHING\<close>\<close>

definition put_group_vehicle :: "uuid \<Rightarrow> string \<Rightarrow> token_id \<Rightarrow> group_vehicle_row list \<Rightarrow> group_vehicle_row list" where
  "put_group_vehicle tid gid tok vs =
     (let r = \<lparr>gv_tenant = tid, gv_token = tok, gv_group = gid\<rparr> in if r \<in> set vs then vs else vs @ [r])"

definition AddVehicles :: "faults \<Rightarrow> db \<Rightarrow> uuid \<Rightarrow> string \<Rightarrow> token_id list \<Rightarrow> db \<times> (svc_error + unit)" where
  "AddVehicles flt s tenantID groupID tokenIDs =
     (if tokenIDs = [] then (s, Inl (ErrInvalidGroupInput ''tokenIds is required''))
      else case GetGroup flt s tenantID groupID of
        Inl e \<Rightarrow> (s, Inl e)
      | Inr _ \<Rightarrow>
        if flt 1 then (s, Inl (DbError ''add vehicles to group''))
        else (s\<lparr>group_vehicles := fold (put_group_vehicle tenantID groupID) tokenIDs (group_vehicles s)\<rparr>, Inr ()))"

definition RemoveVehicle :: "faults \<Rightarrow> db \<Rightarrow> uuid \<Rightarrow> string \<Rightarrow> token_id \<Rightarrow> db \<times> (svc_error + unit)" where
  "RemoveVehicle flt s tenantID groupID tokenID =
     (case GetGroup flt s tenantID groupID of
        Inl e \<Rightarrow> (s, Inl e)
      | Inr _ \<Rightarrow>
        if flt 1 then (s, Inl (DbError ''remove vehicle from group''))
        else (s\<lparr>group_vehicles := del (\<lambda>v. gv_tenant v = tenantID \<and> gv_group v = groupID \<and> gv_token v = tokenID)
                                       (group_vehicles s)\<rparr>, Inr ()))"

subsection \<open>Slugs are canonical\<close>

fun dashed :: "bool \<Rightarrow> string \<Rightarrow> bool" where
  "dashed b [] = True"
| "dashed b (c # cs) = (if slug_char c then dashed False cs else c = dash \<and> \<not> b \<and> dashed True cs)"

lemma dash_not_slug [simp]: "\<not> slug_char dash"
  by (simp add: slug_char_def dash_def)

lemma dashed_dash_runs: "dashed b (dash_runs b s)"
  by (induction b s rule: dash_runs.induct) auto

lemma dash_runs_fixed: "dashed b s \<Longrightarrow> dash_runs b s = s"
  by (induction b s rule: dashed.induct) (auto split: if_splits)

lemma dashed_weaken: "dashed True s \<Longrightarrow> dashed False s"
  by (cases s) (auto split: if_splits)

lemma dashed_any: "dashed b s \<Longrightarrow> dashed False s"
  by (cases b) (auto intro: dashed_weaken)

lemma dashed_prefix: "dashed b (xs @ ys) \<Longrightarrow> dashed b xs"
  by (induction b xs rule: dashed.induct) (auto split: if_splits)

lemma dashed_dropWhile: "dashed b s \<Longrightarrow> dashed False (dropWhile p s)"
  by (induction b s rule: dashed.induct) (auto split: if_splits dest: dashed_any)

lemma dashed_trim: "dashed b s \<Longrightarrow> dashed False (trim_both p s)"
  unfolding trim_both_def by (metis dashed_dropWhile dashed_prefix trim_right_prefix)

lemma dashed_chars: "dashed b s \<Longrightarrow> c \<in> set s \<Longrightarrow> slug_char c \<or> c = dash"
  by (induction b s rule: dashed.induct) (auto split: if_splits)

lemma slug_not_space: "slug_char c \<or> c = dash \<Longrightarrow> \<not> is_space c \<and> lower_char c = c \<and> c \<noteq> underscore"
  by (auto simp: slug_char_def is_space_def lower_char_def dash_def underscore_def Let_def)

lemma dashed_slugify: "dashed False (slugify n)"
  unfolding slugify_def by (rule dashed_trim) (rule dashed_dash_runs)

lemma slugify_chars: "c \<in> set (slugify n) \<Longrightarrow> slug_char c \<or> c = dash"
  by (rule dashed_chars [OF dashed_slugify])

lemma slugify_ends:
  "slugify n \<noteq> [] \<Longrightarrow> hd (slugify n) \<noteq> dash \<and> last (slugify n) \<noteq> dash"
  unfolding slugify_def using trim_both_hd trim_both_last by fastforce

lemma slugify_fixed:
  assumes "dashed False s" and "s \<noteq> [] \<Longrightarrow> hd s \<noteq> dash \<and> last s \<noteq> dash"
  shows "slugify s = s"
proof -
  have ch: "\<forall>c\<in>set s. slug_char c \<or> c = dash" using assms(1) dashed_chars by blast
  have "TrimSpace s = s"
    unfolding TrimSpace_def by (rule trim_both_fixed) (use ch slug_not_space in \<open>auto simp: hd_in_set last_in_set\<close>)
  moreover have "lower s = s" unfolding lower_def using ch slug_not_space by (simp add: map_idI)
  moreover have "trim_both (\<lambda>c. c = dash) s = s" by (rule trim_both_fixed) (use assms(2) in auto)
  ultimately show ?thesis using assms(1) by (simp add: slugify_def dash_runs_fixed)
qed

subsection \<open>The invariant\<close>

definition scope_refs :: "db \<Rightarrow> bool" where
  "scope_refs s \<longleftrightarrow>
     (\<forall>m\<in>set (memberships s). scope_groups_exist s (m_tenant m) (m_scope m)) \<and>
     (\<forall>i\<in>set (invitations s). scope_groups_exist s (i_tenant i) (i_scope i))"

definition group_inv :: "db \<Rightarrow> bool" where
  "group_inv s \<longleftrightarrow>
     unique_on (\<lambda>_. True) g_id (fleet_groups s) \<and>
     unique_on (\<lambda>_. True) (\<lambda>g. (g_tenant g, g_name g)) (fleet_groups s) \<and>
     distinct (group_vehicles s) \<and>
     (\<forall>v\<in>set (group_vehicles s). \<exists>g\<in>set (fleet_groups s). g_id g = gv_group v \<and> g_tenant g = gv_tenant v) \<and>
     (\<forall>e\<in>set (entitlements s). \<forall>gid. e_source_group e = Some gid \<longrightarrow> (\<exists>g\<in>set (fleet_groups s). g_id g = gid)) \<and>
     scope_refs s"

lemma scope_groups_exist_iff:
  "scope_groups_exist s tid sc \<longleftrightarrow>
     (\<forall>gs. sc = Some gs \<longrightarrow> (\<forall>g\<in>set gs. \<exists>fg\<in>set (fleet_groups s). g_id fg = g \<and> g_tenant fg = tid))"
  by (auto simp: scope_groups_exist_def list_all_iff list_ex_iff split: option.split)

lemma scope_groups_mono:
  assumes "scope_groups_exist s tid sc"
    and "\<And>g. g \<in> set (fleet_groups s) \<Longrightarrow> \<exists>g'\<in>set (fleet_groups s'). g_id g' = g_id g \<and> g_tenant g' = g_tenant g"
  shows "scope_groups_exist s' tid sc"
  using assms unfolding scope_groups_exist_iff by metis

lemma group_row_of_SomeD: "group_row_of s tid gid = Some g \<Longrightarrow> g \<in> set (fleet_groups s) \<and> g_tenant g = tid \<and> g_id g = gid"
  unfolding group_row_of_def by (drule find_SomeD) simp

lemma GetGroup_Inr: "GetGroup flt s tid gid = Inr g \<Longrightarrow> \<exists>r. group_row_of s tid gid = Some r"
  by (auto simp: GetGroup_def split: if_splits option.splits)

definition stripped :: "group_row \<Rightarrow> uuid \<Rightarrow> scope \<Rightarrow> scope" where
  "stripped g tid sc = (if tid = g_tenant g then strip_scope (g_id g) sc else sc)"

lemma strip_scope_absent: "\<not> in_scope gid sc \<Longrightarrow> strip_scope gid sc = sc"
  by (cases sc) (simp_all add: in_scope_def strip_scope_def)

lemma drop_group_memberships:
  "memberships (drop_group g s) = map (\<lambda>m. m\<lparr>m_scope := stripped g (m_tenant m) (m_scope m)\<rparr>) (memberships s)"
  by (simp add: drop_group_def upd_def stripped_def strip_scope_absent)

lemma drop_group_invitations:
  "invitations (drop_group g s) = map (\<lambda>i. i\<lparr>i_scope := stripped g (i_tenant i) (i_scope i)\<rparr>) (invitations s)"
  by (simp add: drop_group_def upd_def stripped_def strip_scope_absent)

lemma drop_group_groups:
  "x \<in> set (fleet_groups (drop_group g s)) \<longleftrightarrow>
     x \<in> set (fleet_groups s) \<and> (g_id x \<noteq> g_id g \<or> g_tenant x \<noteq> g_tenant g)"
  by (auto simp: drop_group_def set_del)

lemma scope_after_drop:
  assumes "scope_groups_exist s tid sc"
  shows "scope_groups_exist (drop_group g s) tid (stripped g tid sc)"
proof (cases sc)
  case (Some gs)
  have "\<exists>fg\<in>set (fleet_groups (drop_group g s)). g_id fg = x \<and> g_tenant fg = tid"
    if "x \<in> set gs" "tid = g_tenant g \<Longrightarrow> x \<noteq> g_id g" for x
  proof -
    from assms Some that(1) obtain fg where "fg \<in> set (fleet_groups s)" "g_id fg = x" "g_tenant fg = tid"
      unfolding scope_groups_exist_iff by blast
    with that(2) show ?thesis by (intro bexI [of _ fg]) (auto simp: drop_group_groups)
  qed
  with Some show ?thesis by (auto simp: scope_groups_exist_iff stripped_def strip_scope_def)
qed (simp add: stripped_def strip_scope_def scope_groups_exist_def)

lemma drop_group_inv:
  assumes "group_inv s" and "g \<in> set (fleet_groups s)"
  shows "group_inv (drop_group g s)" and "strip_check g s"
proof -
  note keep = drop_group_groups
  have same: "g_id x = g_id g \<Longrightarrow> x \<in> set (fleet_groups s) \<Longrightarrow> x = g" for x
    using assms by (auto simp: group_inv_def dest: unique_on_inj)
  have refs: "scope_refs (drop_group g s)"
    using assms(1) scope_after_drop
    by (auto simp: scope_refs_def drop_group_memberships drop_group_invitations group_inv_def)
  have "\<forall>v\<in>set (group_vehicles (drop_group g s)). \<exists>x\<in>set (fleet_groups (drop_group g s)). g_id x = gv_group v \<and> g_tenant x = gv_tenant v"
    using assms(1) keep by (fastforce simp: group_inv_def drop_group_def set_del)
  moreover have "\<forall>e\<in>set (entitlements (drop_group g s)). \<forall>gid. e_source_group e = Some gid \<longrightarrow>
      (\<exists>x\<in>set (fleet_groups (drop_group g s)). g_id x = gid)"
    using assms(1) keep by (fastforce simp: group_inv_def drop_group_def set_del set_upd)
  moreover have "unique_on (\<lambda>_. True) g_id (fleet_groups (drop_group g s)) \<and>
      unique_on (\<lambda>_. True) (\<lambda>g. (g_tenant g, g_name g)) (fleet_groups (drop_group g s)) \<and>
      distinct (group_vehicles (drop_group g s))"
    using assms(1) by (auto simp: group_inv_def drop_group_def del_def intro: unique_on_filter)
  ultimately show "group_inv (drop_group g s)" using refs unfolding group_inv_def by blast
  have "scope_groups_exist (drop_group g s) (g_tenant g) (strip_scope (g_id g) sc)"
    if "scope_groups_exist s (g_tenant g) sc" for sc
    using scope_after_drop [OF that, of g] by (simp add: stripped_def)
  with assms(1) show "strip_check g s"
    by (auto simp: strip_check_def list_all_iff Let_def group_inv_def scope_refs_def)
qed

subsection \<open>The vehicles of a group\<close>

text \<open>What the callers of a keyed family of token sets rely on.\<close>

locale token_sets =
  fixes tokens :: "'k \<Rightarrow> 't \<Rightarrow> token_id set"
    and put :: "'k \<Rightarrow> token_id \<Rightarrow> 't \<Rightarrow> 't"
    and drop :: "'k \<Rightarrow> token_id \<Rightarrow> 't \<Rightarrow> 't"
  assumes tokens_put: "tokens k' (put k x t) = (if k' = k then insert x (tokens k t) else tokens k' t)"
    and tokens_drop: "tokens k' (drop k x t) = (if k' = k then tokens k t - {x} else tokens k' t)"
    and put_present: "x \<in> tokens k t \<Longrightarrow> put k x t = t"
begin

lemma tokens_put_all:
  "tokens k' (fold (put k) xs t) = (if k' = k then set xs \<union> tokens k t else tokens k' t)"
  by (induction xs arbitrary: t) (auto simp: tokens_put)

lemma put_all_present: "set xs \<subseteq> tokens k t \<Longrightarrow> fold (put k) xs t = t"
  by (induction xs) (simp_all add: put_present)

lemma put_all_idem: "fold (put k) xs (fold (put k) xs t) = fold (put k) xs t"
  by (rule put_all_present) (simp add: tokens_put_all)

lemma drop_after_put: "x \<notin> tokens k t \<Longrightarrow> tokens k' (drop k x (put k x t)) = tokens k' t"
  by (simp add: tokens_put tokens_drop)

end

definition tokens_of :: "uuid \<times> string \<Rightarrow> group_vehicle_row list \<Rightarrow> token_id set" where
  "tokens_of k vs = {x. \<lparr>gv_tenant = fst k, gv_token = x, gv_group = snd k\<rparr> \<in> set vs}"

interpretation group_tokens: token_sets tokens_of "\<lambda>k. put_group_vehicle (fst k) (snd k)"
  "\<lambda>k x. del (\<lambda>v. gv_tenant v = fst k \<and> gv_group v = snd k \<and> gv_token v = x)"
  by unfold_locales (auto simp: tokens_of_def put_group_vehicle_def Let_def set_del prod_eq_iff)

lemma distinct_put_all:
  "distinct vs \<Longrightarrow> distinct (fold (put_group_vehicle tid gid) xs vs)"
  by (induction xs arbitrary: vs) (simp_all add: put_group_vehicle_def Let_def)

lemma set_group_tokens: "set (group_tokens s tid gid) = tokens_of (tid, gid) (group_vehicles s)"
proof -
  let ?row = "\<lambda>x. \<lparr>gv_tenant = tid, gv_token = x, gv_group = gid\<rparr>"
  show ?thesis
  proof (intro set_eqI iffI)
    fix x assume "x \<in> set (group_tokens s tid gid)"
    then obtain v where "v \<in> set (group_vehicles s)" "gv_tenant v = tid" "gv_group v = gid" "x = gv_token v"
      by (auto simp: group_tokens_def)
    then show "x \<in> tokens_of (tid, gid) (group_vehicles s)" by - (cases v rule: group_vehicle_row.cases, simp add: tokens_of_def)
  next
    fix x assume "x \<in> tokens_of (tid, gid) (group_vehicles s)"
    then have "?row x \<in> {v \<in> set (group_vehicles s). gv_tenant v = tid \<and> gv_group v = gid}"
      by (simp add: tokens_of_def)
    then have "gv_token (?row x) \<in> set (group_tokens s tid gid)"
      unfolding group_tokens_def set_map set_filter by (rule imageI)
    then show "x \<in> set (group_tokens s tid gid)" by simp
  qed
qed

lemma distinct_group_tokens: "distinct (group_vehicles s) \<Longrightarrow> distinct (group_tokens s tid gid)"
  by (auto simp: group_tokens_def distinct_map inj_on_def)

lemma set_put_all:
  "v \<in> set (fold (put_group_vehicle tid gid) xs vs) \<Longrightarrow> v \<in> set vs \<or> (gv_tenant v = tid \<and> gv_group v = gid)"
  by (induction xs arbitrary: vs) (fastforce simp: put_group_vehicle_def Let_def split: if_splits)+

subsection \<open>Every operation keeps the invariant\<close>

datatype group_op =
    GCreate faults time uuid string string
  | GUpdate faults time uuid string "string option" "string option"
  | GDelete faults uuid string
  | GAdd faults uuid string "token_id list"
  | GRemove faults uuid string token_id

fun group_step :: "group_op \<Rightarrow> db \<Rightarrow> db" where
  "group_step (GCreate flt now tid n c) s = fst (CreateGroup flt now s tid n c)"
| "group_step (GUpdate flt now tid gid n c) s = fst (UpdateGroup flt now s tid gid n c)"
| "group_step (GDelete flt tid gid) s = fst (DeleteGroup flt s tid gid)"
| "group_step (GAdd flt tid gid ts) s = fst (AddVehicles flt s tid gid ts)"
| "group_step (GRemove flt tid gid t) s = fst (RemoveVehicle flt s tid gid t)"

lemma group_inv_more_groups:
  assumes "group_inv s" and "fleet_groups s' = gs" and "group_vehicles s' = group_vehicles s"
    and "entitlements s' = entitlements s" "memberships s' = memberships s" "invitations s' = invitations s"
    and u: "unique_on (\<lambda>_. True) g_id gs" "unique_on (\<lambda>_. True) (\<lambda>g. (g_tenant g, g_name g)) gs"
    and keep: "\<And>g. g \<in> set (fleet_groups s) \<Longrightarrow> \<exists>g'\<in>set gs. g_id g' = g_id g \<and> g_tenant g' = g_tenant g"
  shows "group_inv s'"
proof -
  have sc: "scope_groups_exist s tid c \<Longrightarrow> scope_groups_exist s' tid c" for tid c
    by (erule scope_groups_mono) (use keep assms(2) in simp)
  then have "scope_refs s'" using assms(1,5,6) by (simp add: group_inv_def scope_refs_def)
  moreover have "\<forall>v\<in>set (group_vehicles s'). \<exists>g\<in>set gs. g_id g = gv_group v \<and> g_tenant g = gv_tenant v"
    using assms(1,3) keep by (metis group_inv_def)
  moreover have "\<forall>e\<in>set (entitlements s'). \<forall>gid. e_source_group e = Some gid \<longrightarrow> (\<exists>g\<in>set gs. g_id g = gid)"
    using assms(1,4) keep by (metis group_inv_def)
  ultimately show ?thesis using u assms(1-3) by (simp add: group_inv_def)
qed

lemma CreateGroup_inv:
  assumes "group_inv s"
  shows "group_inv (fst (CreateGroup flt now s tid n c))"
proof -
  let ?id = "GroupIDFor tid (TrimSpace n)"
  let ?g = "\<lparr>g_id = ?id, g_tenant = tid, g_name = TrimSpace n, g_color = c, g_created = now, g_updated = now\<rparr>"
  have "group_inv (s\<lparr>fleet_groups := fleet_groups s @ [?g]\<rparr>)"
    if "\<not> list_ex (\<lambda>g. g_id g = ?id \<or> (g_tenant g = tid \<and> g_name g = TrimSpace n)) (fleet_groups s)"
    by (rule group_inv_more_groups [OF assms]) (use that assms in \<open>auto simp: group_inv_def list_ex_iff\<close>)
  with assms show ?thesis by (simp add: CreateGroup_def Let_def)
qed

lemma UpdateGroup_inv:
  assumes "group_inv s"
  shows "group_inv (fst (UpdateGroup flt now s tid gid n c))"
proof -
  let ?Q = "\<lambda>g. g_tenant g = tid \<and> g_id g = gid" and ?f = "patch_group now n c"
  have id: "g_id (?f g) = g_id g" "g_tenant (?f g) = g_tenant g" for g by (simp_all add: patch_group_def)
  have "group_inv (s\<lparr>fleet_groups := upd ?Q ?f (fleet_groups s)\<rparr>)"
    if "unique_on (\<lambda>_. True) (\<lambda>g. (g_tenant g, g_name g)) (upd ?Q ?f (fleet_groups s))"
  proof (rule group_inv_more_groups [OF assms])
    show "unique_on (\<lambda>_. True) g_id (upd ?Q ?f (fleet_groups s))"
      using assms id by (intro unique_on_upd) (auto simp: group_inv_def)
    fix g assume "g \<in> set (fleet_groups s)"
    then show "\<exists>g'\<in>set (upd ?Q ?f (fleet_groups s)). g_id g' = g_id g \<and> g_tenant g' = g_tenant g"
      by (intro bexI [of _ "if ?Q g then ?f g else g"]) (auto simp: upd_def id)
  qed (use that in auto)
  with assms show ?thesis by (simp add: UpdateGroup_def Let_def split: option.split)
qed

lemma group_vehicles_inv:
  assumes "group_inv s" and "distinct vs"
    and "\<And>v. v \<in> set vs \<Longrightarrow> v \<in> set (group_vehicles s) \<or> group_row_of s (gv_tenant v) (gv_group v) \<noteq> None"
  shows "group_inv (s\<lparr>group_vehicles := vs\<rparr>)"
proof -
  have "\<exists>g\<in>set (fleet_groups s). g_id g = gv_group v \<and> g_tenant g = gv_tenant v" if "v \<in> set vs" for v
    using assms(3) [OF that]
  proof
    assume "v \<in> set (group_vehicles s)"
    with assms(1) show ?thesis by (auto simp: group_inv_def)
  qed (auto dest: group_row_of_SomeD)
  with assms(1,2) show ?thesis by (simp add: group_inv_def scope_refs_def scope_groups_exist_iff)
qed

lemma AddVehicles_inv:
  assumes "group_inv s"
  shows "group_inv (fst (AddVehicles flt s tid gid ts))"
proof (cases "GetGroup flt s tid gid")
  case (Inr g)
  then have "group_row_of s tid gid \<noteq> None" by (auto dest: GetGroup_Inr)
  then have "group_inv (s\<lparr>group_vehicles := fold (put_group_vehicle tid gid) ts (group_vehicles s)\<rparr>)"
    using assms by (intro group_vehicles_inv) (auto simp: group_inv_def distinct_put_all dest!: set_put_all)
  with Inr assms show ?thesis by (simp add: AddVehicles_def)
qed (use assms in \<open>simp add: AddVehicles_def\<close>)

lemma RemoveVehicle_inv:
  assumes "group_inv s"
  shows "group_inv (fst (RemoveVehicle flt s tid gid t))"
proof -
  have "group_inv (s\<lparr>group_vehicles := del P (group_vehicles s)\<rparr>)" for P
    using assms by (intro group_vehicles_inv) (auto simp: group_inv_def del_def)
  with assms show ?thesis by (simp add: RemoveVehicle_def split: sum.split)
qed

lemma DeleteGroup_inv: "group_inv s \<Longrightarrow> group_inv (fst (DeleteGroup flt s tid gid))"
  by (auto simp: DeleteGroup_def drop_group_inv dest: group_row_of_SomeD split: option.split)

lemma group_step_inv: "group_inv s \<Longrightarrow> group_inv (group_step op s)"
  by (cases op) (simp_all add: CreateGroup_inv UpdateGroup_inv DeleteGroup_inv AddVehicles_inv RemoveVehicle_inv)

interpretation group_ops: op_system group_step group_inv
  by unfold_locales (rule group_step_inv)

subsection \<open>Properties\<close>

text \<open>
  A slug is canonical: slugging is idempotent, and a slug has only lower-case letters,
  digits and dashes, no dash at either end and never two in a row.
\<close>

theorem slugify_canonical:
  "slugify (slugify n) = slugify n \<and>
   list_all (\<lambda>c. slug_char c \<or> c = dash) (slugify n) \<and>
   (\<forall>xs ys. slugify n \<noteq> xs @ [dash, dash] @ ys) \<and>
   (\<forall>cs. slugify n \<noteq> dash # cs \<and> slugify n \<noteq> cs @ [dash])"
proof -
  have "\<not> dashed b (xs @ [dash, dash] @ ys)" for b xs ys
    by (induction b xs rule: dashed.induct) auto
  then have dd: "slugify n \<noteq> xs @ [dash, dash] @ ys" for xs ys using dashed_slugify by metis
  have "slugify n \<noteq> dash # cs \<and> slugify n \<noteq> cs @ [dash]" for cs
    using slugify_ends [of n] by auto
  with dd show ?thesis
    using slugify_fixed [OF dashed_slugify slugify_ends] slugify_chars
    by (simp add: list_all_iff)
qed

text \<open>
  A group id names its tenant: the text before the first underscore is the tenant, so ids
  minted for different tenants never collide, and names that slug apart get different ids.
\<close>

theorem GroupIDFor_self_attributing:
  assumes "underscore \<notin> set t" and "underscore \<notin> set t'" and "GroupIDFor t n \<noteq> []"
  shows "takeWhile (\<lambda>c. c \<noteq> underscore) (GroupIDFor t n) = t \<and>
    (GroupIDFor t n = GroupIDFor t' n' \<longleftrightarrow> t = t' \<and> slugify n = slugify n')"
proof -
  have form: "GroupIDFor x y = (if slugify y = [] then [] else x @ underscore # slugify y)" for x y
    by (simp add: GroupIDFor_def Let_def)
  have tw: "takeWhile (\<lambda>c. c \<noteq> underscore) (x @ underscore # z) = x" if "underscore \<notin> set x" for x z
    using that by (induction x) auto
  show ?thesis
  proof (intro conjI iffI)
    show "takeWhile (\<lambda>c. c \<noteq> underscore) (GroupIDFor t n) = t" using assms(1,3) tw by (simp add: form split: if_splits)
    assume eq: "GroupIDFor t n = GroupIDFor t' n'"
    then have "t = t'" using assms tw [OF assms(1)] tw [OF assms(2)] by (metis form)
    then show "t = t'" and "slugify n = slugify n'" using eq assms(3) by (auto simp: form split: if_splits)
  qed (simp_all add: form)
qed

lemma GroupIDFor_self_attributing_witness:
  "takeWhile (\<lambda>c. c \<noteq> underscore) (GroupIDFor ''t1'' ''Big Vans!'') = ''t1'' \<and> GroupIDFor ''t1'' ''Big Vans!'' \<noteq> []"
proof -
  have a: "underscore \<notin> set ''t1''" by (simp add: underscore_def)
  have b: "GroupIDFor ''t1'' ''Big Vans!'' \<noteq> []"
    by (simp add: GroupIDFor_def slugify_def TrimSpace_def trim_both_def trim_right_def is_space_def
        slug_char_def dash_def text_eval)
  from GroupIDFor_self_attributing [OF a a b] b show ?thesis by blast
qed

text \<open>
  C21. Deleting a group never widens anybody's access, and nothing names the group any more. Every
  scope of the tenant, a member's and an invitation's alike, loses exactly that group: an
  unrestricted one stays unrestricted, a restricted one stays restricted to exactly its other
  groups, possibly to nothing; so does every scope \<open>Authorize\<close> answers. The vehicles it granted keep
  their entitlements with the provenance cleared, and no vehicle row of the group is left.
\<close>

theorem DeleteGroup_never_widens:
  assumes "DeleteGroup flt s tid gid = (s', Inr ())"
  shows "group_row_of s' tid gid = None \<and> group_tokens s' tid gid = [] \<and>
    memberships s' = map (\<lambda>m. if m_tenant m = tid then m\<lparr>m_scope := map_option (removeAll gid) (m_scope m)\<rparr> else m)
                         (memberships s) \<and>
    invitations s' = map (\<lambda>i. if i_tenant i = tid then i\<lparr>i_scope := map_option (removeAll gid) (i_scope i)\<rparr> else i)
                         (invitations s) \<and>
    entitlements s' = map (\<lambda>e. if e_source_group e = Some gid then e\<lparr>e_source_group := None\<rparr> else e)
                          (entitlements s) \<and>
    (\<forall>m\<in>set (memberships s'). \<forall>gs. m_tenant m = tid \<longrightarrow> m_scope m = Some gs \<longrightarrow> gid \<notin> set gs) \<and>
    (\<forall>i\<in>set (invitations s'). \<forall>gs. i_tenant i = tid \<longrightarrow> i_scope i = Some gs \<longrightarrow> gid \<notin> set gs) \<and>
    (\<forall>e\<in>set (entitlements s'). e_source_group e \<noteq> Some gid) \<and>
    (\<forall>L flt' i w r r'. Authorize L flt' s i w = Inr r \<longrightarrow> Authorize L flt' s' i w = Inr r' \<longrightarrow>
       Unrestricted r' = Unrestricted r \<and> ar_via r' = ar_via r \<and> ar_perms r' = ar_perms r \<and>
       ar_scope r' = (if i = tid then map_option (removeAll gid) (ar_scope r) else ar_scope r))"
proof -
  from assms obtain g where g: "group_row_of s tid gid = Some g" and s': "s' = drop_group g s"
    by (auto simp: DeleteGroup_def split: if_splits option.splits)
  have gt [simp]: "g_tenant g = tid" "g_id g = gid" using group_row_of_SomeD [OF g] by simp_all
  let ?f = "\<lambda>m. m\<lparr>m_scope := stripped g (m_tenant m) (m_scope m)\<rparr>"
  have ms: "memberships s' = map ?f (memberships s)" by (simp add: s' drop_group_memberships)
  have f: "?f m = (if m_tenant m = tid then m\<lparr>m_scope := map_option (removeAll gid) (m_scope m)\<rparr> else m)" for m
    by (simp add: stripped_def strip_scope_def)
  have find: "find Q (map ?f rs) = map_option ?f (find Q rs)" if "\<And>m. Q (?f m) = Q m" for Q rs
    using that by (induction rs) auto
  have mem: "membership_of s' i x = map_option ?f (membership_of s i x)" for i x
    unfolding membership_of_def ms by (rule find) simp
  have ex: "list_ex Q (memberships s') = list_ex Q (memberships s)" if "\<And>m. Q (?f m) = Q m" for Q
    using that by (auto simp: ms list_ex_iff)
  have del: "delegation_for s' i x = delegation_for s i x" for i x
    unfolding delegation_for_def by (subst ex) (simp_all add: s' drop_group_def)
  have ten: "tenant_by_id i s' = tenant_by_id i s" for i by (simp add: s' tenant_by_id_def drop_group_def)
  have au: "Unrestricted r' = Unrestricted r \<and> ar_via r' = ar_via r \<and> ar_perms r' = ar_perms r \<and>
      ar_scope r' = (if i = tid then map_option (removeAll gid) (ar_scope r) else ar_scope r)"
    if "Authorize L flt' s i w = Inr r" "Authorize L flt' s' i w = Inr r'" for L flt' i w r r'
    using that by (auto simp: Authorize_def Let_def ten mem del Unrestricted_def stripped_def strip_scope_def
        dest!: membership_of_SomeD split: if_splits option.splits)
  have "group_row_of s' tid gid = None" "group_tokens s' tid gid = []"
    by (auto simp: group_row_of_def s' drop_group_groups find_None group_tokens_def drop_group_def set_del filter_empty_conv)
  moreover have "\<forall>m\<in>set (memberships s'). \<forall>gs. m_tenant m = tid \<longrightarrow> m_scope m = Some gs \<longrightarrow> gid \<notin> set gs"
    by (auto simp: ms stripped_def strip_scope_def)
  moreover have "memberships s' = map (\<lambda>m. if m_tenant m = tid then m\<lparr>m_scope := map_option (removeAll gid) (m_scope m)\<rparr> else m)
                         (memberships s)" unfolding ms f ..
  moreover have invs: "invitations s' = map (\<lambda>i. if i_tenant i = tid then i\<lparr>i_scope := map_option (removeAll gid) (i_scope i)\<rparr> else i)
                         (invitations s)"
    by (simp add: s' drop_group_invitations stripped_def strip_scope_def)
  moreover have es: "entitlements s' = map (\<lambda>e. if e_source_group e = Some gid then e\<lparr>e_source_group := None\<rparr> else e)
                          (entitlements s)" by (simp add: s' drop_group_def upd_def)
  moreover have "\<forall>i\<in>set (invitations s'). \<forall>gs. i_tenant i = tid \<longrightarrow> i_scope i = Some gs \<longrightarrow> gid \<notin> set gs"
    by (auto simp: s' drop_group_invitations stripped_def strip_scope_def)
  moreover have "\<forall>e\<in>set (entitlements s'). e_source_group e \<noteq> Some gid" unfolding es by auto
  moreover note au
  ultimately show ?thesis by (intro conjI) (assumption | iprover)+
qed

lemma DeleteGroup_never_widens_witness:
  "\<exists>s'. DeleteGroup no_faults demo_db ''cu'' ''cu_vans'' = (s', Inr ()) \<and> group_row_of s' ''cu'' ''cu_vans'' = None"
proof -
  obtain s' where d: "DeleteGroup no_faults demo_db ''cu'' ''cu_vans'' = (s', Inr ())"
    by (simp add: DeleteGroup_def group_row_of_def strip_check_def drop_group_def in_scope_def strip_scope_def
        scope_groups_exist_def demo_defs)
  from DeleteGroup_never_widens [OF d] have "group_row_of s' ''cu'' ''cu_vans'' = None" by blast
  with d show ?thesis by blast
qed

text \<open>
  Over any sequence of group writes, under any faults, every group a scope, an entitlement
  or a vehicle row names exists (in the tenant that names it), and ids and names stay unique;
  in particular the triggers never refuse a delete.
\<close>

theorem group_ops_invariant:
  assumes "group_inv s"
  shows "group_inv (fold group_step ops s) \<and>
    (\<forall>tid gid. group_row_of s tid gid \<noteq> None \<longrightarrow> snd (DeleteGroup no_faults s tid gid) = Inr ())"
proof -
  have "strip_check g s" if "group_row_of s tid gid = Some g" for tid gid g
    using drop_group_inv(2) [OF assms] group_row_of_SomeD [OF that] by blast
  then show ?thesis using group_ops.run_inv [OF assms] by (auto simp: DeleteGroup_def)
qed

lemma demo_group_inv: "group_inv demo_db"
  by (simp add: group_inv_def scope_refs_def scope_groups_exist_def demo_defs)

lemma group_ops_invariant_witness:
  "group_inv (fold group_step [GAdd no_faults ''cu'' ''cu_vans'' [7, 8], GDelete no_faults ''cu'' ''cu_vans''] demo_db)"
  using group_ops_invariant [OF demo_group_inv] by blast

text \<open>
  Adding vehicles to a group is idempotent and exact: after a success the listing is the
  sorted union without duplicates, a repeated call changes nothing, and no other group changes.
\<close>

theorem AddVehicles_exact:
  assumes "group_inv s" and "AddVehicles flt s tid gid ts = (s', Inr ())"
  shows "(\<exists>l. ListGroupVehicles no_faults s' tid gid = Inr l \<and> sorted l \<and> distinct l \<and>
        set l = set ts \<union> set (group_tokens s tid gid)) \<and>
    fst (AddVehicles flt' s' tid gid ts) = s' \<and>
    (\<forall>i g. (i, g) \<noteq> (tid, gid) \<longrightarrow> set (group_tokens s' i g) = set (group_tokens s i g))"
proof -
  from assms(2) obtain g where g: "GetGroup flt s tid gid = Inr g"
    and s': "s' = s\<lparr>group_vehicles := fold (put_group_vehicle tid gid) ts (group_vehicles s)\<rparr>"
    by (auto simp: AddVehicles_def split: if_splits sum.splits)
  have sets: "set (group_tokens s' i x) =
      (if (i, x) = (tid, gid) then set ts \<union> set (group_tokens s tid gid) else set (group_tokens s i x))" for i x
    using group_tokens.tokens_put_all [of "(i, x)" "(tid, gid)" ts "group_vehicles s"]
    by (simp add: set_group_tokens s')
  have again: "fold (put_group_vehicle tid gid) ts (group_vehicles s') = group_vehicles s'"
    using group_tokens.put_all_idem [of "(tid, gid)" ts "group_vehicles s"] by (simp add: s')
  have row: "group_row_of s' tid gid \<noteq> None"
    using GetGroup_Inr [OF g] by (auto simp: group_row_of_def s')
  have "distinct (group_tokens s' tid gid)"
    using assms(1) by (intro distinct_group_tokens) (simp add: s' distinct_put_all group_inv_def)
  then have "\<exists>l. ListGroupVehicles no_faults s' tid gid = Inr l \<and> sorted l \<and> distinct l \<and>
        set l = set ts \<union> set (group_tokens s tid gid)"
    using row sets [of tid gid] by (auto simp: ListGroupVehicles_def GetGroup_def)
  moreover have "fst (AddVehicles flt' s' tid gid ts) = s'"
    using again by (simp add: AddVehicles_def split: sum.split)
  ultimately show ?thesis using sets by simp
qed

lemma AddVehicles_exact_witness:
  "\<exists>s' l. AddVehicles no_faults demo_db ''cu'' ''cu_vans'' [9, 7, 9] = (s', Inr ()) \<and>
     ListGroupVehicles no_faults s' ''cu'' ''cu_vans'' = Inr l \<and> set l = {7, 9}"
proof -
  obtain s' where a: "AddVehicles no_faults demo_db ''cu'' ''cu_vans'' [9, 7, 9] = (s', Inr ())"
    by (simp add: AddVehicles_def GetGroup_def group_row_of_def demo_defs)
  have "set [9, 7, 9 :: token_id] \<union> set (group_tokens demo_db ''cu'' ''cu_vans'') = {7, 9}"
    by (auto simp: group_tokens_def demo_defs)
  with AddVehicles_exact [OF demo_group_inv a, of no_faults] a show ?thesis by auto
qed

end
