(* ===== verification/Entitlements.thy ===== *)
theory Entitlements
  imports FleetGroups "HOL-Library.Multiset"
begin

text \<open>
  Vehicle entitlements, \<open>service/entitlements.go\<close>: which vehicles an explicit-mode tenant may
  see. \<open>Assign\<close> runs one transaction with a savepoint per vehicle, so a vehicle that another
  tenant holds is rejected without failing the batch; the partial unique index
  \<open>idx_vehicle_entitlements_one_active_holder\<close> is the constraint its inserts are checked against.
\<close>

subsection \<open>Reads\<close>

record entitlement =
  we_token :: token_id
  we_source :: string
  we_source_group :: "string option"
  we_granted_by_wallet :: "string option"
  we_created :: int

definition ListEntitlements :: "faults \<Rightarrow> db \<Rightarrow> uuid \<Rightarrow> svc_error + entitlement list" where
  "ListEntitlements flt s tenantID =
     (if flt 0 then Inl (DbError ''list entitlements'')
      else Inr (sort_key we_token
             (map (\<lambda>e. \<lparr>we_token = e_token e, we_source = e_source e, we_source_group = e_source_group e,
                        we_granted_by_wallet = e_granted_by_wallet e, we_created = wireTime (e_created e)\<rparr>)
                  (filter (\<lambda>e. e_tenant e = tenantID \<and> e_revoked e = None) (entitlements s)))))"

definition entitled :: "entitlement_row list \<Rightarrow> uuid \<Rightarrow> token_id \<Rightarrow> bool" where
  "entitled es tid tok = list_ex (\<lambda>e. e_tenant e = tid \<and> e_token e = tok \<and> e_revoked e = None) es"

definition AssertEntitled :: "faults \<Rightarrow> db \<Rightarrow> uuid \<Rightarrow> token_id \<Rightarrow> svc_error + bool" where
  "AssertEntitled flt s tenantID tokenID =
     (if flt 0 then Inl (DbError ''assert entitled'') else Inr (entitled (entitlements s) tenantID tokenID))"

subsection \<open>Assignment\<close>

definition conflictingHolders ::
  "faults \<Rightarrow> db \<Rightarrow> uuid \<Rightarrow> uuid option \<Rightarrow> token_id list \<Rightarrow> svc_error + (token_id \<Rightarrow> string option)" where
  "conflictingHolders flt s tenantID parent tokenIDs =
     (case parent of
        None \<Rightarrow> Inr (\<lambda>_. None)
      | Some p \<Rightarrow>
        if flt 0 then Inl (DbError ''check exclusivity'')
        else Inr (map_of (rev [(e_token e, t_name t). e \<leftarrow> entitlements s, t \<leftarrow> tenants s,
               t_id t = e_tenant e \<and> e_token e \<in> set tokenIDs \<and> e_revoked e = None \<and>
               e_tenant e \<noteq> tenantID \<and> t_parent t = Some p \<and> t_mode t = EntitlementExplicit])))"

definition ent_key :: "entitlement_row \<Rightarrow> uuid \<times> token_id" where
  "ent_key e = (e_tenant e, e_token e)"

text \<open>\<open>ON CONFLICT (tenant_id, vehicle_token_id) DO UPDATE SET ..\<close>\<close>

definition ent_merge :: "entitlement_row \<Rightarrow> entitlement_row \<Rightarrow> entitlement_row" where
  "ent_merge new old = old\<lparr>e_source_group := e_source_group new,
     e_granted_by_wallet := coalesce (e_granted_by_wallet new) (e_granted_by_wallet old),
     e_revoked := None, e_created := e_created new\<rparr>"

definition put_entitlement :: "entitlement_row \<Rightarrow> entitlement_row list \<Rightarrow> entitlement_row list" where
  "put_entitlement new = upsert_row ent_key new (ent_merge new)"

definition held_elsewhere :: "entitlement_row list \<Rightarrow> uuid \<Rightarrow> token_id \<Rightarrow> bool" where
  "held_elsewhere es tid tok = list_ex (\<lambda>e. e_tenant e \<noteq> tid \<and> e_token e = tok \<and> e_revoked e = None) es"

record rejected_vehicle =
  rv_token :: token_id
  rv_held_by :: string

text \<open>
  The per-vehicle loop. \<open>mk\<close> builds the row of a vehicle, \<open>gok\<close> says the provenance group exists
  (the foreign key), \<open>held\<close> is what the exclusivity read found. Statements are numbered from
  \<open>n\<close>: savepoint, insert, then release or rollback.
\<close>

fun assign_loop ::
  "faults \<Rightarrow> (token_id \<Rightarrow> entitlement_row) \<Rightarrow> bool \<Rightarrow> (token_id \<Rightarrow> string option) \<Rightarrow> uuid \<Rightarrow> nat \<Rightarrow>
   entitlement_row list \<Rightarrow> token_id list \<Rightarrow>
   svc_error + nat \<times> entitlement_row list \<times> token_id list \<times> rejected_vehicle list" where
  "assign_loop flt mk gok held tid n es [] = Inr (n, es, [], [])"
| "assign_loop flt mk gok held tid n es (tok # toks) =
     (case held tok of
        Some holder \<Rightarrow>
          map_sum id (\<lambda>(n, es, a, r). (n, es, a, \<lparr>rv_token = tok, rv_held_by = holder\<rparr> # r))
            (assign_loop flt mk gok held tid n es toks)
      | None \<Rightarrow>
          if flt n then Inl (DbError ''savepoint'')
          else if flt (n + 1)
          then Inl (DbError (if flt (n + 2) then ''rollback savepoint'' else ''assign vehicle''))
          else if held_elsewhere es tid tok
          then (if flt (n + 2) then Inl (DbError ''rollback savepoint'')
                else map_sum id (\<lambda>(n, es, a, r). (n, es, a, \<lparr>rv_token = tok, rv_held_by = ''another customer''\<rparr> # r))
                  (assign_loop flt mk gok held tid (n + 3) es toks))
          else if \<not> gok
          then Inl (DbError (if flt (n + 2) then ''rollback savepoint'' else ''assign vehicle''))
          else if flt (n + 2) then Inl (DbError ''release savepoint'')
          else map_sum id (\<lambda>(n, es, a, r). (n, es, tok # a, r))
                 (assign_loop flt mk gok held tid (n + 3) (put_entitlement (mk tok) es) toks))"

definition ent_row_for ::
  "library \<Rightarrow> time \<Rightarrow> uuid \<Rightarrow> uuid option \<Rightarrow> string \<Rightarrow> string \<Rightarrow> token_id \<Rightarrow> entitlement_row" where
  "ent_row_for L now tid parent fromGroup actor tok =
     \<lparr>e_tenant = tid, e_token = tok, e_source = ''operator'', e_source_group = nullif fromGroup,
      e_granted_by_tenant = parent, e_granted_by_wallet = nullif (normaliseOptionalWallet L actor),
      e_created = now, e_revoked = None\<rparr>"

definition source_group_ok :: "db \<Rightarrow> string \<Rightarrow> bool" where
  "source_group_ok s fromGroup =
     (case nullif fromGroup of None \<Rightarrow> True | Some g \<Rightarrow> list_ex (\<lambda>fg. g_id fg = g) (fleet_groups s))"

definition Assign ::
  "library \<Rightarrow> faults \<Rightarrow> time \<Rightarrow> db \<Rightarrow> uuid \<Rightarrow> token_id list \<Rightarrow> string \<Rightarrow> string \<Rightarrow>
   db \<times> (svc_error + token_id list \<times> rejected_vehicle list)" where
  "Assign L flt now s tenantID tokenIDs fromGroup actorWallet =
     (if tokenIDs = [] then (s, Inr ([], []))
      else if flt 0 then (s, Inl (DbError ''begin''))
      else if flt 1 then (s, Inl (DbError ''load tenant''))
      else case tenant_by_id tenantID s of
        None \<Rightarrow> (s, Inl ErrTenantNotFound)
      | Some t \<Rightarrow>
        if t_mode t \<noteq> EntitlementExplicit then (s, Inl ErrNotExplicitMode)
        else case conflictingHolders (\<lambda>n. flt (n + 2)) s tenantID (t_parent t) tokenIDs of
          Inl e \<Rightarrow> (s, Inl e)
        | Inr held \<Rightarrow>
          (case assign_loop flt (ent_row_for L now tenantID (t_parent t) fromGroup actorWallet)
                  (source_group_ok s fromGroup) held tenantID 3 (entitlements s) tokenIDs of
             Inl e \<Rightarrow> (s, Inl e)
           | Inr (n, es, assigned, rejected) \<Rightarrow>
               if flt n then (s, Inl (DbError ''commit''))
               else (s\<lparr>entitlements := es\<rparr>, Inr (assigned, rejected))))"

definition Revoke :: "faults \<Rightarrow> time \<Rightarrow> db \<Rightarrow> uuid \<Rightarrow> token_id \<Rightarrow> db \<times> (svc_error + unit)" where
  "Revoke flt now s tenantID tokenID =
     (let match = (\<lambda>e. e_tenant e = tenantID \<and> e_token e = tokenID \<and> e_revoked e = None);
          s1 = s\<lparr>entitlements := upd match (\<lambda>e. e\<lparr>e_revoked := Some now\<rparr>) (entitlements s)\<rparr> in
      if flt 0 then (s, Inl (DbError ''revoke vehicle''))
      else if flt 1 then (s1, Inl (DbError ''rows affected''))
      else if affected match (entitlements s) = 0 then (s1, Inl ErrEntitlementNotFound)
      else (s1, Inr ()))"

subsection \<open>The table contract and the invariant\<close>

lemma ent_key_merge [simp]: "ent_key (ent_merge new old) = ent_key old"
  by (simp add: ent_key_def ent_merge_def)

definition ent_inv :: "db \<Rightarrow> bool" where
  "ent_inv s \<longleftrightarrow>
     unique_on (\<lambda>_. True) ent_key (entitlements s) \<and>
     unique_on (\<lambda>e. e_revoked e = None) e_token (entitlements s)"

lemma held_elsewhere_iff:
  "held_elsewhere es tid tok \<longleftrightarrow> (\<exists>e\<in>set es. e_tenant e \<noteq> tid \<and> e_token e = tok \<and> e_revoked e = None)"
  by (auto simp: held_elsewhere_def list_ex_iff)

lemma entitled_iff:
  "entitled es tid tok \<longleftrightarrow> (\<exists>e\<in>set es. e_tenant e = tid \<and> e_token e = tok \<and> e_revoked e = None)"
  by (auto simp: entitled_def list_ex_iff)

definition ents_ok :: "entitlement_row list \<Rightarrow> bool" where
  "ents_ok es \<longleftrightarrow> unique_on (\<lambda>_. True) ent_key es \<and> unique_on (\<lambda>e. e_revoked e = None) e_token es"

lemma ent_inv_ents: "ent_inv s \<longleftrightarrow> ents_ok (entitlements s)"
  by (simp add: ent_inv_def ents_ok_def)

lemma one_active_holder:
  assumes "ents_ok es" and "e \<in> set es" "e' \<in> set es" "e_revoked e = None" "e_revoked e' = None" "e_token e = e_token e'"
  shows "e = e'"
proof -
  have "unique_on (\<lambda>e. e_revoked e = None) e_token es" using assms(1) by (simp add: ents_ok_def)
  from unique_on_inj [OF this assms(2-6)] show ?thesis .
qed

lemma put_entitlement_ok:
  assumes "ents_ok es" and "\<not> held_elsewhere es (e_tenant new) (e_token new)"
  shows "ents_ok (put_entitlement new es)"
proof -
  have u: "unique_on (\<lambda>_. True) ent_key es" "unique_on (\<lambda>e. e_revoked e = None) e_token es"
    using assms(1) by (simp_all add: ents_ok_def)
  have k: "unique_on (\<lambda>_. True) ent_key (put_entitlement new es)"
    unfolding put_entitlement_def using u(1) by (rule unique_on_upsert_row) simp
  have tok: "unique_on (\<lambda>e. e_revoked e = None) e_token (put_entitlement new es)"
  proof (cases "\<exists>e\<in>set es. ent_key e = ent_key new")
    case True
    have "unique_on (\<lambda>e. e_revoked e = None) e_token (upd (\<lambda>e. ent_key e = ent_key new) (ent_merge new) es)"
    proof (rule unique_on_upd_one [OF u(2)])
      show "distinct es" using u(1) by (simp add: unique_on_def distinct_map)
    next
      fix e x assume "e \<in> set es" "ent_key e = ent_key new" "x \<in> set es" "ent_key x \<noteq> ent_key new" "e_revoked x = None"
      then show "e_token x \<noteq> e_token (ent_merge new e)"
        using assms(2) by (auto simp: held_elsewhere_iff ent_key_def ent_merge_def)
    qed (use unique_on_inj [OF u(1)] in auto)
    with True show ?thesis by (simp add: put_entitlement_def upsert_row_def)
  next
    case False
    with u(2) assms(2) show ?thesis
      by (auto simp: put_entitlement_def upsert_row_def held_elsewhere_iff ent_key_def)
  qed
  from k tok show ?thesis by (simp add: ents_ok_def)
qed

lemma put_entitlement_other:
  assumes "e_tenant new \<noteq> i \<or> e_token new \<noteq> x"
  shows "entitled (put_entitlement new es) i x = entitled es i x"
proof -
  have "e_tenant (ent_merge new e) = e_tenant e \<and> e_token (ent_merge new e) = e_token e" for e
    by (simp add: ent_merge_def)
  with assms show ?thesis
    unfolding entitled_iff put_entitlement_def by (auto simp: set_upsert_row ent_key_def)
qed

lemma put_entitlement_same:
  assumes "e_revoked new = None"
  shows "entitled (put_entitlement new es) (e_tenant new) (e_token new)"
proof (cases "\<exists>e\<in>set es. ent_key e = ent_key new")
  case True
  then obtain e where e: "e \<in> set es" "ent_key e = ent_key new" by blast
  then have "ent_merge new e \<in> set (put_entitlement new es)" by (auto simp: put_entitlement_def set_upsert_row)
  with e show ?thesis by (auto simp: entitled_iff ent_merge_def ent_key_def intro!: bexI [of _ "ent_merge new e"])
next
  case False
  with assms show ?thesis by (auto simp: entitled_iff put_entitlement_def upsert_row_def)
qed

lemma put_entitlement_elsewhere:
  "held_elsewhere (put_entitlement new es) (e_tenant new) x = held_elsewhere es (e_tenant new) x"
proof -
  have "e_tenant (ent_merge new e) = e_tenant e" for e by (simp add: ent_merge_def)
  then show ?thesis unfolding held_elsewhere_iff put_entitlement_def by (auto simp: set_upsert_row ent_key_def)
qed

subsection \<open>The loop of one assignment\<close>

definition loop_spec ::
  "entitlement_row list \<Rightarrow> uuid \<Rightarrow> token_id list \<Rightarrow>
   entitlement_row list \<Rightarrow> token_id list \<Rightarrow> rejected_vehicle list \<Rightarrow> bool" where
  "loop_spec es tid toks es' a r \<longleftrightarrow>
     ents_ok es' \<and> mset a + mset (map rv_token r) = mset toks \<and>
     (\<forall>t\<in>set a. \<not> held_elsewhere es tid t \<and> entitled es' tid t) \<and>
     (\<forall>v\<in>set r. held_elsewhere es tid (rv_token v)) \<and>
     (\<forall>i x. i \<noteq> tid \<or> x \<notin> set a \<longrightarrow> entitled es' i x = entitled es i x)"

lemma loop_spec_reject:
  "loop_spec es tid toks es' a r \<Longrightarrow> held_elsewhere es tid tok \<Longrightarrow>
   loop_spec es tid (tok # toks) es' a (\<lparr>rv_token = tok, rv_held_by = h\<rparr> # r)"
  by (auto simp: loop_spec_def)

lemma loop_spec_assign:
  assumes "loop_spec (put_entitlement new es) tid toks es' a r" and "\<not> held_elsewhere es tid tok"
    and "e_tenant new = tid" "e_token new = tok" "e_revoked new = None"
  shows "loop_spec es tid (tok # toks) es' (tok # a) r"
proof -
  have "held_elsewhere (put_entitlement new es) tid = held_elsewhere es tid"
    using put_entitlement_elsewhere [of new es] assms(3) by auto
  moreover have "entitled (put_entitlement new es) i x = entitled es i x" if "i \<noteq> tid \<or> x \<noteq> tok" for i x
    using that assms(3,4) by (intro put_entitlement_other) auto
  moreover have "entitled (put_entitlement new es) tid tok"
    using put_entitlement_same [OF assms(5), of es] assms(3,4) by simp
  then have "entitled es' tid tok" using assms(1) by (cases "tok \<in> set a") (auto simp: loop_spec_def)
  ultimately show ?thesis using assms(1,2) by (auto simp: loop_spec_def)
qed

lemma assign_loop_spec:
  assumes "assign_loop flt mk gok held tid n es toks = Inr (n', es', a, r)" and "ents_ok es"
    and mk: "\<And>t. e_tenant (mk t) = tid \<and> e_token (mk t) = t \<and> e_revoked (mk t) = None"
    and held: "\<And>t h. held t = Some h \<Longrightarrow> held_elsewhere es tid t"
  shows "loop_spec es tid toks es' a r"
  using assms(1,2) held
proof (induction toks arbitrary: n es a r)
  case Nil
  then show ?case by (simp add: loop_spec_def)
next
  case (Cons tok toks)
  show ?case
  proof (cases "held tok")
    case (Some h)
    with Cons.prems(1) obtain r0 where l: "assign_loop flt mk gok held tid n es toks = Inr (n', es', a, r0)"
      and r: "r = \<lparr>rv_token = tok, rv_held_by = h\<rparr> # r0"
      by (cases "assign_loop flt mk gok held tid n es toks") auto
    from Cons.IH [OF l Cons.prems(2,3)] Cons.prems(3) [OF Some] r show ?thesis by (simp add: loop_spec_reject)
  next
    case None
    note p = Cons.prems(1) [simplified None assign_loop.simps option.case]
    show ?thesis
    proof (cases "held_elsewhere es tid tok")
      case True
      with p None obtain r0 where l: "assign_loop flt mk gok held tid (n + 3) es toks = Inr (n', es', a, r0)"
        and r: "r = \<lparr>rv_token = tok, rv_held_by = ''another customer''\<rparr> # r0"
        by (cases "assign_loop flt mk gok held tid (n + 3) es toks") (auto split: if_splits)
      from Cons.IH [OF l Cons.prems(2,3)] True r show ?thesis by (simp add: loop_spec_reject)
    next
      case False
      let ?es = "put_entitlement (mk tok) es"
      from False p None obtain a0 where l: "assign_loop flt mk gok held tid (n + 3) ?es toks = Inr (n', es', a0, r)"
        and a: "a = tok # a0"
        by (cases "assign_loop flt mk gok held tid (n + 3) ?es toks") (auto split: if_splits)
      have "ents_ok ?es" using put_entitlement_ok [OF Cons.prems(2), of "mk tok"] False mk by simp
      moreover have "held t = Some h \<Longrightarrow> held_elsewhere ?es tid t" for t h
        using Cons.prems(3) put_entitlement_elsewhere [of "mk tok" es t] mk by simp
      ultimately have "loop_spec ?es tid toks es' a0 r" by (rule Cons.IH [OF l])
      then show ?thesis using loop_spec_assign [of "mk tok"] False mk a by blast
    qed
  qed
qed

lemma conflictingHolders_held:
  assumes "conflictingHolders flt s tid parent toks = Inr held" and "held tok = Some h"
  shows "held_elsewhere (entitlements s) tid tok"
  using assms
  by (auto simp: conflictingHolders_def held_elsewhere_iff split: option.splits if_splits dest!: map_of_SomeD)

lemma Assign_result:
  assumes "Assign L flt now s tid toks fg actor = (s', r)" and "ent_inv s"
  shows "(s' = s \<and> (\<exists>e. r = Inl e)) \<or>
    (\<exists>es a rej. r = Inr (a, rej) \<and> s' = s\<lparr>entitlements := es\<rparr> \<and> loop_spec (entitlements s) tid toks es a rej \<and>
       (toks = [] \<or> map_option t_mode (tenant_by_id tid s) = Some EntitlementExplicit))"
proof (cases "toks = []")
  case True
  with assms show ?thesis by (auto simp: Assign_def loop_spec_def ent_inv_ents intro!: exI [of _ "entitlements s"])
next
  case ne: False
  show ?thesis
  proof (cases r)
    case (Inl e)
    with assms(1) ne show ?thesis
      by (auto simp: Assign_def split: if_splits option.splits sum.splits)
  next
    case (Inr ar)
    with assms(1) ne obtain t held n es where t: "tenant_by_id tid s = Some t" "t_mode t = EntitlementExplicit"
      and h: "conflictingHolders (\<lambda>n. flt (n + 2)) s tid (t_parent t) toks = Inr held"
      and l: "assign_loop flt (ent_row_for L now tid (t_parent t) fg actor) (source_group_ok s fg) held tid 3
                (entitlements s) toks = Inr (n, es, fst ar, snd ar)"
      and s': "s' = s\<lparr>entitlements := es\<rparr>"
      by (auto simp: Assign_def split: if_splits option.splits sum.splits)
    have "loop_spec (entitlements s) tid toks es (fst ar) (snd ar)"
      using assms(2) conflictingHolders_held [OF h]
      by (intro assign_loop_spec [OF l]) (auto simp: ent_inv_ents ent_row_for_def)
    with Inr s' t show ?thesis by (cases ar) auto
  qed
qed

lemma Revoke_state:
  "fst (Revoke flt now s tid tok) = s \<or>
   fst (Revoke flt now s tid tok) = s\<lparr>entitlements :=
     upd (\<lambda>e. e_tenant e = tid \<and> e_token e = tok \<and> e_revoked e = None) (\<lambda>e. e\<lparr>e_revoked := Some now\<rparr>) (entitlements s)\<rparr>"
  by (simp add: Revoke_def Let_def)

datatype ent_op = EAssign faults time uuid "token_id list" string string | ERevoke faults time uuid token_id

fun ent_step :: "library \<Rightarrow> ent_op \<Rightarrow> db \<Rightarrow> db" where
  "ent_step L (EAssign flt now tid toks g a) s = fst (Assign L flt now s tid toks g a)"
| "ent_step L (ERevoke flt now tid tok) s = fst (Revoke flt now s tid tok)"

lemma ent_step_inv:
  assumes "ent_inv s"
  shows "ent_inv (ent_step L op s)"
proof (cases op)
  case (EAssign flt now tid toks g a)
  with Assign_result [OF _ assms] assms show ?thesis
    by (cases "Assign L flt now s tid toks g a") (fastforce simp: ent_inv_ents loop_spec_def)
next
  case (ERevoke flt now tid tok)
  let ?P = "\<lambda>e. e_tenant e = tid \<and> e_token e = tok \<and> e_revoked e = None" and ?f = "\<lambda>e. e\<lparr>e_revoked := Some now\<rparr>"
  have "unique_on (\<lambda>_. True) ent_key (upd ?P ?f (entitlements s))"
    "unique_on (\<lambda>e. e_revoked e = None) e_token (upd ?P ?f (entitlements s))"
    using assms by (auto intro!: unique_on_upd simp: ent_inv_def ent_key_def)
  with ERevoke Revoke_state [of flt now s tid tok] assms show ?thesis by (auto simp: ent_inv_def)
qed

interpretation ent_ops: op_system "ent_step L" ent_inv for L
  by unfold_locales (rule ent_step_inv)

subsection \<open>Properties\<close>

lemma demo_ent_inv: "ent_inv demo_db"
  by (simp add: ent_inv_def ent_key_def demo_defs)

text \<open>
  C15. The isolation boundary: over any sequence of assignments and revocations, under any
  faults, a vehicle is entitled to at most one tenant at a time, whoever those tenants' operators
  are.
\<close>

theorem entitlement_exclusive:
  assumes "ent_inv s"
    and "AssertEntitled no_faults (fold (ent_step L) ops s) tid tok = Inr True"
    and "AssertEntitled no_faults (fold (ent_step L) ops s) tid' tok = Inr True"
  shows "tid = tid'"
proof -
  let ?es = "entitlements (fold (ent_step L) ops s)"
  have ok: "ents_ok ?es" using ent_ops.run_inv [OF assms(1)] by (simp add: ent_inv_ents)
  have "entitled ?es tid tok" "entitled ?es tid' tok"
    using assms(2,3) by (simp_all add: AssertEntitled_def)
  then obtain e e' where e: "e \<in> set ?es" "e_tenant e = tid" "e_token e = tok" "e_revoked e = None"
      "e' \<in> set ?es" "e_tenant e' = tid'" "e_token e' = tok" "e_revoked e' = None"
    unfolding entitled_iff by blast
  then have "e = e'" by (intro one_active_holder [OF ok]) simp_all
  with e show ?thesis by simp
qed

lemma entitlement_exclusive_witness:
  "AssertEntitled no_faults (fold (ent_step demo_library) [] demo_db) ''cu'' 7 = Inr True \<and>
   AssertEntitled no_faults (fold (ent_step demo_library) [] demo_db) ''su'' 7 \<noteq> Inr True"
proof -
  have "AssertEntitled no_faults (fold (ent_step demo_library) [] demo_db) ''cu'' 7 = Inr True"
    by (simp add: AssertEntitled_def entitled_def demo_defs)
  with entitlement_exclusive [OF demo_ent_inv this, of "''su''"] show ?thesis by auto
qed

text \<open>
  An assignment accounts for every vehicle exactly once: those nobody else holds are
  assigned and entitled afterwards, those another tenant holds are rejected and stay with it;
  nobody else's entitlements change, and an error leaves the database as it was. Only an
  explicit-mode tenant can be assigned vehicles.
\<close>

theorem Assign_exact:
  assumes "ent_inv s" and "Assign L flt now s tid toks fg actor = (s', r)"
  shows "(\<forall>e. r = Inl e \<longrightarrow> s' = s) \<and>
    (\<forall>a rej. r = Inr (a, rej) \<longrightarrow>
       mset a + mset (map rv_token rej) = mset toks \<and>
       (\<forall>t\<in>set toks. t \<in> set a \<longleftrightarrow> \<not> held_elsewhere (entitlements s) tid t) \<and>
       (\<forall>t\<in>set a. AssertEntitled no_faults s' tid t = Inr True) \<and>
       (\<forall>i t. i \<noteq> tid \<or> t \<notin> set a \<longrightarrow> AssertEntitled no_faults s' i t = AssertEntitled no_faults s i t) \<and>
       (toks = [] \<or> map_option t_mode (tenant_by_id tid s) = Some EntitlementExplicit))"
proof (cases r)
  case (Inl e)
  with Assign_result [OF assms(2,1)] show ?thesis by auto
next
  case (Inr ar)
  with Assign_result [OF assms(2,1)] obtain es a rej where r: "r = Inr (a, rej)" "s' = s\<lparr>entitlements := es\<rparr>"
    and l: "loop_spec (entitlements s) tid toks es a rej"
    and m: "toks = [] \<or> map_option t_mode (tenant_by_id tid s) = Some EntitlementExplicit" by blast
  have ms: "mset a + mset (map rv_token rej) = mset toks" using l by (simp add: loop_spec_def)
  have "t \<in> set a \<or> t \<in> set (map rv_token rej)" if "t \<in> set toks" for t
    using that arg_cong [OF ms, of set_mset] by auto
  then have "\<forall>t\<in>set toks. t \<in> set a \<longleftrightarrow> \<not> held_elsewhere (entitlements s) tid t"
    using l by (fastforce simp: loop_spec_def)
  with r l ms m show ?thesis by (simp add: loop_spec_def AssertEntitled_def)
qed

lemma Assign_exact_witness:
  "\<exists>s'. Assign demo_library no_faults 5 demo_db ''su'' [7, 8] [] [] =
      (s', Inr ([8], [\<lparr>rv_token = 7, rv_held_by = ''Beta''\<rparr>])) \<and> AssertEntitled no_faults s' ''su'' 8 = Inr True"
proof -
  obtain s' where a: "Assign demo_library no_faults 5 demo_db ''su'' [7, 8] [] [] =
      (s', Inr ([8], [\<lparr>rv_token = 7, rv_held_by = ''Beta''\<rparr>]))"
    by (simp add: Assign_def conflictingHolders_def tenant_by_id_def held_elsewhere_def source_group_ok_def demo_defs)
  from Assign_exact [OF demo_ent_inv a] a show ?thesis by auto
qed

text \<open>
  Revocation is soft and frees the vehicle: the tenant is no longer entitled, the row stays
  with the time it ended, and the vehicle can at once be assigned to any explicit-mode tenant.
\<close>

theorem Revoke_frees:
  assumes "ent_inv s" and "Revoke flt now s tid tok = (s', Inr ())"
    and "tenant_by_id tid' s = Some t" "t_mode t = EntitlementExplicit"
  shows "AssertEntitled no_faults s' tid tok = Inr False \<and>
    (\<exists>e\<in>set (entitlements s'). ent_key e = (tid, tok) \<and> e_revoked e = Some now) \<and>
    snd (Assign L no_faults now' s' tid' [tok] [] actor) = Inr ([tok], [])"
proof -
  let ?P = "\<lambda>e. e_tenant e = tid \<and> e_token e = tok \<and> e_revoked e = None" and ?f = "\<lambda>e. e\<lparr>e_revoked := Some now\<rparr>"
  from assms(2) obtain e where e: "e \<in> set (entitlements s)" "?P e"
    and s': "s' = s\<lparr>entitlements := upd ?P ?f (entitlements s)\<rparr>"
    by (auto simp: Revoke_def Let_def split: if_splits)
  have gone: "e_revoked x \<noteq> None" if x: "x \<in> set (entitlements s')" "e_token x = tok" for x
  proof
    assume "e_revoked x = None"
    from x(1) have "x \<in> set (upd ?P ?f (entitlements s))" by (simp add: s')
    then have "(x \<in> set (entitlements s) \<and> \<not> ?P x) \<or> (\<exists>y. x = ?f y)" unfolding set_upd by blast
    with \<open>e_revoked x = None\<close> have "x \<in> set (entitlements s)" "\<not> ?P x" by auto
    with e x(2) assms(1) \<open>e_revoked x = None\<close> have "x = e"
      by (intro one_active_holder [of "entitlements s"]) (simp_all add: ent_inv_ents)
    with e \<open>\<not> ?P x\<close> show False by blast
  qed
  then have none: "\<not> held_elsewhere (entitlements s') tid' tok" "\<not> entitled (entitlements s') tid tok"
    unfolding held_elsewhere_iff entitled_iff by blast+
  have t: "tenant_by_id tid' s' = Some t" using assms(3) by (simp add: s' tenant_by_id_def)
  obtain held where h: "conflictingHolders no_faults s' tid' (t_parent t) [tok] = Inr held"
    by (cases "t_parent t") (simp_all add: conflictingHolders_def)
  have "held tok = None" using conflictingHolders_held [OF h] none(1) by (cases "held tok") auto
  then have "snd (Assign L no_faults now' s' tid' [tok] [] actor) = Inr ([tok], [])"
    using t assms(4) h none(1) by (simp add: Assign_def source_group_ok_def)
  moreover have "?f e \<in> set (entitlements s')" using e by (auto simp: s' set_upd)
  then have "\<exists>e\<in>set (entitlements s'). ent_key e = (tid, tok) \<and> e_revoked e = Some now"
    using e by (intro bexI [of _ "?f e"]) (auto simp: ent_key_def)
  ultimately show ?thesis using none(2) by (simp add: AssertEntitled_def)
qed

lemma Revoke_frees_witness:
  "\<exists>s'. Revoke no_faults 9 demo_db ''cu'' 7 = (s', Inr ()) \<and>
     snd (Assign demo_library no_faults 10 s' ''su'' [7] [] []) = Inr ([7], [])"
proof -
  obtain s' where r: "Revoke no_faults 9 demo_db ''cu'' 7 = (s', Inr ())"
    by (simp add: Revoke_def demo_defs)
  obtain t where t: "tenant_by_id ''su'' demo_db = Some t" "t_mode t = EntitlementExplicit"
    by (simp add: tenant_by_id_def demo_defs)
  from Revoke_frees [OF demo_ent_inv r t] r show ?thesis by blast
qed

end
