(* ===== verification/VehicleMemberships.thy ===== *)
theory VehicleMemberships
  imports Entitlements
begin

text \<open>
  Vehicle memberships, \<open>service/memberships.go\<close>: what a customer has paid for, per vehicle and
  until when. A membership is created, moved to another vehicle, renewed and cancelled, never
  deleted; its status is computed from the clock on every read. \<open>now\<close> is the database's
  \<open>NOW()\<close>, constant within a transaction; \<open>appnow\<close> is the application's clock.
\<close>

subsection \<open>Terms and status\<close>

definition MembershipTerms :: "int list" where
  "MembershipTerms = [1, 12, 24, 36, 48]"

definition IsValidMembershipTerm :: "int \<Rightarrow> bool" where
  "IsValidMembershipTerm months \<longleftrightarrow> months \<in> set MembershipTerms"

definition MembershipExpiringSoonDays :: int where
  "MembershipExpiringSoonDays = 30"

datatype vm_status = MembershipActive | MembershipExpiringSoon | MembershipExpired | MembershipCanceled

definition status_of :: "time \<Rightarrow> vm_row \<Rightarrow> vm_status" where
  "status_of now r =
     (if vm_canceled r \<noteq> None then MembershipCanceled
      else if vm_expires r \<le> now then MembershipExpired
      else if vm_expires r \<le> now + MembershipExpiringSoonDays * 86400 * second then MembershipExpiringSoon
      else MembershipActive)"

record vehicle_membership =
  wv_id :: uuid
  wv_token :: token_id
  wv_term :: nat
  wv_starts :: int
  wv_expires :: int
  wv_canceled :: "int option"
  wv_status :: vm_status

definition scanMembership :: "time \<Rightarrow> vm_row \<Rightarrow> vehicle_membership" where
  "scanMembership now r = \<lparr>wv_id = vm_id r, wv_token = vm_token r, wv_term = vm_term r,
     wv_starts = wireTime (vm_starts r), wv_expires = wireTime (vm_expires r),
     wv_canceled = map_option wireTime (vm_canceled r), wv_status = status_of now r\<rparr>"

subsection \<open>Reads\<close>

definition ListMemberships ::
  "faults \<Rightarrow> time \<Rightarrow> db \<Rightarrow> uuid \<Rightarrow> svc_error + bool \<times> vehicle_membership list" where
  "ListMemberships flt now s tenantID =
     (if flt 0 then Inl (DbError ''load tenant'')
      else case tenant_by_id tenantID s of
        None \<Rightarrow> Inl ErrTenantNotFound
      | Some t \<Rightarrow>
        if flt 1 then Inl (DbError ''list memberships'')
        else Inr (t_enforced t, map (scanMembership now)
               (sort_key (\<lambda>r. (vm_expires r, vm_token r))
                  (filter (\<lambda>r. vm_tenant r = tenantID \<and> vm_canceled r = None) (vehicle_memberships s)))))"

definition ActiveTokenIDs :: "faults \<Rightarrow> time \<Rightarrow> db \<Rightarrow> uuid \<Rightarrow> svc_error + bool \<times> token_id list" where
  "ActiveTokenIDs flt now s tenantID =
     (if flt 0 then Inl (DbError ''load tenant'')
      else case tenant_by_id tenantID s of
        None \<Rightarrow> Inl ErrTenantNotFound
      | Some t \<Rightarrow>
        if flt 1 then Inl (DbError ''active memberships'')
        else Inr (t_enforced t, sort (map vm_token
               (filter (\<lambda>r. vm_tenant r = tenantID \<and> vm_canceled r = None \<and> now < vm_expires r)
                       (vehicle_memberships s)))))"

subsection \<open>Writes\<close>

definition assertExplicitMode :: "faults \<Rightarrow> db \<Rightarrow> uuid \<Rightarrow> svc_error + unit" where
  "assertExplicitMode flt s tenantID =
     (if flt 0 then Inl (DbError ''load tenant'')
      else case tenant_by_id tenantID s of
        None \<Rightarrow> Inl ErrTenantNotFound
      | Some t \<Rightarrow> if t_mode t \<noteq> EntitlementExplicit then Inl ErrNotExplicitMode else Inr ())"

definition assertEntitledTx :: "faults \<Rightarrow> db \<Rightarrow> uuid \<Rightarrow> token_id \<Rightarrow> svc_error + unit" where
  "assertEntitledTx flt s tenantID tokenID =
     (if flt 0 then Inl (DbError ''check entitlement'')
      else if entitled (entitlements s) tenantID tokenID then Inr () else Inl ErrVehicleNotEntitled)"

definition live_on :: "uuid \<Rightarrow> token_id \<Rightarrow> vm_row \<Rightarrow> bool" where
  "live_on tid tok r \<longleftrightarrow> vm_tenant r = tid \<and> vm_token r = tok \<and> vm_canceled r = None"

definition supersedeOrRefuse ::
  "faults \<Rightarrow> time \<Rightarrow> vm_row list \<Rightarrow> uuid \<Rightarrow> token_id \<Rightarrow> svc_error + vm_row list" where
  "supersedeOrRefuse flt now vs tenantID tokenID =
     (if flt 0 then Inl (DbError ''check existing membership'')
      else case find (live_on tenantID tokenID) vs of
        None \<Rightarrow> Inr vs
      | Some live \<Rightarrow>
        if \<not> vm_expires live \<le> now then Inl ErrMembershipExists
        else if flt 1 then Inl (DbError ''supersede lapsed membership'')
        else Inr (upd (\<lambda>r. vm_id r = vm_id live) (\<lambda>r. r\<lparr>vm_canceled := Some now\<rparr>) vs))"

text \<open>\<open>StartsAt\<close>: absent or empty, a text that is not RFC 3339, or a time.\<close>

datatype starts_at = StartsAbsent | StartsMalformed | StartsAt time

record create_membership_input =
  cmi_token :: token_id
  cmi_term :: int
  cmi_starts :: starts_at

definition live_keys :: "vm_row list \<Rightarrow> bool" where
  "live_keys vs = unique_on (\<lambda>r. vm_canceled r = None) (\<lambda>r. (vm_tenant r, vm_token r)) vs"

definition vm_row_for ::
  "library \<Rightarrow> uuid \<Rightarrow> time \<Rightarrow> uuid \<Rightarrow> create_membership_input \<Rightarrow> string \<Rightarrow> vm_row" where
  "vm_row_for L newid startsAt tenantID inp actor =
     \<lparr>vm_id = newid, vm_tenant = tenantID, vm_token = cmi_token inp, vm_term = nat (cmi_term inp),
      vm_starts = startsAt, vm_expires = addMonths L (nat (cmi_term inp)) startsAt,
      vm_canceled = None, vm_created_by = nullif (normaliseOptionalWallet L actor)\<rparr>"

definition CreateMembership ::
  "library \<Rightarrow> faults \<Rightarrow> uuid \<Rightarrow> time \<Rightarrow> time \<Rightarrow> db \<Rightarrow> uuid \<Rightarrow> create_membership_input \<Rightarrow> string \<Rightarrow>
   db \<times> (svc_error + vehicle_membership)" where
  "CreateMembership L flt newid appnow now s tenantID inp actor =
     (if \<not> IsValidMembershipTerm (cmi_term inp) then (s, Inl ErrInvalidTerm)
      else if cmi_starts inp = StartsMalformed then (s, Inl ErrInvalidStartsAt)
      else let startsAt = (case cmi_starts inp of StartsAt t \<Rightarrow> t | _ \<Rightarrow> appnow) in
      if flt 0 then (s, Inl (DbError ''begin''))
      else case assertExplicitMode (\<lambda>n. flt (n + 1)) s tenantID of
        Inl e \<Rightarrow> (s, Inl e)
      | Inr _ \<Rightarrow> (case assertEntitledTx (\<lambda>n. flt (n + 2)) s tenantID (cmi_token inp) of
        Inl e \<Rightarrow> (s, Inl e)
      | Inr _ \<Rightarrow> (case supersedeOrRefuse (\<lambda>n. flt (n + 3)) now (vehicle_memberships s) tenantID (cmi_token inp) of
        Inl e \<Rightarrow> (s, Inl e)
      | Inr vs \<Rightarrow>
        let row = vm_row_for L newid startsAt tenantID inp actor in
        if flt 5 then (s, Inl (DbError ''create membership''))
        else if list_ex (\<lambda>r. vm_id r = newid \<or> live_on tenantID (cmi_token inp) r) vs
        then (s, Inl ErrMembershipExists)
        else if flt 6 then (s, Inl (DbError ''commit''))
        else (s\<lparr>vehicle_memberships := vs @ [row]\<rparr>, Inr (scanMembership now row)))))"

definition MoveMembership ::
  "library \<Rightarrow> faults \<Rightarrow> time \<Rightarrow> db \<Rightarrow> uuid \<Rightarrow> uuid \<Rightarrow> token_id \<Rightarrow> string \<Rightarrow>
   db \<times> (svc_error + vehicle_membership)" where
  "MoveMembership L flt now s tenantID membershipID toToken actor =
     (if \<not> uuidParse L membershipID then (s, Inl ErrMembershipNotFound)
      else if flt 0 then (s, Inl (DbError ''begin''))
      else if flt 1 then (s, Inl (DbError ''load membership''))
      else case find (\<lambda>r. vm_id r = membershipID \<and> vm_tenant r = tenantID \<and> vm_canceled r = None)
                     (vehicle_memberships s) of
        None \<Rightarrow> (s, Inl ErrMembershipNotFound)
      | Some m \<Rightarrow>
        if vm_token m = toToken then (s, Inl ErrSameVehicle)
        else case assertEntitledTx (\<lambda>n. flt (n + 2)) s tenantID toToken of
          Inl e \<Rightarrow> (s, Inl e)
        | Inr _ \<Rightarrow> (case supersedeOrRefuse (\<lambda>n. flt (n + 3)) now (vehicle_memberships s) tenantID toToken of
          Inl e \<Rightarrow> (s, Inl e)
        | Inr vs \<Rightarrow>
          let vs' = upd (\<lambda>r. vm_id r = membershipID) (\<lambda>r. r\<lparr>vm_token := toToken\<rparr>) vs in
          if flt 5 then (s, Inl (DbError ''move membership''))
          else if \<not> live_keys vs' then (s, Inl ErrMembershipExists)
          else (case find (\<lambda>r. vm_id r = membershipID) vs' of
                  None \<Rightarrow> (s, Inl (DbError ''move membership''))
                | Some m' \<Rightarrow>
                  if flt 6 then (s, Inl (DbError ''record move''))
                  else if flt 7 then (s, Inl (DbError ''commit''))
                  else (s\<lparr>vehicle_memberships := vs',
                          membership_moves := membership_moves s @
                            [\<lparr>mv_membership = membershipID, mv_from = vm_token m, mv_to = toToken,
                              mv_by = nullif (normaliseOptionalWallet L actor), mv_at = now\<rparr>]\<rparr>,
                        Inr (scanMembership now m')))))"

definition renewed :: "library \<Rightarrow> time \<Rightarrow> int \<Rightarrow> vm_row \<Rightarrow> vm_row" where
  "renewed L now term r = r\<lparr>vm_expires := addMonths L (nat term) (max (vm_expires r) now), vm_term := nat term\<rparr>"

definition RenewMembership ::
  "library \<Rightarrow> faults \<Rightarrow> time \<Rightarrow> db \<Rightarrow> uuid \<Rightarrow> uuid \<Rightarrow> int \<Rightarrow> db \<times> (svc_error + vehicle_membership)" where
  "RenewMembership L flt now s tenantID membershipID term =
     (if \<not> IsValidMembershipTerm term then (s, Inl ErrInvalidTerm)
      else if \<not> uuidParse L membershipID then (s, Inl ErrMembershipNotFound)
      else let match = (\<lambda>r. vm_id r = membershipID \<and> vm_tenant r = tenantID \<and> vm_canceled r = None);
               vs = upd match (renewed L now term) (vehicle_memberships s) in
      if flt 0 then (s, Inl (DbError ''renew membership''))
      else (s\<lparr>vehicle_memberships := vs\<rparr>,
            (case find match vs of
               None \<Rightarrow> Inl ErrMembershipNotFound
             | Some r \<Rightarrow> if flt 1 then Inl (DbError ''renew membership'') else Inr (scanMembership now r))))"

definition CancelMembership ::
  "library \<Rightarrow> faults \<Rightarrow> time \<Rightarrow> db \<Rightarrow> uuid \<Rightarrow> uuid \<Rightarrow> db \<times> (svc_error + unit)" where
  "CancelMembership L flt now s tenantID membershipID =
     (if \<not> uuidParse L membershipID then (s, Inl ErrMembershipNotFound)
      else let match = (\<lambda>r. vm_id r = membershipID \<and> vm_tenant r = tenantID \<and> vm_canceled r = None);
               s1 = s\<lparr>vehicle_memberships := upd match (\<lambda>r. r\<lparr>vm_canceled := Some now\<rparr>) (vehicle_memberships s)\<rparr> in
      if flt 0 then (s, Inl (DbError ''cancel membership''))
      else if flt 1 then (s1, Inl (DbError ''rows affected''))
      else if affected match (vehicle_memberships s) = 0 then (s1, Inl ErrMembershipNotFound)
      else (s1, Inr ()))"

subsection \<open>The invariant, and what time does to a row\<close>

definition vms_ok :: "vm_row list \<Rightarrow> bool" where
  "vms_ok vs \<longleftrightarrow> unique_on (\<lambda>_. True) vm_id vs \<and> live_keys vs \<and>
     (\<forall>r\<in>set vs. IsValidMembershipTerm (int (vm_term r)) \<and> vm_starts r < vm_expires r)"

definition vm_inv :: "db \<Rightarrow> bool" where
  "vm_inv s \<longleftrightarrow> vms_ok (vehicle_memberships s) \<and>
     (\<forall>m\<in>set (membership_moves s). \<exists>r\<in>set (vehicle_memberships s). vm_id r = mv_membership m)"

text \<open>A row is never lost, never changes hands, never loses paid time, and once cancelled is final.\<close>

definition row_later :: "vm_row \<Rightarrow> vm_row \<Rightarrow> bool" where
  "row_later r r' \<longleftrightarrow> vm_id r' = vm_id r \<and> vm_tenant r' = vm_tenant r \<and> vm_starts r' = vm_starts r \<and>
     vm_expires r \<le> vm_expires r' \<and> (vm_canceled r \<noteq> None \<longrightarrow> r' = r)"

definition rows_later :: "vm_row list \<Rightarrow> vm_row list \<Rightarrow> bool" where
  "rows_later vs vs' \<longleftrightarrow> rows_rel row_later vs vs'"

definition vm_later :: "db \<Rightarrow> db \<Rightarrow> bool" where
  "vm_later s s' \<longleftrightarrow> rows_later (vehicle_memberships s) (vehicle_memberships s') \<and>
     (\<exists>ms. membership_moves s' = membership_moves s @ ms)"

lemma row_later_refl [simp]: "row_later r r"
  by (simp add: row_later_def)

lemma row_later_trans: "row_later r r' \<Longrightarrow> row_later r' r'' \<Longrightarrow> row_later r r''"
  by (auto simp: row_later_def)

lemma rows_later_refl [simp]: "rows_later vs vs"
  unfolding rows_later_def by (rule rows_rel_refl) simp

lemma rows_later_trans: "rows_later vs vs' \<Longrightarrow> rows_later vs' vs'' \<Longrightarrow> rows_later vs vs''"
  unfolding rows_later_def by (erule rows_rel_trans) (auto intro: row_later_trans)

lemma rows_later_append: "rows_later vs (vs @ xs)"
  unfolding rows_later_def by (rule rows_rel_append) simp

lemma rows_later_upd:
  "(\<And>r. r \<in> set vs \<Longrightarrow> P r \<Longrightarrow> row_later r (f r)) \<Longrightarrow> rows_later vs (upd P f vs)"
  unfolding rows_later_def by (rule rows_rel_upd) simp_all

lemma same_row: "vms_ok vs \<Longrightarrow> r \<in> set vs \<Longrightarrow> r' \<in> set vs \<Longrightarrow> vm_id r = vm_id r' \<Longrightarrow> r = r'"
  using unique_on_inj [of "\<lambda>_. True" vm_id vs r r'] by (simp add: vms_ok_def)

lemma upd_vms_ok:
  assumes "vms_ok vs" and "\<And>r. r \<in> set vs \<Longrightarrow> P r \<Longrightarrow> vm_id (f r) = vm_id r"
    and "\<And>r. r \<in> set vs \<Longrightarrow> P r \<Longrightarrow> IsValidMembershipTerm (int (vm_term (f r))) \<and> vm_starts (f r) < vm_expires (f r)"
    and "live_keys (upd P f vs)"
  shows "vms_ok (upd P f vs)"
proof -
  have "map vm_id (upd P f vs) = map vm_id vs" using assms(2) by (auto simp: upd_def)
  then have "unique_on (\<lambda>_. True) vm_id (upd P f vs)" using assms(1) by (simp add: vms_ok_def unique_on_def)
  moreover have "\<forall>r\<in>set (upd P f vs). IsValidMembershipTerm (int (vm_term r)) \<and> vm_starts r < vm_expires r"
    using assms(1,3) by (auto simp: vms_ok_def set_upd)
  ultimately show ?thesis using assms(4) by (simp add: vms_ok_def)
qed

lemma cancel_ok:
  assumes "vms_ok vs"
  shows "vms_ok (upd P (\<lambda>r. r\<lparr>vm_canceled := Some now\<rparr>) vs)"
proof (rule upd_vms_ok [OF assms])
  show "live_keys (upd P (\<lambda>r. r\<lparr>vm_canceled := Some now\<rparr>) vs)"
    using assms unfolding live_keys_def vms_ok_def by (intro unique_on_upd) auto
qed (use assms in \<open>auto simp: vms_ok_def\<close>)

lemma live_onD: "find (live_on tid tok) vs = Some r \<Longrightarrow>
    r \<in> set vs \<and> vm_tenant r = tid \<and> vm_token r = tok \<and> vm_canceled r = None"
  by (drule find_SomeD) (simp add: live_on_def)

lemma supersede_result:
  assumes "supersedeOrRefuse flt now vs tid tok = Inr vs'" and "vms_ok vs"
  shows "vms_ok vs'" and "rows_later vs vs'" and "\<forall>r\<in>set vs'. \<not> live_on tid tok r"
    and "\<forall>r\<in>set vs. live_on tid tok r \<longrightarrow> vm_expires r \<le> now \<and> r\<lparr>vm_canceled := Some now\<rparr> \<in> set vs'"
    and "\<forall>r\<in>set vs. \<not> live_on tid tok r \<longrightarrow> r \<in> set vs'" and "map vm_id vs' = map vm_id vs"
proof -
  consider "find (live_on tid tok) vs = None" "vs' = vs"
    | l where "find (live_on tid tok) vs = Some l" "vm_expires l \<le> now"
        "vs' = upd (\<lambda>r. vm_id r = vm_id l) (\<lambda>r. r\<lparr>vm_canceled := Some now\<rparr>) vs"
    using assms(1) by (auto simp: supersedeOrRefuse_def split: if_splits option.splits)
  then have "vms_ok vs' \<and> rows_later vs vs' \<and> (\<forall>r\<in>set vs'. \<not> live_on tid tok r) \<and>
    (\<forall>r\<in>set vs. live_on tid tok r \<longrightarrow> vm_expires r \<le> now \<and> r\<lparr>vm_canceled := Some now\<rparr> \<in> set vs') \<and>
    (\<forall>r\<in>set vs. \<not> live_on tid tok r \<longrightarrow> r \<in> set vs') \<and> map vm_id vs' = map vm_id vs"
  proof cases
    case 1
    then show ?thesis using assms(2) by (simp add: find_None)
  next
    case 2
    note l = live_onD [OF 2(1)]
    have only: "r = l" if "r \<in> set vs" "vm_id r = vm_id l \<or> live_on tid tok r" for r
    proof -
      have "unique_on (\<lambda>r. vm_canceled r = None) (\<lambda>r. (vm_tenant r, vm_token r)) vs"
        using assms(2) by (simp add: vms_ok_def live_keys_def)
      from unique_on_inj [OF this that(1), of l] that l same_row [OF assms(2) that(1), of l] show ?thesis
        by (auto simp: live_on_def)
    qed
    have "row_later r (r\<lparr>vm_canceled := Some now\<rparr>)" if "r \<in> set vs" "vm_id r = vm_id l" for r
      using only [of r] that l by (simp add: row_later_def)
    then have "rows_later vs vs'" unfolding 2(3) by (rule rows_later_upd)
    moreover have "\<not> live_on tid tok (r\<lparr>vm_canceled := Some now\<rparr>)" for r by (simp add: live_on_def)
    then have "\<forall>r\<in>set vs'. \<not> live_on tid tok r" unfolding 2(3) set_upd using only by blast
    moreover have "\<forall>r\<in>set vs. live_on tid tok r \<longrightarrow> vm_expires r \<le> now \<and> r\<lparr>vm_canceled := Some now\<rparr> \<in> set vs'"
      unfolding 2(3) using only 2(2) l by (auto simp: set_upd)
    moreover have "\<forall>r\<in>set vs. \<not> live_on tid tok r \<longrightarrow> r \<in> set vs'"
    proof -
      have "live_on tid tok l" using l by (simp add: live_on_def)
      then show ?thesis unfolding 2(3) set_upd using only by blast
    qed
    moreover have "map vm_id vs' = map vm_id vs" unfolding 2(3) upd_def by simp
    ultimately show ?thesis using cancel_ok [OF assms(2)] 2(3) by simp
  qed
  then show "vms_ok vs'" and "rows_later vs vs'" and "\<forall>r\<in>set vs'. \<not> live_on tid tok r"
    and "\<forall>r\<in>set vs. live_on tid tok r \<longrightarrow> vm_expires r \<le> now \<and> r\<lparr>vm_canceled := Some now\<rparr> \<in> set vs'"
    and "\<forall>r\<in>set vs. \<not> live_on tid tok r \<longrightarrow> r \<in> set vs'" and "map vm_id vs' = map vm_id vs"
    by blast+
qed

subsection \<open>What each operation does\<close>

definition start_of :: "time \<Rightarrow> starts_at \<Rightarrow> time" where
  "start_of appnow st = (case st of StartsAt t \<Rightarrow> t | _ \<Rightarrow> appnow)"

lemma CreateMembership_result:
  assumes "CreateMembership L flt newid appnow now s tid inp actor = (s', r)"
  shows "(s' = s \<and> (\<exists>e. r = Inl e)) \<or>
    (\<exists>vs row. IsValidMembershipTerm (cmi_term inp) \<and> cmi_starts inp \<noteq> StartsMalformed \<and>
       map_option t_mode (tenant_by_id tid s) = Some EntitlementExplicit \<and>
       entitled (entitlements s) tid (cmi_token inp) \<and>
       supersedeOrRefuse (\<lambda>n. flt (n + 3)) now (vehicle_memberships s) tid (cmi_token inp) = Inr vs \<and>
       row = vm_row_for L newid (start_of appnow (cmi_starts inp)) tid inp actor \<and>
       \<not> list_ex (\<lambda>r. vm_id r = newid \<or> live_on tid (cmi_token inp) r) vs \<and>
       s' = s\<lparr>vehicle_memberships := vs @ [row]\<rparr> \<and> r = Inr (scanMembership now row))"
  using assms unfolding CreateMembership_def Let_def start_of_def assertExplicitMode_def assertEntitledTx_def
  by (simp split: if_split_asm option.split_asm sum.split_asm; blast)

lemma MoveMembership_result:
  assumes "MoveMembership L flt now s tid mid to actor = (s', r)"
  shows "(s' = s \<and> (\<exists>e. r = Inl e)) \<or>
    (\<exists>m vs m'. find (\<lambda>r. vm_id r = mid \<and> vm_tenant r = tid \<and> vm_canceled r = None) (vehicle_memberships s) = Some m \<and>
       vm_token m \<noteq> to \<and> entitled (entitlements s) tid to \<and>
       supersedeOrRefuse (\<lambda>n. flt (n + 3)) now (vehicle_memberships s) tid to = Inr vs \<and>
       live_keys (upd (\<lambda>r. vm_id r = mid) (\<lambda>r. r\<lparr>vm_token := to\<rparr>) vs) \<and>
       find (\<lambda>r. vm_id r = mid) (upd (\<lambda>r. vm_id r = mid) (\<lambda>r. r\<lparr>vm_token := to\<rparr>) vs) = Some m' \<and>
       s' = s\<lparr>vehicle_memberships := upd (\<lambda>r. vm_id r = mid) (\<lambda>r. r\<lparr>vm_token := to\<rparr>) vs,
              membership_moves := membership_moves s @
                [\<lparr>mv_membership = mid, mv_from = vm_token m, mv_to = to,
                  mv_by = nullif (normaliseOptionalWallet L actor), mv_at = now\<rparr>]\<rparr> \<and>
       r = Inr (scanMembership now m'))"
  using assms unfolding MoveMembership_def Let_def assertEntitledTx_def
  by (simp split: if_split_asm option.split_asm sum.split_asm; blast)

lemma RenewMembership_state:
  assumes "RenewMembership L flt now s tid mid term = (s', r)"
  shows "s' = s \<or> (IsValidMembershipTerm term \<and> s' = s\<lparr>vehicle_memberships :=
     upd (\<lambda>r. vm_id r = mid \<and> vm_tenant r = tid \<and> vm_canceled r = None) (renewed L now term) (vehicle_memberships s)\<rparr>)"
  using assms unfolding RenewMembership_def Let_def by (simp split: if_split_asm; blast)

lemma CancelMembership_state:
  assumes "CancelMembership L flt now s tid mid = (s', r)"
  shows "s' = s \<or> s' = s\<lparr>vehicle_memberships :=
     upd (\<lambda>r. vm_id r = mid \<and> vm_tenant r = tid \<and> vm_canceled r = None)
         (\<lambda>r. r\<lparr>vm_canceled := Some now\<rparr>) (vehicle_memberships s)\<rparr>"
  using assms unfolding CancelMembership_def Let_def by (simp split: if_split_asm; blast)

lemma vm_invI:
  assumes "vm_inv s" and "vms_ok (vehicle_memberships s')" and "rows_later (vehicle_memberships s) (vehicle_memberships s')"
    and "\<And>m. m \<in> set (membership_moves s') \<Longrightarrow> m \<in> set (membership_moves s) \<or>
           (\<exists>r\<in>set (vehicle_memberships s). vm_id r = mv_membership m)"
  shows "vm_inv s'"
proof -
  have "\<exists>r\<in>set (vehicle_memberships s'). vm_id r = mv_membership m" if "m \<in> set (membership_moves s')" for m
  proof -
    from assms(1,4) that obtain r where "r \<in> set (vehicle_memberships s)" "vm_id r = mv_membership m"
      by (auto simp: vm_inv_def)
    moreover from this(1) assms(3) obtain r' where "r' \<in> set (vehicle_memberships s')" "row_later r r'"
      unfolding rows_later_def by (blast dest: rows_relD)
    ultimately show ?thesis by (intro bexI [of _ r']) (simp_all add: row_later_def)
  qed
  with assms(2) show ?thesis by (simp add: vm_inv_def)
qed

lemma renewed_expires:
  assumes "month_laws L" and "IsValidMembershipTerm term"
  shows "max (vm_expires r) now < vm_expires (renewed L now term r)"
proof -
  have "0 < nat term \<and> nat term \<le> 48" using assms(2) by (auto simp: IsValidMembershipTerm_def MembershipTerms_def)
  with assms(1) have "max (vm_expires r) now < addMonths L (nat term) (max (vm_expires r) now)"
    unfolding month_laws_def by blast
  then show ?thesis by (simp add: renewed_def)
qed

lemma CreateMembership_inv:
  assumes "month_laws L" and "vm_inv s"
  shows "vm_inv (fst (CreateMembership L flt newid appnow now s tid inp actor)) \<and>
    vm_later s (fst (CreateMembership L flt newid appnow now s tid inp actor))"
proof (cases "CreateMembership L flt newid appnow now s tid inp actor")
  case (Pair s' r)
  let ?row = "vm_row_for L newid (start_of appnow (cmi_starts inp)) tid inp actor"
  consider "s' = s" | vs where "IsValidMembershipTerm (cmi_term inp)"
      "supersedeOrRefuse (\<lambda>n. flt (n + 3)) now (vehicle_memberships s) tid (cmi_token inp) = Inr vs"
      "\<not> list_ex (\<lambda>r. vm_id r = newid \<or> live_on tid (cmi_token inp) r) vs"
      "s' = s\<lparr>vehicle_memberships := vs @ [?row]\<rparr>"
    using CreateMembership_result [OF Pair] by blast
  then have "vm_inv s' \<and> vm_later s s'"
  proof cases
    case 2
    have ok: "vms_ok (vehicle_memberships s)" using assms(2) by (simp add: vm_inv_def)
    note sup = supersede_result [OF 2(2) ok]
    have "0 < nat (cmi_term inp) \<and> nat (cmi_term inp) \<le> 48" using 2(1) by (auto simp: IsValidMembershipTerm_def MembershipTerms_def)
    then have "vm_starts ?row < vm_expires ?row" using assms(1) by (simp add: vm_row_for_def month_laws_def)
    moreover have "IsValidMembershipTerm (int (vm_term ?row))"
      using 2(1) by (auto simp: IsValidMembershipTerm_def MembershipTerms_def vm_row_for_def)
    ultimately have "vms_ok (vs @ [?row])"
      using sup(1) 2(3) by (auto simp: vms_ok_def live_keys_def vm_row_for_def list_ex_iff live_on_def)
    moreover have "rows_later (vehicle_memberships s) (vs @ [?row])"
      using sup(2) rows_later_append rows_later_trans by blast
    ultimately show ?thesis using 2(4) vm_invI [OF assms(2), of s'] by (simp add: vm_later_def)
  qed (use assms(2) in \<open>simp add: vm_later_def\<close>)
  with Pair show ?thesis by simp
qed

lemma MoveMembership_inv:
  assumes "vm_inv s"
  shows "vm_inv (fst (MoveMembership L flt now s tid mid to actor)) \<and>
    vm_later s (fst (MoveMembership L flt now s tid mid to actor))"
proof (cases "MoveMembership L flt now s tid mid to actor")
  case (Pair s' r)
  let ?f = "\<lambda>r. r\<lparr>vm_token := to\<rparr>" and ?P = "\<lambda>r. vm_id r = mid"
  let ?live = "\<lambda>r. vm_id r = mid \<and> vm_tenant r = tid \<and> vm_canceled r = None"
  let ?mv = "\<lambda>m. \<lparr>mv_membership = mid, mv_from = vm_token m, mv_to = to,
    mv_by = nullif (normaliseOptionalWallet L actor), mv_at = now\<rparr>"
  consider "s' = s" | m vs where "find ?live (vehicle_memberships s) = Some m" "vm_token m \<noteq> to"
      "supersedeOrRefuse (\<lambda>n. flt (n + 3)) now (vehicle_memberships s) tid to = Inr vs"
      "live_keys (upd ?P ?f vs)"
      "s' = s\<lparr>vehicle_memberships := upd ?P ?f vs, membership_moves := membership_moves s @ [?mv m]\<rparr>"
    using MoveMembership_result [OF Pair] by blast
  then have "vm_inv s' \<and> vm_later s s'"
  proof cases
    case 2
    have ok: "vms_ok (vehicle_memberships s)" using assms by (simp add: vm_inv_def)
    note sup = supersede_result [OF 2(3) ok]
    have m: "m \<in> set (vehicle_memberships s)" "?live m" using find_SomeD [OF 2(1)] by simp_all
    with 2(2) sup(5) have "m \<in> set vs" by (auto simp: live_on_def)
    with m(2) same_row [OF sup(1)] have only: "r = m" if "r \<in> set vs" "vm_id r = mid" for r using that by metis
    have "rows_later vs (upd ?P ?f vs)"
      by (rule rows_later_upd) (use only m(2) in \<open>auto simp: row_later_def\<close>)
    with sup(2) have later: "rows_later (vehicle_memberships s) (upd ?P ?f vs)" by (rule rows_later_trans)
    moreover have "vms_ok (upd ?P ?f vs)"
      by (rule upd_vms_ok [OF sup(1) _ _ 2(4)]) (use sup(1) in \<open>auto simp: vms_ok_def\<close>)
    moreover have "mv \<in> set (membership_moves s') \<Longrightarrow> mv \<in> set (membership_moves s) \<or>
        (\<exists>r\<in>set (vehicle_memberships s). vm_id r = mv_membership mv)" for mv
      using 2(5) m by auto
    ultimately show ?thesis using 2(5) vm_invI [OF assms, of s'] by (simp add: vm_later_def)
  qed (use assms in \<open>simp add: vm_later_def\<close>)
  with Pair show ?thesis by simp
qed

lemma upd_inv:
  assumes "vm_inv s" and "s' = s\<lparr>vehicle_memberships := upd P f (vehicle_memberships s)\<rparr>"
    and "vms_ok (upd P f (vehicle_memberships s))"
    and "\<And>r. r \<in> set (vehicle_memberships s) \<Longrightarrow> P r \<Longrightarrow> row_later r (f r)"
  shows "vm_inv s' \<and> vm_later s s'"
proof -
  have "rows_later (vehicle_memberships s) (upd P f (vehicle_memberships s))"
    using assms(4) by (rule rows_later_upd)
  then show ?thesis using assms(2,3) vm_invI [OF assms(1), of s'] by (simp add: vm_later_def)
qed

lemma RenewMembership_inv:
  assumes "month_laws L" and "vm_inv s"
  shows "vm_inv (fst (RenewMembership L flt now s tid mid term)) \<and> vm_later s (fst (RenewMembership L flt now s tid mid term))"
proof (cases "RenewMembership L flt now s tid mid term")
  case (Pair s' r)
  let ?P = "\<lambda>r. vm_id r = mid \<and> vm_tenant r = tid \<and> vm_canceled r = None" and ?f = "renewed L now term"
  have keep: "vm_id (?f r) = vm_id r" "vm_tenant (?f r) = vm_tenant r" "vm_starts (?f r) = vm_starts r"
    "vm_token (?f r) = vm_token r" "vm_canceled (?f r) = vm_canceled r" "vm_term (?f r) = nat term" for r
    by (simp_all add: renewed_def)
  from RenewMembership_state [OF Pair] show ?thesis
  proof
    assume u: "IsValidMembershipTerm term \<and> s' = s\<lparr>vehicle_memberships := upd ?P ?f (vehicle_memberships s)\<rparr>"
    then have later: "vm_expires r < vm_expires (?f r)" for r
      using renewed_expires [OF assms(1), of "term" r now] by simp
    have ok: "vms_ok (vehicle_memberships s)" using assms(2) by (simp add: vm_inv_def)
    have "vms_ok (upd ?P ?f (vehicle_memberships s))"
    proof (rule upd_vms_ok [OF ok])
      show "live_keys (upd ?P ?f (vehicle_memberships s))"
        using ok keep unfolding live_keys_def vms_ok_def by (intro unique_on_upd) auto
      fix r assume "r \<in> set (vehicle_memberships s)" "?P r"
      then show "IsValidMembershipTerm (int (vm_term (?f r))) \<and> vm_starts (?f r) < vm_expires (?f r)"
        using ok later [of r] u keep
        by (auto simp: vms_ok_def IsValidMembershipTerm_def MembershipTerms_def intro: less_trans)
    qed (simp add: keep)
    moreover have "row_later r (?f r)" if "?P r" for r
      using later [of r] keep that by (simp add: row_later_def less_imp_le)
    ultimately have "vm_inv s' \<and> vm_later s s'" using upd_inv [OF assms(2), of s' ?P ?f] u by blast
    with Pair show ?thesis by simp
  qed (use Pair assms(2) in \<open>simp add: vm_later_def\<close>)
qed

lemma CancelMembership_inv:
  assumes "vm_inv s"
  shows "vm_inv (fst (CancelMembership L flt now s tid mid)) \<and> vm_later s (fst (CancelMembership L flt now s tid mid))"
proof (cases "CancelMembership L flt now s tid mid")
  case (Pair s' r)
  let ?P = "\<lambda>r. vm_id r = mid \<and> vm_tenant r = tid \<and> vm_canceled r = None" and ?f = "\<lambda>r. r\<lparr>vm_canceled := Some now\<rparr>"
  from CancelMembership_state [OF Pair] show ?thesis
  proof
    assume u: "s' = s\<lparr>vehicle_memberships := upd ?P ?f (vehicle_memberships s)\<rparr>"
    have "vm_inv s' \<and> vm_later s s'"
    proof (rule upd_inv [OF assms u])
      show "vms_ok (upd ?P ?f (vehicle_memberships s))" using assms by (intro cancel_ok) (simp add: vm_inv_def)
    qed (simp add: row_later_def)
    with Pair show ?thesis by simp
  qed (use Pair assms in \<open>simp add: vm_later_def\<close>)
qed

datatype vm_op =
    VCreate faults uuid time time uuid create_membership_input string
  | VMove faults time uuid uuid token_id string
  | VRenew faults time uuid uuid int
  | VCancel faults time uuid uuid

fun vm_step :: "library \<Rightarrow> vm_op \<Rightarrow> db \<Rightarrow> db" where
  "vm_step L (VCreate flt i appnow now tid inp a) s = fst (CreateMembership L flt i appnow now s tid inp a)"
| "vm_step L (VMove flt now tid mid to a) s = fst (MoveMembership L flt now s tid mid to a)"
| "vm_step L (VRenew flt now tid mid term) s = fst (RenewMembership L flt now s tid mid term)"
| "vm_step L (VCancel flt now tid mid) s = fst (CancelMembership L flt now s tid mid)"

lemma vm_later_trans: "vm_later s t \<Longrightarrow> vm_later t u \<Longrightarrow> vm_later s u"
  unfolding vm_later_def by (metis append_assoc rows_later_trans)

lemma vm_step_ok: "month_laws L \<Longrightarrow> vm_inv s \<Longrightarrow> vm_inv (vm_step L op s) \<and> vm_later s (vm_step L op s)"
  by (cases op) (simp_all add: CreateMembership_inv MoveMembership_inv RenewMembership_inv CancelMembership_inv)

interpretation vm_ops: op_history "vm_step L" "\<lambda>s. month_laws L \<and> vm_inv s" vm_later for L
  by unfold_locales (auto simp: vm_step_ok intro: vm_later_trans, auto simp: vm_later_def)

subsection \<open>Properties\<close>

definition demo_membership :: create_membership_input where
  "demo_membership = \<lparr>cmi_token = 7, cmi_term = 12, cmi_starts = StartsAbsent\<rparr>"

lemma demo_vm_inv: "vm_inv demo_db"
  by (simp add: vm_inv_def vms_ok_def live_keys_def demo_defs)

lemma demo_Create:
  "\<exists>s' m. CreateMembership demo_library no_faults ''m1'' 5 6 demo_db ''cu'' demo_membership [] = (s', Inr m)"
  by (simp add: CreateMembership_def Let_def demo_membership_def IsValidMembershipTerm_def MembershipTerms_def
      assertExplicitMode_def assertEntitledTx_def supersedeOrRefuse_def tenant_by_id_def entitled_def demo_defs)

text \<open>
  C36. Over any sequence of membership writes, under any faults, a tenant has at most one membership
  of a vehicle that is not cancelled (another tenant may hold one for the same vehicle); no row disappears, changes tenant or loses paid time, a
  cancelled one never changes again, and the history of moves only grows.
\<close>

theorem vm_ops_invariant:
  assumes "month_laws L" and "vm_inv s" and "s' = fold (vm_step L) ops s"
  shows "vm_inv s' \<and> vm_later s s' \<and>
    (\<forall>r\<in>set (vehicle_memberships s'). \<forall>r'\<in>set (vehicle_memberships s'). \<forall>tid tok.
       live_on tid tok r \<longrightarrow> live_on tid tok r' \<longrightarrow> r = r')"
proof -
  have ok: "vm_inv s'" using vm_ops.run_inv [of L s ops] assms by simp
  have "r = r'" if "r \<in> set (vehicle_memberships s')" "r' \<in> set (vehicle_memberships s')"
    "live_on tid tok r" "live_on tid tok r'" for r r' tid tok
  proof -
    have "unique_on (\<lambda>r. vm_canceled r = None) (\<lambda>r. (vm_tenant r, vm_token r)) (vehicle_memberships s')"
      using ok by (simp add: vm_inv_def vms_ok_def live_keys_def)
    from unique_on_inj [OF this that(1,2)] that(3,4) show ?thesis by (simp add: live_on_def)
  qed
  with ok show ?thesis using vm_ops.run_later [of L s ops] assms by blast
qed

lemma vm_ops_invariant_witness:
  "vm_inv (fold (vm_step demo_library) [VCreate no_faults ''m1'' 5 6 ''cu'' demo_membership [],
     VRenew no_faults 9 ''cu'' ''m1'' 24, VCancel no_faults 10 ''cu'' ''m1''] demo_db)"
  using vm_ops_invariant [OF demo_month_laws demo_vm_inv refl] by blast

text \<open>
  A membership starts only where it may: on success the tenant is explicit-mode and entitled
  to the vehicle, the vehicle had no unexpired membership, a lapsed one was cancelled at this
  moment, and the new row runs from its start for exactly its term. An error writes nothing.
\<close>

theorem CreateMembership_sound:
  assumes "vm_inv s" and "CreateMembership L flt newid appnow now s tid inp actor = (s', r)"
  shows "(\<forall>e. r = Inl e \<longrightarrow> s' = s) \<and>
    (\<forall>m. r = Inr m \<longrightarrow>
       map_option t_mode (tenant_by_id tid s) = Some EntitlementExplicit \<and>
       AssertEntitled no_faults s tid (cmi_token inp) = Inr True \<and>
       (\<forall>x\<in>set (vehicle_memberships s). live_on tid (cmi_token inp) x \<longrightarrow>
          vm_expires x \<le> now \<and> x\<lparr>vm_canceled := Some now\<rparr> \<in> set (vehicle_memberships s')) \<and>
       (\<exists>row\<in>set (vehicle_memberships s'). live_on tid (cmi_token inp) row \<and> vm_id row = newid \<and>
          vm_starts row = start_of appnow (cmi_starts inp) \<and>
          vm_expires row = addMonths L (nat (cmi_term inp)) (vm_starts row) \<and> m = scanMembership now row))"
proof (cases r)
  case (Inl e)
  with CreateMembership_result [OF assms(2)] show ?thesis by auto
next
  case (Inr m)
  let ?row = "vm_row_for L newid (start_of appnow (cmi_starts inp)) tid inp actor"
  from Inr CreateMembership_result [OF assms(2)] obtain vs where d:
      "map_option t_mode (tenant_by_id tid s) = Some EntitlementExplicit" "entitled (entitlements s) tid (cmi_token inp)"
      "supersedeOrRefuse (\<lambda>n. flt (n + 3)) now (vehicle_memberships s) tid (cmi_token inp) = Inr vs"
      "s' = s\<lparr>vehicle_memberships := vs @ [?row]\<rparr>" "m = scanMembership now ?row" by blast
  have ok: "vms_ok (vehicle_memberships s)" using assms(1) by (simp add: vm_inv_def)
  have "live_on tid (cmi_token inp) ?row" "vm_id ?row = newid" "vm_starts ?row = start_of appnow (cmi_starts inp)"
    "vm_expires ?row = addMonths L (nat (cmi_term inp)) (vm_starts ?row)"
    by (simp_all add: vm_row_for_def live_on_def)
  moreover have "?row \<in> set (vehicle_memberships s')" using d(4) by simp
  ultimately have "\<exists>row\<in>set (vehicle_memberships s'). live_on tid (cmi_token inp) row \<and> vm_id row = newid \<and>
      vm_starts row = start_of appnow (cmi_starts inp) \<and>
      vm_expires row = addMonths L (nat (cmi_term inp)) (vm_starts row) \<and> m = scanMembership now row"
    using d(5) by (intro bexI [of _ ?row]) simp_all
  moreover have "\<forall>x\<in>set (vehicle_memberships s). live_on tid (cmi_token inp) x \<longrightarrow>
      vm_expires x \<le> now \<and> x\<lparr>vm_canceled := Some now\<rparr> \<in> set (vehicle_memberships s')"
    using supersede_result(4) [OF d(3) ok] d(4) by auto
  ultimately show ?thesis using Inr d(1,2) by (simp add: AssertEntitled_def)
qed

lemma CreateMembership_sound_witness:
  "\<exists>s' m. CreateMembership demo_library no_faults ''m1'' 5 6 demo_db ''cu'' demo_membership [] = (s', Inr m) \<and>
     AssertEntitled no_faults demo_db ''cu'' 7 = Inr True"
proof -
  obtain s' m where c: "CreateMembership demo_library no_faults ''m1'' 5 6 demo_db ''cu'' demo_membership [] = (s', Inr m)"
    using demo_Create by blast
  from CreateMembership_sound [OF demo_vm_inv c] c show ?thesis by (auto simp: demo_membership_def)
qed

text \<open>
  A move carries the term: on success the same membership, with the same start, expiry and
  term, is on the new vehicle, which the tenant is entitled to; the move is recorded with where it
  came from; and nobody's entitlements changed.
\<close>

theorem MoveMembership_carries:
  assumes "vm_inv s" and "MoveMembership L flt now s tid mid to actor = (s', Inr w)"
  shows "\<exists>m m'. m \<in> set (vehicle_memberships s) \<and> m' \<in> set (vehicle_memberships s') \<and>
      vm_id m = mid \<and> vm_tenant m = tid \<and> m' = m\<lparr>vm_token := to\<rparr> \<and> w = scanMembership now m' \<and>
      (\<exists>by. membership_moves s' = membership_moves s @
         [\<lparr>mv_membership = mid, mv_from = vm_token m, mv_to = to, mv_by = by, mv_at = now\<rparr>]) \<and>
      AssertEntitled no_faults s' tid to = Inr True \<and> entitlements s' = entitlements s"
proof -
  let ?f = "\<lambda>r. r\<lparr>vm_token := to\<rparr>" and ?P = "\<lambda>r. vm_id r = mid"
  from MoveMembership_result [OF assms(2)] obtain m vs m' where d:
      "find (\<lambda>r. vm_id r = mid \<and> vm_tenant r = tid \<and> vm_canceled r = None) (vehicle_memberships s) = Some m"
      "vm_token m \<noteq> to" "entitled (entitlements s) tid to"
      "supersedeOrRefuse (\<lambda>n. flt (n + 3)) now (vehicle_memberships s) tid to = Inr vs"
      "find ?P (upd ?P ?f vs) = Some m'" "w = scanMembership now m'"
      "s' = s\<lparr>vehicle_memberships := upd ?P ?f vs, membership_moves := membership_moves s @
         [\<lparr>mv_membership = mid, mv_from = vm_token m, mv_to = to,
           mv_by = nullif (normaliseOptionalWallet L actor), mv_at = now\<rparr>]\<rparr>"
    by (elim disjE exE conjE) simp_all
  have ok: "vms_ok (vehicle_memberships s)" using assms(1) by (simp add: vm_inv_def)
  note sup = supersede_result [OF d(4) ok]
  note m = find_SomeD [OF d(1)]
  with d(2) sup(5) have mvs: "m \<in> set vs" by (auto simp: live_on_def)
  from d(5) obtain x where x: "find ?P vs = Some x" "m' = ?f x"
    by (cases "find ?P vs") (simp_all add: find_upd_same)
  with find_SomeD [OF x(1)] mvs m same_row [OF sup(1), of x m] have "m' = ?f m" by simp
  moreover have "m' \<in> set (upd ?P ?f vs)" using find_SomeD [OF d(5)] by simp
  ultimately show ?thesis using d m by (intro exI [of _ m] exI [of _ m']) (auto simp: AssertEntitled_def)
qed

definition demo_vm_db :: db where
  "demo_vm_db = demo_db\<lparr>
     entitlements := entitlements demo_db @
       [\<lparr>e_tenant = ''cu'', e_token = 8, e_source = ''operator'', e_source_group = None,
         e_granted_by_tenant = None, e_granted_by_wallet = None, e_created = 0, e_revoked = None\<rparr>],
     vehicle_memberships := [\<lparr>vm_id = ''m1'', vm_tenant = ''cu'', vm_token = 7, vm_term = 12, vm_starts = 0,
       vm_expires = 100, vm_canceled = None, vm_created_by = None\<rparr>]\<rparr>"

lemma demo_vm_db_inv: "vm_inv demo_vm_db"
  by (simp add: vm_inv_def vms_ok_def live_keys_def IsValidMembershipTerm_def MembershipTerms_def
      demo_vm_db_def demo_defs)

lemma MoveMembership_carries_witness:
  "\<exists>s' w. MoveMembership demo_library no_faults 50 demo_vm_db ''cu'' ''m1'' 8 [] = (s', Inr w) \<and>
     AssertEntitled no_faults s' ''cu'' 8 = Inr True"
proof -
  obtain s' w where c: "MoveMembership demo_library no_faults 50 demo_vm_db ''cu'' ''m1'' 8 [] = (s', Inr w)"
    by (simp add: MoveMembership_def assertEntitledTx_def entitled_def supersedeOrRefuse_def live_on_def
        live_keys_def demo_vm_db_def demo_defs)
  from MoveMembership_carries [OF demo_vm_db_inv c] c show ?thesis by blast
qed

text \<open>
  A renewal always adds a whole term: the expiry becomes the later of the old expiry and now,
  plus the term, so it is strictly later than both; the renewed membership is unexpired, and every
  other row is as it was.
\<close>

theorem RenewMembership_extends:
  assumes "month_laws L" and "vm_inv s" and "RenewMembership L flt now s tid mid term = (s', Inr w)"
  shows "\<exists>m m'. m \<in> set (vehicle_memberships s) \<and> m' \<in> set (vehicle_memberships s') \<and> vm_id m = mid \<and>
      m' = m\<lparr>vm_expires := addMonths L (nat term) (max (vm_expires m) now), vm_term := nat term\<rparr> \<and>
      vm_expires m < vm_expires m' \<and> now < vm_expires m' \<and> w = scanMembership now m' \<and>
      wv_status w \<in> {MembershipActive, MembershipExpiringSoon} \<and>
      (\<forall>x\<in>set (vehicle_memberships s). x \<noteq> m \<longrightarrow> x \<in> set (vehicle_memberships s'))"
proof -
  let ?P = "\<lambda>r. vm_id r = mid \<and> vm_tenant r = tid \<and> vm_canceled r = None" and ?f = "renewed L now term"
  from assms(3) obtain m' where valid: "IsValidMembershipTerm term"
    and s': "s' = s\<lparr>vehicle_memberships := upd ?P ?f (vehicle_memberships s)\<rparr>"
    and m': "find ?P (upd ?P ?f (vehicle_memberships s)) = Some m'" and w: "w = scanMembership now m'"
    unfolding RenewMembership_def Let_def by (auto split: if_split_asm option.split_asm)
  have "find ?P (upd ?P ?f (vehicle_memberships s)) = map_option ?f (find ?P (vehicle_memberships s))"
    by (rule find_upd_same) (simp add: renewed_def)
  with m' obtain m where m: "find ?P (vehicle_memberships s) = Some m" "m' = ?f m" by auto
  note mf = find_SomeD [OF m(1)]
  have later: "max (vm_expires m) now < vm_expires m'"
    using renewed_expires [OF assms(1) valid] m(2) by simp
  moreover have "vm_canceled m' = None" using mf m(2) by (simp add: renewed_def)
  ultimately have "wv_status w \<in> {MembershipActive, MembershipExpiringSoon}"
    using w by (simp add: scanMembership_def status_of_def)
  moreover have "x \<in> set (vehicle_memberships s')" if "x \<in> set (vehicle_memberships s)" "x \<noteq> m" for x
  proof -
    have "\<not> ?P x" using same_row [of "vehicle_memberships s" x m] that mf assms(2) by (auto simp: vm_inv_def)
    with that show ?thesis unfolding s' by (auto simp: set_upd)
  qed
  moreover have "m' \<in> set (vehicle_memberships s')" using find_SomeD [OF m'] s' by simp
  ultimately show ?thesis using mf m(2) w later
    by (intro exI [of _ m] exI [of _ m']) (simp add: renewed_def)
qed

lemma RenewMembership_extends_witness:
  "\<exists>s' w m'. RenewMembership demo_library no_faults 500 demo_vm_db ''cu'' ''m1'' 1 = (s', Inr w) \<and>
     m' \<in> set (vehicle_memberships s') \<and> 500 < vm_expires m'"
proof -
  obtain s' w where c: "RenewMembership demo_library no_faults 500 demo_vm_db ''cu'' ''m1'' 1 = (s', Inr w)"
    by (simp add: RenewMembership_def IsValidMembershipTerm_def MembershipTerms_def renewed_def demo_vm_db_def demo_defs)
  from RenewMembership_extends [OF demo_month_laws demo_vm_db_inv c] c show ?thesis by blast
qed

lemma mset_filter_sort: "mset (filter P (sort_key k xs)) = mset (filter P xs)"
  by (simp only: mset_filter mset_sort)

text \<open>
  The two reads agree at any instant: the token ids fleet-lite gates on are exactly those the
  listing shows as active or expiring soon, under the same enforcement flag, whatever the clock.
\<close>

theorem ActiveTokenIDs_agrees:
  assumes "ListMemberships no_faults now s tid = Inr (enf, ms)"
  shows "ActiveTokenIDs no_faults now s tid =
    Inr (enf, sort (map wv_token (filter (\<lambda>m. wv_status m \<in> {MembershipActive, MembershipExpiringSoon}) ms)))"
proof -
  let ?vs = "filter (\<lambda>r. vm_tenant r = tid \<and> vm_canceled r = None) (vehicle_memberships s)"
  let ?k = "\<lambda>r. (vm_expires r, vm_token r)"
  let ?live = "\<lambda>r. vm_tenant r = tid \<and> vm_canceled r = None \<and> now < vm_expires r"
  from assms obtain t where t: "tenant_by_id tid s = Some t" "enf = t_enforced t"
    and ms: "ms = map (scanMembership now) (sort_key ?k ?vs)"
    by (auto simp: ListMemberships_def split: option.splits)
  have "wv_status (scanMembership now r) \<in> {MembershipActive, MembershipExpiringSoon} \<longleftrightarrow>
      vm_canceled r = None \<and> now < vm_expires r" for r
    by (auto simp: scanMembership_def status_of_def)
  then have "map wv_token (filter (\<lambda>m. wv_status m \<in> {MembershipActive, MembershipExpiringSoon}) ms) =
      map vm_token (filter (\<lambda>r. vm_canceled r = None \<and> now < vm_expires r) (sort_key ?k ?vs))"
    unfolding ms filter_map map_map by (simp add: o_def scanMembership_def)
  moreover have "sort (map vm_token (filter ?live (vehicle_memberships s))) =
      sort (map vm_token (filter (\<lambda>r. vm_canceled r = None \<and> now < vm_expires r) (sort_key ?k ?vs)))"
  proof (rule properties_for_sort)
    have "filter (\<lambda>r. vm_canceled r = None \<and> now < vm_expires r) ?vs = filter ?live (vehicle_memberships s)"
      by (auto simp: filter_filter intro!: filter_cong)
    then have "mset (filter (\<lambda>r. vm_canceled r = None \<and> now < vm_expires r) (sort_key ?k ?vs)) =
        mset (filter ?live (vehicle_memberships s))"
      using mset_filter_sort [of "\<lambda>r. vm_canceled r = None \<and> now < vm_expires r" ?k ?vs] by (simp only:)
    then show "mset (sort (map vm_token (filter (\<lambda>r. vm_canceled r = None \<and> now < vm_expires r) (sort_key ?k ?vs)))) =
        mset (map vm_token (filter ?live (vehicle_memberships s)))"
      by (simp only: mset_sort mset_map)
  qed simp
  ultimately show ?thesis using t by (simp add: ActiveTokenIDs_def)
qed

lemma ActiveTokenIDs_agrees_witness:
  "ActiveTokenIDs no_faults 50 demo_vm_db ''cu'' = Inr (False, [7])"
proof -
  have "ListMemberships no_faults 50 demo_vm_db ''cu'' =
      Inr (False, [\<lparr>wv_id = ''m1'', wv_token = 7, wv_term = 12, wv_starts = 0, wv_expires = 0,
        wv_canceled = None, wv_status = MembershipExpiringSoon\<rparr>])"
    by (simp add: ListMemberships_def scanMembership_def status_of_def tenant_by_id_def wireTime_def second_def
        MembershipExpiringSoonDays_def demo_vm_db_def demo_defs)
  from ActiveTokenIDs_agrees [OF this] show ?thesis by simp
qed

end
