(* ===== verification/Invitations.thy ===== *)
theory Invitations
  imports VehicleMemberships
begin

text \<open>
  Email invitations, \<open>service/invitations.go\<close>: create, list, revoke, resend, accept, and the
  delivery status that Postmark's webhook upgrades. Only \<open>Accept\<close> is a transaction; \<open>Create\<close> and
  \<open>Resend\<close> issue separate statements, and the model keeps what each one leaves behind.
\<close>

subsection \<open>Constants\<close>

definition InviteStatusPending :: string where "InviteStatusPending = ''pending''"
definition InviteStatusAccepted :: string where "InviteStatusAccepted = ''accepted''"
definition InviteStatusRevoked :: string where "InviteStatusRevoked = ''revoked''"

definition EmailStatusSent :: string where "EmailStatusSent = ''sent''"
definition EmailStatusDelivered :: string where "EmailStatusDelivered = ''delivered''"
definition EmailStatusOpened :: string where "EmailStatusOpened = ''opened''"
definition EmailStatusBounced :: string where "EmailStatusBounced = ''bounced''"

definition defaultInviteExpiryHours :: nat where "defaultInviteExpiryHours = 168"
definition inviteRoleOwner :: string where "inviteRoleOwner = ''owner''"
definition inviteRoleMember :: string where "inviteRoleMember = ''member''"

lemma invite_status_distinct [simp]:
  "InviteStatusPending \<noteq> InviteStatusAccepted" "InviteStatusPending \<noteq> InviteStatusRevoked"
  "InviteStatusAccepted \<noteq> InviteStatusPending" "InviteStatusRevoked \<noteq> InviteStatusPending"
  "InviteStatusAccepted \<noteq> InviteStatusRevoked" "InviteStatusRevoked \<noteq> InviteStatusAccepted"
  by (simp_all add: InviteStatusPending_def InviteStatusAccepted_def InviteStatusRevoked_def)

definition rolePermissions :: "string \<Rightarrow> string list" where
  "rolePermissions role = (if role = inviteRoleOwner then [CapManageMembers, CapManageSettings] else [])"

definition inviteRoleRank :: "string \<Rightarrow> nat" where
  "inviteRoleRank role =
     (if role = inviteRoleOwner then 3 else if role = ''admin'' then 2
      else if role = inviteRoleMember then 1 else 0)"

subsection \<open>Tokens\<close>

definition hashInviteToken :: "crypto \<Rightarrow> string \<Rightarrow> string" where
  "hashInviteToken K token = hexEncode (sha256 K token)"

text \<open>\<open>rnd\<close> is what the system's randomness gave this call: 32 bytes, or a failure.\<close>

definition generateInviteToken :: "crypto \<Rightarrow> string option \<Rightarrow> (string \<times> string) option" where
  "generateInviteToken K rnd = map_option (\<lambda>buf. (b64url K buf, hashInviteToken K (b64url K buf))) rnd"

subsection \<open>The wire shape\<close>

record invitation =
  wi_id :: uuid
  wi_tenant :: uuid
  wi_email :: string
  wi_role :: string
  wi_status :: string
  wi_invited_by :: string
  wi_invitee :: "string option"
  wi_created_by_tenant :: "uuid option"
  wi_scope :: scope
  wi_email_status :: "string option"
  wi_email_status_at :: "int option"
  wi_email_detail :: "string option"
  wi_created :: int
  wi_expires :: int
  wi_accepted :: "int option"

definition scanInvitation :: "invitation_row \<Rightarrow> invitation" where
  "scanInvitation i = \<lparr>wi_id = i_id i, wi_tenant = i_tenant i, wi_email = i_email i, wi_role = i_role i,
     wi_status = i_status i, wi_invited_by = i_invited_by i, wi_invitee = i_invitee i,
     wi_created_by_tenant = i_created_by_tenant i, wi_scope = i_scope i,
     wi_email_status = i_email_status i, wi_email_status_at = map_option wireTime (i_email_status_at i),
     wi_email_detail = i_email_detail i, wi_created = wireTime (i_created i),
     wi_expires = wireTime (i_expires i), wi_accepted = map_option wireTime (i_accepted i)\<rparr>"

definition scopeJSON :: "scope \<Rightarrow> json" where
  "scopeJSON sc = (case sc of None \<Rightarrow> JNull | Some gs \<Rightarrow> marshal_strings gs)"

text \<open>The loop over both lists with its \<open>seen\<close> set.\<close>

fun union_loop :: "string list \<Rightarrow> string list \<Rightarrow> string list" where
  "union_loop seen [] = []"
| "union_loop seen (v # vs) = (if v \<in> set seen then union_loop seen vs else v # union_loop (v # seen) vs)"

definition unionStrings :: "string list \<Rightarrow> string list \<Rightarrow> string list" where
  "unionStrings a b = union_loop [] (a @ b)"

subsection \<open>The email\<close>

record settings =
  InvitationFromEmail :: string
  ProvisionEmailFrom :: string
  InvitationTemplateAlias :: string
  InviteExpiryHours :: int
  InviteAcceptOrigin :: string \<comment> \<open>scheme and host of InviteAcceptURLBase\<close>
  InviteAcceptPath :: string

record invitation_model =
  im_tenant_name :: string
  im_accept_url :: string
  im_inviter :: string
  im_expires_in :: string

text \<open>
  \<open>gateway.PostmarkAPI.SendInvitation\<close>: from, to, template alias, model and the invitation id of
  the metadata; the message id (empty when sending is disabled), or \<open>None\<close> for an error.
\<close>

type_synonym sender = "string \<Rightarrow> string \<Rightarrow> string \<Rightarrow> invitation_model \<Rightarrow> uuid \<Rightarrow> string option"

definition isSpanish :: "string \<Rightarrow> bool" where
  "isSpanish locale = (take 2 (lower (TrimSpace locale)) = ''es'')"

definition templateAlias :: "settings \<Rightarrow> string \<Rightarrow> string" where
  "templateAlias cfg locale =
     (let base = (if InvitationTemplateAlias cfg = [] then ''fleet-invitation'' else InvitationTemplateAlias cfg)
      in if isSpanish locale then base @ ''-es'' else base)"

definition expiryHours :: "settings \<Rightarrow> nat" where
  "expiryHours cfg = (if InviteExpiryHours cfg > 0 then nat (InviteExpiryHours cfg) else defaultInviteExpiryHours)"

text \<open>The Spanish word for day, in UTF-8.\<close>

definition dia :: string where
  "dia = ''d'' @ [CHR 0xC3, CHR 0xAD] @ ''a''"

definition expiryLabel :: "settings \<Rightarrow> string \<Rightarrow> string" where
  "expiryLabel cfg locale =
     (let h = expiryHours cfg; es = isSpanish locale in
      if h mod 24 = 0 then
        let days = h div 24 in
        if days = 1 \<and> es then ''1 '' @ dia
        else if days = 1 then ''1 day''
        else if es then decimal days @ '' '' @ dia @ ''s''
        else decimal days @ '' days''
      else if es then decimal h @ '' horas''
      else decimal h @ '' hours'')"

definition query_safe :: "char \<Rightarrow> bool" where
  "query_safe c = (let n = (of_char c :: nat) in
     (65 \<le> n \<and> n \<le> 90) \<or> (97 \<le> n \<and> n \<le> 122) \<or> (48 \<le> n \<and> n \<le> 57) \<or> c \<in> set ''-_.~'')"

definition upper_hex :: "nat \<Rightarrow> char" where
  "upper_hex n = (if n < 10 then char_of (48 + n) else char_of (55 + n))"

definition queryEscape :: "string \<Rightarrow> string" where
  "queryEscape s = concat (map (\<lambda>c. if query_safe c then [c] else if c = CHR '' '' then ''+''
     else let n = (of_char c :: nat) in CHR ''%'' # [upper_hex (n div 16), upper_hex (n mod 16)]) s)"

definition acceptURL :: "settings \<Rightarrow> string \<Rightarrow> string" where
  "acceptURL cfg token = InviteAcceptOrigin cfg @ trim_right (\<lambda>c. c = CHR ''/'') (InviteAcceptPath cfg) @
     ''/accept-invite.html?token='' @ queryEscape token"

definition sendEmailAs ::
  "settings \<Rightarrow> sender \<Rightarrow> faults \<Rightarrow> db \<Rightarrow> invitation \<Rightarrow> string \<Rightarrow> string \<Rightarrow> string \<Rightarrow> string option" where
  "sendEmailAs cfg post flt s invite token locale inviterLabel =
     (let from = (if InvitationFromEmail cfg = [] then ProvisionEmailFrom cfg else InvitationFromEmail cfg);
          tenantName = (if flt 0 then wi_tenant invite
                        else case tenant_by_id (wi_tenant invite) s of
                               None \<Rightarrow> wi_tenant invite
                             | Some t \<Rightarrow> if t_name t = [] then wi_tenant invite else t_name t);
          model = \<lparr>im_tenant_name = tenantName, im_accept_url = acceptURL cfg token,
                   im_inviter = inviterLabel, im_expires_in = expiryLabel cfg locale\<rparr>
      in post from (wi_email invite) (templateAlias cfg locale) model (wi_id invite))"

definition sendEmail ::
  "settings \<Rightarrow> sender \<Rightarrow> faults \<Rightarrow> db \<Rightarrow> invitation \<Rightarrow> string \<Rightarrow> string \<Rightarrow> string option" where
  "sendEmail cfg post flt s invite token locale = sendEmailAs cfg post flt s invite token locale (wi_invited_by invite)"

definition markEmailSent :: "faults \<Rightarrow> time \<Rightarrow> db \<Rightarrow> invitation \<Rightarrow> string \<Rightarrow> db \<times> invitation" where
  "markEmailSent flt now s invite messageID =
     (if messageID = [] \<or> flt 0 then (s, invite)
      else (s\<lparr>invitations := upd (\<lambda>i. i_id i = wi_id invite)
                (\<lambda>i. i\<lparr>i_message_id := Some messageID, i_email_status := Some EmailStatusSent,
                       i_email_status_at := Some now, i_email_detail := None\<rparr>) (invitations s)\<rparr>,
            invite\<lparr>wi_email_status := Some EmailStatusSent\<rparr>))"

subsection \<open>Create, list, revoke, resend\<close>

text \<open>
  A create or a resend fails, or the record is saved and the email was not sent, or both are done.
\<close>

datatype invite_result = InviteFailed svc_error | InviteNotSent invitation | InviteSent invitation

record invitation_create =
  ic_email :: string
  ic_role :: string
  ic_locale :: string
  ic_scope :: "json option"
  ic_invited_by :: string
  ic_created_by_tenant :: string

definition validateGroupIDs :: "faults \<Rightarrow> db \<Rightarrow> uuid \<Rightarrow> string list \<Rightarrow> svc_error option" where
  "validateGroupIDs flt s tenantID groupIDs =
     (if groupIDs = [] then None
      else if flt 0 then Some (DbError ''validate group ids'')
      else if length (filter (\<lambda>g. g_tenant g = tenantID \<and> g_id g \<in> set groupIDs) (fleet_groups s))
                \<noteq> length (remdups groupIDs)
      then Some (BadRequest ''one or more group ids do not exist in this tenant'')
      else None)"

definition invite_row_for ::
  "library \<Rightarrow> settings \<Rightarrow> uuid \<Rightarrow> time \<Rightarrow> uuid \<Rightarrow> string \<Rightarrow> string \<Rightarrow> string \<Rightarrow> scope \<Rightarrow> invitation_create \<Rightarrow> invitation_row" where
  "invite_row_for L cfg newid now tenantID email role hash sc inp =
     \<lparr>i_id = newid, i_tenant = tenantID, i_email = email, i_role = role, i_token_hash = hash,
      i_status = InviteStatusPending, i_invited_by = normaliseOptionalWallet L (ic_invited_by inp),
      i_invitee = None, i_created_by_tenant = nullif (ic_created_by_tenant inp), i_scope = sc,
      i_message_id = None, i_email_status = None, i_email_status_at = None, i_email_detail = None,
      i_created = now, i_expires = now + int (expiryHours cfg) * 3600 * second, i_accepted = None\<rparr>"

definition supersede_pending :: "uuid \<Rightarrow> string \<Rightarrow> invitation_row list \<Rightarrow> invitation_row list" where
  "supersede_pending tid email =
     upd (\<lambda>i. i_tenant i = tid \<and> lower (i_email i) = email \<and> i_status i = InviteStatusPending)
         (\<lambda>i. i\<lparr>i_status := InviteStatusRevoked\<rparr>)"

definition invite_role :: "invitation_create \<Rightarrow> string" where
  "invite_role inp = (if ic_role inp = inviteRoleOwner then inviteRoleOwner else inviteRoleMember)"

definition invite_scope :: "invitation_create \<Rightarrow> scope" where
  "invite_scope inp = (let (groups, unrestricted, present) = decodeScope (ic_scope inp) in
     if invite_role inp = inviteRoleOwner \<or> unrestricted then None else groups)"

definition invite_email :: "invitation_create \<Rightarrow> string" where
  "invite_email inp = TrimSpace (lower (ic_email inp))"

definition dispatched :: "faults \<Rightarrow> time \<Rightarrow> db \<Rightarrow> invitation \<Rightarrow> string option \<Rightarrow> db \<times> invite_result" where
  "dispatched flt now s invite sent =
     (case sent of
        None \<Rightarrow> (s, InviteNotSent invite)
      | Some messageID \<Rightarrow> let (s', invite') = markEmailSent flt now s invite messageID in (s', InviteSent invite'))"

definition CreateInvitation ::
  "library \<Rightarrow> crypto \<Rightarrow> settings \<Rightarrow> sender \<Rightarrow> faults \<Rightarrow> uuid \<Rightarrow> string option \<Rightarrow> time \<Rightarrow> db \<Rightarrow> uuid \<Rightarrow>
   invitation_create \<Rightarrow> db \<times> invite_result" where
  "CreateInvitation L K cfg post flt newid rnd now s tenantID inp =
     (let email = invite_email inp in
      if email = [] then (s, InviteFailed (BadRequest ''email is required''))
      else if ic_invited_by inp = [] then (s, InviteFailed (BadRequest ''invitedByWallet is required''))
      else let (groups0, unrestricted0, present) = decodeScope (ic_scope inp) in
      if \<not> present then (s, InviteFailed (BadRequest ''scopeGroupIds is required (null for unrestricted, [] for no groups)''))
      else let role = invite_role inp; sc = invite_scope inp in
      case validateGroupIDs flt s tenantID (case sc of None \<Rightarrow> [] | Some gs \<Rightarrow> gs) of
        Some e \<Rightarrow> (s, InviteFailed e)
      | None \<Rightarrow>
        if flt 1 then (s, InviteFailed (DbError ''load tenant''))
        else if tenant_by_id tenantID s = None then (s, InviteFailed ErrTenantNotFound)
        else if flt 2 then (s, InviteFailed (DbError ''supersede pending invites''))
        else let s1 = s\<lparr>invitations := supersede_pending tenantID email (invitations s)\<rparr> in
        case generateInviteToken K rnd of
          None \<Rightarrow> (s1, InviteFailed (DbError ''generate invite token''))
        | Some (token, hash) \<Rightarrow>
          let row = invite_row_for L cfg newid now tenantID email role hash sc inp in
          if flt 3 \<or> list_ex (\<lambda>i. i_id i = newid \<or> i_token_hash i = hash) (invitations s1) \<or>
             \<not> scope_groups_exist s1 tenantID sc \<or> \<not> tenant_ref_ok s1 (i_created_by_tenant row)
          then (s1, InviteFailed (DbError ''insert invitation''))
          else let s2 = s1\<lparr>invitations := invitations s1 @ [row]\<rparr>; invite = scanInvitation row in
          dispatched (\<lambda>n. flt (n + 5)) now s2 invite
            (sendEmail cfg post (\<lambda>n. flt (n + 4)) s2 invite token (ic_locale inp)))"

definition ListInvitations :: "faults \<Rightarrow> db \<Rightarrow> uuid \<Rightarrow> svc_error + invitation list" where
  "ListInvitations flt s tenantID =
     (if flt 0 then Inl (DbError ''list invitations'')
      else Inr (map scanInvitation (sort_key (\<lambda>i. (- i_created i, i_id i))
             (filter (\<lambda>i. i_tenant i = tenantID) (invitations s)))))"

definition RevokeInvitation :: "library \<Rightarrow> faults \<Rightarrow> db \<Rightarrow> uuid \<Rightarrow> uuid \<Rightarrow> db \<times> (svc_error + unit)" where
  "RevokeInvitation L flt s tenantID invitationID =
     (if \<not> uuidParse L invitationID then (s, Inr ())
      else if flt 0 then (s, Inl (DbError ''revoke invitation''))
      else (s\<lparr>invitations := upd (\<lambda>i. i_id i = invitationID \<and> i_tenant i = tenantID \<and> i_status i = InviteStatusPending)
                                  (\<lambda>i. i\<lparr>i_status := InviteStatusRevoked\<rparr>) (invitations s)\<rparr>, Inr ()))"

definition refreshed :: "settings \<Rightarrow> time \<Rightarrow> string \<Rightarrow> invitation_row \<Rightarrow> invitation_row" where
  "refreshed cfg now hash i = i\<lparr>i_token_hash := hash, i_expires := now + int (expiryHours cfg) * 3600 * second,
     i_message_id := None, i_email_status := None, i_email_status_at := None, i_email_detail := None\<rparr>"

definition ResendInvitation ::
  "library \<Rightarrow> crypto \<Rightarrow> settings \<Rightarrow> sender \<Rightarrow> faults \<Rightarrow> string option \<Rightarrow> time \<Rightarrow> db \<Rightarrow> uuid \<Rightarrow> uuid \<Rightarrow>
   string \<Rightarrow> string \<Rightarrow> db \<times> invite_result" where
  "ResendInvitation L K cfg post flt rnd now s tenantID invitationID actorWallet locale =
     (if \<not> uuidParse L invitationID then (s, InviteFailed ErrInviteInvalid)
      else case generateInviteToken K rnd of
        None \<Rightarrow> (s, InviteFailed (DbError ''generate invite token''))
      | Some (token, hash) \<Rightarrow>
        let match = (\<lambda>i. i_id i = invitationID \<and> i_tenant i = tenantID \<and> i_status i = InviteStatusPending);
            is' = upd match (refreshed cfg now hash) (invitations s) in
        if flt 0 then (s, InviteFailed (DbError ''refresh invitation token''))
        else case find match (invitations s) of
          None \<Rightarrow> (s, InviteFailed ErrInviteInvalid)
        | Some i \<Rightarrow>
          if list_ex (\<lambda>j. i_id j \<noteq> invitationID \<and> i_token_hash j = hash) (invitations s)
          then (s, InviteFailed (DbError ''refresh invitation token''))
          else let s1 = s\<lparr>invitations := is'\<rparr>; invite = scanInvitation (refreshed cfg now hash i);
                   actor = (if actorWallet = [] then wi_invited_by invite else actorWallet) in
          dispatched (\<lambda>n. flt (n + 2)) now s1 invite
            (sendEmailAs cfg post (\<lambda>n. flt (n + 1)) s1 invite token locale actor))"

subsection \<open>Accept\<close>

record invitation_accept =
  ia_token :: string
  ia_wallet :: string
  ia_email :: string

definition accept_write :: "invitation \<Rightarrow> string \<Rightarrow> membership_row option \<Rightarrow> member_write" where
  "accept_write invite email existing =
     (let write = \<lparr>mw_email = email, mw_role = wi_role invite, mw_perms = rolePermissions (wi_role invite),
            mw_scope = Some (scopeJSON (wi_scope invite)), mw_granted_by_wallet = wi_invited_by invite,
            mw_granted_by_tenant = null_str (wi_created_by_tenant invite)\<rparr> in
      case existing of None \<Rightarrow> write
      | Some m \<Rightarrow> write\<lparr>mw_perms := unionStrings (parsePermissions (m_perms m)) (mw_perms write),
          mw_role := (if inviteRoleRank (mw_role write) < inviteRoleRank (m_role m) then m_role m else mw_role write)\<rparr>)"

text \<open>
  \<open>authorize\<close> is the caller-scope callback; \<open>appnow\<close> is the application's clock, which the expiry
  (truncated to whole seconds by its trip through the wire format) is compared with.
\<close>

definition Accept ::
  "library \<Rightarrow> crypto \<Rightarrow> (uuid \<Rightarrow> svc_error option) \<Rightarrow> faults \<Rightarrow> time \<Rightarrow> time \<Rightarrow> db \<Rightarrow> invitation_accept \<Rightarrow>
   db \<times> (svc_error + invitation)" where
  "Accept L K authorize flt appnow now s inp =
     (if ia_token inp = [] \<or> ia_wallet inp = [] then (s, Inl (BadRequest ''token and wallet are required''))
      else let hash = hashInviteToken K (ia_token inp); wallet = HexAddr L (ia_wallet inp) in
      if flt 0 then (s, Inl (DbError ''begin''))
      else if flt 1 then (s, Inl (DbError ''load invitation by token''))
      else case find (\<lambda>i. i_token_hash i = hash) (invitations s) of
        None \<Rightarrow> (s, Inl ErrInviteInvalid)
      | Some i \<Rightarrow>
        let invite = scanInvitation i in
        case authorize (wi_tenant invite) of
          Some e \<Rightarrow> (s, Inl e)
        | None \<Rightarrow>
          if wi_status invite \<noteq> InviteStatusPending \<or> parseWireTime (wi_expires invite) < appnow
          then (s, Inl ErrInviteInvalid)
          else if flt 2 then (s, Inl (DbError ''load existing membership''))
          else let write = accept_write invite (ia_email inp) (membership_of s (wi_tenant invite) wallet) in
          case upsertMemberTx L (\<lambda>n. flt (n + 3)) now s (wi_tenant invite) wallet write of
            (_, Inl e) \<Rightarrow> (s, Inl e)
          | (s1, Inr _) \<Rightarrow>
            let accepted = (\<lambda>j. j\<lparr>i_status := InviteStatusAccepted, i_invitee := Some wallet, i_accepted := Some now\<rparr>);
                s2 = s1\<lparr>invitations := upd (\<lambda>j. i_id j = wi_id invite) accepted (invitations s1)\<rparr> in
            if flt 6 then (s, Inl (DbError ''mark invitation accepted''))
            else if flt 7 then (s, Inl (DbError ''commit accept''))
            else (s2, Inr (scanInvitation (accepted i))))"

subsection \<open>Delivery events\<close>

definition email_rank :: "string \<Rightarrow> nat" where
  "email_rank st = (if st = ''sent'' then 1 else if st = ''delivered'' then 2
     else if st = ''opened'' then 3 else if st = ''bounced'' then 4 else 0)"

definition apply_event :: "string \<Rightarrow> time \<Rightarrow> string \<Rightarrow> invitation_row \<Rightarrow> invitation_row" where
  "apply_event status at detail i =
     (if email_rank (null_str (i_email_status i)) < email_rank status
      then i\<lparr>i_email_status := Some status, i_email_status_at := Some at, i_email_detail := nullif detail\<rparr>
      else i)"

definition ApplyEmailEvent ::
  "library \<Rightarrow> faults \<Rightarrow> time \<Rightarrow> db \<Rightarrow> uuid \<Rightarrow> string \<Rightarrow> string \<Rightarrow> time option \<Rightarrow> string \<Rightarrow> db \<times> (svc_error + unit)" where
  "ApplyEmailEvent L flt appnow s invitationID0 messageID status occurredAt detail =
     (let invitationID = (if uuidParse L invitationID0 then invitationID0 else []);
          at = (case occurredAt of None \<Rightarrow> appnow | Some t \<Rightarrow> t) in
      if invitationID = [] \<and> messageID = [] then (s, Inr ())
      else if flt 0 then (s, Inl (DbError ''record email event''))
      else (s\<lparr>invitations :=
               upd (\<lambda>i. if invitationID \<noteq> [] then i_id i = invitationID else i_message_id i = Some messageID)
                   (apply_event status at detail) (invitations s)\<rparr>, Inr ()))"

subsection \<open>The invariant\<close>

definition pending_keys :: "invitation_row list \<Rightarrow> bool" where
  "pending_keys is' = unique_on (\<lambda>i. i_status i = InviteStatusPending) (\<lambda>i. (i_tenant i, lower (i_email i))) is'"

definition invites_ok :: "invitation_row list \<Rightarrow> bool" where
  "invites_ok is' \<longleftrightarrow> unique_on (\<lambda>_. True) i_id is' \<and> unique_on (\<lambda>_. True) i_token_hash is' \<and> pending_keys is'"

definition invite_inv :: "db \<Rightarrow> bool" where
  "invite_inv s = invites_ok (invitations s)"

text \<open>An invitation keeps who it is for; once accepted or revoked it and its link never change.\<close>

definition invite_later :: "invitation_row \<Rightarrow> invitation_row \<Rightarrow> bool" where
  "invite_later i i' \<longleftrightarrow> i_id i' = i_id i \<and> i_tenant i' = i_tenant i \<and> i_email i' = i_email i \<and>
     i_role i' = i_role i \<and> i_scope i' = i_scope i \<and>
     (i_status i \<noteq> InviteStatusPending \<longrightarrow> i_status i' = i_status i \<and> i_token_hash i' = i_token_hash i)"

definition invites_later :: "db \<Rightarrow> db \<Rightarrow> bool" where
  "invites_later s s' = rows_rel invite_later (invitations s) (invitations s')"

lemma invite_later_refl [simp]: "invite_later i i"
  by (simp add: invite_later_def)

lemma invite_later_trans: "invite_later i j \<Longrightarrow> invite_later j k \<Longrightarrow> invite_later i k"
  by (auto simp: invite_later_def)

lemma invites_later_refl [simp]: "invites_later s s"
  unfolding invites_later_def by (rule rows_rel_refl) simp

lemma invites_later_trans: "invites_later s t \<Longrightarrow> invites_later t u \<Longrightarrow> invites_later s u"
  unfolding invites_later_def by (erule rows_rel_trans) (auto intro: invite_later_trans)

lemma lower_trimmed: "lower (TrimSpace (lower x)) = TrimSpace (lower x)"
proof -
  have "\<forall>c\<in>set (lower x). lower_char c = c" by (auto simp: lower_def)
  then have "\<forall>c\<in>set (TrimSpace (lower x)). lower_char c = c"
    unfolding TrimSpace_def using set_trim_both by blast
  then show ?thesis unfolding lower_def by (simp add: map_idI)
qed

text \<open>A statement that touches no key and revives nothing keeps the invariant.\<close>

lemma upd_invites_ok:
  assumes "invites_ok is'"
    and "\<And>i. P i \<Longrightarrow> i_id (f i) = i_id i \<and> i_token_hash (f i) = i_token_hash i \<and> i_tenant (f i) = i_tenant i \<and>
           i_email (f i) = i_email i \<and> (i_status (f i) = InviteStatusPending \<longrightarrow> i_status i = InviteStatusPending)"
  shows "invites_ok (upd P f is')"
  using assms unfolding invites_ok_def pending_keys_def by (auto intro!: unique_on_upd)

lemma upd_invites_later:
  assumes "\<And>i. i \<in> set (invitations s) \<Longrightarrow> P i \<Longrightarrow> invite_later i (f i)"
  shows "invites_later s (s\<lparr>invitations := upd P f (invitations s)\<rparr>)"
  using assms by (simp add: invites_later_def rows_rel_upd)

lemma supersede_ok:
  assumes "invites_ok is'"
  shows "invites_ok (supersede_pending tid email is')"
    and "\<forall>i\<in>set (supersede_pending tid email is'). i_tenant i = tid \<longrightarrow> lower (i_email i) = email \<longrightarrow> i_status i \<noteq> InviteStatusPending"
proof -
  show "invites_ok (supersede_pending tid email is')"
    unfolding supersede_pending_def using assms by (rule upd_invites_ok) simp
  show "\<forall>i\<in>set (supersede_pending tid email is'). i_tenant i = tid \<longrightarrow> lower (i_email i) = email \<longrightarrow> i_status i \<noteq> InviteStatusPending"
    by (simp add: supersede_pending_def ball_upd)
qed

lemma markEmailSent_ok:
  assumes "invite_inv s"
  shows "invite_inv (fst (markEmailSent flt now s iv mid)) \<and> invites_later s (fst (markEmailSent flt now s iv mid))"
proof -
  let ?P = "\<lambda>i. i_id i = wi_id iv" and ?f = "\<lambda>i. i\<lparr>i_message_id := Some mid, i_email_status := Some EmailStatusSent,
    i_email_status_at := Some now, i_email_detail := None\<rparr>"
  have "invites_ok (upd ?P ?f (invitations s))"
    using assms unfolding invite_inv_def by (rule upd_invites_ok) simp
  moreover have "invites_later s (s\<lparr>invitations := upd ?P ?f (invitations s)\<rparr>)"
    by (rule upd_invites_later) (simp add: invite_later_def)
  ultimately show ?thesis using assms by (simp add: markEmailSent_def invite_inv_def)
qed

subsection \<open>What each operation does\<close>

lemma invitations_frame:
  "scope_groups_exist (s\<lparr>invitations := x\<rparr>) tid sc = scope_groups_exist s tid sc"
  "tenant_ref_ok (s\<lparr>invitations := x\<rparr>) t = tenant_ref_ok s t"
  by (auto simp: scope_groups_exist_def tenant_ref_ok_def tenant_by_id_def split: option.split)

lemma CreateInvitation_result:
  assumes "CreateInvitation L K cfg post flt newid rnd now s tid inp = (s', r)"
  shows "(\<exists>e. r = InviteFailed e \<and> (s' = s \<or>
       s' = s\<lparr>invitations := supersede_pending tid (invite_email inp) (invitations s)\<rparr>)) \<or>
    (\<exists>buf row s2 sent. rnd = Some buf \<and>
       row = invite_row_for L cfg newid now tid (invite_email inp) (invite_role inp)
               (hashInviteToken K (b64url K buf)) (invite_scope inp) inp \<and>
       \<not> list_ex (\<lambda>i. i_id i = newid \<or> i_token_hash i = hashInviteToken K (b64url K buf))
          (supersede_pending tid (invite_email inp) (invitations s)) \<and>
       scope_groups_exist s tid (invite_scope inp) \<and> tenant_ref_ok s (i_created_by_tenant row) \<and>
       tenant_by_id tid s \<noteq> None \<and>
       s2 = s\<lparr>invitations := supersede_pending tid (invite_email inp) (invitations s) @ [row]\<rparr> \<and>
       dispatched (\<lambda>n. flt (n + 5)) now s2 (scanInvitation row) sent = (s', r))"
proof -
  obtain g u p where d: "decodeScope (ic_scope inp) = (g, u, p)" by (metis prod_cases3)
  show ?thesis
  proof (cases rnd)
    case None
    with assms d show ?thesis
      unfolding CreateInvitation_def Let_def generateInviteToken_def
      by (simp split: if_split_asm option.split_asm; blast)
  next
    case (Some buf)
    with assms d show ?thesis
      unfolding CreateInvitation_def Let_def generateInviteToken_def
      by (simp add: invitations_frame split: if_split_asm option.split_asm; blast)
  qed
qed

lemma ResendInvitation_result:
  assumes "ResendInvitation L K cfg post flt rnd now s tid iid actor locale = (s', r)"
  shows "(\<exists>e. r = InviteFailed e \<and> s' = s) \<or>
    (\<exists>buf hash i s1 sent. rnd = Some buf \<and> hash = hashInviteToken K (b64url K buf) \<and>
       find (\<lambda>i. i_id i = iid \<and> i_tenant i = tid \<and> i_status i = InviteStatusPending) (invitations s) = Some i \<and>
       \<not> list_ex (\<lambda>j. i_id j \<noteq> iid \<and> i_token_hash j = hash) (invitations s) \<and>
       s1 = s\<lparr>invitations := upd (\<lambda>i. i_id i = iid \<and> i_tenant i = tid \<and> i_status i = InviteStatusPending)
                                 (refreshed cfg now hash) (invitations s)\<rparr> \<and>
       dispatched (\<lambda>n. flt (n + 2)) now s1 (scanInvitation (refreshed cfg now hash i)) sent = (s', r))"
proof (cases rnd)
  case None
  with assms show ?thesis unfolding ResendInvitation_def generateInviteToken_def by (simp split: if_split_asm; blast)
next
  case (Some buf)
  with assms show ?thesis
    unfolding ResendInvitation_def generateInviteToken_def Let_def
    by (simp split: if_split_asm option.split_asm; blast)
qed

definition accepted_row :: "string \<Rightarrow> time \<Rightarrow> invitation_row \<Rightarrow> invitation_row" where
  "accepted_row wallet now j = j\<lparr>i_status := InviteStatusAccepted, i_invitee := Some wallet, i_accepted := Some now\<rparr>"

lemma Accept_result:
  assumes "Accept L K auth flt appnow now s inp = (s', r)"
  shows "(\<exists>e. r = Inl e \<and> s' = s) \<or>
    (\<exists>i s1 w. find (\<lambda>i. i_token_hash i = hashInviteToken K (ia_token inp)) (invitations s) = Some i \<and>
       ia_token inp \<noteq> [] \<and> ia_wallet inp \<noteq> [] \<and> auth (i_tenant i) = None \<and>
       i_status i = InviteStatusPending \<and> appnow \<le> parseWireTime (wireTime (i_expires i)) \<and>
       upsertMemberTx L (\<lambda>n. flt (n + 3)) now s (i_tenant i) (HexAddr L (ia_wallet inp))
         (accept_write (scanInvitation i) (ia_email inp) (membership_of s (i_tenant i) (HexAddr L (ia_wallet inp)))) = (s1, Inr w) \<and>
       s' = s1\<lparr>invitations := upd (\<lambda>j. i_id j = i_id i) (accepted_row (HexAddr L (ia_wallet inp)) now) (invitations s1)\<rparr> \<and>
       r = Inr (scanInvitation (accepted_row (HexAddr L (ia_wallet inp)) now i)))"
proof -
  have [simp]: "wi_tenant (scanInvitation i) = i_tenant i" "wi_status (scanInvitation i) = i_status i"
    "wi_expires (scanInvitation i) = wireTime (i_expires i)" "wi_id (scanInvitation i) = i_id i" for i
    by (simp_all add: scanInvitation_def)
  show ?thesis
    using assms unfolding Accept_def Let_def accepted_row_def
    by (simp add: not_less split: if_split_asm option.split_asm prod.split_asm sum.split_asm; blast)
qed

lemma upsertMemberTx_invitations:
  "upsertMemberTx L flt now s tid w inp = (s', r) \<Longrightarrow> invitations s' = invitations s"
  by (auto simp: upsertMemberTx_def Let_def split: if_splits prod.splits)

lemma dispatched_ok:
  assumes "invite_inv s" and "dispatched flt now s iv sent = (s', r)"
  shows "invite_inv s' \<and> invites_later s s'"
proof (cases sent)
  case (Some mid)
  with assms(2) have "s' = fst (markEmailSent flt now s iv mid)" by (auto simp: dispatched_def split: prod.splits)
  with markEmailSent_ok [OF assms(1)] show ?thesis by simp
qed (use assms in \<open>simp add: dispatched_def\<close>)

text \<open>Dispatching the email touches delivery tracking only.\<close>

definition invite_core where
  "invite_core i = (i_id i, i_tenant i, i_role i, i_scope i, i_status i, i_token_hash i, i_expires i,
     i_invited_by i, i_created_by_tenant i)"

lemma dispatched_core:
  assumes "dispatched flt now s iv sent = (s', r)"
  shows "map invite_core (invitations s') = map invite_core (invitations s)"
    and "\<exists>is'. s' = s\<lparr>invitations := is'\<rparr>"
proof -
  consider "s' = s" | mid where "s' = s\<lparr>invitations := upd (\<lambda>i. i_id i = wi_id iv)
      (\<lambda>i. i\<lparr>i_message_id := Some mid, i_email_status := Some EmailStatusSent, i_email_status_at := Some now,
             i_email_detail := None\<rparr>) (invitations s)\<rparr>"
    using assms by (auto simp: dispatched_def markEmailSent_def split: option.splits if_splits)
  then have "map invite_core (invitations s') = map invite_core (invitations s) \<and> (\<exists>is'. s' = s\<lparr>invitations := is'\<rparr>)"
  proof cases
    case 1
    moreover have "s = s\<lparr>invitations := invitations s\<rparr>" by simp
    ultimately show ?thesis by blast
  next
    case 2
    then have "map invite_core (invitations s') = map invite_core (invitations s)"
      by (simp add: upd_def invite_core_def)
    with 2 show ?thesis by blast
  qed
  then show "map invite_core (invitations s') = map invite_core (invitations s)" and "\<exists>is'. s' = s\<lparr>invitations := is'\<rparr>"
    by blast+
qed

lemma dispatched_hash:
  assumes "dispatched flt now s iv sent = (s', r)" and "\<forall>j\<in>set (invitations s). i_token_hash j \<noteq> h"
  shows "\<forall>j\<in>set (invitations s'). i_token_hash j \<noteq> h"
proof -
  have "map i_token_hash (invitations s') = map i_token_hash (invitations s)"
    using arg_cong [OF dispatched_core(1) [OF assms(1)], of "map (\<lambda>(_, _, _, _, _, h, _). h)"]
    by (simp add: o_def invite_core_def)
  then have "i_token_hash ` set (invitations s') = i_token_hash ` set (invitations s)" by (metis set_map)
  moreover have "h \<notin> i_token_hash ` set (invitations s)" using assms(2) by blast
  ultimately show ?thesis by blast
qed

lemma CreateInvitation_ok:
  assumes "invite_inv s" and "CreateInvitation L K cfg post flt newid rnd now s tid inp = (s', r)"
  shows "invite_inv s' \<and> invites_later s s'"
proof -
  let ?sup = "supersede_pending tid (invite_email inp) (invitations s)"
  have ok: "invites_ok (invitations s)" using assms(1) by (simp add: invite_inv_def)
  note sup = supersede_ok [OF ok, of tid "invite_email inp"]
  have suplater: "invites_later s (s\<lparr>invitations := ?sup\<rparr>)"
    unfolding supersede_pending_def by (rule upd_invites_later) (simp add: invite_later_def)
  consider "s' = s" | "s' = s\<lparr>invitations := ?sup\<rparr>" | row s2 sent buf where
      "row = invite_row_for L cfg newid now tid (invite_email inp) (invite_role inp)
               (hashInviteToken K (b64url K buf)) (invite_scope inp) inp"
      "\<not> list_ex (\<lambda>i. i_id i = newid \<or> i_token_hash i = hashInviteToken K (b64url K buf)) ?sup"
      "s2 = s\<lparr>invitations := ?sup @ [row]\<rparr>" "dispatched (\<lambda>n. flt (n + 5)) now s2 (scanInvitation row) sent = (s', r)"
    using CreateInvitation_result [OF assms(2)] by blast
  then show ?thesis
  proof cases
    case 2
    with sup suplater show ?thesis by (simp add: invite_inv_def)
  next
    case 3
    have row: "i_id row = newid" "i_token_hash row = hashInviteToken K (b64url K buf)"
      "i_tenant row = tid" "lower (i_email row) = invite_email inp"
      unfolding 3(1) by (simp_all add: invite_row_for_def invite_email_def lower_trimmed)
    have "invites_ok (?sup @ [row])"
      using sup 3(2) row unfolding invites_ok_def pending_keys_def list_ex_iff unique_on_snoc by auto
    then have "invite_inv s2" by (simp add: invite_inv_def 3(3))
    moreover have "invites_later (s\<lparr>invitations := ?sup\<rparr>) s2"
      unfolding invites_later_def 3(3) by (simp add: rows_rel_append)
    ultimately show ?thesis using dispatched_ok [OF _ 3(4)] suplater invites_later_trans by blast
  qed (use assms(1) in simp)
qed

lemma ResendInvitation_ok:
  assumes "invite_inv s" and "ResendInvitation L K cfg post flt rnd now s tid iid actor locale = (s', r)"
  shows "invite_inv s' \<and> invites_later s s'"
proof -
  let ?P = "\<lambda>i. i_id i = iid \<and> i_tenant i = tid \<and> i_status i = InviteStatusPending"
  consider "s' = s" | hash i s1 sent where "\<not> list_ex (\<lambda>j. i_id j \<noteq> iid \<and> i_token_hash j = hash) (invitations s)"
      "s1 = s\<lparr>invitations := upd ?P (refreshed cfg now hash) (invitations s)\<rparr>"
      "dispatched (\<lambda>n. flt (n + 2)) now s1 (scanInvitation (refreshed cfg now hash i)) sent = (s', r)"
    using ResendInvitation_result [OF assms(2)] by blast
  then show ?thesis
  proof cases
    case 2
    let ?f = "refreshed cfg now hash"
    have keep: "i_id (?f i) = i_id i" "i_tenant (?f i) = i_tenant i" "i_email (?f i) = i_email i"
      "i_status (?f i) = i_status i" "i_role (?f i) = i_role i" "i_scope (?f i) = i_scope i" "i_token_hash (?f i) = hash" for i
      by (simp_all add: refreshed_def)
    have u: "unique_on (\<lambda>_. True) i_id (invitations s)" "unique_on (\<lambda>_. True) i_token_hash (invitations s)"
      "pending_keys (invitations s)" using assms(1) by (simp_all add: invite_inv_def invites_ok_def)
    have "unique_on (\<lambda>_. True) i_token_hash (upd ?P ?f (invitations s))"
    proof (rule unique_on_upd_one [OF u(2)])
      show "distinct (invitations s)" using u(1) by (simp add: unique_on_def distinct_map)
      show "\<And>r r'. r \<in> set (invitations s) \<Longrightarrow> r' \<in> set (invitations s) \<Longrightarrow> ?P r \<Longrightarrow> ?P r' \<Longrightarrow> r = r'"
        using unique_on_inj [OF u(1)] by simp
      fix r x assume "r \<in> set (invitations s)" "?P r" "x \<in> set (invitations s)" "\<not> ?P x"
      then have "i_id x \<noteq> iid" using unique_on_inj [OF u(1), of x r] by auto
      with 2(1) \<open>x \<in> set (invitations s)\<close> show "i_token_hash x \<noteq> i_token_hash (?f r)"
        by (auto simp: keep list_ex_iff)
    qed
    moreover have "unique_on (\<lambda>_. True) i_id (upd ?P ?f (invitations s))" "pending_keys (upd ?P ?f (invitations s))"
      using u(1,3) keep unfolding pending_keys_def by (auto intro!: unique_on_upd)
    ultimately have "invite_inv s1" by (simp add: invite_inv_def invites_ok_def 2(2))
    moreover have "invites_later s s1"
      unfolding 2(2) by (rule upd_invites_later) (simp add: invite_later_def keep)
    ultimately show ?thesis using dispatched_ok [OF _ 2(3)] invites_later_trans by blast
  qed (use assms(1) in simp)
qed

lemma Accept_ok:
  assumes "invite_inv s" and "Accept L K auth flt appnow now s inp = (s', r)"
  shows "invite_inv s' \<and> invites_later s s'"
proof -
  let ?f = "accepted_row (HexAddr L (ia_wallet inp)) now"
  consider "s' = s" | i where "find (\<lambda>i. i_token_hash i = hashInviteToken K (ia_token inp)) (invitations s) = Some i"
      "i_status i = InviteStatusPending" "invitations s' = upd (\<lambda>j. i_id j = i_id i) ?f (invitations s)"
    using Accept_result [OF assms(2)] by (auto dest: upsertMemberTx_invitations)
  then show ?thesis
  proof cases
    case 2
    have ok: "invites_ok (invitations s)" using assms(1) by (simp add: invite_inv_def)
    have "invites_ok (upd (\<lambda>j. i_id j = i_id i) ?f (invitations s))"
      using ok by (rule upd_invites_ok) (simp add: accepted_row_def)
    moreover have "j = i" if "j \<in> set (invitations s)" "i_id j = i_id i" for j
      using unique_on_inj [of "\<lambda>_. True" i_id "invitations s" j i] ok that find_SomeD [OF 2(1)]
      by (simp add: invites_ok_def)
    then have "rows_rel invite_later (invitations s) (upd (\<lambda>j. i_id j = i_id i) ?f (invitations s))"
      using 2(2) by (intro rows_rel_upd) (auto simp: invite_later_def accepted_row_def)
    ultimately show ?thesis by (simp add: invite_inv_def invites_later_def 2(3))
  qed (use assms(1) in simp)
qed

lemma upd_ok:
  assumes "invite_inv s" and "s' = s \<or> s' = s\<lparr>invitations := upd P f (invitations s)\<rparr>"
    and "\<And>i. P i \<Longrightarrow> i_id (f i) = i_id i \<and> i_token_hash (f i) = i_token_hash i \<and> i_tenant (f i) = i_tenant i \<and>
           i_email (f i) = i_email i \<and> (i_status (f i) = InviteStatusPending \<longrightarrow> i_status i = InviteStatusPending)"
    and "\<And>i. P i \<Longrightarrow> invite_later i (f i)"
  shows "invite_inv s' \<and> invites_later s s'"
proof -
  have "invites_ok (upd P f (invitations s))"
    using assms(1) assms(3) unfolding invite_inv_def by (rule upd_invites_ok)
  moreover have "invites_later s (s\<lparr>invitations := upd P f (invitations s)\<rparr>)"
    using assms(4) by (rule upd_invites_later)
  ultimately show ?thesis using assms(1,2) by (auto simp: invite_inv_def)
qed

lemma RevokeInvitation_ok:
  assumes "invite_inv s"
  shows "invite_inv (fst (RevokeInvitation L flt s tid iid)) \<and> invites_later s (fst (RevokeInvitation L flt s tid iid))"
  by (rule upd_ok [OF assms, where P = "\<lambda>i. i_id i = iid \<and> i_tenant i = tid \<and> i_status i = InviteStatusPending"
        and f = "\<lambda>i. i\<lparr>i_status := InviteStatusRevoked\<rparr>"])
     (simp_all add: RevokeInvitation_def invite_later_def)

lemma apply_event_keep [simp]:
  "i_id (apply_event st at d i) = i_id i" "i_token_hash (apply_event st at d i) = i_token_hash i"
  "i_tenant (apply_event st at d i) = i_tenant i" "i_email (apply_event st at d i) = i_email i"
  "i_status (apply_event st at d i) = i_status i" "i_role (apply_event st at d i) = i_role i"
  "i_scope (apply_event st at d i) = i_scope i" "i_message_id (apply_event st at d i) = i_message_id i"
  by (simp_all add: apply_event_def)

lemma ApplyEmailEvent_ok:
  assumes "invite_inv s"
  shows "invite_inv (fst (ApplyEmailEvent L flt appnow s iid mid st at d)) \<and>
    invites_later s (fst (ApplyEmailEvent L flt appnow s iid mid st at d))"
  by (rule upd_ok [OF assms,
        where P = "\<lambda>i. if (if uuidParse L iid then iid else []) \<noteq> [] then i_id i = (if uuidParse L iid then iid else [])
                       else i_message_id i = Some mid"
        and f = "apply_event st (case at of None \<Rightarrow> appnow | Some t \<Rightarrow> t) d"])
     (simp_all add: ApplyEmailEvent_def Let_def invite_later_def)

datatype invite_op =
    ICreate faults uuid "string option" time uuid invitation_create
  | IRevoke faults uuid uuid
  | IResend faults "string option" time uuid uuid string string
  | IAccept faults "uuid \<Rightarrow> svc_error option" time time invitation_accept
  | IEvent faults time uuid string string "time option" string

fun invite_step :: "library \<Rightarrow> crypto \<Rightarrow> settings \<Rightarrow> sender \<Rightarrow> invite_op \<Rightarrow> db \<Rightarrow> db" where
  "invite_step L K cfg post (ICreate flt i rnd now tid inp) s = fst (CreateInvitation L K cfg post flt i rnd now s tid inp)"
| "invite_step L K cfg post (IRevoke flt tid iid) s = fst (RevokeInvitation L flt s tid iid)"
| "invite_step L K cfg post (IResend flt rnd now tid iid a loc) s = fst (ResendInvitation L K cfg post flt rnd now s tid iid a loc)"
| "invite_step L K cfg post (IAccept flt auth appnow now inp) s = fst (Accept L K auth flt appnow now s inp)"
| "invite_step L K cfg post (IEvent flt appnow iid mid st at d) s = fst (ApplyEmailEvent L flt appnow s iid mid st at d)"

lemma invite_step_ok:
  assumes "invite_inv s"
  shows "invite_inv (invite_step L K cfg post op s) \<and> invites_later s (invite_step L K cfg post op s)"
proof (cases op)
  case (ICreate flt i rnd now tid inp)
  then show ?thesis
    using CreateInvitation_ok [OF assms, of L K cfg post flt i rnd now tid inp] by (metis invite_step.simps(1) prod.collapse)
next
  case (IResend flt rnd now tid iid a loc)
  then show ?thesis
    using ResendInvitation_ok [OF assms, of L K cfg post flt rnd now tid iid a loc] by (metis invite_step.simps(3) prod.collapse)
next
  case (IAccept flt auth appnow now inp)
  then show ?thesis
    using Accept_ok [OF assms, of L K auth flt appnow now inp] by (metis invite_step.simps(4) prod.collapse)
qed (simp_all add: RevokeInvitation_ok ApplyEmailEvent_ok assms)

interpretation invite_ops: op_history "invite_step L K cfg post" invite_inv invites_later for L K cfg post
  by unfold_locales (auto simp: invite_step_ok intro: invites_later_trans)

subsection \<open>Ranked status\<close>

text \<open>
  A status that only moves up a ranking, whatever order the events arrive in: what the webhook
  receiver relies on.
\<close>

locale ranked_status =
  fixes rank :: "'st \<Rightarrow> nat"
    and status :: "'r \<Rightarrow> 'st"
    and event :: "'e \<Rightarrow> 'st"
    and feed :: "'e \<Rightarrow> 'r \<Rightarrow> 'r"
  assumes status_feed: "status (feed e r) = (if rank (status r) < rank (event e) then event e else status r)"
begin

lemma rank_feed: "rank (status (feed e r)) = max (rank (status r)) (rank (event e))"
  by (simp add: status_feed)

lemma rank_run: "rank (status (fold feed es r)) = Max (set (rank (status r) # map (\<lambda>e. rank (event e)) es))"
proof (induction es arbitrary: r)
  case (Cons e es)
  have "rank (status (fold feed (e # es) r)) =
      Max (insert (max (rank (status r)) (rank (event e))) ((\<lambda>e. rank (event e)) ` set es))"
    by (simp add: Cons.IH rank_feed)
  also have "\<dots> = Max (insert (rank (status r)) (insert (rank (event e)) ((\<lambda>e. rank (event e)) ` set es)))"
    by (cases "set es = {}") (simp_all add: max.assoc)
  finally show ?case by simp
qed simp

lemma rank_never_falls: "rank (status r) \<le> rank (status (fold feed es r))"
  unfolding rank_run by (rule Max_ge) simp_all

lemma order_irrelevant: "set es = set es' \<Longrightarrow> rank (status (fold feed es r)) = rank (status (fold feed es' r))"
  unfolding rank_run by simp

end

text \<open>When a rank names one status, the final status itself does not depend on the order.\<close>

locale ranked_status_inj = ranked_status +
  assumes rank_inj: "0 < rank a \<Longrightarrow> rank a = rank b \<Longrightarrow> a = b"
begin

lemma status_kept: "rank (status (fold feed es r)) = rank (status r) \<Longrightarrow> status (fold feed es r) = status r"
proof (induction es arbitrary: r)
  case (Cons e es)
  have "rank (status r) \<le> rank (status (feed e r))" by (simp add: rank_feed)
  moreover have "rank (status (feed e r)) \<le> rank (status (fold feed es (feed e r)))" by (rule rank_never_falls)
  ultimately have eq: "rank (status (feed e r)) = rank (status r)"
    "rank (status (fold feed es (feed e r))) = rank (status (feed e r))" using Cons.prems by simp_all
  from eq(1) have "status (feed e r) = status r" by (simp add: status_feed split: if_splits)
  with Cons.IH [OF eq(2)] show ?case by simp
qed simp

lemma status_order_irrelevant:
  assumes "set es = set es'"
  shows "status (fold feed es r) = status (fold feed es' r)"
proof (cases "rank (status (fold feed es r)) = rank (status r)")
  case True
  then have "rank (status (fold feed es' r)) = rank (status r)" using order_irrelevant [OF assms, of r] by metis
  from status_kept [OF True] status_kept [OF this] show ?thesis by metis
next
  case False
  with rank_never_falls [of r es] have "0 < rank (status (fold feed es r))" by simp
  then show ?thesis using order_irrelevant [OF assms, of r] by (rule rank_inj)
qed

end

interpretation email: ranked_status_inj email_rank "\<lambda>i. null_str (i_email_status i)" "\<lambda>(st, at, d). st"
  "\<lambda>(st, at, d). apply_event st at d"
proof unfold_locales
  fix e :: "string \<times> time \<times> string" and r :: invitation_row
  show "null_str (i_email_status ((\<lambda>(st, at, d). apply_event st at d) e r)) =
      (if email_rank (null_str (i_email_status r)) < email_rank ((\<lambda>(st, at, d). st) e)
       then (\<lambda>(st, at, d). st) e else null_str (i_email_status r))"
    by (cases e) (simp add: apply_event_def null_str_def)
next
  fix a b :: string assume "0 < email_rank a" "email_rank a = email_rank b"
  then show "a = b" unfolding email_rank_def by (simp split: if_split_asm)
qed

subsection \<open>Properties\<close>

lemma set_union_loop: "set (union_loop seen vs) = set vs - set seen"
  by (induction seen vs rule: union_loop.induct) auto

lemma set_unionStrings [simp]: "set (unionStrings a b) = set a \<union> set b"
  by (simp add: unionStrings_def set_union_loop)

lemma decode_scopeJSON: "decodeScope (Some (scopeJSON sc)) = (sc, sc = None, True)"
  by (cases sc) (simp_all add: decodeScope_def scopeJSON_def marshal_strings_def)

lemma accept_write_simps [simp]:
  "mw_scope (accept_write iv e m) = Some (scopeJSON (wi_scope iv))"
  by (simp add: accept_write_def Let_def split: option.split)

lemma accept_row_scope [simp]:
  "m_scope (member_row_for L now tid w (accept_write (scanInvitation i) e m)) = i_scope i"
  by (simp add: member_row_for_def Scope_def decode_scopeJSON scanInvitation_def)

lemma find_hash:
  assumes "invite_inv s" and "i \<in> set (invitations s)"
  shows "find (\<lambda>j. i_token_hash j = i_token_hash i) (invitations s) = Some i"
proof -
  obtain j where j: "find (\<lambda>j. i_token_hash j = i_token_hash i) (invitations s) = Some j"
    using assms(2) by (metis (mono_tags, lifting) find_None not_Some_eq)
  with assms unique_on_inj [of "\<lambda>_. True" i_token_hash "invitations s" j i] find_SomeD [OF j]
  show ?thesis by (simp add: invite_inv_def invites_ok_def)
qed

lemma nullif_null_str [simp]: "nullif (null_str (nullif x)) = nullif x"
  by (simp add: nullif_def null_str_def)

lemma upsertMemberTx_succeeds:
  assumes "snd (snd (Scope inp))" and "tenant_by_id tid s \<noteq> None"
    and "scope_groups_exist s tid (m_scope (member_row_for L now tid w inp))"
    and "tenant_ref_ok s (nullif (mw_granted_by_tenant inp))"
  shows "\<exists>s1. upsertMemberTx L no_faults now s tid w inp = (s1, Inr (HexAddr L w))"
proof -
  have "m_granted_by_tenant (member_row_for L now tid w inp) = nullif (mw_granted_by_tenant inp)"
    by (simp add: member_row_for_def split: prod.splits)
  moreover have "tenant_ref_ok (s\<lparr>users := u\<rparr>) t = tenant_ref_ok s t" for u t
    by (simp add: tenant_ref_ok_def split: option.split)
  ultimately show ?thesis using assms by (cases "Scope inp") (simp add: upsertMemberTx_def Let_def)
qed

text \<open>A pending invitation of the customer, for applying the theorems.\<close>

definition demo_invite_row :: invitation_row where
  "demo_invite_row = \<lparr>i_id = ''i1'', i_tenant = ''cu'', i_email = ''d@x'', i_role = ''member'',
     i_token_hash = hashInviteToken demo_crypto ''tok'', i_status = InviteStatusPending, i_invited_by = ''0xaa'',
     i_invitee = None, i_created_by_tenant = None, i_scope = Some [''cu_vans''], i_message_id = None,
     i_email_status = None, i_email_status_at = None, i_email_detail = None, i_created = 0,
     i_expires = 100 * second, i_accepted = None\<rparr>"

definition demo_invite_db :: db where
  "demo_invite_db = demo_db\<lparr>invitations := [demo_invite_row]\<rparr>"

definition demo_accept :: invitation_accept where
  "demo_accept = \<lparr>ia_token = ''tok'', ia_wallet = ''0xBB'', ia_email = []\<rparr>"

definition demo_settings :: settings where
  "demo_settings = \<lparr>InvitationFromEmail = ''f@x'', ProvisionEmailFrom = [], InvitationTemplateAlias = [],
     InviteExpiryHours = 0, InviteAcceptOrigin = ''https://h'', InviteAcceptPath = ''/''\<rparr>"

definition demo_invite :: invitation_create where
  "demo_invite = \<lparr>ic_email = ''N@x'', ic_role = ''owner'', ic_locale = [], ic_scope = Some JNull,
     ic_invited_by = ''0xaa'', ic_created_by_tenant = []\<rparr>"

lemma demo_invite_inv: "invite_inv demo_invite_db" "invite_inv demo_db"
  by (simp_all add: invite_inv_def invites_ok_def pending_keys_def demo_invite_db_def demo_db_def empty_db_def)


lemma demo_hash_differs: "hashInviteToken demo_crypto ''new'' \<noteq> hashInviteToken demo_crypto ''tok''"
  by (simp add: hashInviteToken_def hexEncode_def hex_char_def demo_crypto_def text_eval)






text \<open>
  Over any sequence of invitation writes, under any faults, at most one invitation per tenant
  and address is pending, every live link is distinct, no invitation changes whom and what it is
  for, and an accepted or revoked one never becomes pending again.
\<close>

theorem invite_ops_invariant:
  assumes "invite_inv s" and "s' = fold (invite_step L K cfg post) ops s"
  shows "invite_inv s' \<and> invites_later s s' \<and>
    (\<forall>i\<in>set (invitations s'). \<forall>j\<in>set (invitations s'). i_status i = InviteStatusPending \<longrightarrow>
       i_status j = InviteStatusPending \<longrightarrow> i_tenant i = i_tenant j \<longrightarrow> lower (i_email i) = lower (i_email j) \<longrightarrow> i = j)"
proof -
  have ok: "invite_inv s'" "invites_later s s'"
    using invite_ops.run_inv [OF assms(1)] invite_ops.run_later [OF assms(1)] assms(2) by simp_all
  then have "unique_on (\<lambda>i. i_status i = InviteStatusPending) (\<lambda>i. (i_tenant i, lower (i_email i))) (invitations s')"
    by (simp add: invite_inv_def invites_ok_def pending_keys_def)
  from unique_on_inj [OF this] ok show ?thesis by simp
qed

lemma invite_ops_invariant_witness:
  "invite_inv (fold (invite_step demo_library demo_crypto demo_settings (\<lambda>_ _ _ _ _. Some ''m''))
     [ICreate no_faults ''i2'' (Some ''new'') 5 ''cu'' demo_invite, IRevoke no_faults ''cu'' ''i2''] demo_invite_db)"
  using invite_ops_invariant [OF demo_invite_inv(1) refl] by blast

text \<open>
  Resending kills the old link: after a resend that reached the database, a token whose hash
  was the invitation's no longer opens anything, unless the fresh token hashes to the same text.
\<close>

theorem Resend_kills_link:
  assumes "invite_inv s" and "ResendInvitation L K cfg post flt rnd now s tid iid actor locale = (s', r)"
    and "\<forall>e. r \<noteq> InviteFailed e"
    and "i \<in> set (invitations s)" "i_id i = iid" "i_token_hash i = hashInviteToken K (ia_token inp)"
    and "\<forall>buf. rnd = Some buf \<longrightarrow> hashInviteToken K (b64url K buf) \<noteq> hashInviteToken K (ia_token inp)"
  shows "\<exists>e. Accept L K auth flt' appnow' now' s' inp = (s', Inl e)"
proof -
  let ?P = "\<lambda>i. i_id i = iid \<and> i_tenant i = tid \<and> i_status i = InviteStatusPending"
  let ?h = "hashInviteToken K (ia_token inp)"
  from ResendInvitation_result [OF assms(2)] assms(3) obtain buf k s1 sent where k: "rnd = Some buf"
      "find ?P (invitations s) = Some k"
    and s1: "s1 = s\<lparr>invitations := upd ?P (refreshed cfg now (hashInviteToken K (b64url K buf))) (invitations s)\<rparr>"
    and d: "dispatched (\<lambda>n. flt (n + 2)) now s1 (scanInvitation (refreshed cfg now (hashInviteToken K (b64url K buf)) k)) sent = (s', r)"
    by blast
  have new: "hashInviteToken K (b64url K buf) \<noteq> ?h" using assms(7) k(1) by blast
  have u: "unique_on (\<lambda>_. True) i_id (invitations s)" "unique_on (\<lambda>_. True) i_token_hash (invitations s)"
    using assms(1) by (simp_all add: invite_inv_def invites_ok_def)
  have "k = i" using unique_on_inj [OF u(1), of k i] find_SomeD [OF k(2)] assms(4,5) by simp
  then have Pi: "?P i" using find_SomeD [OF k(2)] by simp
  have "\<forall>j\<in>set (invitations s). \<not> ?P j \<longrightarrow> i_token_hash j \<noteq> ?h"
  proof (intro ballI impI notI)
    fix j assume j: "j \<in> set (invitations s)" "\<not> ?P j" "i_token_hash j = ?h"
    then have "j = i" using unique_on_inj [OF u(2) j(1) assms(4)] assms(6) by simp
    with Pi j(2) show False by blast
  qed
  then have "\<forall>j\<in>set (invitations s1). i_token_hash j \<noteq> ?h"
    using new by (simp add: s1 ball_upd refreshed_def)
  then have "\<forall>j\<in>set (invitations s'). i_token_hash j \<noteq> ?h" by (rule dispatched_hash [OF d])
  then have "find (\<lambda>j. i_token_hash j = ?h) (invitations s') = None" by (simp add: find_None)
  with Accept_result [of L K auth flt' appnow' now' s' inp] show ?thesis
    by (cases "Accept L K auth flt' appnow' now' s' inp") auto
qed

lemma Resend_kills_link_witness:
  "\<exists>s' r e. ResendInvitation demo_library demo_crypto demo_settings (\<lambda>_ _ _ _ _. None) no_faults (Some ''new'') 9
       demo_invite_db ''cu'' ''i1'' [] [] = (s', r) \<and>
     Accept demo_library demo_crypto (\<lambda>_. None) no_faults 50 60 s' demo_accept = (s', Inl e)"
proof -
  have "\<exists>s' iv. ResendInvitation demo_library demo_crypto demo_settings (\<lambda>_ _ _ _ _. None) no_faults (Some ''new'') 9
      demo_invite_db ''cu'' ''i1'' [] [] = (s', InviteNotSent iv)"
    by (simp add: ResendInvitation_def generateInviteToken_def sendEmailAs_def dispatched_def Let_def
        demo_invite_db_def demo_invite_row_def demo_library_def)
  then obtain s' iv where r: "ResendInvitation demo_library demo_crypto demo_settings (\<lambda>_ _ _ _ _. None) no_faults (Some ''new'') 9
      demo_invite_db ''cu'' ''i1'' [] [] = (s', InviteNotSent iv)" by blast
  have i: "demo_invite_row \<in> set (invitations demo_invite_db)" "i_id demo_invite_row = ''i1''"
    "i_token_hash demo_invite_row = hashInviteToken demo_crypto (ia_token demo_accept)"
    by (simp_all add: demo_invite_db_def demo_invite_row_def demo_accept_def)
  have new: "\<forall>buf. Some ''new'' = Some buf \<longrightarrow>
      hashInviteToken demo_crypto (b64url demo_crypto buf) \<noteq> hashInviteToken demo_crypto (ia_token demo_accept)"
    using demo_hash_differs by (simp add: demo_crypto_def demo_accept_def)
  have "\<forall>e. InviteNotSent iv \<noteq> InviteFailed e" by simp
  from Resend_kills_link [OF demo_invite_inv(1) r this i new] r show ?thesis by blast
qed

text \<open>
  The link in the email works: an invitation that was saved can be accepted with its token by
  any wallet the caller may act for until its expiry (to the second), and the membership it gives
  has exactly the scope that was asked for, unrestricted for an owner.
\<close>

theorem invite_link_works:
  assumes "address_laws L" and "member_inv L s" and "invite_inv s"
    and "CreateInvitation L K cfg post flt newid (Some buf) now s tid inp = (s', r)" and "\<forall>e. r \<noteq> InviteFailed e"
    and "b64url K buf \<noteq> []" "w \<noteq> []" "auth tid = None"
    and "appnow \<le> parseWireTime (wireTime (now + int (expiryHours cfg) * 3600 * second))"
  shows "\<exists>s'' a m. Accept L K auth no_faults appnow now' s' \<lparr>ia_token = b64url K buf, ia_wallet = w, ia_email = e\<rparr> = (s'', Inr a) \<and>
    wi_id a = newid \<and> membership_of s'' tid (HexAddr L w) = Some m \<and> m_scope m = invite_scope inp \<and>
    (invite_role inp = inviteRoleOwner \<longrightarrow> m_scope m = None)"
proof -
  let ?hash = "hashInviteToken K (b64url K buf)" and ?w = "HexAddr L w"
  let ?row = "invite_row_for L cfg newid now tid (invite_email inp) (invite_role inp) ?hash (invite_scope inp) inp"
  let ?s2 = "s\<lparr>invitations := supersede_pending tid (invite_email inp) (invitations s) @ [?row]\<rparr>"
  from CreateInvitation_result [OF assms(4)] assms(5) obtain sent where
      sc: "scope_groups_exist s tid (invite_scope inp)" and ref: "tenant_ref_ok s (i_created_by_tenant ?row)"
      and t: "tenant_by_id tid s \<noteq> None"
      and d: "dispatched (\<lambda>n. flt (n + 5)) now ?s2 (scanInvitation ?row) sent = (s', r)" by blast
  have inv': "invite_inv s'" using CreateInvitation_ok [OF assms(3,4)] by simp
  obtain is' where s': "s' = ?s2\<lparr>invitations := is'\<rparr>" using dispatched_core(2) [OF d] by blast
  have "set (map invite_core (invitations s')) = set (map invite_core (invitations ?s2))"
    unfolding dispatched_core(1) [OF d] ..
  then have "invite_core ?row \<in> invite_core ` set (invitations s')" by simp
  then obtain i where i: "i \<in> set (invitations s')" "invite_core i = invite_core ?row" by auto
  then have f: "i_id i = newid" "i_tenant i = tid" "i_scope i = invite_scope inp" "i_status i = InviteStatusPending"
    "i_token_hash i = ?hash" "i_expires i = now + int (expiryHours cfg) * 3600 * second"
    "i_created_by_tenant i = nullif (ic_created_by_tenant inp)"
    by (simp_all add: invite_core_def invite_row_for_def)
  have find: "find (\<lambda>j. i_token_hash j = ?hash) (invitations s') = Some i" using find_hash [OF inv' i(1)] f(5) by simp
  let ?wr = "accept_write (scanInvitation i) e (membership_of s' tid ?w)"
  have mem': "member_inv L s'" using assms(2) by (simp add: s' member_inv_def)
  have row: "m_scope (member_row_for L now' tid ?w ?wr) = invite_scope inp" using f(3) by simp
  have "mw_granted_by_tenant ?wr = null_str (i_created_by_tenant i)"
    by (simp add: accept_write_def Let_def scanInvitation_def split: option.split)
  then have ref': "tenant_ref_ok s' (nullif (mw_granted_by_tenant ?wr))"
    using ref f(7) by (simp add: s' invitations_frame invite_row_for_def)
  have scope': "snd (snd (Scope ?wr))" by (simp add: Scope_def decode_scopeJSON)
  have "tenant_by_id tid s' \<noteq> None" "scope_groups_exist s' tid (m_scope (member_row_for L now' tid ?w ?wr))"
    using t sc row by (simp_all add: s' invitations_frame tenant_by_id_def)
  from upsertMemberTx_succeeds [OF scope' this ref'] obtain s1 where
    up: "upsertMemberTx L no_faults now' s' tid ?w ?wr = (s1, Inr (HexAddr L ?w))" by blast
  from upsertMemberTx_lookup(2) [OF assms(1) mem' up] row HexAddr_idem [OF assms(1)] obtain m where
    m: "membership_of s1 tid ?w = Some m" "m_scope m = invite_scope inp" by auto
  let ?acc = "accepted_row ?w now'"
  have sel: "wi_tenant (scanInvitation i) = tid" "wi_status (scanInvitation i) = InviteStatusPending"
    "wi_expires (scanInvitation i) = wireTime (now + int (expiryHours cfg) * 3600 * second)"
    "wi_id (scanInvitation i) = newid" using f by (simp_all add: scanInvitation_def)
  have "Accept L K auth no_faults appnow now' s' \<lparr>ia_token = b64url K buf, ia_wallet = w, ia_email = e\<rparr> =
      (s1\<lparr>invitations := upd (\<lambda>j. i_id j = newid) ?acc (invitations s1)\<rparr>, Inr (scanInvitation (?acc i)))"
    using assms(6-9) find up by (simp add: Accept_def Let_def sel accepted_row_def [abs_def])
  moreover have "invite_role inp = inviteRoleOwner \<longrightarrow> invite_scope inp = None"
    by (simp add: invite_scope_def split: prod.split)
  moreover have "wi_id (scanInvitation (?acc i)) = newid" using f(1) by (simp add: scanInvitation_def accepted_row_def)
  moreover have "membership_of (s1\<lparr>invitations := x\<rparr>) tid ?w = Some m" for x using m(1) by (simp add: membership_of_def)
  ultimately show ?thesis using m(2)
    by (intro exI [of _ "s1\<lparr>invitations := upd (\<lambda>j. i_id j = newid) ?acc (invitations s1)\<rparr>"]
        exI [of _ "scanInvitation (?acc i)"] exI [of _ m]) simp
qed

lemma invite_link_works_witness:
  "\<exists>s' r s'' a. CreateInvitation demo_library demo_crypto demo_settings (\<lambda>_ _ _ _ _. None) no_faults ''i2'' (Some ''new'') 5
       demo_db ''cu'' demo_invite = (s', r) \<and>
     Accept demo_library demo_crypto (\<lambda>_. None) no_faults 50 60 s' \<lparr>ia_token = ''new'', ia_wallet = ''0xEE'', ia_email = []\<rparr> = (s'', Inr a)"
proof -
  have "\<exists>s' iv. CreateInvitation demo_library demo_crypto demo_settings (\<lambda>_ _ _ _ _. None) no_faults ''i2'' (Some ''new'') 5
      demo_db ''cu'' demo_invite = (s', InviteNotSent iv)"
    by (simp add: CreateInvitation_def invite_email_def invite_role_def invite_scope_def decodeScope_def
        validateGroupIDs_def supersede_pending_def generateInviteToken_def scope_groups_exist_def tenant_ref_ok_def
        invite_row_for_def sendEmail_def sendEmailAs_def dispatched_def TrimSpace_def trim_both_def trim_right_def
        is_space_def demo_invite_def tenant_by_id_def demo_defs text_eval)
  then obtain s' iv where c: "CreateInvitation demo_library demo_crypto demo_settings (\<lambda>_ _ _ _ _. None) no_faults ''i2''
      (Some ''new'') 5 demo_db ''cu'' demo_invite = (s', InviteNotSent iv)" by blast
  have b: "b64url demo_crypto ''new'' = ''new''" by (simp add: demo_crypto_def)
  have "50 \<le> parseWireTime (wireTime (5 + int (expiryHours demo_settings) * 3600 * second))"
    by (simp add: expiryHours_def demo_settings_def defaultInviteExpiryHours_def parseWireTime_def wireTime_def second_def)
  then have "\<exists>s'' a. Accept demo_library demo_crypto (\<lambda>_. None) no_faults 50 60 s'
      \<lparr>ia_token = ''new'', ia_wallet = ''0xEE'', ia_email = []\<rparr> = (s'', Inr a)"
    using invite_link_works [OF demo_address_laws demo_member_inv demo_invite_inv(2) c, of "''0xEE''" "\<lambda>_. None" 50 60 "[]"] b
    by auto
  with c show ?thesis by blast
qed

definition email_events :: "library \<Rightarrow> time \<Rightarrow> uuid \<Rightarrow> string \<Rightarrow> (string \<times> time \<times> string) list \<Rightarrow> db \<Rightarrow> db" where
  "email_events L appnow iid mid es s =
     fold (\<lambda>(st, at, d) s. fst (ApplyEmailEvent L no_faults appnow s iid mid st (Some at) d)) es s"

text \<open>
  Delivery events may arrive in any order and any number of times: the statuses an invitation
  ends with depend only on which events arrived, and no event ever lowers a status.
\<close>

theorem email_events_order_irrelevant:
  assumes "iid \<noteq> []" and "uuidParse L iid" and "set es = set es'"
  shows "map (\<lambda>i. null_str (i_email_status i)) (invitations (email_events L appnow iid mid es s)) =
      map (\<lambda>i. null_str (i_email_status i)) (invitations (email_events L appnow iid mid es' s)) \<and>
    list_all2 (\<lambda>i j. email_rank (null_str (i_email_status i)) \<le> email_rank (null_str (i_email_status j)))
      (invitations s) (invitations (email_events L appnow iid mid es s))"
proof -
  let ?feed = "\<lambda>(st, at, d). apply_event st at d"
  have rows: "invitations (email_events L appnow iid mid xs s0) =
      map (\<lambda>i. if i_id i = iid then fold ?feed xs i else i) (invitations s0)" for xs s0
  proof (induction xs arbitrary: s0)
    case (Cons x xs)
    obtain st at d where x: "x = (st, at, d)" by (metis prod_cases3)
    have "invitations (fst (ApplyEmailEvent L no_faults appnow s0 iid mid st (Some at) d)) =
        map (\<lambda>i. if i_id i = iid then apply_event st at d i else i) (invitations s0)"
      using assms(1,2) by (simp add: ApplyEmailEvent_def upd_def)
    then show ?case using Cons.IH by (simp add: x email_events_def)
  qed (simp add: map_idI email_events_def)
  have "null_str (i_email_status (fold ?feed es i)) = null_str (i_email_status (fold ?feed es' i))" for i
    using email.status_order_irrelevant [OF assms(3), of i] by simp
  moreover have "email_rank (null_str (i_email_status i)) \<le> email_rank (null_str (i_email_status (fold ?feed es i)))" for i
    using email.rank_never_falls [of i es] by simp
  ultimately show ?thesis unfolding rows by (simp add: list_all2_map2 list.rel_refl_strong)
qed

lemma email_events_order_irrelevant_witness:
  "map (\<lambda>i. null_str (i_email_status i)) (invitations (email_events demo_library 5 ''i1'' [] [(''opened'', 1, []), (''delivered'', 2, [])] demo_invite_db)) =
   map (\<lambda>i. null_str (i_email_status i)) (invitations (email_events demo_library 5 ''i1'' [] [(''delivered'', 2, []), (''opened'', 1, [])] demo_invite_db))"
proof -
  have u: "uuidParse demo_library ''i1''" by (simp add: demo_library_def)
  have "set [(''opened'', 1 :: time, [] :: string), (''delivered'', 2, [])] = set [(''delivered'', 2, []), (''opened'', 1, [])]"
    by auto
  from email_events_order_irrelevant [OF _ u this, of 5 "[]" demo_invite_db] show ?thesis by simp
qed

end
