(* ===== verification/Roster.thy ===== *)
theory Roster
  imports Invitations
begin

text \<open>
  The vehicle roster, \<open>service/roster.go\<close> and \<open>service/roster_read.go\<close>: what a vehicle is and who
  owns it, reconciled against identity-api. A sweep is not one transaction, so the model keeps
  what every statement leaves behind when a later one fails. A value the column cannot hold (a
  year outside \<open>SMALLINT\<close>) is one of the errors a fault of the upsert stands for.
\<close>

subsection \<open>What identity-api answers\<close>

record roster_vehicle =
  rv_id :: token_id
  rv_owner :: string
  rv_definition :: string
  rv_make :: string
  rv_model :: string
  rv_year :: int
  rv_minted :: "time option"
  rv_synthetic :: "token_id option"
  rv_aftermarket :: "token_id option"

text \<open>\<open>gateway.IdentityAPI\<close>; \<open>None\<close> is an error of the call.\<close>

record identity_api =
  PrivilegedVehicles :: "string \<Rightarrow> roster_vehicle list option"
  VehicleDetail :: "token_id \<Rightarrow> roster_vehicle option"

text \<open>Asked for a token, the detail query answers about that token.\<close>

definition detail_law :: "identity_api \<Rightarrow> bool" where
  "detail_law A \<longleftrightarrow> (\<forall>i v. VehicleDetail A i = Some v \<longrightarrow> rv_id v = i)"

subsection \<open>One sweep\<close>

record owner_change =
  och_token :: token_id
  och_previous :: string
  och_new :: string

record reconcile_report =
  LicensesSwept :: nat
  LicensesFailed :: "string list"
  VehiclesSeen :: nat
  Inserted :: nat
  Updated :: nat
  OwnerChanges :: "owner_change list"
  MarkedUnseen :: nat
  FirstRun :: bool
  EntitledFilled :: nat

text \<open>A Go map from token id to vehicle: assignment replaces.\<close>

type_synonym by_token = "(token_id \<times> roster_vehicle) list"

definition put_at :: "token_id \<Rightarrow> roster_vehicle \<Rightarrow> by_token \<Rightarrow> by_token" where
  "put_at i v m = filter (\<lambda>p. fst p \<noteq> i) m @ [(i, v)]"

definition licenceClientIDs :: "db \<Rightarrow> string list" where
  "licenceClientIDs s =
     sort (remdups (filter (\<lambda>c. c \<noteq> []) (List.map_filter c_client_id (credentials s))))"

fun sweep :: "identity_api \<Rightarrow> string list \<Rightarrow> by_token \<Rightarrow> by_token \<times> string list" where
  "sweep A [] m = (m, [])"
| "sweep A (c # cs) m =
     (case PrivilegedVehicles A c of
        None \<Rightarrow> let (m', failed) = sweep A cs m in (m', c # failed)
      | Some vs \<Rightarrow> sweep A cs (fold (\<lambda>v. put_at (rv_id v) v) vs m))"

fun fill :: "identity_api \<Rightarrow> token_id list \<Rightarrow> by_token \<Rightarrow> by_token \<times> nat" where
  "fill A [] m = (m, 0)"
| "fill A (i # is) m =
     (case VehicleDetail A i of
        None \<Rightarrow> fill A is m
      | Some v \<Rightarrow> let (m', n) = fill A is (put_at i v m) in (m', n + 1))"

definition fillEntitledGaps :: "identity_api \<Rightarrow> faults \<Rightarrow> db \<Rightarrow> by_token \<Rightarrow> svc_error + by_token \<times> nat" where
  "fillEntitledGaps A flt s m =
     (if flt 0 then Inl (DbError ''list entitled token ids'')
      else let entitled' = remdups (map e_token (filter (\<lambda>e. e_revoked e = None) (entitlements s)));
               missing = sort (filter (\<lambda>i. i \<notin> fst ` set m) entitled')
      in Inr (fill A missing m))"

definition currentOwners :: "db \<Rightarrow> token_id \<Rightarrow> string option" where
  "currentOwners s i = map_option (\<lambda>v. null_str (v_owner v)) (find (\<lambda>v. v_token v = i) (vehicles s))"

subsubsection \<open>Writing one vehicle\<close>

definition new_vehicle :: "time \<Rightarrow> roster_vehicle \<Rightarrow> vehicle_row" where
  "new_vehicle now v = \<lparr>v_token = rv_id v, v_owner = nullif (rv_owner v), v_definition = nullif (rv_definition v),
     v_make = nullif (rv_make v), v_model = nullif (rv_model v),
     v_year = (if rv_year v = 0 then None else Some (rv_year v)), v_minted = rv_minted v,
     v_vin = None, v_plate = None, v_synthetic = rv_synthetic v, v_aftermarket = rv_aftermarket v,
     v_first_seen = now, v_reconciled = now, v_unseen_since = None\<rparr>"

text \<open>\<open>ON CONFLICT (vehicle_token_id) DO UPDATE SET ..\<close>: filled forward, except the devices.\<close>

definition merge_vehicle :: "vehicle_row \<Rightarrow> vehicle_row \<Rightarrow> vehicle_row" where
  "merge_vehicle new old = old\<lparr>v_owner := coalesce (v_owner new) (v_owner old),
     v_definition := coalesce (v_definition new) (v_definition old),
     v_make := coalesce (v_make new) (v_make old), v_model := coalesce (v_model new) (v_model old),
     v_year := coalesce (v_year new) (v_year old), v_minted := coalesce (v_minted new) (v_minted old),
     v_synthetic := v_synthetic new, v_aftermarket := v_aftermarket new,
     v_reconciled := v_reconciled new, v_unseen_since := None\<rparr>"

definition put_vehicle :: "vehicle_row \<Rightarrow> vehicle_row list \<Rightarrow> vehicle_row list" where
  "put_vehicle new = upsert_row v_token new (merge_vehicle new)"

text \<open>The state after the upsert and its change-log insert, and the error, if any.\<close>

definition upsert_vehicle ::
  "faults \<Rightarrow> time \<Rightarrow> db \<Rightarrow> roster_vehicle \<Rightarrow> string option \<Rightarrow> db \<times> svc_error option" where
  "upsert_vehicle flt now s v prev =
     (if flt 0 then (s, Some (DbError ''upsert vehicle''))
      else let s1 = s\<lparr>vehicles := put_vehicle (new_vehicle now v) (vehicles s)\<rparr> in
      if rv_owner v = [] \<or> prev = Some (rv_owner v) then (s1, None)
      else if flt 1 then (s1, Some (DbError ''record owner change''))
      else (s1\<lparr>owner_changes := owner_changes s1 @
              [\<lparr>oc_token = rv_id v, oc_previous = prev, oc_new = rv_owner v, oc_observed = now\<rparr>]\<rparr>, None))"

definition tally :: "token_id \<Rightarrow> roster_vehicle \<Rightarrow> string option \<Rightarrow> reconcile_report \<Rightarrow> reconcile_report" where
  "tally i v prev rep =
     (case prev of
        None \<Rightarrow> rep\<lparr>Inserted := Inserted rep + 1\<rparr>
      | Some p \<Rightarrow>
          if p \<noteq> rv_owner v \<and> rv_owner v \<noteq> []
          then rep\<lparr>Updated := Updated rep + 1,
                   OwnerChanges := OwnerChanges rep @ [\<lparr>och_token = i, och_previous = p, och_new = rv_owner v\<rparr>]\<rparr>
          else rep\<lparr>Updated := Updated rep + 1\<rparr>)"

fun reconcile_loop ::
  "faults \<Rightarrow> time \<Rightarrow> bool \<Rightarrow> (token_id \<Rightarrow> string option) \<Rightarrow> nat \<Rightarrow> db \<Rightarrow> reconcile_report \<Rightarrow> by_token \<Rightarrow>
   db \<times> (svc_error + reconcile_report)" where
  "reconcile_loop flt now dry cur n s rep [] = (s, Inr rep)"
| "reconcile_loop flt now dry cur n s rep ((i, v) # rest) =
     (let rep' = tally i v (cur i) rep in
      if dry then reconcile_loop flt now dry cur n s rep' rest
      else case upsert_vehicle (\<lambda>k. flt (n + k)) now s v (cur i) of
        (s', Some e) \<Rightarrow> (s', Inl e)
      | (s', None) \<Rightarrow> reconcile_loop flt now dry cur (n + 2) s' rep' rest)"

definition unseen_now :: "token_id list \<Rightarrow> vehicle_row \<Rightarrow> bool" where
  "unseen_now seen v \<longleftrightarrow> v_unseen_since v = None \<and> v_token v \<notin> set seen"

definition markUnseen :: "faults \<Rightarrow> time \<Rightarrow> bool \<Rightarrow> db \<Rightarrow> token_id list \<Rightarrow> db \<times> (svc_error + nat)" where
  "markUnseen flt now dry s seen =
     (let n = affected (unseen_now seen) (vehicles s) in
      if dry then (s, if flt 0 then Inl (DbError ''count unseen'') else Inr n)
      else if flt 0 then (s, Inl (DbError ''mark unseen''))
      else (s\<lparr>vehicles := upd (unseen_now seen) (\<lambda>v. v\<lparr>v_unseen_since := Some now\<rparr>) (vehicles s)\<rparr>, Inr n))"

text \<open>What a sweep knows before it writes: the vehicles by token, and the report so far.\<close>

definition observe ::
  "identity_api \<Rightarrow> faults \<Rightarrow> db \<Rightarrow> svc_error + by_token \<times> reconcile_report" where
  "observe A flt s =
     (if flt 0 then Inl (DbError ''count roster'')
      else if flt 1 then Inl (DbError ''list licence client ids'')
      else let clientIDs = licenceClientIDs s; (m, failed) = sweep A clientIDs [] in
      case fillEntitledGaps A (\<lambda>n. flt (n + 2)) s m of
        Inl e \<Rightarrow> Inl e
      | Inr (m', filled) \<Rightarrow>
          if flt 3 then Inl (DbError ''read roster owners'')
          else Inr (sort_key fst m',
             \<lparr>LicensesSwept = length clientIDs, LicensesFailed = failed, VehiclesSeen = length m',
              Inserted = 0, Updated = 0, OwnerChanges = [], MarkedUnseen = 0,
              FirstRun = (vehicles s = []), EntitledFilled = filled\<rparr>))"

definition Reconcile ::
  "identity_api \<Rightarrow> faults \<Rightarrow> time \<Rightarrow> db \<Rightarrow> bool \<Rightarrow> db \<times> (svc_error + reconcile_report)" where
  "Reconcile A flt now s dryRun =
     (case observe A flt s of
        Inl e \<Rightarrow> (s, Inl e)
      | Inr (m, rep0) \<Rightarrow>
        (case reconcile_loop flt now dryRun (currentOwners s) 4 s rep0 m of
           (s1, Inl e) \<Rightarrow> (s1, Inl e)
         | (s1, Inr rep) \<Rightarrow>
           if LicensesFailed rep = []
           then (case markUnseen (\<lambda>n. flt (n + 4 + 2 * length m)) now dryRun s1 (map fst m) of
                   (s2, Inl e) \<Rightarrow> (s2, Inl e)
                 | (s2, Inr n) \<Rightarrow> (s2, Inr (rep\<lparr>MarkedUnseen := n\<rparr>)))
           else (s1, Inr rep)))"

subsection \<open>Reading it\<close>

record vehicle_metadata =
  vmd_token :: token_id
  vmd_owner :: string
  vmd_definition :: string
  vmd_make :: string
  vmd_model :: string
  vmd_year :: int
  vmd_minted :: "time option"
  vmd_vin :: string
  vmd_plate :: string
  vmd_synthetic :: "token_id option"
  vmd_aftermarket :: "token_id option"
  vmd_reconciled :: time
  vmd_unseen_since :: "time option"

definition checksumOwner :: "library \<Rightarrow> string \<Rightarrow> string" where
  "checksumOwner L owner = (if owner = [] \<or> \<not> IsHexAddress L owner then owner else HexAddr L owner)"

definition metadata_of :: "library \<Rightarrow> vehicle_row \<Rightarrow> vehicle_metadata" where
  "metadata_of L v = \<lparr>vmd_token = v_token v, vmd_owner = checksumOwner L (null_str (v_owner v)),
     vmd_definition = null_str (v_definition v), vmd_make = null_str (v_make v), vmd_model = null_str (v_model v),
     vmd_year = (case v_year v of None \<Rightarrow> 0 | Some y \<Rightarrow> y), vmd_minted = v_minted v,
     vmd_vin = null_str (v_vin v), vmd_plate = null_str (v_plate v),
     vmd_synthetic = v_synthetic v, vmd_aftermarket = v_aftermarket v,
     vmd_reconciled = v_reconciled v, vmd_unseen_since = v_unseen_since v\<rparr>"

definition Metadata :: "library \<Rightarrow> faults \<Rightarrow> db \<Rightarrow> token_id list \<Rightarrow> svc_error + vehicle_metadata list" where
  "Metadata L flt s tokenIDs =
     (if tokenIDs = [] then Inr []
      else if flt 0 then Inl (DbError ''read roster metadata'')
      else Inr (map (metadata_of L) (sort_key v_token (filter (\<lambda>v. v_token v \<in> set tokenIDs) (vehicles s)))))"

subsection \<open>What a sweep knows\<close>

text \<open>The vehicles of a sweep: one per token, each filed under its own token.\<close>

definition by_token_ok :: "by_token \<Rightarrow> bool" where
  "by_token_ok m \<longleftrightarrow> distinct (map fst m) \<and> (\<forall>p\<in>set m. rv_id (snd p) = fst p)"

lemma by_token_okD: "by_token_ok m \<Longrightarrow> (i, v) \<in> set m \<Longrightarrow> rv_id v = i"
  unfolding by_token_ok_def by force

lemma by_token_ok_Nil [simp]: "by_token_ok []"
  by (simp add: by_token_ok_def)

lemma by_token_ok_put [intro]: "by_token_ok m \<Longrightarrow> rv_id v = i \<Longrightarrow> by_token_ok (put_at i v m)"
  unfolding by_token_ok_def put_at_def by (auto simp: distinct_map_filter)

lemma by_token_ok_puts: "by_token_ok m \<Longrightarrow> by_token_ok (fold (\<lambda>v. put_at (rv_id v) v) vs m)"
  by (induction vs arbitrary: m) auto

lemma sweep_ok: "by_token_ok m \<Longrightarrow> by_token_ok (fst (sweep A cs m))"
  by (induction A cs m rule: sweep.induct) (auto simp: by_token_ok_puts split: option.splits prod.splits)

lemma fill_ok: "detail_law A \<Longrightarrow> by_token_ok m \<Longrightarrow> by_token_ok (fst (fill A is m))"
proof (induction A "is" m rule: fill.induct)
  case (2 A i "is" m)
  show ?case
  proof (cases "VehicleDetail A i")
    case (Some v)
    then have "rv_id v = i" using "2.prems"(1) by (simp add: detail_law_def)
    then have "by_token_ok (put_at i v m)" using "2.prems"(2) by blast
    with Some 2 show ?thesis by (auto split: prod.splits)
  qed (use 2 in simp)
qed simp

lemma observe_ok:
  assumes "detail_law A" and "observe A flt s = Inr (m, rep)"
  shows "by_token_ok m"
proof -
  obtain m1 failed where sw: "sweep A (licenceClientIDs s) [] = (m1, failed)" by fastforce
  then have ok1: "by_token_ok m1" using sweep_ok [of "[]" A "licenceClientIDs s"] by simp
  obtain "is" m2 n where "fill A is m1 = (m2, n)" and m: "m = sort_key fst m2"
    using assms(2) sw unfolding observe_def fillEntitledGaps_def Let_def
    by (auto split: if_splits prod.splits)
  then have "by_token_ok m2" using fill_ok [OF assms(1) ok1, of "is"] by simp
  then show ?thesis unfolding by_token_ok_def m
    by (simp add: distinct_map)
qed

lemma observe_report:
  "observe A flt s = Inr (m, rep) \<Longrightarrow>
     OwnerChanges rep = [] \<and> Inserted rep = 0 \<and> Updated rep = 0 \<and> MarkedUnseen rep = 0 \<and> VehiclesSeen rep = length m"
  unfolding observe_def Let_def by (auto split: if_splits prod.splits sum.splits)

text \<open>A sweep reads the licences, the entitlements and whether the roster is empty, and only those.\<close>

lemma observe_cong:
  assumes "credentials t = credentials s" and "entitlements t = entitlements s"
    and "observe A flt s = Inr (m, rep)"
  shows "observe A flt t = Inr (m, rep\<lparr>FirstRun := (vehicles t = [])\<rparr>)"
  using assms unfolding observe_def fillEntitledGaps_def licenceClientIDs_def Let_def
  by (auto split: if_splits prod.splits)

subsection \<open>What a sweep writes\<close>

definition vehicle_of :: "token_id \<Rightarrow> db \<Rightarrow> vehicle_row option" where
  "vehicle_of i s = find (\<lambda>v. v_token v = i) (vehicles s)"

lemma v_token_merge [simp]: "v_token (merge_vehicle new old) = v_token old"
  and v_token_new [simp]: "v_token (new_vehicle now v) = rv_id v"
  and unseen_merge [simp]: "v_unseen_since (merge_vehicle new old) = None"
  and unseen_new [simp]: "v_unseen_since (new_vehicle now v) = None"
  by (simp_all add: merge_vehicle_def new_vehicle_def)

lemma currentOwners_of: "currentOwners s i = map_option (\<lambda>v. null_str (v_owner v)) (vehicle_of i s)"
  by (simp add: currentOwners_def vehicle_of_def)

text \<open>The row a sweep leaves for a vehicle it saw, and the change it logs for it.\<close>

definition seen_row :: "time \<Rightarrow> roster_vehicle \<Rightarrow> vehicle_row option \<Rightarrow> vehicle_row" where
  "seen_row now v old =
     (case old of None \<Rightarrow> new_vehicle now v | Some r \<Rightarrow> merge_vehicle (new_vehicle now v) r)"

definition change_rows :: "time \<Rightarrow> (token_id \<Rightarrow> string option) \<Rightarrow> by_token \<Rightarrow> owner_change_row list" where
  "change_rows now cur m =
     map (\<lambda>(i, v). \<lparr>oc_token = rv_id v, oc_previous = cur i, oc_new = rv_owner v, oc_observed = now\<rparr>)
       (filter (\<lambda>(i, v). rv_owner v \<noteq> [] \<and> cur i \<noteq> Some (rv_owner v)) m)"

lemma find_put_vehicle:
  "find (\<lambda>r. v_token r = i) (put_vehicle (new_vehicle now v) rs) =
     (if i = rv_id v then Some (seen_row now v (find (\<lambda>r. v_token r = i) rs))
      else find (\<lambda>r. v_token r = i) rs)"
  unfolding put_vehicle_def seen_row_def
  by (subst find_upsert_row) auto

lemma unseen_put_vehicle:
  "rv_id v \<in> set seen \<Longrightarrow>
     filter (unseen_now seen) (put_vehicle (new_vehicle now v) rs) = filter (unseen_now seen) rs"
  unfolding put_vehicle_def upsert_row_def
  by (auto simp: unseen_now_def intro: filter_upd_other)

definition write_vehicle :: "time \<Rightarrow> (token_id \<Rightarrow> string option) \<Rightarrow> token_id \<times> roster_vehicle \<Rightarrow> db \<Rightarrow> db" where
  "write_vehicle now cur p s = s\<lparr>vehicles := put_vehicle (new_vehicle now (snd p)) (vehicles s),
     owner_changes := owner_changes s @ change_rows now cur [p]\<rparr>"

lemma upsert_vehicle_clean:
  "upsert_vehicle no_faults now s v (cur i) = (write_vehicle now cur (i, v) s, None)"
  by (cases s rule: db.cases) (simp add: upsert_vehicle_def write_vehicle_def change_rows_def Let_def)

lemma loop_clean:
  "reconcile_loop no_faults now False cur n s rep m =
     (fold (write_vehicle now cur) m s, Inr (fold (\<lambda>(i, v). tally i v (cur i)) m rep))"
  by (induction m arbitrary: n s rep) (auto simp: upsert_vehicle_clean Let_def)

lemma loop_dry:
  "reconcile_loop flt now True cur n s rep m = (s, Inr (fold (\<lambda>(i, v). tally i v (cur i)) m rep))"
  by (induction m arbitrary: n rep) (auto simp: Let_def)

lemma vehicles_writes:
  "vehicles (fold (write_vehicle now cur) m s) = fold (\<lambda>p. put_vehicle (new_vehicle now (snd p))) m (vehicles s)"
  by (induction m arbitrary: s) (simp_all add: write_vehicle_def)

lemma owner_changes_writes:
  "owner_changes (fold (write_vehicle now cur) m s) = owner_changes s @ change_rows now cur m"
  by (induction m arbitrary: s) (simp_all add: write_vehicle_def change_rows_def)

lemma frame_writes:
  "fold (write_vehicle now cur) m s =
     s\<lparr>vehicles := vehicles (fold (write_vehicle now cur) m s),
       owner_changes := owner_changes (fold (write_vehicle now cur) m s)\<rparr>"
proof (induction m arbitrary: s)
  case (Cons p m)
  show ?case
    apply (simp only: fold_simps)
    apply (subst Cons.IH)
    apply (simp add: write_vehicle_def)
    done
qed simp

lemma find_writes:
  assumes "by_token_ok m"
  shows "find (\<lambda>r. v_token r = i) (fold (\<lambda>p. put_vehicle (new_vehicle now (snd p))) m rs) =
     (case map_of m i of
        None \<Rightarrow> find (\<lambda>r. v_token r = i) rs
      | Some v \<Rightarrow> Some (seen_row now v (find (\<lambda>r. v_token r = i) rs)))"
  using assms
proof (induction m arbitrary: rs)
  case (Cons p m)
  obtain j v where p: "p = (j, v)" by fastforce
  have ok: "by_token_ok m" "rv_id v = j" "j \<notin> fst ` set m"
    using Cons.prems by (auto simp: by_token_ok_def p)
  then have "map_of m j = None" by (simp add: map_of_eq_None_iff)
  with ok show ?case by (auto simp: p Cons.IH find_put_vehicle split: option.splits)
qed simp

lemma unseen_writes:
  "\<forall>p\<in>set m. rv_id (snd p) \<in> set seen \<Longrightarrow>
     filter (unseen_now seen) (fold (\<lambda>p. put_vehicle (new_vehicle now (snd p))) m rs) = filter (unseen_now seen) rs"
  by (induction m arbitrary: rs) (simp_all add: unseen_put_vehicle)

lemma failed_tally [simp]: "LicensesFailed (fold (\<lambda>(i, v). tally i v (cur i)) m rep) = LicensesFailed rep"
  by (induction m arbitrary: rep) (auto simp: tally_def split: option.splits)

lemma seen_tally [simp]: "VehiclesSeen (fold (\<lambda>(i, v). tally i v (cur i)) m rep) = VehiclesSeen rep"
  by (induction m arbitrary: rep) (auto simp: tally_def split: option.splits)

text \<open>A clean sweep in one piece.\<close>

lemma Reconcile_clean:
  assumes "observe A no_faults s = Inr (m, rep0)"
    and "rep = fold (\<lambda>(i, v). tally i v (currentOwners s i)) m rep0"
    and "s1 = fold (write_vehicle now (currentOwners s)) m s"
  shows "Reconcile A no_faults now s False =
     (if LicensesFailed rep0 = []
      then (s1\<lparr>vehicles := upd (unseen_now (map fst m)) (\<lambda>v. v\<lparr>v_unseen_since := Some now\<rparr>) (vehicles s1)\<rparr>,
            Inr (rep\<lparr>MarkedUnseen := affected (unseen_now (map fst m)) (vehicles s1)\<rparr>))
      else (s1, Inr rep))"
  unfolding Reconcile_def using assms by (simp add: loop_clean markUnseen_def Let_def)

subsection \<open>A small chain\<close>

definition demo_vehicle :: "token_id \<Rightarrow> string \<Rightarrow> roster_vehicle" where
  "demo_vehicle i own = \<lparr>rv_id = i, rv_owner = own, rv_definition = ''d'', rv_make = ''Ford'', rv_model = ''Transit'',
     rv_year = 2020, rv_minted = Some 1, rv_synthetic = None, rv_aftermarket = None\<rparr>"

definition demo_chain :: identity_api where
  "demo_chain = \<lparr>PrivilegedVehicles = (\<lambda>c. Some [demo_vehicle 3 ''0xn'']),
     VehicleDetail = (\<lambda>i. Some (demo_vehicle i ''0xe''))\<rparr>"

definition demo_outage :: identity_api where
  "demo_outage = demo_chain\<lparr>PrivilegedVehicles := (\<lambda>c. None)\<rparr>"

definition demo_roster :: db where
  "demo_roster = demo_db\<lparr>vehicles := [new_vehicle 1 (demo_vehicle 3 ''0xo''), new_vehicle 1 (demo_vehicle 9 ''0xz'')]\<rparr>"

lemma demo_detail_law: "detail_law demo_chain"
  by (simp add: detail_law_def demo_chain_def demo_vehicle_def)

lemma demo_licences: "licenceClientIDs demo_roster = [''0xLIC'']"
  by (simp add: licenceClientIDs_def demo_roster_def demo_defs map_filter_def)

lemma demo_observe:
  "observe demo_chain no_faults demo_roster =
     Inr ([(3, demo_vehicle 3 ''0xn''), (7, demo_vehicle 7 ''0xe'')],
       \<lparr>LicensesSwept = 1, LicensesFailed = [], VehiclesSeen = 2, Inserted = 0, Updated = 0, OwnerChanges = [],
        MarkedUnseen = 0, FirstRun = False, EntitledFilled = 1\<rparr>)"
proof -
  have e: "entitlements demo_roster = entitlements demo_db" by (simp add: demo_roster_def)
  have v: "vehicles demo_roster \<noteq> []" by (simp add: demo_roster_def)
  show ?thesis
    by (simp add: observe_def demo_licences fillEntitledGaps_def e v put_at_def demo_chain_def)
       (simp add: demo_defs demo_vehicle_def put_at_def)
qed

subsection \<open>Properties\<close>

text \<open>
  A dry run writes nothing, under any fault plan, and reports exactly what the real run that
  follows reports: inserts, updates, owner changes, and the number of vehicles marked unseen.
\<close>

theorem Reconcile_dry_run:
  assumes "detail_law A"
  shows "fst (Reconcile A flt now s True) = s \<and>
    snd (Reconcile A no_faults now s True) = snd (Reconcile A no_faults now s False)"
proof
  show "fst (Reconcile A flt now s True) = s"
    unfolding Reconcile_def by (auto simp: loop_dry markUnseen_def Let_def split: sum.splits prod.splits)
  show "snd (Reconcile A no_faults now s True) = snd (Reconcile A no_faults now s False)"
  proof (cases "observe A no_faults s")
    case (Inl e)
    then show ?thesis by (simp add: Reconcile_def)
  next
    case (Inr p)
    then obtain m rep where o: "observe A no_faults s = Inr (m, rep)" by (cases p) simp
    then have "\<forall>q\<in>set m. rv_id (snd q) \<in> set (map fst m)"
      using observe_ok [OF assms] by (auto simp: by_token_ok_def)
    then show ?thesis
      by (simp add: Reconcile_clean [OF o refl refl])
         (simp add: Reconcile_def o loop_dry markUnseen_def Let_def affected_def vehicles_writes unseen_writes)
  qed
qed

lemma Reconcile_dry_run_witness:
  "fst (Reconcile demo_chain no_faults 5 demo_roster True) = demo_roster \<and>
   snd (Reconcile demo_chain no_faults 5 demo_roster True) = snd (Reconcile demo_chain no_faults 5 demo_roster False)"
  using Reconcile_dry_run [OF demo_detail_law] by blast

text \<open>What a sweep leaves in the roster for one token.\<close>

definition swept_row :: "time \<Rightarrow> by_token \<Rightarrow> bool \<Rightarrow> token_id \<Rightarrow> vehicle_row option \<Rightarrow> vehicle_row option" where
  "swept_row now m complete i old =
     (case map_of m i of
        Some v \<Rightarrow> Some (seen_row now v old)
      | None \<Rightarrow> map_option (\<lambda>r. if complete \<and> v_unseen_since r = None then r\<lparr>v_unseen_since := Some now\<rparr> else r) old)"

lemma find_mark_unseen:
  "find (\<lambda>r. v_token r = i) (upd (unseen_now seen) (\<lambda>v. v\<lparr>v_unseen_since := t\<rparr>) rs) =
     map_option (\<lambda>r. if unseen_now seen r then r\<lparr>v_unseen_since := t\<rparr> else r) (find (\<lambda>r. v_token r = i) rs)"
  by (induction rs) auto

lemma find_row_token: "find (\<lambda>r. v_token r = i) rs = Some r \<Longrightarrow> v_token r = i"
  using find_SomeD by fastforce

lemma swept_unseen:
  assumes "by_token_ok m" and "find (\<lambda>r. v_token r = i) rs = old"
  shows "map_option (\<lambda>r. if unseen_now (map fst m) r then r\<lparr>v_unseen_since := Some now\<rparr> else r)
       (case map_of m i of None \<Rightarrow> old | Some v \<Rightarrow> Some (seen_row now v old)) = swept_row now m True i old"
proof (cases "map_of m i")
  case None
  then have "i \<notin> fst ` set m" by (simp add: map_of_eq_None_iff)
  with None assms(2) find_row_token [of i rs] show ?thesis
    by (cases old) (auto simp: swept_row_def unseen_now_def)
next
  case (Some v)
  then have "(i, v) \<in> set m" by (rule map_of_SomeD)
  then have "i \<in> fst ` set m" and "rv_id v = i" using by_token_okD [OF assms(1)] by force+
  with Some assms(2) find_row_token [of i rs] show ?thesis
    by (cases old) (auto simp: swept_row_def seen_row_def unseen_now_def)
qed

lemma Reconcile_rows:
  assumes "detail_law A" and "observe A no_faults s = Inr (m, rep0)"
  shows "vehicle_of i (fst (Reconcile A no_faults now s False)) =
      swept_row now m (LicensesFailed rep0 = []) i (vehicle_of i s)"
proof -
  note ok = observe_ok [OF assms]
  note clean = Reconcile_clean [OF assms(2) refl refl, of now]
  show ?thesis
  proof (cases "LicensesFailed rep0 = []")
    case True
    then show ?thesis
      by (simp add: clean vehicle_of_def vehicles_writes find_mark_unseen find_writes [OF ok] swept_unseen [OF ok refl])
  next
    case False
    then show ?thesis
      by (simp add: clean vehicle_of_def vehicles_writes find_writes [OF ok])
         (simp add: swept_row_def option.map_ident split: option.splits)
  qed
qed

lemma Reconcile_log:
  assumes "observe A no_faults s = Inr (m, rep0)"
  shows "owner_changes (fst (Reconcile A no_faults now s False)) =
      owner_changes s @ change_rows now (currentOwners s) m"
  by (simp add: Reconcile_clean [OF assms refl refl, of now] owner_changes_writes)

text \<open>
  What the chain says of a token, by the answers of identity-api alone: the last vehicle with that
  token in the lists of the licences, taken in order of their client ids, skipping the ones that
  did not answer; or, when none lists it and somebody is entitled to it, what the detail query says.
\<close>

definition listed :: "identity_api \<Rightarrow> string list \<Rightarrow> token_id \<Rightarrow> roster_vehicle list" where
  "listed A cs i = filter (\<lambda>v. rv_id v = i) (concat (List.map_filter (PrivilegedVehicles A) cs))"

definition chain_says :: "identity_api \<Rightarrow> db \<Rightarrow> token_id \<Rightarrow> roster_vehicle option" where
  "chain_says A s i =
     (let vs = listed A (licenceClientIDs s) i in
      if vs \<noteq> [] then Some (last vs)
      else if \<exists>e\<in>set (entitlements s). e_token e = i \<and> e_revoked e = None then VehicleDetail A i
      else None)"

text \<open>The row of a vehicle that was seen, field by field.\<close>

definition row_tells :: "time \<Rightarrow> roster_vehicle \<Rightarrow> vehicle_row option \<Rightarrow> vehicle_row \<Rightarrow> bool" where
  "row_tells now v old r \<longleftrightarrow>
     v_token r = rv_id v \<and>
     v_owner r = (if rv_owner v = [] then Option.bind old v_owner else Some (rv_owner v)) \<and>
     v_definition r = (if rv_definition v = [] then Option.bind old v_definition else Some (rv_definition v)) \<and>
     v_make r = (if rv_make v = [] then Option.bind old v_make else Some (rv_make v)) \<and>
     v_model r = (if rv_model v = [] then Option.bind old v_model else Some (rv_model v)) \<and>
     v_year r = (if rv_year v = 0 then Option.bind old v_year else Some (rv_year v)) \<and>
     v_minted r = (if rv_minted v = None then Option.bind old v_minted else rv_minted v) \<and>
     v_vin r = Option.bind old v_vin \<and> v_plate r = Option.bind old v_plate \<and>
     v_synthetic r = rv_synthetic v \<and> v_aftermarket r = rv_aftermarket v \<and>
     v_first_seen r = (case old of None \<Rightarrow> now | Some r0 \<Rightarrow> v_first_seen r0) \<and>
     v_reconciled r = now \<and> v_unseen_since r = None"

lemma seen_row_tells:
  assumes "\<And>r. old = Some r \<Longrightarrow> v_token r = rv_id v"
  shows "row_tells now v old (seen_row now v old)"
  using assms
  by (cases old) (auto simp: row_tells_def seen_row_def new_vehicle_def merge_vehicle_def nullif_def)

lemma map_of_put_at: "map_of (put_at j v m) i = (if i = j then Some v else map_of m i)"
proof -
  have "map_of (filter (\<lambda>p. fst p \<noteq> j) m) i = (if i = j then None else map_of m i)" by (induction m) auto
  then show ?thesis by (simp add: put_at_def map_add_def split: option.split)
qed

lemma map_of_puts:
  "map_of (fold (\<lambda>v. put_at (rv_id v) v) vs m) i =
     (let l = filter (\<lambda>v. rv_id v = i) vs in if l = [] then map_of m i else Some (last l))"
  by (induction vs arbitrary: m) (auto simp: map_of_put_at Let_def)

lemma map_of_sweep:
  "map_of (fst (sweep A cs m)) i = (if listed A cs i = [] then map_of m i else Some (last (listed A cs i)))"
  by (induction A cs m rule: sweep.induct)
    (auto simp: listed_def map_of_puts map_filter_simps Let_def split: option.splits prod.splits)

lemma sweep_failed: "snd (sweep A cs m) = filter (\<lambda>c. PrivilegedVehicles A c = None) cs"
  by (induction A cs m rule: sweep.induct) (auto simp: Let_def split: option.splits prod.splits)

lemma map_of_fill:
  "map_of (fst (fill A is m)) i =
     (if i \<in> set is then (case VehicleDetail A i of None \<Rightarrow> map_of m i | Some v \<Rightarrow> Some v) else map_of m i)"
  by (induction A "is" m rule: fill.induct) (auto simp: map_of_put_at Let_def split: option.splits prod.splits)

lemma map_of_sort_key: "distinct (map fst m) \<Longrightarrow> map_of (sort_key f m) i = map_of m i"
  by (rule fun_cong [OF map_of_inject_set [THEN iffD2]]) (simp_all add: distinct_map)

text \<open>A sweep without faults knows what the chain says, and which licences did not answer.\<close>

lemma observe_says:
  assumes "detail_law A" and "observe A no_faults s = Inr (m, rep)"
  shows "map_of m i = chain_says A s i" and "sorted (map fst m)"
    and "LicensesFailed rep = filter (\<lambda>c. PrivilegedVehicles A c = None) (licenceClientIDs s)"
proof -
  let ?cs = "licenceClientIDs s"
  define m1 where "m1 = fst (sweep A ?cs [])"
  define miss where "miss = sort (filter (\<lambda>i. i \<notin> fst ` set m1) (remdups (map e_token (filter (\<lambda>e. e_revoked e = None) (entitlements s)))))"
  define m2 where "m2 = fst (fill A miss m1)"
  have m: "m = sort_key fst m2" and f: "LicensesFailed rep = snd (sweep A ?cs [])"
    using assms(2) unfolding observe_def fillEntitledGaps_def Let_def m1_def miss_def m2_def
    by (auto split: prod.splits)
  show "LicensesFailed rep = filter (\<lambda>c. PrivilegedVehicles A c = None) ?cs" by (simp add: f sweep_failed)
  show "sorted (map fst m)" by (simp add: m)
  have "by_token_ok m2" unfolding m2_def m1_def by (intro fill_ok [OF assms(1)] sweep_ok) simp
  then have "map_of m i = map_of m2 i" unfolding m by (intro map_of_sort_key) (simp add: by_token_ok_def)
  moreover have one: "map_of m1 i = (if listed A ?cs i = [] then None else Some (last (listed A ?cs i)))"
    by (simp add: m1_def map_of_sweep)
  moreover have "i \<in> set miss \<longleftrightarrow> listed A ?cs i = [] \<and> (\<exists>e\<in>set (entitlements s). e_token e = i \<and> e_revoked e = None)"
    using one by (auto simp: miss_def map_of_eq_None_iff [symmetric] split: if_splits)
  ultimately show "map_of m i = chain_says A s i"
    by (auto simp: m2_def map_of_fill chain_says_def Let_def split: option.splits)
qed

lemma observe_total: "\<exists>m rep. observe A no_faults s = Inr (m, rep)"
  by (auto simp: observe_def fillEntitledGaps_def Let_def split: prod.splits)

lemma change_rows_says:
  assumes "by_token_ok m" and "sorted (map fst m)"
  shows "sorted_wrt (<) (map oc_token (change_rows now cur m)) \<and>
    (\<forall>c. c \<in> set (change_rows now cur m) \<longleftrightarrow>
      (\<exists>i v. map_of m i = Some v \<and> rv_owner v \<noteq> [] \<and> cur i \<noteq> Some (rv_owner v) \<and>
         c = \<lparr>oc_token = i, oc_previous = cur i, oc_new = rv_owner v, oc_observed = now\<rparr>))"
proof -
  have d: "distinct (map fst m)" and t: "\<And>p. p \<in> set m \<Longrightarrow> rv_id (snd p) = fst p"
    using assms(1) by (auto simp: by_token_ok_def)
  have "map oc_token (change_rows now cur m) = map fst (filter (\<lambda>(i, v). rv_owner v \<noteq> [] \<and> cur i \<noteq> Some (rv_owner v)) m)"
    using t by (auto simp: change_rows_def)
  moreover have "sorted_wrt (<) (map fst m)" using assms(2) d by (simp add: strict_sorted_iff)
  then have "sorted_wrt (<) (map fst (filter Q m))" for Q by (induction m) auto
  moreover have at: "map_of m i = Some v \<longleftrightarrow> (i, v) \<in> set m" for i v
    using Some_eq_map_of_iff [OF d] by metis
  have "c \<in> set (change_rows now cur m) \<longleftrightarrow>
      (\<exists>i v. (i, v) \<in> set m \<and> rv_owner v \<noteq> [] \<and> cur i \<noteq> Some (rv_owner v) \<and>
         c = \<lparr>oc_token = rv_id v, oc_previous = cur i, oc_new = rv_owner v, oc_observed = now\<rparr>)" for c
    unfolding change_rows_def by auto
  moreover have "rv_id v = i" if "(i, v) \<in> set m" for i v using t [OF that] by simp
  ultimately show ?thesis unfolding at by (simp cong: conj_cong)
qed

text \<open>
  C37. A sweep that meets no fault brings the roster in line with what the chain says, exactly. The
  row of a vehicle it saw has the chain's owner, definition, make, model, year and mint date
  wherever the chain names one and its former ones elsewhere, the chain's devices whether or not it
  names any, its former VIN, plate and date of first sight, the time of the sweep, and no unseen
  mark. A vehicle it did not see keeps its row, and is marked unseen only when every licence
  answered and it was not marked before. The change log gains, in the order of the tokens, exactly
  one row per named owner that differs from the roster's, a first observation included.
\<close>

theorem Reconcile_exact:
  assumes "detail_law A"
  shows "(case chain_says A s i of
      Some v \<Rightarrow> (\<exists>r. vehicle_of i (fst (Reconcile A no_faults now s False)) = Some r \<and> row_tells now v (vehicle_of i s) r)
    | None \<Rightarrow> vehicle_of i (fst (Reconcile A no_faults now s False)) =
        map_option (\<lambda>r. if v_unseen_since r = None \<and> (\<forall>c\<in>set (licenceClientIDs s). PrivilegedVehicles A c \<noteq> None)
          then r\<lparr>v_unseen_since := Some now\<rparr> else r) (vehicle_of i s)) \<and>
    (\<exists>cs. owner_changes (fst (Reconcile A no_faults now s False)) = owner_changes s @ cs \<and>
      sorted_wrt (<) (map oc_token cs) \<and>
      (\<forall>c. c \<in> set cs \<longleftrightarrow> (\<exists>j v. chain_says A s j = Some v \<and> rv_owner v \<noteq> [] \<and>
         map_option (\<lambda>r. null_str (v_owner r)) (vehicle_of j s) \<noteq> Some (rv_owner v) \<and>
         c = \<lparr>oc_token = j, oc_previous = map_option (\<lambda>r. null_str (v_owner r)) (vehicle_of j s),
              oc_new = rv_owner v, oc_observed = now\<rparr>)))"
proof
  obtain m rep0 where o: "observe A no_faults s = Inr (m, rep0)" using observe_total by blast
  note says = observe_says [OF assms o]
  have ok: "by_token_ok m" by (rule observe_ok [OF assms o])
  have row: "vehicle_of i (fst (Reconcile A no_faults now s False)) =
      swept_row now m (\<forall>c\<in>set (licenceClientIDs s). PrivilegedVehicles A c \<noteq> None) i (vehicle_of i s)"
    unfolding Reconcile_rows [OF assms o] says(3) by (simp add: filter_empty_conv)
  show "case chain_says A s i of
      Some v \<Rightarrow> (\<exists>r. vehicle_of i (fst (Reconcile A no_faults now s False)) = Some r \<and> row_tells now v (vehicle_of i s) r)
    | None \<Rightarrow> vehicle_of i (fst (Reconcile A no_faults now s False)) =
        map_option (\<lambda>r. if v_unseen_since r = None \<and> (\<forall>c\<in>set (licenceClientIDs s). PrivilegedVehicles A c \<noteq> None)
          then r\<lparr>v_unseen_since := Some now\<rparr> else r) (vehicle_of i s)"
  proof (cases "chain_says A s i")
    case None
    then show ?thesis by (simp add: row swept_row_def says(1) conj_commute)
  next
    case (Some v)
    then have "(i, v) \<in> set m" using says(1) map_of_SomeD by metis
    then have "rv_id v = i" by (rule by_token_okD [OF ok])
    then have "row_tells now v (vehicle_of i s) (seen_row now v (vehicle_of i s))"
      by (intro seen_row_tells) (auto simp: vehicle_of_def dest: find_row_token)
    with Some show ?thesis by (simp add: row swept_row_def says(1))
  qed
  show "\<exists>cs. owner_changes (fst (Reconcile A no_faults now s False)) = owner_changes s @ cs \<and>
      sorted_wrt (<) (map oc_token cs) \<and>
      (\<forall>c. c \<in> set cs \<longleftrightarrow> (\<exists>j v. chain_says A s j = Some v \<and> rv_owner v \<noteq> [] \<and>
         map_option (\<lambda>r. null_str (v_owner r)) (vehicle_of j s) \<noteq> Some (rv_owner v) \<and>
         c = \<lparr>oc_token = j, oc_previous = map_option (\<lambda>r. null_str (v_owner r)) (vehicle_of j s),
              oc_new = rv_owner v, oc_observed = now\<rparr>))"
    using change_rows_says [OF ok says(2), of now "currentOwners s"] Reconcile_log [OF o, of now]
    unfolding says(1) currentOwners_of by (intro exI conjI) auto
qed

lemma Reconcile_exact_witness:
  "\<exists>r. vehicle_of 3 (fst (Reconcile demo_chain no_faults 5 demo_roster False)) = Some r \<and>
     v_owner r = Some ''0xn'' \<and> v_first_seen r = 1 \<and> v_reconciled r = 5 \<and> v_unseen_since r = None"
proof -
  have says: "chain_says demo_chain demo_roster 3 = Some (demo_vehicle 3 ''0xn'')"
    using observe_says(1) [OF demo_detail_law demo_observe, of 3] by simp
  have old: "\<exists>r. vehicle_of 3 demo_roster = Some r \<and> v_first_seen r = 1"
    by (simp add: vehicle_of_def demo_roster_def demo_vehicle_def new_vehicle_def)
  show ?thesis
    using Reconcile_exact [OF demo_detail_law, where s = demo_roster and i = 3 and now = 5, THEN conjunct1] says old
    by (auto simp: row_tells_def demo_vehicle_def)
qed

subsubsection \<open>A second sweep of an unchanged chain\<close>

text \<open>The roster agrees with a sweep when every vehicle seen is known with the owner the sweep names.\<close>

definition settled :: "(token_id \<Rightarrow> string option) \<Rightarrow> by_token \<Rightarrow> bool" where
  "settled cur m \<longleftrightarrow> (\<forall>(i, v)\<in>set m. \<exists>p. cur i = Some p \<and> (rv_owner v = [] \<or> p = rv_owner v))"

lemma settled_change_rows: "settled cur m \<Longrightarrow> change_rows now cur m = []"
  unfolding change_rows_def settled_def by (fastforce simp: filter_empty_conv)

lemma settled_tally:
  "settled cur m \<Longrightarrow> fold (\<lambda>(i, v). tally i v (cur i)) m rep = rep\<lparr>Updated := Updated rep + length m\<rparr>"
proof (induction m arbitrary: rep)
  case (Cons p m)
  then have "tally (fst p) (snd p) (cur (fst p)) rep = rep\<lparr>Updated := Updated rep + 1\<rparr>"
    by (auto simp: settled_def tally_def split: option.splits)
  with Cons show ?case by (simp add: settled_def case_prod_beta')
qed simp

lemma seen_row_owner: "rv_owner v \<noteq> [] \<Longrightarrow> v_owner (seen_row now v old) = Some (rv_owner v)"
  by (simp add: seen_row_def new_vehicle_def merge_vehicle_def split: option.splits)

lemma Reconcile_frame:
  assumes "observe A no_faults s = Inr (m, rep0)"
  shows "credentials (fst (Reconcile A no_faults now s False)) = credentials s \<and>
    entitlements (fst (Reconcile A no_faults now s False)) = entitlements s"
proof -
  have "credentials (fold (write_vehicle now (currentOwners s)) m s) = credentials s \<and>
      entitlements (fold (write_vehicle now (currentOwners s)) m s) = entitlements s"
    by (subst (1 2) frame_writes) simp
  then show ?thesis by (simp add: Reconcile_clean [OF assms refl refl])
qed

lemma Reconcile_settles:
  assumes "detail_law A" and o: "observe A no_faults s = Inr (m, rep0)"
  shows "settled (currentOwners (fst (Reconcile A no_faults now s False))) m"
proof -
  have "currentOwners (fst (Reconcile A no_faults now s False)) i =
      Some (null_str (v_owner (seen_row now v (vehicle_of i s))))" if "(i, v) \<in> set m" for i v
  proof -
    have "map_of m i = Some v" using that observe_ok [OF assms] by (simp add: by_token_ok_def)
    then show ?thesis
      by (simp add: currentOwners_of Reconcile_rows [OF assms] swept_row_def)
  qed
  then show ?thesis unfolding settled_def null_str_def
    using seen_row_owner [of _ now "vehicle_of _ s"] by fastforce
qed

lemma Reconcile_marks_all:
  assumes "observe A no_faults s = Inr (m, rep0)" and "LicensesFailed rep0 = []"
  shows "filter (unseen_now (map fst m)) (vehicles (fst (Reconcile A no_faults now s False))) = []"
  by (simp add: Reconcile_clean [OF assms(1) refl refl] assms(2) filter_empty_conv ball_upd)
     (simp add: unseen_now_def)

text \<open>
  Reconciling again, with the chain unchanged and no fault, finds every vehicle known with its
  owner: it inserts nothing, reports no owner change, adds nothing to the change log and marks
  no further vehicle unseen.
\<close>

theorem Reconcile_idempotent:
  assumes law: "detail_law A" and run: "Reconcile A no_faults now s False = (s1, Inr rep1)"
  shows "\<exists>s2 rep2. Reconcile A no_faults later s1 False = (s2, Inr rep2) \<and>
     Inserted rep2 = 0 \<and> OwnerChanges rep2 = [] \<and> MarkedUnseen rep2 = 0 \<and>
     Updated rep2 = VehiclesSeen rep1 \<and> owner_changes s2 = owner_changes s1"
proof -
  obtain m rep0 where o: "observe A no_faults s = Inr (m, rep0)"
    using run unfolding Reconcile_def by (auto split: sum.splits)
  have s1: "s1 = fst (Reconcile A no_faults now s False)" by (simp add: run)
  define rep where "rep = rep0\<lparr>FirstRun := (vehicles s1 = [])\<rparr>"
  have o1: "observe A no_faults s1 = Inr (m, rep)"
    unfolding rep_def s1 using Reconcile_frame [OF o] by (intro observe_cong [OF _ _ o]) simp_all
  have st: "settled (currentOwners s1) m" unfolding s1 by (rule Reconcile_settles [OF law o])
  have seen: "VehiclesSeen rep1 = length m"
    using Reconcile_clean [OF o refl refl, of now] observe_report [OF o] run by (auto split: if_splits)
  note clean = Reconcile_clean [OF o1 refl refl, of later]
  have unmarked: "LicensesFailed rep = [] \<Longrightarrow> affected (unseen_now (map fst m))
      (vehicles (fold (write_vehicle later (currentOwners s1)) m s1)) = 0"
    unfolding affected_def vehicles_writes
    by (subst unseen_writes)
       (use observe_ok [OF law o] Reconcile_marks_all [OF o] in \<open>simp_all add: s1 rep_def by_token_ok_def\<close>)
  show ?thesis
    using observe_report [OF o1] seen unmarked
    by (auto simp: clean settled_tally [OF st] owner_changes_writes settled_change_rows [OF st])
qed

lemma Reconcile_idempotent_witness:
  "\<exists>s1 rep1 s2 rep2. Reconcile demo_chain no_faults 5 demo_roster False = (s1, Inr rep1) \<and>
     Reconcile demo_chain no_faults 9 s1 False = (s2, Inr rep2) \<and>
     Inserted rep2 = 0 \<and> OwnerChanges rep2 = [] \<and> owner_changes s2 = owner_changes s1"
proof -
  obtain s1 rep1 where "Reconcile demo_chain no_faults 5 demo_roster False = (s1, Inr rep1)"
    using Reconcile_clean [OF demo_observe refl refl, of 5] by simp
  then show ?thesis using Reconcile_idempotent [OF demo_detail_law, of 5 demo_roster s1 rep1 9] by blast
qed

subsubsection \<open>A sweep that fails halfway\<close>

text \<open>
  What no sweep takes away, however it ends: a row, its token, its VIN and plate, when it was
  first seen, and the fact that an owner, definition or mint date is known.
\<close>

definition vehicle_kept :: "vehicle_row \<Rightarrow> vehicle_row \<Rightarrow> bool" where
  "vehicle_kept r r' \<longleftrightarrow> v_token r' = v_token r \<and> v_vin r' = v_vin r \<and> v_plate r' = v_plate r \<and>
     v_first_seen r' = v_first_seen r \<and> (v_owner r \<noteq> None \<longrightarrow> v_owner r' \<noteq> None) \<and>
     (v_definition r \<noteq> None \<longrightarrow> v_definition r' \<noteq> None) \<and> (v_minted r \<noteq> None \<longrightarrow> v_minted r' \<noteq> None)"

definition roster_grows :: "db \<Rightarrow> db \<Rightarrow> bool" where
  "roster_grows s s' \<longleftrightarrow> rows_rel vehicle_kept (vehicles s) (vehicles s') \<and>
     (\<exists>xs. owner_changes s' = owner_changes s @ xs) \<and>
     s' = s\<lparr>vehicles := vehicles s', owner_changes := owner_changes s'\<rparr>"

text \<open>A mark in the later state was already there.\<close>

definition no_new_marks :: "db \<Rightarrow> db \<Rightarrow> bool" where
  "no_new_marks s s' \<longleftrightarrow> (\<forall>r\<in>set (vehicles s'). v_unseen_since r \<noteq> None \<longrightarrow> r \<in> set (vehicles s))"

lemma vehicle_kept_refl: "vehicle_kept r r" and
  vehicle_kept_merge: "vehicle_kept r (merge_vehicle new r)" and
  vehicle_kept_mark: "vehicle_kept r (r\<lparr>v_unseen_since := t\<rparr>)"
  by (auto simp: vehicle_kept_def merge_vehicle_def coalesce_def split: option.splits)

lemma vehicle_kept_trans: "vehicle_kept x y \<Longrightarrow> vehicle_kept y z \<Longrightarrow> vehicle_kept x z"
  by (simp add: vehicle_kept_def)

lemma roster_grows_refl [simp]: "roster_grows s s" and no_new_marks_refl [simp]: "no_new_marks s s"
  by (simp_all add: roster_grows_def no_new_marks_def rows_rel_refl vehicle_kept_refl)

lemma roster_grows_trans:
  assumes "roster_grows s t" and "roster_grows t u"
  shows "roster_grows s u"
proof -
  have "rows_rel vehicle_kept (vehicles s) (vehicles u)"
    using assms rows_rel_trans vehicle_kept_trans unfolding roster_grows_def by meson
  moreover have "\<exists>xs. owner_changes u = owner_changes s @ xs"
    using assms unfolding roster_grows_def by (metis append.assoc)
  moreover have "u = s\<lparr>vehicles := vehicles u, owner_changes := owner_changes u\<rparr>"
  proof -
    obtain vs cs where t: "t = s\<lparr>vehicles := vs, owner_changes := cs\<rparr>" using assms(1) by (auto simp: roster_grows_def)
    have "u = t\<lparr>vehicles := vehicles u, owner_changes := owner_changes u\<rparr>" using assms(2) by (simp add: roster_grows_def)
    also have "\<dots> = s\<lparr>vehicles := vehicles u, owner_changes := owner_changes u\<rparr>" by (simp add: t)
    finally show ?thesis .
  qed
  ultimately show ?thesis by (simp add: roster_grows_def)
qed

lemma no_new_marks_trans: "no_new_marks s t \<Longrightarrow> no_new_marks t u \<Longrightarrow> no_new_marks s u"
  unfolding no_new_marks_def by blast

lemma put_vehicle_keeps:
  "rows_rel vehicle_kept rs (put_vehicle new rs)"
  "v_unseen_since new = None \<Longrightarrow> r \<in> set (put_vehicle new rs) \<Longrightarrow> v_unseen_since r \<noteq> None \<Longrightarrow> r \<in> set rs"
proof -
  show "rows_rel vehicle_kept rs (put_vehicle new rs)"
    unfolding put_vehicle_def upsert_row_def
    by (auto intro!: rows_rel_upd rows_rel_append vehicle_kept_refl vehicle_kept_merge)
  show "v_unseen_since new = None \<Longrightarrow> r \<in> set (put_vehicle new rs) \<Longrightarrow> v_unseen_since r \<noteq> None \<Longrightarrow> r \<in> set rs"
    unfolding put_vehicle_def by (auto simp: set_upsert_row)
qed

lemma upsert_vehicle_keeps:
  "roster_grows s (fst (upsert_vehicle flt now s v prev)) \<and> no_new_marks s (fst (upsert_vehicle flt now s v prev))"
proof -
  have "\<forall>r\<in>set (put_vehicle (new_vehicle now v) (vehicles s)). v_unseen_since r \<noteq> None \<longrightarrow> r \<in> set (vehicles s)"
    using put_vehicle_keeps(2) [of "new_vehicle now v"] by simp
  then show ?thesis
    unfolding upsert_vehicle_def Let_def roster_grows_def no_new_marks_def
    by (simp add: put_vehicle_keeps(1) rows_rel_refl vehicle_kept_refl)
qed

lemma loop_keeps:
  "reconcile_loop flt now dry cur n s rep m = (s', res) \<Longrightarrow> roster_grows s s' \<and> no_new_marks s s'"
proof (induction flt now dry cur n s rep m rule: reconcile_loop.induct)
  case (2 flt now dry cur n s rep i v rest)
  obtain t e where u: "upsert_vehicle (\<lambda>k. flt (n + k)) now s v (cur i) = (t, e)" by fastforce
  then have k: "roster_grows s t \<and> no_new_marks s t"
    using upsert_vehicle_keeps [of s "\<lambda>k. flt (n + k)" now v "cur i"] by simp
  show ?case
  proof (cases "dry \<or> e \<noteq> None")
    case True
    with 2 u k show ?thesis by (cases dry) (auto simp: Let_def)
  next
    case False
    then have "roster_grows t s' \<and> no_new_marks t s'" using 2 u by (simp add: Let_def)
    with k show ?thesis using roster_grows_trans no_new_marks_trans by blast
  qed
qed simp

lemma markUnseen_grows: "roster_grows s (fst (markUnseen flt now dry s seen))"
  unfolding markUnseen_def Let_def roster_grows_def
  by (simp add: rows_rel_refl rows_rel_upd vehicle_kept_refl vehicle_kept_mark)

lemma observe_failed:
  "observe A flt s = Inr (m, rep) \<Longrightarrow> LicensesFailed rep = snd (sweep A (licenceClientIDs s) [])"
  unfolding observe_def Let_def by (auto split: if_splits prod.splits sum.splits)

lemma loop_failed:
  "reconcile_loop flt now dry cur n s rep m = (s', Inr rep') \<Longrightarrow> LicensesFailed rep' = LicensesFailed rep"
  by (induction flt now dry cur n s rep m rule: reconcile_loop.induct)
     (auto simp: Let_def tally_def split: if_splits prod.splits option.splits)

text \<open>
  However a sweep ends, dry or not and with whatever statement failing, it deletes no vehicle,
  clears no VIN, plate, owner, definition, mint date or first-seen time, only appends to the
  change log, and touches no other table. When a licence did not answer, no vehicle becomes
  unseen: an outage is not recorded as a fleet change.
\<close>

theorem Reconcile_preserves:
  "roster_grows s (fst (Reconcile A flt now s dryRun)) \<and>
   (snd (sweep A (licenceClientIDs s) []) \<noteq> [] \<longrightarrow> no_new_marks s (fst (Reconcile A flt now s dryRun)))"
proof (cases "observe A flt s")
  case (Inr p)
  obtain m rep0 where o: "observe A flt s = Inr (m, rep0)" using Inr by (cases p) simp
  obtain s1 res where l: "reconcile_loop flt now dryRun (currentOwners s) 4 s rep0 m = (s1, res)" by fastforce
  note k = loop_keeps [OF l]
  show ?thesis
  proof (cases res)
    case (Inr rep)
    have f: "LicensesFailed rep = snd (sweep A (licenceClientIDs s) [])"
      using loop_failed l Inr observe_failed [OF o] by metis
    have "roster_grows s1 (fst (markUnseen (\<lambda>n. flt (n + 4 + 2 * length m)) now dryRun s1 (map fst m)))"
      by (rule markUnseen_grows)
    then show ?thesis using k f roster_grows_trans
      by (auto simp: Reconcile_def o l Inr split: prod.splits sum.splits)
  qed (simp add: Reconcile_def o l k)
qed (simp add: Reconcile_def)

lemma Reconcile_preserves_witness:
  "snd (sweep demo_outage (licenceClientIDs demo_roster) []) \<noteq> [] \<and>
   no_new_marks demo_roster (fst (Reconcile demo_outage no_faults 5 demo_roster False))"
proof -
  have "snd (sweep demo_outage (licenceClientIDs demo_roster) []) \<noteq> []"
    by (simp add: demo_licences demo_outage_def)
  then show ?thesis using Reconcile_preserves [of demo_roster demo_outage no_faults 5 False] by blast
qed

end
