(* ===== verification/Config.thy ===== *)
theory Config
  imports Access
begin

text \<open>
  What the service refuses to boot on (\<open>config/settings.go\<close>) and the two gates in front of every
  \<open>/v1\<close> route: the pre-shared key of a trusted application (\<open>app/trusted_caller.go\<close>) and the
  tenant of the developer licence it presents (\<open>app/api_auth.go\<close>). Only the settings that the
  modelled code reads are fields; a URL is the text \<open>URL.String\<close> renders.
\<close>

subsection \<open>Settings\<close>

record chain_settings =
  Environment :: string
  TenantSecretEncKey :: string
  DimoAuthURL :: string
  SacdAddress :: string
  SacdUploadURL :: string
  SyntheticNftAddress :: string
  VehicleNftAddress :: string
  RPCURL :: string
  BundlerURL :: string
  ChainID :: int
  TrustedCallerKeys :: string

definition IsLocal :: "chain_settings \<Rightarrow> bool" where
  "IsLocal cfg \<longleftrightarrow> Environment cfg = ''local''"

definition SharingConfigured :: "chain_settings \<Rightarrow> bool" where
  "SharingConfigured cfg \<longleftrightarrow> SacdAddress cfg \<noteq> [] \<and> SyntheticNftAddress cfg \<noteq> [] \<and> VehicleNftAddress cfg \<noteq> [] \<and>
     RPCURL cfg \<noteq> [] \<and> BundlerURL cfg \<noteq> [] \<and> ChainID cfg \<noteq> 0"

definition OwnerModeConfigured :: "chain_settings \<Rightarrow> bool" where
  "OwnerModeConfigured cfg = SharingConfigured cfg"

text \<open>The six sharing settings in the order the check lists them, each with whether it is set.\<close>

definition sharing_present :: "chain_settings \<Rightarrow> (string \<times> bool) list" where
  "sharing_present cfg = [(''SACD_ADDRESS'', SacdAddress cfg \<noteq> []), (''SYNTHETIC_NFT_ADDRESS'', SyntheticNftAddress cfg \<noteq> []),
     (''RPC_URL'', RPCURL cfg \<noteq> []), (''BUNDLER_URL'', BundlerURL cfg \<noteq> []),
     (''VEHICLE_NFT_ADDRESS'', VehicleNftAddress cfg \<noteq> []), (''CHAIN_ID'', ChainID cfg \<noteq> 0)]"

text \<open>The missing names are what the error reports.\<close>

definition validateSharing :: "chain_settings \<Rightarrow> string list option" where
  "validateSharing cfg =
     (let missing = map fst (filter (\<lambda>p. \<not> snd p) (sharing_present cfg)) in
      if list_ex snd (sharing_present cfg) \<and> missing \<noteq> [] then Some missing else None)"

subsubsection \<open>The trusted-caller keys\<close>

text \<open>\<open>strings.Split\<close> on one character, and \<open>strings.Cut\<close>.\<close>

fun split_on :: "char \<Rightarrow> string \<Rightarrow> string list" where
  "split_on c [] = [[]]"
| "split_on c (x # xs) =
     (if x = c then [] # split_on c xs
      else case split_on c xs of [] \<Rightarrow> [[x]] | p # ps \<Rightarrow> (x # p) # ps)"

definition cut :: "char \<Rightarrow> string \<Rightarrow> string \<times> string \<times> bool" where
  "cut c s = (takeWhile (\<lambda>x. x \<noteq> c) s, drop 1 (dropWhile (\<lambda>x. x \<noteq> c) s), c \<in> set s)"

definition MinTrustedCallerKeyLength :: nat where
  "MinTrustedCallerKeyLength = 32"

datatype key_error = NotNameKey string | KeyTooShort string nat | NameTwice string | KeyTwice string string

fun parse_entries :: "string list \<Rightarrow> (string \<times> string) list \<Rightarrow> key_error + (string \<times> string) list" where
  "parse_entries [] out = Inr out"
| "parse_entries (e # es) out =
     (let entry = TrimSpace e in
      if entry = [] then parse_entries es out
      else let (n, k, found) = cut (CHR '':'') entry; name = TrimSpace n; key = TrimSpace k in
      if \<not> found \<or> name = [] \<or> key = [] then Inl (NotNameKey entry)
      else if length key < MinTrustedCallerKeyLength then Inl (KeyTooShort name (length key))
      else if name \<in> fst ` set out then Inl (NameTwice name)
      else case find (\<lambda>p. snd p = key) out of
        Some p \<Rightarrow> Inl (KeyTwice (fst p) name)
      | None \<Rightarrow> parse_entries es (out @ [(name, key)]))"

definition ParsedTrustedCallerKeys :: "chain_settings \<Rightarrow> key_error + (string \<times> string) list" where
  "ParsedTrustedCallerKeys cfg =
     (let raw = TrimSpace (TrustedCallerKeys cfg) in
      if raw = [] then Inr [] else parse_entries (split_on (CHR '','') raw) [])"

datatype config_error = EmptyEncKey | SharingPartial "string list" | TrustedKeysInvalid key_error | TrustedKeysEmpty

definition Validate :: "chain_settings \<Rightarrow> config_error option" where
  "Validate cfg =
     (if TenantSecretEncKey cfg = [] \<and> \<not> IsLocal cfg then Some EmptyEncKey
      else if IsLocal cfg then None
      else case validateSharing cfg of
        Some missing \<Rightarrow> Some (SharingPartial missing)
      | None \<Rightarrow>
        (case ParsedTrustedCallerKeys cfg of
           Inl e \<Rightarrow> Some (TrustedKeysInvalid e)
         | Inr keys \<Rightarrow> if keys = [] then Some TrustedKeysEmpty else None))"

subsection \<open>The gates of \<open>/v1\<close>\<close>

text \<open>An HTTP refusal: the status code.\<close>

type_synonym http_error = nat

text \<open>
  Every candidate is compared and the loop does not stop at a match; the order of \<open>known\<close> is the
  iteration order of a Go map, so any.
\<close>

definition TrustedCallerGuard :: "(string \<times> string) list \<Rightarrow> string \<Rightarrow> http_error + string" where
  "TrustedCallerGuard known presented =
     (if presented = [] then Inl 401
      else let matched = fold (\<lambda>(name, key) m. if presented = key then name else m) known [] in
      if matched = [] then Inl 401 else Inr matched)"

definition caller_row :: "tenant_row \<Rightarrow> credential_row \<Rightarrow> string \<Rightarrow> caller_tenant" where
  "caller_row t c clientID = \<lparr>ct_tenant = t_id t, ct_name = t_name t, ct_kind = t_kind t, ct_status = t_status t,
     ct_client = clientID, ct_is_service = c_is_service c\<rparr>"

text \<open>\<open>Inr None\<close> is \<open>sql.ErrNoRows\<close>.\<close>

definition lookupCallerByClientID :: "faults \<Rightarrow> db \<Rightarrow> string \<Rightarrow> svc_error + caller_tenant option" where
  "lookupCallerByClientID flt s clientID =
     (if flt 0 then Inl (DbError ''tenant lookup'')
      else Inr (case List.map_filter (\<lambda>c. if map_option lower (c_client_id c) = Some (lower clientID)
                       then map_option (\<lambda>t. caller_row t c clientID) (tenant_by_id (c_tenant c) s) else None)
                  (credentials s) of
                [] \<Rightarrow> None | r # _ \<Rightarrow> Some r))"

text \<open>The verified token's \<open>ethereum_address\<close> claim, empty when it is absent or not text.\<close>

definition DeveloperLicenseTenantResolver :: "faults \<Rightarrow> db \<Rightarrow> string \<Rightarrow> http_error + caller_tenant" where
  "DeveloperLicenseTenantResolver flt s ethAddr =
     (if ethAddr = [] then Inl 401
      else case lookupCallerByClientID flt s ethAddr of
        Inl _ \<Rightarrow> Inl 500
      | Inr None \<Rightarrow> Inl 403
      | Inr (Some c) \<Rightarrow> Inr c)"

text \<open>
  The middleware chain of the \<open>/v1\<close> group: the key, the verified token (the claim it carries, or
  \<open>None\<close> when verification fails), the tenant.
\<close>

definition v1_gate ::
  "(string \<times> string) list \<Rightarrow> faults \<Rightarrow> db \<Rightarrow> string \<Rightarrow> string option \<Rightarrow> http_error + caller_tenant" where
  "v1_gate known flt s presented claim =
     (case TrustedCallerGuard known presented of
        Inl e \<Rightarrow> Inl e
      | Inr _ \<Rightarrow> (case claim of None \<Rightarrow> Inl 401 | Some a \<Rightarrow> DeveloperLicenseTenantResolver flt s a))"

subsection \<open>What parsing guarantees\<close>

definition keys_ok :: "(string \<times> string) list \<Rightarrow> bool" where
  "keys_ok ks \<longleftrightarrow> distinct (map fst ks) \<and> distinct (map snd ks) \<and>
     (\<forall>(name, key)\<in>set ks. name \<noteq> [] \<and> MinTrustedCallerKeyLength \<le> length key)"

lemma parse_entries_ok:
  "parse_entries es out = Inr ks \<Longrightarrow> keys_ok out \<Longrightarrow> keys_ok ks"
proof (induction es arbitrary: out)
  case (Cons e es)
  obtain n k found where c: "cut (CHR '':'') (TrimSpace e) = (n, k, found)" by (metis prod_cases3)
  show ?case
  proof (cases "TrimSpace e = []")
    case False
    note p = Cons.prems(1) [unfolded parse_entries.simps Let_def c split_conv, simplified False if_False]
    from p have ok: "TrimSpace n \<noteq> []" "MinTrustedCallerKeyLength \<le> length (TrimSpace k)"
        "TrimSpace n \<notin> fst ` set out" "find (\<lambda>p. snd p = TrimSpace k) out = None"
        and rest: "parse_entries es (out @ [(TrimSpace n, TrimSpace k)]) = Inr ks"
      by (simp_all split: if_splits option.splits)
    then have "TrimSpace k \<notin> snd ` set out" by (auto simp: find_None)
    with ok Cons.prems(2) have "keys_ok (out @ [(TrimSpace n, TrimSpace k)])" by (auto simp: keys_ok_def)
    with Cons.IH rest show ?thesis by blast
  qed (use Cons in \<open>simp add: Let_def\<close>)
qed simp

lemma ParsedTrustedCallerKeys_ok: "ParsedTrustedCallerKeys cfg = Inr ks \<Longrightarrow> keys_ok ks"
  unfolding ParsedTrustedCallerKeys_def Let_def
  using parse_entries_ok [of _ "[]" ks] by (force simp: keys_ok_def split: if_splits)

lemma guard_fold_other:
  "p \<notin> snd ` set known \<Longrightarrow> fold (\<lambda>(name, key) m. if p = key then name else m) known m0 = m0"
  by (induction known arbitrary: m0) auto

lemma guard_fold_hit:
  "(name, p) \<in> set known \<Longrightarrow> inj_on snd (set known) \<Longrightarrow>
     fold (\<lambda>(name, key) m. if p = key then name else m) known m0 = name"
proof (induction known arbitrary: m0)
  case (Cons q known)
  show ?case
  proof (cases "p \<in> snd ` set known")
    case True
    then obtain n' where n': "(n', p) \<in> set known" by auto
    with Cons.prems have "n' = name" by (metis Pair_inject inj_onD list.set_intros(2) snd_conv)
    with Cons n' show ?thesis by (auto simp: inj_on_def)
  next
    case False
    with Cons.prems show ?thesis by (force simp: guard_fold_other)
  qed
qed simp

lemma TrustedCallerGuard_iff:
  assumes "keys_ok keys" and "set known = set keys"
  shows "TrustedCallerGuard known p = Inr name \<longleftrightarrow> (name, p) \<in> set keys"
proof -
  have inj: "inj_on snd (set known)" using assms by (simp add: keys_ok_def distinct_map)
  have nn: "(n, k) \<in> set keys \<Longrightarrow> n \<noteq> [] \<and> k \<noteq> []" for n k
    using assms(1) by (auto simp: keys_ok_def MinTrustedCallerKeyLength_def)
  show ?thesis
  proof (cases "p \<in> snd ` set known")
    case True
    then obtain n where n: "(n, p) \<in> set known" by auto
    then have "TrustedCallerGuard known p = Inr n"
      using guard_fold_hit [OF n inj] nn assms(2) by (auto simp: TrustedCallerGuard_def)
    moreover have "(name, p) \<in> set keys \<longleftrightarrow> name = n"
      using n inj assms(2) by (metis Pair_inject inj_onD snd_conv)
    ultimately show ?thesis by auto
  next
    case False
    then show ?thesis using assms(2) guard_fold_other [OF False]
      by (force simp: TrustedCallerGuard_def)
  qed
qed

lemma validateSharing_None:
  "validateSharing cfg = None \<longleftrightarrow> SharingConfigured cfg \<or> (\<forall>p\<in>set (sharing_present cfg). \<not> snd p)"
  by (auto simp: validateSharing_def sharing_present_def SharingConfigured_def Let_def split: if_splits)

lemma lookupCallerByClientID_SomeD:
  "lookupCallerByClientID flt s a = Inr (Some c) \<Longrightarrow>
     \<exists>cr\<in>set (credentials s). map_option lower (c_client_id cr) = Some (lower a) \<and>
       ct_tenant c = c_tenant cr \<and> ct_is_service c = c_is_service cr \<and> tenant_by_id (c_tenant cr) s \<noteq> None"
proof -
  assume "lookupCallerByClientID flt s a = Inr (Some c)"
  then have "c \<in> set (List.map_filter (\<lambda>c. if map_option lower (c_client_id c) = Some (lower a)
        then map_option (\<lambda>t. caller_row t c a) (tenant_by_id (c_tenant c) s) else None) (credentials s))"
    unfolding lookupCallerByClientID_def by (auto split: if_splits list.splits)
  then obtain cr t where "cr \<in> set (credentials s)" "map_option lower (c_client_id cr) = Some (lower a)"
      and t: "tenant_by_id (c_tenant cr) s = Some t" "c = caller_row t cr a"
    by (fastforce simp: map_filter_def split: if_splits)
  with tenant_by_id_SomeD [OF t(1)] show ?thesis by (auto simp: caller_row_def)
qed

text \<open>
  Once the service has booted outside a developer's machine, tenant secrets are sealed under a
  non-empty passphrase and sharing is configured whole or not at all. A request passes the \<open>/v1\<close>
  gates only with one of the configured keys, at least 32 characters long and naming one
  application whatever order the keys are compared in, and with a verified licence; the caller it
  is then taken for is the tenant that holds that licence, with that credential's service flag.
\<close>

theorem v1_gate_sound:
  assumes "Validate cfg = None" and "\<not> IsLocal cfg"
    and "ParsedTrustedCallerKeys cfg = Inr keys" and "set known = set keys"
    and "v1_gate known flt s presented claim = Inr c"
  shows "TenantSecretEncKey cfg \<noteq> [] \<and> (SharingConfigured cfg \<or> (\<forall>p\<in>set (sharing_present cfg). \<not> snd p)) \<and>
    (\<exists>!name. (name, presented) \<in> set keys) \<and> MinTrustedCallerKeyLength \<le> length presented \<and>
    (\<exists>a. claim = Some a \<and> (\<exists>cr\<in>set (credentials s). map_option lower (c_client_id cr) = Some (lower a) \<and>
       ct_tenant c = c_tenant cr \<and> ct_is_service c = c_is_service cr))"
proof -
  have ok: "keys_ok keys" by (rule ParsedTrustedCallerKeys_ok [OF assms(3)])
  have boot: "TenantSecretEncKey cfg \<noteq> []" "validateSharing cfg = None"
    using assms(1,2) by (auto simp: Validate_def split: if_splits option.splits)
  from assms(5) obtain name a where g: "TrustedCallerGuard known presented = Inr name" and a: "claim = Some a"
      and l: "lookupCallerByClientID flt s a = Inr (Some c)"
    unfolding v1_gate_def DeveloperLicenseTenantResolver_def
    by (auto split: sum.splits option.splits if_splits)
  have n: "(name, presented) \<in> set keys" using TrustedCallerGuard_iff [OF ok assms(4)] g by simp
  have "\<exists>!name. (name, presented) \<in> set keys"
    using n TrustedCallerGuard_iff [OF ok assms(4), of presented] by (metis Inr_inject)
  moreover have "MinTrustedCallerKeyLength \<le> length presented" using n ok by (auto simp: keys_ok_def)
  ultimately show ?thesis
    using boot lookupCallerByClientID_SomeD [OF l] a by (auto simp: validateSharing_None)
qed

definition demo_settings_chain :: chain_settings where
  "demo_settings_chain = \<lparr>Environment = ''prod'', TenantSecretEncKey = ''pass'', DimoAuthURL = ''https://auth'',
     SacdAddress = ''0xsacd'', SacdUploadURL = ''https://up'', SyntheticNftAddress = ''0xsyn'',
     VehicleNftAddress = ''0xnft'', RPCURL = ''https://rpc'', BundlerURL = ''https://bundler'', ChainID = 137,
     TrustedCallerKeys = ''fleet:'' @ replicate 32 (CHR ''k'')\<rparr>"

lemma demo_keys: "ParsedTrustedCallerKeys demo_settings_chain = Inr [(''fleet'', replicate 32 (CHR ''k''))]"
  by code_simp

lemma v1_gate_sound_witness:
  "\<exists>c. v1_gate [(''fleet'', replicate 32 (CHR ''k''))] no_faults demo_db (replicate 32 (CHR ''k'')) (Some ''0xlic'') = Inr c \<and>
     (\<exists>cr\<in>set (credentials demo_db). ct_tenant c = c_tenant cr)"
proof -
  have v: "Validate demo_settings_chain = None" "\<not> IsLocal demo_settings_chain" by code_simp+
  obtain c where g: "v1_gate [(''fleet'', replicate 32 (CHR ''k''))] no_faults demo_db (replicate 32 (CHR ''k'')) (Some ''0xlic'') = Inr c"
    by (simp add: v1_gate_def TrustedCallerGuard_def DeveloperLicenseTenantResolver_def lookupCallerByClientID_def
        map_filter_def tenant_by_id_def demo_defs text_eval)
  from v1_gate_sound [OF v demo_keys refl g] g show ?thesis by blast
qed

end
