(* ===== verification/Minting.thy ===== *)
theory Minting
  imports Tenants Config
begin

text \<open>
  What is done with a tenant's keys: minting developer tokens from its effective credential
  (\<open>service/credentials.go\<close>, \<open>service/mint_retry.go\<close>), signing as it, giving it a signer
  (\<open>service/signer_provision.go\<close>) and configuring its account-abstraction wallet
  (\<open>service/aa_wallet.go\<close>). The minter cache is state of the process, not of the database.
\<close>

subsection \<open>Third-party code\<close>

text \<open>
  go-ethereum's \<open>crypto\<close>: a key is its 32 bytes, an address its canonical text, a hash and a
  signature their bytes.
\<close>

record eth =
  HexToECDSA :: "string \<Rightarrow> string option"
  PubkeyToAddress :: "string \<Rightarrow> string"
  SignHash :: "string \<Rightarrow> string \<Rightarrow> string option"  \<comment> \<open>hash, key\<close>
  Keccak256 :: "string \<Rightarrow> string"
  AddressBytes :: "string \<Rightarrow> string"
  BytesToAddress :: "string \<Rightarrow> string"

text \<open>A parsed key parses again from its own hex; a signature has 65 bytes, the last 0 or 1.\<close>

definition eth_laws :: "eth \<Rightarrow> bool" where
  "eth_laws E \<longleftrightarrow>
     (\<forall>h k. HexToECDSA E h = Some k \<longrightarrow> HexToECDSA E (hexEncode k) = Some k \<and> hexEncode k \<noteq> []) \<and>
     (\<forall>h k sig. SignHash E h k = Some sig \<longrightarrow> length sig = 65 \<and> (of_char (sig ! 64) :: nat) < 2)"

text \<open>The DIMO auth client, and what a minter is built from.\<close>

record jwt =
  jwt_raw :: string
  jwt_exp :: "time option"

record minter =
  mn_auth_url :: string
  mn_client :: string
  mn_redirect :: string
  mn_key :: string

text \<open>
  \<open>GetToken m n\<close> is what the \<open>n\<close>-th login challenge of one call gives: a token, or nothing when
  the challenge flaked.
\<close>

record dimo_auth =
  RedirectURIForClientID :: "string \<Rightarrow> string option"
  urlParse :: "string \<Rightarrow> string option"
  NewAuthService :: "minter \<Rightarrow> bool"
  GetToken :: "minter \<Rightarrow> nat \<Rightarrow> jwt option"

subsection \<open>Minting\<close>

definition mintAttempts :: nat where
  "mintAttempts = 3"

text \<open>The loop from one attempt on; the attempts reported through \<open>onRetry\<close> ride along.\<close>

function mint_from :: "(nat \<Rightarrow> jwt option) \<Rightarrow> nat \<Rightarrow> jwt option \<times> nat list" where
  "mint_from get attempt =
     (case get attempt of
        Some token \<Rightarrow> (Some token, [])
      | None \<Rightarrow>
        if mintAttempts \<le> attempt then (None, [])
        else let (r, retries) = mint_from get (attempt + 1) in (r, attempt # retries))"
  by pat_completeness auto

termination
  by (relation "measure (\<lambda>(get, attempt). mintAttempts - attempt)") auto

declare mint_from.simps [simp del]

definition mintWithRetry :: "(nat \<Rightarrow> jwt option) \<Rightarrow> jwt option \<times> nat list" where
  "mintWithRetry get = mint_from get 1"

record minter_entry =
  me_fingerprint :: string
  me_auth :: minter

type_synonym minters = "string \<Rightarrow> minter_entry option"

definition minterFor ::
  "library \<Rightarrow> crypto \<Rightarrow> dimo_auth \<Rightarrow> chain_settings \<Rightarrow> minters \<Rightarrow> string \<Rightarrow> string \<Rightarrow> minters \<times> (svc_error + minter)" where
  "minterFor L K D cfg cache clientID privateKeyHex =
     (let fingerprint = sha256 K privateKeyHex; key = HexAddr L clientID in
      case (case cache key of Some e \<Rightarrow> if me_fingerprint e = fingerprint then Some e else None | None \<Rightarrow> None) of
        Some e \<Rightarrow> (cache, Inr (me_auth e))
      | None \<Rightarrow>
        (case RedirectURIForClientID D clientID of
           None \<Rightarrow> (cache, Inl (Remote ''resolve redirect URI''))
         | Some uri \<Rightarrow>
           (case urlParse D uri of
              None \<Rightarrow> (cache, Inl (Remote ''redirect URI''))
            | Some redirectURL \<Rightarrow>
              let auth = \<lparr>mn_auth_url = DimoAuthURL cfg, mn_client = HexAddr L clientID, mn_redirect = redirectURL,
                          mn_key = privateKeyHex\<rparr> in
              if \<not> NewAuthService D auth then (cache, Inl (Remote ''build minter''))
              else (cache(key \<mapsto> \<lparr>me_fingerprint = fingerprint, me_auth = auth\<rparr>), Inr auth))))"

record minted_token =
  mt_token :: string
  mt_expires :: "time option"
  mt_client :: string
  mt_holder :: uuid

definition DeveloperJWT ::
  "library \<Rightarrow> crypto \<Rightarrow> dimo_auth \<Rightarrow> chain_settings \<Rightarrow> faults \<Rightarrow> minters \<Rightarrow> db \<Rightarrow> uuid \<Rightarrow>
   minters \<times> (svc_error + minted_token)" where
  "DeveloperJWT L K D cfg flt cache s tenantID =
     (case effectiveWithKey flt s tenantID of
        Inl e \<Rightarrow> (cache, Inl e)
      | Inr (cred, keyEnc, _) \<Rightarrow>
        if keyEnc = [] then (cache, Inl (Wrapped ''no API key stored'' ErrNoCredential))
        else if DimoAuthURL cfg = [] then (cache, Inl (BadRequest ''DIMO_AUTH_URL is not configured''))
        else case DecryptSecret K (TenantSecretEncKey cfg) keyEnc of
          None \<Rightarrow> (cache, Inl (Remote ''decrypt credential''))
        | Some privateKeyHex \<Rightarrow>
          (case minterFor L K D cfg cache (ec_client_id cred) privateKeyHex of
             (cache', Inl e) \<Rightarrow> (cache', Inl e)
           | (cache', Inr auth) \<Rightarrow>
             (case fst (mintWithRetry (GetToken D auth)) of
                None \<Rightarrow> (cache', Inl (Remote ''minting developer JWT''))
              | Some token \<Rightarrow> (cache', Inr \<lparr>mt_token = jwt_raw token, mt_expires = jwt_exp token,
                    mt_client = ec_client_id cred, mt_holder = ec_tenant cred\<rparr>))))"

definition ValidateCredential ::
  "library \<Rightarrow> crypto \<Rightarrow> dimo_auth \<Rightarrow> chain_settings \<Rightarrow> minters \<Rightarrow> string \<Rightarrow> string \<Rightarrow> minters \<times> svc_error option" where
  "ValidateCredential L K D cfg cache clientID apiKeyPlain =
     (if clientID = [] \<or> apiKeyPlain = [] then (cache, Some (BadRequest ''client id and API key are required''))
      else case minterFor L K D cfg cache clientID apiKeyPlain of
        (cache', Inl e) \<Rightarrow> (cache', Some e)
      | (cache', Inr auth) \<Rightarrow>
        (if fst (mintWithRetry (GetToken D auth)) = None then (cache', Some (Remote ''minting a developer JWT''))
         else (cache', None)))"

subsection \<open>Signing\<close>

definition erc191_prefix :: "string \<Rightarrow> string" where
  "erc191_prefix message = [CHR 0x19] @ ''Ethereum Signed Message:'' @ [CHR 0x0A] @ decimal (length message) @ message"

definition TrimPrefix :: "string \<Rightarrow> string \<Rightarrow> string" where
  "TrimPrefix p s = (if take (length p) s = p then drop (length p) s else s)"

definition signERC191 :: "eth \<Rightarrow> string \<Rightarrow> string \<Rightarrow> svc_error + string" where
  "signERC191 E message privateKeyHex =
     (case HexToECDSA E (TrimPrefix ''0x'' privateKeyHex) of
        None \<Rightarrow> Inl (Remote ''parse private key'')
      | Some pk \<Rightarrow>
        (case SignHash E (Keccak256 E (erc191_prefix message)) pk of
           None \<Rightarrow> Inl (Remote ''sign'')
         | Some sig \<Rightarrow>
           let v = (of_char (sig ! 64) :: nat); sig' = (if v < 27 then sig[64 := char_of (v + 27)] else sig) in
           Inr (''0x'' @ hexEncode sig')))"

definition SignAsTenant ::
  "crypto \<Rightarrow> eth \<Rightarrow> chain_settings \<Rightarrow> faults \<Rightarrow> db \<Rightarrow> uuid \<Rightarrow> string \<Rightarrow> svc_error + string \<times> effective_credential" where
  "SignAsTenant K E cfg flt s tenantID message =
     (case effectiveWithKey flt s tenantID of
        Inl e \<Rightarrow> Inl e
      | Inr (cred, keyEnc, _) \<Rightarrow>
        if keyEnc = [] then Inl (Wrapped ''no API key stored'' ErrNoCredential)
        else case DecryptSecret K (TenantSecretEncKey cfg) keyEnc of
          None \<Rightarrow> Inl (Remote ''decrypt credential'')
        | Some privateKeyHex \<Rightarrow>
          (case signERC191 E message privateKeyHex of
             Inl e \<Rightarrow> Inl (Wrapped ''sign as tenant'' e)
           | Inr sig \<Rightarrow> Inr (sig, cred)))"

definition AAWalletSigner ::
  "library \<Rightarrow> crypto \<Rightarrow> eth \<Rightarrow> chain_settings \<Rightarrow> faults \<Rightarrow> db \<Rightarrow> uuid \<Rightarrow> svc_error + string \<times> string" where
  "AAWalletSigner L K E cfg flt s tenantID =
     (case effectiveWithKey flt s tenantID of
        Inl e \<Rightarrow> Inl e
      | Inr (cred, _, aaKeyEnc) \<Rightarrow>
        if ec_aa_wallet cred = [] \<or> aaKeyEnc = [] then Inl (Wrapped ''credential'' ErrNoAAWallet)
        else case DecryptSecret K (TenantSecretEncKey cfg) aaKeyEnc of
          None \<Rightarrow> Inl (Remote ''decrypt AA wallet key'')
        | Some keyHex \<Rightarrow>
          (case HexToECDSA E keyHex of
             None \<Rightarrow> Inl (Remote ''AA wallet key does not parse'')
           | Some pk \<Rightarrow> Inr (HexAddr L (ec_aa_wallet cred), pk)))"

subsection \<open>Giving a tenant a signer\<close>

record provision_result =
  pr_tenant :: uuid
  pr_signer :: string
  pr_unused :: bool

text \<open>\<open>ON CONFLICT (tenant_id) DO UPDATE .. WHERE signer_key_enc IS NULL OR signer_key_enc = ''\<close>\<close>

definition lacks_signer :: "credential_row \<Rightarrow> bool" where
  "lacks_signer c \<longleftrightarrow> null_str (c_signer_key_enc c) = []"

definition put_signer :: "uuid \<Rightarrow> string \<Rightarrow> string \<Rightarrow> credential_row list \<Rightarrow> credential_row list" where
  "put_signer tid addr enc cs =
     (if list_ex (\<lambda>c. c_tenant c = tid) cs
      then upd (\<lambda>c. c_tenant c = tid \<and> lacks_signer c)
             (\<lambda>c. c\<lparr>c_signer_address := Some addr, c_signer_key_enc := Some enc\<rparr>) cs
      else cs @ [\<lparr>c_tenant = tid, c_client_id = None, c_api_key_enc = None, c_signer_address = Some addr,
                  c_signer_key_enc = Some enc, c_is_service = False, c_aa_address = None, c_aa_key_enc = None\<rparr>])"

text \<open>\<open>gen\<close> is the generated key and \<open>nonce\<close> the randomness of the sealing, \<open>None\<close> on failure.\<close>

definition ProvisionSigner ::
  "crypto \<Rightarrow> eth \<Rightarrow> chain_settings \<Rightarrow> faults \<Rightarrow> string option \<Rightarrow> string option \<Rightarrow> db \<Rightarrow> uuid \<Rightarrow>
   db \<times> (svc_error + provision_result)" where
  "ProvisionSigner K E cfg flt gen nonce s tenantID =
     (case gen of
        None \<Rightarrow> (s, Inl (Remote ''generate signer key''))
      | Some key \<Rightarrow>
        let address = PubkeyToAddress E key; privHex = hexEncode key in
        (case nonce of
           None \<Rightarrow> (s, Inl (Remote ''encrypt signer key''))
         | Some n \<Rightarrow>
           let keyEnc = EncryptSecret K n (TenantSecretEncKey cfg) privHex in
           if flt 0 \<or> tenant_by_id tenantID s = None then (s, Inl (DbError ''provision signer''))
           else if list_ex (\<lambda>c. c_tenant c = tenantID \<and> \<not> lacks_signer c) (credentials s)
           then (s, Inl (Wrapped ''tenant'' ErrSignerExists))
           else let s' = s\<lparr>credentials := put_signer tenantID address keyEnc (credentials s)\<rparr>;
                    hasClientID = list_ex (\<lambda>c. c_tenant c = tenantID \<and> null_str (c_client_id c) \<noteq> []) (credentials s') in
           (s', Inr \<lparr>pr_tenant = tenantID, pr_signer = address, pr_unused = (\<not> flt 1 \<and> \<not> hasClientID)\<rparr>)))"

subsection \<open>The account-abstraction wallet\<close>

text \<open>What one dialled connection answers; \<open>None\<close> is an error of the call.\<close>

record chain_reader =
  cr_chain_id :: "int option"
  cr_code_at :: "string \<Rightarrow> string option"
  cr_call :: "string \<Rightarrow> string \<Rightarrow> string option"

definition kernelECDSAValidator :: string where
  "kernelECDSAValidator = ''0x845ADb2C711129d4f3966735eD98a9F09fC4cE57''"

definition ecdsaValidatorStorageSelector :: string where
  "ecdsaValidatorStorageSelector = [CHR 0x20, CHR 0x70, CHR 0x9E, CHR 0xFC]"

definition zero_address :: "library \<Rightarrow> string" where
  "zero_address L = HexAddr L []"

definition LeftPadBytes :: "nat \<Rightarrow> string \<Rightarrow> string" where
  "LeftPadBytes n bs = replicate (n - length bs) (CHR 0x00) @ bs"

definition validator_calldata :: "eth \<Rightarrow> string \<Rightarrow> string" where
  "validator_calldata E wallet = ecdsaValidatorStorageSelector @ LeftPadBytes 32 (AddressBytes E wallet)"

text \<open>\<open>big.Int.Int64\<close>: the low 64 bits, read as a signed integer.\<close>

definition big_Int64 :: "int \<Rightarrow> int" where
  "big_Int64 i = signed_take_bit 63 i"

definition verifyOnChain ::
  "library \<Rightarrow> eth \<Rightarrow> chain_settings \<Rightarrow> chain_reader option \<Rightarrow> string \<Rightarrow> string \<Rightarrow> svc_error option" where
  "verifyOnChain L E cfg dialled wallet root =
     (if RPCURL cfg = [] \<or> ChainID cfg = 0 then Some (ErrChainUnavailable ''not configured'')
      else case dialled of
        None \<Rightarrow> Some (ErrChainUnavailable ''dial RPC'')
      | Some r \<Rightarrow>
        (case cr_chain_id r of
           None \<Rightarrow> Some (ErrChainUnavailable ''eth_chainId'')
         | Some i \<Rightarrow>
           if big_Int64 i \<noteq> ChainID cfg then Some (ErrChainUnavailable ''wrong chain'')
           else case cr_code_at r wallet of
             None \<Rightarrow> Some (ErrChainUnavailable ''eth_getCode'')
           | Some code \<Rightarrow>
             if code = [] then Some (ErrAAWalletInvalid ''no code'')
             else case cr_call r (HexAddr L kernelECDSAValidator) (validator_calldata E wallet) of
               None \<Rightarrow> Some (ErrChainUnavailable ''read sudo validator'')
             | Some res \<Rightarrow>
               if length res < 32 then Some (ErrChainUnavailable ''short answer'')
               else let owner = BytesToAddress E (take 20 (drop 12 res)) in
               if owner = zero_address L then Some (ErrAAWalletInvalid ''no owner recorded'')
               else if owner \<noteq> root then Some (ErrAAWalletInvalid ''another owner'')
               else None))"

record aa_status =
  aa_configured :: bool
  aa_address :: string
  aa_holder :: uuid

definition SetAAWallet ::
  "library \<Rightarrow> crypto \<Rightarrow> eth \<Rightarrow> chain_settings \<Rightarrow> chain_reader option \<Rightarrow> faults \<Rightarrow> string option \<Rightarrow> db \<Rightarrow> uuid \<Rightarrow>
   string \<Rightarrow> string \<Rightarrow> db \<times> (svc_error + aa_status)" where
  "SetAAWallet L K E cfg dialled flt nonce s tenantID walletAddress privateKey =
     (if walletAddress = [] \<or> privateKey = [] then (s, Inl (ErrAAWalletInvalid ''required''))
      else if \<not> IsHexAddress L walletAddress then (s, Inl (ErrAAWalletInvalid ''not a hex address''))
      else let wallet = HexAddr L walletAddress in
      case HexToECDSA E (TrimPrefix ''0x'' (TrimSpace privateKey)) of
        None \<Rightarrow> (s, Inl (ErrAAWalletInvalid ''privateKey does not parse''))
      | Some pk \<Rightarrow>
        let root = PubkeyToAddress E pk in
        if root = wallet then (s, Inl (ErrAAWalletInvalid ''own EOA''))
        else if flt 0 then (s, Inl (DbError ''load tenant''))
        else if tenant_by_id tenantID s = None then (s, Inl ErrTenantNotFound)
        else if \<not> holds_licence s tenantID then (s, Inl ErrAANotCredentialHolder)
        else case verifyOnChain L E cfg dialled wallet root of
          Some e \<Rightarrow> (s, Inl e)
        | None \<Rightarrow>
          (case nonce of
             None \<Rightarrow> (s, Inl (Remote ''encrypt AA wallet key''))
           | Some n \<Rightarrow>
             let enc = EncryptSecret K n (TenantSecretEncKey cfg) (hexEncode pk);
                 match = (\<lambda>c. c_tenant c = tenantID) in
             if flt 1 then (s, Inl (DbError ''store AA wallet''))
             else let s' = s\<lparr>credentials := upd match
                    (\<lambda>c. c\<lparr>c_aa_address := Some wallet, c_aa_key_enc := Some enc\<rparr>) (credentials s)\<rparr> in
             if affected match (credentials s) \<noteq> 1 then (s', Inl (DbError ''credential row vanished''))
             else (s', Inr \<lparr>aa_configured = True, aa_address = wallet, aa_holder = tenantID\<rparr>)))"

definition GetAAWallet :: "faults \<Rightarrow> db \<Rightarrow> uuid \<Rightarrow> svc_error + aa_status" where
  "GetAAWallet flt s tenantID =
     (if flt 0 then Inl (DbError ''resolve AA wallet'')
      else case Option.bind (tenant_by_id tenantID s) (effective_row s) of
        None \<Rightarrow>
          if flt 1 then Inl (DbError ''load tenant'')
          else if tenant_by_id tenantID s = None then Inl ErrTenantNotFound
          else Inr \<lparr>aa_configured = False, aa_address = [], aa_holder = []\<rparr>
      | Some c \<Rightarrow>
          (case c_aa_address c of
             None \<Rightarrow> Inr \<lparr>aa_configured = False, aa_address = [], aa_holder = c_tenant c\<rparr>
           | Some a \<Rightarrow> Inr \<lparr>aa_configured = True, aa_address = a, aa_holder = c_tenant c\<rparr>))"

definition ClearAAWallet :: "faults \<Rightarrow> db \<Rightarrow> uuid \<Rightarrow> db \<times> svc_error option" where
  "ClearAAWallet flt s tenantID =
     (if flt 0 then (s, Some (DbError ''clear AA wallet''))
      else (s\<lparr>credentials := upd (\<lambda>c. c_tenant c = tenantID \<and> c_aa_address c \<noteq> None)
                (\<lambda>c. c\<lparr>c_aa_address := None, c_aa_key_enc := None\<rparr>) (credentials s)\<rparr>, None))"

subsection \<open>The minter cache\<close>

text \<open>An entry is filed under its client and carries the fingerprint of the key it was built with.\<close>

definition cache_ok :: "crypto \<Rightarrow> minters \<Rightarrow> bool" where
  "cache_ok K cache \<longleftrightarrow> (\<forall>k e. cache k = Some e \<longrightarrow>
     mn_client (me_auth e) = k \<and> me_fingerprint e = sha256 K (mn_key (me_auth e)))"

lemma minterFor_ok:
  assumes "cache_ok K cache" and "minterFor L K D cfg cache cid key = (cache', r)"
  shows "cache_ok K cache' \<and>
    (\<forall>m. r = Inr m \<longrightarrow> mn_client m = HexAddr L cid \<and> sha256 K (mn_key m) = sha256 K key)"
  using assms unfolding minterFor_def Let_def cache_ok_def
  by (auto split: option.splits if_splits)

lemma DeveloperJWT_cache: "cache_ok K cache \<Longrightarrow> cache_ok K (fst (DeveloperJWT L K D cfg flt cache s tid))"
  unfolding DeveloperJWT_def by (auto dest: minterFor_ok split: sum.splits option.splits if_splits prod.splits)

lemma ValidateCredential_cache: "cache_ok K cache \<Longrightarrow> cache_ok K (fst (ValidateCredential L K D cfg cache cid key))"
  unfolding ValidateCredential_def by (auto dest: minterFor_ok split: sum.splits option.splits if_splits prod.splits)

text \<open>The calls that go through the cache, each against the database of its moment.\<close>

datatype mint_op = MintJWT faults db uuid | MintValidate string string

fun mint_step :: "library \<Rightarrow> crypto \<Rightarrow> dimo_auth \<Rightarrow> chain_settings \<Rightarrow> mint_op \<Rightarrow> minters \<Rightarrow> minters" where
  "mint_step L K D cfg (MintJWT flt s tid) cache = fst (DeveloperJWT L K D cfg flt cache s tid)"
| "mint_step L K D cfg (MintValidate cid key) cache = fst (ValidateCredential L K D cfg cache cid key)"

interpretation mint_ops: op_system "mint_step L K D cfg" "cache_ok K" for L K D cfg
proof
  show "cache_ok K cache \<Longrightarrow> cache_ok K (mint_step L K D cfg op cache)" for cache op
    by (cases op) (simp_all add: DeveloperJWT_cache ValidateCredential_cache)
qed

subsection \<open>A concrete instance\<close>

definition demo_eth :: eth where
  "demo_eth = \<lparr>HexToECDSA = (\<lambda>h. if h = ''6b'' then Some ''k'' else None), PubkeyToAddress = (\<lambda>k. ''0xeoa''),
     SignHash = (\<lambda>h k. Some (replicate 65 (CHR 0x00))), Keccak256 = id, AddressBytes = id, BytesToAddress = (\<lambda>b. ''0xeoa'')\<rparr>"

definition demo_auth :: dimo_auth where
  "demo_auth = \<lparr>RedirectURIForClientID = (\<lambda>c. Some ''https://cb''), urlParse = Some, NewAuthService = (\<lambda>m. True),
     GetToken = (\<lambda>m n. if n = 2 then Some \<lparr>jwt_raw = mn_key m, jwt_exp = None\<rparr> else None)\<rparr>"

definition demo_reader :: chain_reader where
  "demo_reader = \<lparr>cr_chain_id = Some 137, cr_code_at = (\<lambda>w. Some ''code''), cr_call = (\<lambda>a d. Some (replicate 32 (CHR 0x01)))\<rparr>"

definition demo_keys_db :: db where
  "demo_keys_db = demo_db\<lparr>credentials := [\<lparr>c_tenant = ''op'', c_client_id = Some ''0xLIC'',
     c_api_key_enc = Some (EncryptSecret demo_crypto ''012345678901'' ''pass'' ''6b''), c_signer_address = Some ''0xsig'',
     c_signer_key_enc = Some (EncryptSecret demo_crypto ''012345678901'' ''pass'' ''6b''), c_is_service = False,
     c_aa_address = None, c_aa_key_enc = None\<rparr>]\<rparr>"

lemma demo_eth_laws: "eth_laws demo_eth"
  by (auto simp: eth_laws_def demo_eth_def hexEncode_def hex_char_def text_eval)

lemma demo_crypto_laws: "crypto_laws demo_crypto"
  by (simp add: crypto_laws_def demo_crypto_def)

lemma demo_keys_effective:
  "effectiveWithKey no_faults demo_keys_db ''cu'' =
     Inr (\<lparr>ec_tenant = ''op'', ec_client_id = ''0xLIC'', ec_signer = ''0xsig'', ec_aa_wallet = []\<rparr>,
          EncryptSecret demo_crypto ''012345678901'' ''pass'' ''6b'', [])"
  by (simp add: effectiveWithKey_def demo_keys_db_def tenant_by_id_def effective_row_def null_str_def demo_defs)

lemma demo_secret: "DecryptSecret demo_crypto ''pass'' (EncryptSecret demo_crypto ''012345678901'' ''pass'' p) = Some p"
  using secret_round_trip [OF demo_crypto_laws, of "''012345678901''"] by (simp add: NonceSize_def)

lemma demo_seal: "EncryptSecret demo_crypto ''012345678901'' ''pass'' p = ''012345678901pass'' @ p"
  by (simp add: EncryptSecret_def demo_crypto_def)

text \<open>
  C40. The login challenge is retried, at most three times in all: the first token any attempt gives
  is the answer, there is none only when all three flaked, and each failed attempt but the last
  is reported.
\<close>

theorem mintWithRetry_bounded:
  "fst (mintWithRetry get) = Option.bind (find (\<lambda>n. get n \<noteq> None) [1..<mintAttempts + 1]) get \<and>
   snd (mintWithRetry get) = takeWhile (\<lambda>n. get n = None) [1..<mintAttempts]"
proof -
  have m: "[1..<mintAttempts + 1] = [1, 2, 3]" "[1..<mintAttempts] = [1, 2]"
    by (simp_all add: mintAttempts_def upt_rec)
  have s: "mint_from get 1 = (case get 1 of Some t \<Rightarrow> (Some t, []) | None \<Rightarrow>
      (case get 2 of Some t \<Rightarrow> (Some t, [1]) | None \<Rightarrow> (get 3, [1, 2])))"
    by (simp del: One_nat_def add: mint_from.simps [of get 1] mint_from.simps [of get 2] mint_from.simps [of get 3]
        mintAttempts_def split: option.splits)
  show ?thesis unfolding mintWithRetry_def m s by (simp split: option.splits)
qed

lemma mint_from_SomeD: "fst (mint_from get n) = Some t \<Longrightarrow> \<exists>i. n \<le> i \<and> get i = Some t"
proof (induction get n rule: mint_from.induct)
  case (1 get n)
  show ?case
  proof (cases "get n")
    case None
    then have "\<exists>i. n + 1 \<le> i \<and> get i = Some t"
      using 1 by (auto simp: mint_from.simps [of get n] split: if_splits prod.splits)
    then show ?thesis by (meson add_leD1)
  next
    case (Some u)
    then have "get n = Some t" using "1.prems" by (simp add: mint_from.simps [of get n])
    then show ?thesis by blast
  qed
qed

text \<open>
  Whatever was minted, validated and rotated before, a token is minted with the licence and the key
  that the tenant's effective credential holds now: a cached minter whose key has been replaced is
  never used. (\<open>SHA-256\<close> is taken to separate the keys.)
\<close>

theorem DeveloperJWT_current:
  assumes "cache = fold (mint_step L K D cfg) ops Map.empty"
    and "DeveloperJWT L K D cfg flt cache s tid = (cache', Inr tok)"
    and "\<forall>k k'. sha256 K k = sha256 K k' \<longrightarrow> k = k'"
  shows "\<exists>cred keyEnc aaEnc key m n t. effectiveWithKey flt s tid = Inr (cred, keyEnc, aaEnc) \<and>
    DecryptSecret K (TenantSecretEncKey cfg) keyEnc = Some key \<and>
    mn_client m = HexAddr L (ec_client_id cred) \<and> mn_key m = key \<and> GetToken D m n = Some t \<and>
    mt_token tok = jwt_raw t \<and> mt_client tok = ec_client_id cred \<and> mt_holder tok = ec_tenant cred"
proof -
  have "cache_ok K Map.empty" by (simp add: cache_ok_def)
  then have ok: "cache_ok K cache" unfolding assms(1) by (rule mint_ops.run_inv)
  from assms(2) obtain cred keyEnc aaEnc key m t where
      e: "effectiveWithKey flt s tid = Inr (cred, keyEnc, aaEnc)" "DecryptSecret K (TenantSecretEncKey cfg) keyEnc = Some key"
      and m: "minterFor L K D cfg cache (ec_client_id cred) key = (cache', Inr m)"
      and t: "fst (mintWithRetry (GetToken D m)) = Some t"
      and tok: "tok = \<lparr>mt_token = jwt_raw t, mt_expires = jwt_exp t, mt_client = ec_client_id cred, mt_holder = ec_tenant cred\<rparr>"
    unfolding DeveloperJWT_def by (auto split: sum.splits option.splits if_splits prod.splits)
  have "mn_client m = HexAddr L (ec_client_id cred)" "mn_key m = key"
    using minterFor_ok [OF ok m] assms(3) by auto
  moreover obtain n where "GetToken D m n = Some t" using mint_from_SomeD t unfolding mintWithRetry_def by blast
  ultimately show ?thesis using e tok by auto
qed

lemma demo_DeveloperJWT:
  "\<exists>c' (m :: minter). DeveloperJWT demo_library demo_crypto demo_auth demo_settings_chain no_faults c demo_keys_db ''cu'' =
     (c', Inr \<lparr>mt_token = mn_key m, mt_expires = None, mt_client = ''0xLIC'', mt_holder = ''op''\<rparr>)"
proof -
  have nz: "EncryptSecret demo_crypto ''012345678901'' ''pass'' ''6b'' \<noteq> []" "DimoAuthURL demo_settings_chain \<noteq> []"
    by (simp_all add: demo_seal demo_settings_chain_def)
  have get: "fst (mintWithRetry (GetToken demo_auth m)) = Some \<lparr>jwt_raw = mn_key m, jwt_exp = None\<rparr>" for m
    by (simp add: mintWithRetry_def mint_from.simps mintAttempts_def demo_auth_def)
  have "\<exists>c' m. minterFor demo_library demo_crypto demo_auth demo_settings_chain c ''0xLIC'' ''6b'' = (c', Inr m)"
    by (simp add: minterFor_def Let_def demo_auth_def split: option.split)
  then obtain c' m where m: "minterFor demo_library demo_crypto demo_auth demo_settings_chain c ''0xLIC'' ''6b'' = (c', Inr m)" by blast
  have d: "DecryptSecret demo_crypto (TenantSecretEncKey demo_settings_chain) (EncryptSecret demo_crypto ''012345678901'' ''pass'' ''6b'') = Some ''6b''"
    using demo_secret by (simp add: demo_settings_chain_def)
  have "DeveloperJWT demo_library demo_crypto demo_auth demo_settings_chain no_faults c demo_keys_db ''cu'' =
      (c', Inr \<lparr>mt_token = mn_key m, mt_expires = None, mt_client = ''0xLIC'', mt_holder = ''op''\<rparr>)"
    unfolding DeveloperJWT_def demo_keys_effective by (simp add: d m get nz)
  then show ?thesis by blast
qed

lemma DeveloperJWT_current_witness:
  "\<exists>cache' tok. DeveloperJWT demo_library demo_crypto demo_auth demo_settings_chain no_faults
      (fold (mint_step demo_library demo_crypto demo_auth demo_settings_chain) [MintValidate ''0xLIC'' ''old''] Map.empty)
      demo_keys_db ''cu'' = (cache', Inr tok) \<and> mt_token tok = ''6b''"
proof -
  define c where "c = fold (mint_step demo_library demo_crypto demo_auth demo_settings_chain) [MintValidate ''0xLIC'' ''old''] Map.empty"
  obtain c' and m :: minter where j: "DeveloperJWT demo_library demo_crypto demo_auth demo_settings_chain no_faults c demo_keys_db ''cu'' =
      (c', Inr \<lparr>mt_token = mn_key m, mt_expires = None, mt_client = ''0xLIC'', mt_holder = ''op''\<rparr>)"
    using demo_DeveloperJWT by blast
  have d: "DecryptSecret demo_crypto (TenantSecretEncKey demo_settings_chain) (EncryptSecret demo_crypto ''012345678901'' ''pass'' ''6b'') = Some ''6b''"
    using demo_secret by (simp add: demo_settings_chain_def)
  have sha: "\<forall>k k'. sha256 demo_crypto k = sha256 demo_crypto k' \<longrightarrow> k = k'" by (simp add: demo_crypto_def)
  from DeveloperJWT_current [OF c_def j sha] obtain m' n t where "mn_key m' = ''6b''" "GetToken demo_auth m' n = Some t" "mn_key m = jwt_raw t"
    using demo_keys_effective d by auto
  then have "mn_key m = ''6b''" by (auto simp: demo_auth_def split: if_splits)
  with j show ?thesis unfolding c_def by simp
qed

subsection \<open>What the key operations do to the database\<close>

lemma ProvisionSigner_result:
  assumes "ProvisionSigner K E cfg flt gen nonce s tid = (s', r)"
  shows "(s' = s \<and> (\<exists>e. r = Inl e)) \<or>
    (\<exists>key n p. gen = Some key \<and> nonce = Some n \<and> tenant_by_id tid s \<noteq> None \<and> r = Inr p \<and>
       pr_signer p = PubkeyToAddress E key \<and>
       (\<forall>c\<in>set (credentials s). c_tenant c = tid \<longrightarrow> lacks_signer c) \<and>
       s' = s\<lparr>credentials := put_signer tid (PubkeyToAddress E key)
                (EncryptSecret K n (TenantSecretEncKey cfg) (hexEncode key)) (credentials s)\<rparr>)"
  using assms unfolding ProvisionSigner_def Let_def
  by (auto simp: list_ex_iff split: option.splits if_splits)

definition aa_write :: "string \<Rightarrow> string \<Rightarrow> credential_row \<Rightarrow> credential_row" where
  "aa_write wallet enc c = c\<lparr>c_aa_address := Some wallet, c_aa_key_enc := Some enc\<rparr>"

lemma SetAAWallet_result:
  assumes "SetAAWallet L K E cfg dialled flt nonce s tid w key = (s', r)"
  shows "(s' = s \<and> (\<exists>e. r = Inl e)) \<or>
    (\<exists>pk n. HexToECDSA E (TrimPrefix ''0x'' (TrimSpace key)) = Some pk \<and> PubkeyToAddress E pk \<noteq> HexAddr L w \<and>
       nonce = Some n \<and> holds_licence s tid \<and> tenant_by_id tid s \<noteq> None \<and>
       verifyOnChain L E cfg dialled (HexAddr L w) (PubkeyToAddress E pk) = None \<and>
       s' = s\<lparr>credentials := upd (\<lambda>c. c_tenant c = tid)
                (aa_write (HexAddr L w) (EncryptSecret K n (TenantSecretEncKey cfg) (hexEncode pk))) (credentials s)\<rparr> \<and>
       (if affected (\<lambda>c. c_tenant c = tid) (credentials s) = 1
        then r = Inr \<lparr>aa_configured = True, aa_address = HexAddr L w, aa_holder = tid\<rparr> else \<exists>e. r = Inl e))"
  using assms unfolding SetAAWallet_def Let_def aa_write_def
  by (simp split: if_split_asm option.split_asm; blast)

lemma ClearAAWallet_result:
  "fst (ClearAAWallet flt s tid) = s \<or> fst (ClearAAWallet flt s tid) =
     s\<lparr>credentials := upd (\<lambda>c. c_tenant c = tid \<and> c_aa_address c \<noteq> None)
        (\<lambda>c. c\<lparr>c_aa_address := None, c_aa_key_enc := None\<rparr>) (credentials s)\<rparr>"
  by (simp add: ClearAAWallet_def)

subsubsection \<open>The hierarchy and the constraint on the wallet columns\<close>

text \<open>\<open>tenant_credentials_aa_wallet_pair\<close>: an address exactly when a key.\<close>

definition aa_pair :: "credential_row \<Rightarrow> bool" where
  "aa_pair c \<longleftrightarrow> (c_aa_address c = None) = (c_aa_key_enc c = None)"

definition cred_inv :: "db \<Rightarrow> bool" where
  "cred_inv s \<longleftrightarrow> tenant_inv s \<and> (\<forall>c\<in>set (credentials s). aa_pair c)"

lemma tenant_inv_credentials:
  assumes "tenant_inv s" and "licence_keys (s\<lparr>credentials := cs\<rparr>)" and "\<forall>c\<in>set cs. tenant_exists s (c_tenant c)"
  shows "tenant_inv (s\<lparr>credentials := cs\<rparr>)"
proof -
  have "tenant_exists (s\<lparr>credentials := cs\<rparr>) = tenant_exists s" "tenant_shape (s\<lparr>credentials := cs\<rparr>) = tenant_shape s"
    by (rule tenants_same; simp)+
  with assms show ?thesis by (simp add: tenant_inv_def tenant_refs_def list_all_iff)
qed

lemma upd_credentials_inv:
  assumes "tenant_inv s" and "\<And>c. c_tenant (f c) = c_tenant c \<and> c_client_id (f c) = c_client_id c"
  shows "tenant_inv (s\<lparr>credentials := upd P f (credentials s)\<rparr>)"
proof (rule tenant_inv_credentials [OF assms(1)])
  have "licence_keys s" using assms(1) by (simp add: tenant_inv_def)
  then show "licence_keys (s\<lparr>credentials := upd P f (credentials s)\<rparr>)"
    unfolding licence_keys_def using assms(2) by (auto intro!: unique_on_upd)
  show "\<forall>c\<in>set (upd P f (credentials s)). tenant_exists s (c_tenant c)"
    using assms by (auto simp: ball_upd tenant_inv_def tenant_refs_def list_all_iff)
qed

lemma put_signer_inv:
  assumes "tenant_inv s" and "tenant_by_id tid s \<noteq> None"
  shows "tenant_inv (s\<lparr>credentials := put_signer tid a enc (credentials s)\<rparr>)"
proof (cases "list_ex (\<lambda>c. c_tenant c = tid) (credentials s)")
  case True
  then show ?thesis unfolding put_signer_def using assms(1) by (simp add: upd_credentials_inv)
next
  case False
  have "licence_keys s" "\<forall>c\<in>set (credentials s). tenant_exists s (c_tenant c)"
    using assms(1) by (simp_all add: tenant_inv_def tenant_refs_def list_all_iff)
  with False assms show ?thesis
    by (intro tenant_inv_credentials)
       (auto simp: put_signer_def licence_keys_def list_ex_iff tenant_exists_by_id)
qed

text \<open>A signer that is there stays, address and key.\<close>

definition signer_kept :: "credential_row \<Rightarrow> credential_row \<Rightarrow> bool" where
  "signer_kept c c' \<longleftrightarrow> c_tenant c' = c_tenant c \<and>
     (\<not> lacks_signer c \<longrightarrow> c_signer_address c' = c_signer_address c \<and> c_signer_key_enc c' = c_signer_key_enc c)"

definition signers_kept :: "db \<Rightarrow> db \<Rightarrow> bool" where
  "signers_kept s s' \<longleftrightarrow> rows_rel signer_kept (credentials s) (credentials s')"

lemma signer_kept_refl [simp]: "signer_kept c c"
  by (simp add: signer_kept_def)

lemma signer_kept_trans: "signer_kept x y \<Longrightarrow> signer_kept y z \<Longrightarrow> signer_kept x z"
  by (auto simp: signer_kept_def lacks_signer_def)

lemma signers_kept_refl [simp]: "signers_kept s s"
  by (simp add: signers_kept_def rows_rel_refl)

lemma signers_kept_upd:
  "(\<And>c. P c \<Longrightarrow> signer_kept c (f c)) \<Longrightarrow> signers_kept s (s\<lparr>credentials := upd P f (credentials s)\<rparr>)"
  by (simp add: signers_kept_def rows_rel_upd)

lemma signers_kept_append: "credentials s' = credentials s @ cs \<Longrightarrow> signers_kept s s'"
  by (simp add: signers_kept_def rows_rel_append)

text \<open>
  The writes to the credential table of the running service and of the command that provisions a
  signer. The one other writer is the migration of \<open>Backfill.thy\<close>, which adds itself to these there.
\<close>

datatype cred_op =
    CTenant tenant_op
  | CSigner faults "string option" "string option" uuid
  | CSetAA "chain_reader option" faults "string option" uuid string string
  | CClearAA faults uuid

fun cred_step ::
  "library \<Rightarrow> crypto \<Rightarrow> eth \<Rightarrow> chain_settings \<Rightarrow> (string \<Rightarrow> string \<Rightarrow> bool) \<Rightarrow> (string \<Rightarrow> string option) \<Rightarrow> cred_op \<Rightarrow> db \<Rightarrow> db" where
  "cred_step L K E cfg vc seal (CTenant op) s = tenant_step L vc seal op s"
| "cred_step L K E cfg vc seal (CSigner flt gen nonce tid) s = fst (ProvisionSigner K E cfg flt gen nonce s tid)"
| "cred_step L K E cfg vc seal (CSetAA dialled flt nonce tid w key) s = fst (SetAAWallet L K E cfg dialled flt nonce s tid w key)"
| "cred_step L K E cfg vc seal (CClearAA flt tid) s = fst (ClearAAWallet flt s tid)"

lemma put_credential_kept:
  "rows_rel signer_kept cs (put_credential tid cid enc cs) \<and>
   ((\<forall>c\<in>set cs. aa_pair c) \<longrightarrow> (\<forall>c\<in>set (put_credential tid cid enc cs). aa_pair c))"
  unfolding put_credential_def upsert_row_def
  by (auto simp: ball_upd aa_pair_def signer_kept_def intro!: rows_rel_upd rows_rel_append)

lemma tenant_step_kept_signers:
  "signers_kept s (tenant_step L vc seal op s) \<and>
   ((\<forall>c\<in>set (credentials s). aa_pair c) \<longrightarrow> (\<forall>c\<in>set (credentials (tenant_step L vc seal op s)). aa_pair c))"
proof (cases op)
  case (TCreate flt i now o' inp a)
  with CreateCustomer_result [of flt i now s o' inp a] show ?thesis
    by (cases "CreateCustomer flt i now s o' inp a") (auto simp: signers_kept_def rows_rel_refl)
next
  case (TUpdate flt tid inp)
  with UpdateTenant_result [of flt s tid inp] show ?thesis
    by (cases "UpdateTenant flt s tid inp") (auto simp: signers_kept_def rows_rel_refl)
next
  case (TSelfServe flt i now inp)
  with CreateSelfServe_result [of L vc seal flt i now s inp] show ?thesis
    by (cases "CreateSelfServe L vc seal flt i now s inp")
       (auto simp: signers_kept_def rows_rel_refl rows_rel_append aa_pair_def self_credential_row_def)
next
  case (TCredentials flt tid cid key)
  with SetCredentials_result [of vc seal flt s tid cid key] put_credential_kept show ?thesis
    by (cases "SetCredentials vc seal flt s tid cid key") (auto simp: signers_kept_def rows_rel_refl)
qed

lemma cred_step_ok:
  assumes "cred_inv s"
  shows "cred_inv (cred_step L K E cfg vc seal op s) \<and> signers_kept s (cred_step L K E cfg vc seal op s)"
proof (cases op)
  case (CTenant op')
  then show ?thesis using assms tenant_step_inv tenant_step_kept_signers [of s L vc seal op'] by (simp add: cred_inv_def)
next
  case (CSigner flt gen nonce tid)
  have "signers_kept s (s\<lparr>credentials := put_signer tid a enc (credentials s)\<rparr>) \<and>
      (\<forall>c\<in>set (put_signer tid a enc (credentials s)). aa_pair c)" for a enc
    using assms unfolding put_signer_def cred_inv_def
    by (auto simp: signers_kept_append ball_upd aa_pair_def signer_kept_def intro!: signers_kept_upd)
  then show ?thesis
    using CSigner assms ProvisionSigner_result [of K E cfg flt gen nonce s tid] put_signer_inv
    by (cases "ProvisionSigner K E cfg flt gen nonce s tid") (auto simp: cred_inv_def)
next
  case (CSetAA dialled flt nonce tid w key)
  have "tenant_inv (s\<lparr>credentials := upd P (aa_write a enc) (credentials s)\<rparr>) \<and>
      signers_kept s (s\<lparr>credentials := upd P (aa_write a enc) (credentials s)\<rparr>) \<and>
      (\<forall>c\<in>set (upd P (aa_write a enc) (credentials s)). aa_pair c)" for P a enc
    using assms unfolding cred_inv_def
    by (auto simp: aa_write_def ball_upd aa_pair_def signer_kept_def intro!: signers_kept_upd upd_credentials_inv)
  then show ?thesis
    using CSetAA assms SetAAWallet_result [of L K E cfg dialled flt nonce s tid w key]
    by (cases "SetAAWallet L K E cfg dialled flt nonce s tid w key") (auto simp: cred_inv_def)
next
  case (CClearAA flt tid)
  have "tenant_inv (s\<lparr>credentials := upd P (\<lambda>c. c\<lparr>c_aa_address := None, c_aa_key_enc := None\<rparr>) (credentials s)\<rparr>) \<and>
      signers_kept s (s\<lparr>credentials := upd P (\<lambda>c. c\<lparr>c_aa_address := None, c_aa_key_enc := None\<rparr>) (credentials s)\<rparr>) \<and>
      (\<forall>c\<in>set (upd P (\<lambda>c. c\<lparr>c_aa_address := None, c_aa_key_enc := None\<rparr>) (credentials s)). aa_pair c)" for P
    using assms unfolding cred_inv_def
    by (auto simp: ball_upd aa_pair_def signer_kept_def intro!: signers_kept_upd upd_credentials_inv)
  then show ?thesis using CClearAA assms ClearAAWallet_result [of flt s tid] by (auto simp: cred_inv_def)
qed

interpretation cred_ops: op_history "cred_step L K E cfg vc seal" cred_inv signers_kept for L K E cfg vc seal
proof
  show "signers_kept s t \<Longrightarrow> signers_kept t u \<Longrightarrow> signers_kept s u" for s t u
    unfolding signers_kept_def using rows_rel_trans signer_kept_trans by meson
qed (simp_all add: cred_step_ok)

lemma demo_keys_inv: "cred_inv demo_keys_db"
proof -
  have "tenant_inv (demo_db\<lparr>credentials := credentials demo_keys_db\<rparr>)"
    by (rule tenant_inv_credentials [OF demo_tenant_inv])
       (simp_all add: licence_keys_def demo_keys_db_def tenant_exists_def demo_defs)
  then show ?thesis by (simp add: cred_inv_def aa_pair_def demo_keys_db_def)
qed

subsection \<open>A configured wallet signs\<close>

lemma effective_row_upd:
  assumes "\<And>c. c_tenant (f c) = c_tenant c \<and> c_client_id (f c) = c_client_id c"
  shows "effective_row (s\<lparr>credentials := upd P f (credentials s)\<rparr>) t =
    map_option (\<lambda>c. if P c then f c else c) (effective_row s t)"
  unfolding effective_row_def using assms by (simp add: find_upd_keep split: option.split)

lemma effective_rowD: "effective_row s t = Some c \<Longrightarrow> c \<in> set (credentials s) \<and> c_client_id c \<noteq> None"
  unfolding effective_row_def by (auto split: option.splits dest!: find_SomeD)

lemma tenant_by_id_credentials [simp]: "tenant_by_id x (s\<lparr>credentials := cs\<rparr>) = tenant_by_id x s"
  by (simp add: tenant_by_id_def)

lemma Effective_InrD:
  "Effective no_faults s x = Inr cred \<Longrightarrow>
     \<exists>t c. tenant_by_id x s = Some t \<and> effective_row s t = Some c \<and> ec_tenant cred = c_tenant c"
  unfolding Effective_def effectiveWithKey_def
  by (auto simp: bind_eq_Some_conv split: option.splits if_splits)

lemma holder_one_row:
  assumes "tenant_inv s" and "holds_licence s tid"
  shows "affected (\<lambda>c. c_tenant c = tid) (credentials s) = 1"
proof -
  have u: "unique_on (\<lambda>_. True) c_tenant (credentials s)" using assms(1) by (simp add: tenant_inv_def licence_keys_def)
  obtain c where c: "c \<in> set (credentials s)" "c_tenant c = tid" using assms(2) by (auto simp: holds_licence_def list_ex_iff)
  have "set (filter (\<lambda>c. c_tenant c = tid) (credentials s)) = {c}"
    using c unique_on_inj [OF u] by auto
  moreover have "distinct (filter (\<lambda>c. c_tenant c = tid) (credentials s))"
    using u by (simp add: unique_on_def distinct_map)
  ultimately show ?thesis unfolding affected_def using distinct_card by fastforce
qed

text \<open>What the verification reads off the chain, answer by answer.\<close>

lemma verifyOnChain_None:
  "verifyOnChain L E cfg dialled wallet root = None \<longleftrightarrow>
     RPCURL cfg \<noteq> [] \<and> ChainID cfg \<noteq> 0 \<and>
     (\<exists>rd i code res. dialled = Some rd \<and> cr_chain_id rd = Some i \<and> big_Int64 i = ChainID cfg \<and>
        cr_code_at rd wallet = Some code \<and> code \<noteq> [] \<and>
        cr_call rd (HexAddr L kernelECDSAValidator) (validator_calldata E wallet) = Some res \<and> 32 \<le> length res \<and>
        BytesToAddress E (take 20 (drop 12 res)) = root \<and> root \<noteq> zero_address L)"
  by (auto simp: verifyOnChain_def Let_def not_less split: option.split)

text \<open>
  C27. A wallet is stored only when the chain says the submitted key controls it: the configured RPC
  answers for the configured chain, the wallet has code there, and the Kernel ECDSA validator,
  asked for the wallet, answers an owner that is not zero and is the address of the key, itself
  not the wallet. And then it works: for the tenant and for every managed customer that resolves
  to its licence, the wallet is reported and the stored key opens and parses to exactly the key
  that was submitted. A refusal stores nothing.
\<close>

theorem SetAAWallet_signs:
  assumes "address_laws L" and "crypto_laws K" and "eth_laws E" and "tenant_inv s"
    and "\<forall>n. nonce = Some n \<longrightarrow> length n = NonceSize"
    and "SetAAWallet L K E cfg dialled flt nonce s tid w key = (s', r)"
  shows "(\<forall>e. r = Inl e \<longrightarrow> s' = s) \<and>
    (\<forall>st. r = Inr st \<longrightarrow> aa_address st = HexAddr L w \<and>
      (\<exists>pk rd i code res. HexToECDSA E (TrimPrefix ''0x'' (TrimSpace key)) = Some pk \<and>
        RPCURL cfg \<noteq> [] \<and> ChainID cfg \<noteq> 0 \<and> dialled = Some rd \<and>
        cr_chain_id rd = Some i \<and> big_Int64 i = ChainID cfg \<and>
        cr_code_at rd (HexAddr L w) = Some code \<and> code \<noteq> [] \<and>
        cr_call rd (HexAddr L kernelECDSAValidator)
          (ecdsaValidatorStorageSelector @ LeftPadBytes 32 (AddressBytes E (HexAddr L w))) = Some res \<and>
        32 \<le> length res \<and> BytesToAddress E (take 20 (drop 12 res)) = PubkeyToAddress E pk \<and>
        PubkeyToAddress E pk \<noteq> zero_address L \<and> PubkeyToAddress E pk \<noteq> HexAddr L w \<and>
        (\<forall>x cred. Effective no_faults s x = Inr cred \<longrightarrow> ec_tenant cred = tid \<longrightarrow>
           GetAAWallet no_faults s' x = Inr st \<and> AAWalletSigner L K E cfg no_faults s' x = Inr (HexAddr L w, pk))))"
proof (cases "\<exists>e. s' = s \<and> r = Inl e")
  case False
  with SetAAWallet_result [OF assms(6)] obtain pk n where pk: "HexToECDSA E (TrimPrefix ''0x'' (TrimSpace key)) = Some pk"
      "PubkeyToAddress E pk \<noteq> HexAddr L w" and n: "nonce = Some n" and h: "holds_licence s tid"
      and ch: "verifyOnChain L E cfg dialled (HexAddr L w) (PubkeyToAddress E pk) = None"
      and s': "s' = s\<lparr>credentials := upd (\<lambda>c. c_tenant c = tid)
                (aa_write (HexAddr L w) (EncryptSecret K n (TenantSecretEncKey cfg) (hexEncode pk))) (credentials s)\<rparr>"
      and r: "if affected (\<lambda>c. c_tenant c = tid) (credentials s) = 1
        then r = Inr \<lparr>aa_configured = True, aa_address = HexAddr L w, aa_holder = tid\<rparr> else \<exists>e. r = Inl e"
    by blast
  let ?enc = "EncryptSecret K n (TenantSecretEncKey cfg) (hexEncode pk)"
  have r': "r = Inr \<lparr>aa_configured = True, aa_address = HexAddr L w, aa_holder = tid\<rparr>"
    using r holder_one_row [OF assms(4) h] by simp
  have dec: "DecryptSecret K (TenantSecretEncKey cfg) ?enc = Some (hexEncode pk)"
    using secret_round_trip [OF assms(2)] assms(5) n by blast
  have parse: "HexToECDSA E (hexEncode pk) = Some pk" "hexEncode pk \<noteq> []" using assms(3) pk(1) unfolding eth_laws_def by blast+
  have enc: "?enc \<noteq> []" using dec parse(2) by (auto simp: DecryptSecret_def)
  have "GetAAWallet no_faults s' x = Inr \<lparr>aa_configured = True, aa_address = HexAddr L w, aa_holder = tid\<rparr> \<and>
      AAWalletSigner L K E cfg no_faults s' x = Inr (HexAddr L w, pk)"
    if eff: "Effective no_faults s x = Inr cred" and hold: "ec_tenant cred = tid" for x cred
  proof -
    obtain t c where t: "tenant_by_id x s = Some t" "effective_row s t = Some c" "c_tenant c = tid"
      using Effective_InrD [OF eff] hold by auto
    have "effective_row s' t = Some (aa_write (HexAddr L w) ?enc c)"
      unfolding s' by (subst effective_row_upd) (simp_all add: aa_write_def t)
    moreover have "tenant_by_id x s' = Some t" by (simp add: s' t)
    ultimately show ?thesis
      using dec parse enc t HexAddr_nonempty [OF assms(1)] HexAddr_idem [OF assms(1)]
      by (simp add: GetAAWallet_def AAWalletSigner_def effectiveWithKey_def aa_write_def null_str_def)
  qed
  note works = this
  from ch obtain rd i code res where "RPCURL cfg \<noteq> []" "ChainID cfg \<noteq> 0" "dialled = Some rd" "cr_chain_id rd = Some i"
      "big_Int64 i = ChainID cfg" "cr_code_at rd (HexAddr L w) = Some code" "code \<noteq> []"
      "cr_call rd (HexAddr L kernelECDSAValidator)
         (ecdsaValidatorStorageSelector @ LeftPadBytes 32 (AddressBytes E (HexAddr L w))) = Some res"
      "32 \<le> length res" "BytesToAddress E (take 20 (drop 12 res)) = PubkeyToAddress E pk"
      "PubkeyToAddress E pk \<noteq> zero_address L"
    unfolding verifyOnChain_None validator_calldata_def by blast
  with r' pk works show ?thesis by (intro conjI allI impI exI [of _ pk] exI [of _ rd] exI [of _ i] exI [of _ code] exI [of _ res]) simp_all
qed auto

lemma demo_chain_id: "big_Int64 137 = 137"
  unfolding big_Int64_def by (rule signed_take_bit_int_eq_self) simp_all

lemma demo_SetAAWallet:
  "\<exists>s'. SetAAWallet demo_library demo_crypto demo_eth demo_settings_chain (Some demo_reader) no_faults (Some ''012345678901'')
     demo_keys_db ''op'' ''0xKernel'' '' 0x6b'' = (s', Inr \<lparr>aa_configured = True, aa_address = ''0xkernel'', aa_holder = ''op''\<rparr>)"
  by (simp add: SetAAWallet_def verifyOnChain_def demo_chain_id demo_settings_chain_def demo_reader_def demo_eth_def zero_address_def
      holds_licence_def tenant_by_id_def affected_def TrimPrefix_def TrimSpace_def trim_both_def trim_right_def is_space_def
      demo_keys_db_def demo_defs text_eval)

lemma SetAAWallet_signs_witness:
  "\<exists>s' st. SetAAWallet demo_library demo_crypto demo_eth demo_settings_chain (Some demo_reader) no_faults (Some ''012345678901'')
      demo_keys_db ''op'' ''0xKernel'' '' 0x6b'' = (s', Inr st) \<and> GetAAWallet no_faults s' ''cu'' = Inr st"
proof -
  obtain s' st where r: "SetAAWallet demo_library demo_crypto demo_eth demo_settings_chain (Some demo_reader) no_faults
      (Some ''012345678901'') demo_keys_db ''op'' ''0xKernel'' '' 0x6b'' = (s', Inr st)"
    using demo_SetAAWallet by blast
  have inv: "tenant_inv demo_keys_db" using demo_keys_inv by (simp add: cred_inv_def)
  have e: "Effective no_faults demo_keys_db ''cu'' = Inr \<lparr>ec_tenant = ''op'', ec_client_id = ''0xLIC'', ec_signer = ''0xsig'', ec_aa_wallet = []\<rparr>"
    by (simp add: Effective_def demo_keys_effective)
  have n: "\<forall>n. Some ''012345678901'' = Some n \<longrightarrow> length n = NonceSize" by (simp add: NonceSize_def)
  from SetAAWallet_signs [OF demo_address_laws demo_crypto_laws demo_eth_laws inv n r] e r show ?thesis by fastforce
qed

end
