(* ===== verification/SharedSigner.thy ===== *)
theory SharedSigner
  imports Minting
begin

text \<open>
  May this tenant sign for this owner's kernel account? \<open>service/shared_signer.go\<close> over the durable
  memory of \<open>service/shared_accounts.go\<close>. Lookups run concurrently under a time budget: which
  owners were reached and in which order their answers came back is a schedule, an argument of
  the model, and every answer is recorded as it arrives.
\<close>

subsection \<open>The store\<close>

definition negativeRecheckAfter :: time where
  "negativeRecheckAfter = 24 * 3600 * second"

record account_record =
  ac_wallet :: string
  ac_signer :: string
  ac_checked :: time

definition Fresh :: "time \<Rightarrow> account_record \<Rightarrow> bool" where
  "Fresh now r \<longleftrightarrow> ac_signer r \<noteq> [] \<or> now - ac_checked r < negativeRecheckAfter"

definition account_of_row :: "shared_account_row \<Rightarrow> account_record" where
  "account_of_row r = \<lparr>ac_wallet = sa_wallet r, ac_signer = null_str (sa_signer r), ac_checked = sa_checked r\<rparr>"

definition stored_account :: "db \<Rightarrow> string \<Rightarrow> shared_account_row option" where
  "stored_account s w = find (\<lambda>r. sa_wallet r = w) (shared_accounts s)"

definition Lookup :: "library \<Rightarrow> faults \<Rightarrow> db \<Rightarrow> string list \<Rightarrow> svc_error + (string \<Rightarrow> account_record option)" where
  "Lookup L flt s wallets =
     (let keys = map (HexAddr L) (filter (IsHexAddress L) wallets) in
      if keys = [] then Inr (\<lambda>_. None)
      else if flt 0 then Inl (DbError ''read shared accounts'')
      else Inr (\<lambda>w. if w \<in> set keys then map_option account_of_row (stored_account s w) else None))"

text \<open>\<open>ON CONFLICT (wallet) DO UPDATE\<close>: a signer is kept when the new answer has none.\<close>

definition merge_account :: "shared_account_row \<Rightarrow> shared_account_row \<Rightarrow> shared_account_row" where
  "merge_account new old = old\<lparr>sa_signer := coalesce (sa_signer new) (sa_signer old), sa_checked := sa_checked new\<rparr>"

definition put_account :: "shared_account_row \<Rightarrow> shared_account_row list \<Rightarrow> shared_account_row list" where
  "put_account new = upsert_row sa_wallet new (merge_account new)"

definition RecordAccount :: "library \<Rightarrow> faults \<Rightarrow> time \<Rightarrow> db \<Rightarrow> string \<Rightarrow> string \<Rightarrow> db \<times> svc_error option" where
  "RecordAccount L flt now s wallet signerAddress =
     (if \<not> IsHexAddress L wallet then (s, None)
      else if signerAddress \<noteq> [] \<and> \<not> IsHexAddress L signerAddress then (s, Some (BadRequest ''signer is not an address''))
      else if flt 0 then (s, Some (DbError ''record shared account''))
      else (s\<lparr>shared_accounts := put_account
              \<lparr>sa_wallet = HexAddr L wallet, sa_signer = (if signerAddress = [] then None else Some (HexAddr L signerAddress)),
               sa_checked = now\<rparr> (shared_accounts s)\<rparr>, None))"

subsection \<open>The gate\<close>

text \<open>
  What accounts-api answers a lookup, with the field the caller reads (the signer, or the wallet
  when asked by email), and the calls the services make of it.
\<close>

datatype account_answer = AccNotFound | AccDeadline | AccCanceled | AccFailed | AccFound string

record accounts_api =
  GetAccountByWallet :: "string \<Rightarrow> string \<Rightarrow> account_answer"
  GetAccountByEmail :: "string \<Rightarrow> string \<Rightarrow> account_answer"
  CreateAccount :: "string \<Rightarrow> string \<Rightarrow> string \<Rightarrow> string option"

record env =
  ev_lib :: library
  ev_cry :: crypto
  ev_eth :: eth
  ev_auth :: dimo_auth
  ev_cfg :: chain_settings
  ev_accounts :: accounts_api

definition lookupSigner :: "env \<Rightarrow> string \<Rightarrow> string \<Rightarrow> svc_error + string" where
  "lookupSigner V owner token =
     (case GetAccountByWallet (ev_accounts V) owner token of
        AccNotFound \<Rightarrow> Inr []
      | AccDeadline \<Rightarrow> Inl (Wrapped ''accounts-api lookup'' DeadlineExceeded)
      | AccCanceled \<Rightarrow> Inl (Wrapped ''accounts-api lookup'' Canceled)
      | AccFailed \<Rightarrow> Inl (Wrapped ''accounts-api lookup'' (Remote ''accounts-api''))
      | AccFound signer \<Rightarrow> Inr signer)"

text \<open>
  One batch. \<open>sched\<close> picks, from the owners to ask about, those the feeder handed out before the
  context ended, in the order their answers came back; \<open>rflt\<close> says which recordings fail.
\<close>

record schedule =
  sc_order :: "string list \<Rightarrow> string list"
  sc_faults :: "string \<Rightarrow> bool"

definition record_answer :: "env \<Rightarrow> schedule \<Rightarrow> time \<Rightarrow> string \<times> (svc_error + string) \<Rightarrow> db \<Rightarrow> db" where
  "record_answer V sched now p s =
     (case snd p of Inl _ \<Rightarrow> s | Inr sa \<Rightarrow> fst (RecordAccount (ev_lib V) (\<lambda>_. sc_faults sched (fst p)) now s (fst p) sa))"

definition answered :: "(string \<times> (svc_error + string)) list \<Rightarrow> string \<Rightarrow> string option" where
  "answered results owner = (case map_of results owner of Some (Inr sa) \<Rightarrow> Some sa | _ \<Rightarrow> None)"

definition resolveMany ::
  "env \<Rightarrow> faults \<Rightarrow> schedule \<Rightarrow> time \<Rightarrow> minters \<Rightarrow> db \<Rightarrow> uuid \<Rightarrow> string list \<Rightarrow>
   minters \<times> db \<times> (svc_error + (string \<Rightarrow> string option))" where
  "resolveMany V flt sched now cache s tenantID owners =
     (case DeveloperJWT (ev_lib V) (ev_cry V) (ev_auth V) (ev_cfg V) flt cache s tenantID of
        (cache', Inl e) \<Rightarrow> (cache', s, Inl (Wrapped ''mint developer JWT'' e))
      | (cache', Inr minted) \<Rightarrow>
        let results = map (\<lambda>o'. (o', lookupSigner V o' (mt_token minted))) (sc_order sched owners);
            s' = fold (record_answer V sched now) results s in
        (case find (\<lambda>p. \<exists>e. snd p = Inl e) results of
           Some (_, Inl e) \<Rightarrow>
             if errors_is e DeadlineExceeded \<or> errors_is e Canceled then (cache', s', Inr (answered results)) else (cache', s', Inl e)
         | _ \<Rightarrow> (cache', s', Inr (answered results))))"

text \<open>The submitted owners that are addresses, canonical, each once, in order.\<close>

definition distinct_owners :: "library \<Rightarrow> string list \<Rightarrow> string list" where
  "distinct_owners L owners = rev (remdups (rev (map (HexAddr L) (filter (IsHexAddress L) owners))))"

definition known_fresh :: "time \<Rightarrow> (string \<Rightarrow> account_record option) \<Rightarrow> string \<Rightarrow> string option" where
  "known_fresh now known owner =
     (case known owner of Some r \<Rightarrow> if Fresh now r then Some (ac_signer r) else None | None \<Rightarrow> None)"

definition signs_for :: "string \<Rightarrow> string option \<Rightarrow> bool" where
  "signs_for signer registered =
     (case registered of None \<Rightarrow> False | Some sa \<Rightarrow> sa \<noteq> [] \<and> lower sa = lower signer)"

definition FilterSignable ::
  "env \<Rightarrow> faults \<Rightarrow> schedule \<Rightarrow> time \<Rightarrow> minters \<Rightarrow> db \<Rightarrow> uuid \<Rightarrow> string list \<Rightarrow>
   minters \<times> db \<times> (svc_error + string list \<times> string list \<times> string)" where
  "FilterSignable V flt sched now cache s tenantID owners =
     (case Effective flt s tenantID of
        Inl e \<Rightarrow> (cache, s, Inl (Wrapped ''resolve effective credential'' e))
      | Inr cred \<Rightarrow>
        let signer = (if ec_signer cred \<noteq> [] then HexAddr (ev_lib V) (ec_signer cred) else []);
            aaWallet = (if OwnerModeConfigured (ev_cfg V) \<and> ec_aa_wallet cred \<noteq> [] then HexAddr (ev_lib V) (ec_aa_wallet cred) else []) in
        if signer = [] \<and> aaWallet = [] then (cache, s, Inr ([], [], []))
        else let all = distinct_owners (ev_lib V) owners;
                 aaPositive = (aaWallet \<noteq> [] \<and> aaWallet \<in> set all);
                 distinct' = filter (\<lambda>o'. \<not> (aaWallet \<noteq> [] \<and> o' = aaWallet)) all;
                 base = (if aaPositive then [aaWallet] else []) in
        if distinct' = [] \<or> signer = [] then (cache, s, Inr (base, [], aaWallet))
        else case Lookup (ev_lib V) (\<lambda>n. flt (n + 2)) s distinct' of
          Inl e \<Rightarrow> (cache, s, Inl e)
        | Inr known \<Rightarrow>
          let unknown = filter (\<lambda>o'. known_fresh now known o' = None) distinct' in
          if unknown = []
          then (cache, s, Inr (base @ filter (\<lambda>o'. signs_for signer (known_fresh now known o')) distinct', [], aaWallet))
          else case resolveMany V (\<lambda>n. flt (n + 3)) sched now cache s tenantID unknown of
            (cache', s', Inl e) \<Rightarrow>
              if errors_is e DeadlineExceeded
              then (cache', s', Inr (base @ filter (\<lambda>o'. signs_for signer (known_fresh now known o')) distinct', unknown, aaWallet))
              else (cache', s', Inl e)
          | (cache', s', Inr resolved) \<Rightarrow>
              let registered = (\<lambda>o'. case resolved o' of Some sa \<Rightarrow> Some sa | None \<Rightarrow> known_fresh now known o') in
              (cache', s', Inr (base @ filter (\<lambda>o'. signs_for signer (registered o')) distinct',
                                filter (\<lambda>o'. registered o' = None) unknown, aaWallet)))"

definition check ::
  "env \<Rightarrow> faults \<Rightarrow> schedule \<Rightarrow> time \<Rightarrow> minters \<Rightarrow> db \<Rightarrow> uuid \<Rightarrow> string \<Rightarrow> minters \<times> db \<times> (svc_error + bool)" where
  "check V flt sched now cache s tenantID ownerAddress =
     (if \<not> IsHexAddress (ev_lib V) ownerAddress then (cache, s, Inr False)
      else case FilterSignable V flt sched now cache s tenantID [ownerAddress] of
        (cache', s', Inl e) \<Rightarrow> (cache', s', Inl e)
      | (cache', s', Inr (signable, _, _)) \<Rightarrow> (cache', s', Inr (length signable = 1)))"

definition MaySignFor ::
  "env \<Rightarrow> faults \<Rightarrow> schedule \<Rightarrow> time \<Rightarrow> minters \<Rightarrow> db \<Rightarrow> uuid \<Rightarrow> string \<Rightarrow> minters \<times> db \<times> svc_error option" where
  "MaySignFor V flt sched now cache s tenantID ownerAddress =
     (case check V flt sched now cache s tenantID ownerAddress of
        (cache', s', Inl e) \<Rightarrow> (cache', s', Some e)
      | (cache', s', Inr authorized) \<Rightarrow> (cache', s', if authorized then None else Some ErrSignerNotAuthorized))"

subsection \<open>Warming the store\<close>

definition ColdOwners :: "library \<Rightarrow> faults \<Rightarrow> time \<Rightarrow> db \<Rightarrow> string list \<Rightarrow> svc_error + string list" where
  "ColdOwners L flt now s owners =
     (let distinct' = distinct_owners L owners in
      if distinct' = [] then Inr []
      else case Lookup L flt s distinct' of
        Inl e \<Rightarrow> Inl e
      | Inr known \<Rightarrow> Inr (filter (\<lambda>o'. known_fresh now known o' = None) distinct'))"

record warm_result =
  Requested :: nat
  Cold :: nat
  Positive :: nat
  Negative :: nat
  Failed :: nat

definition warm_requested :: "string list \<Rightarrow> warm_result" where
  "warm_requested owners = \<lparr>Requested = length owners, Cold = 0, Positive = 0, Negative = 0, Failed = 0\<rparr>"

definition Warm ::
  "env \<Rightarrow> faults \<Rightarrow> schedule \<Rightarrow> time \<Rightarrow> minters \<Rightarrow> db \<Rightarrow> uuid \<Rightarrow> string list \<Rightarrow>
   minters \<times> db \<times> warm_result \<times> svc_error option" where
  "Warm V flt sched now cache s tenantID owners =
     (let res = warm_requested owners in
      case ColdOwners (ev_lib V) flt now s owners of
        Inl e \<Rightarrow> (cache, s, res, Some e)
      | Inr cold \<Rightarrow>
        let res = res\<lparr>Cold := length cold\<rparr> in
        if cold = [] then (cache, s, res, None)
        else case resolveMany V (\<lambda>n. flt (n + 1)) sched now cache s tenantID cold of
          (cache', s', Inl e) \<Rightarrow> (cache', s', res, Some e)
        | (cache', s', Inr resolved) \<Rightarrow>
          let neg = length (filter (\<lambda>o'. resolved o' = Some []) cold);
              pos = length (filter (\<lambda>o'. resolved o' \<noteq> None \<and> resolved o' \<noteq> Some []) cold) in
          (cache', s', res\<lparr>Negative := neg, Positive := pos, Failed := length cold - (neg + pos)\<rparr>, None))"

subsection \<open>The store's contract\<close>

definition drop_account :: "string \<Rightarrow> shared_account_row list \<Rightarrow> shared_account_row list" where
  "drop_account w = del (\<lambda>r. sa_wallet r = w)"

lemma find_put_account:
  "find (\<lambda>r. sa_wallet r = w) (put_account new rs) =
     (if w = sa_wallet new
      then Some (case find (\<lambda>r. sa_wallet r = w) rs of None \<Rightarrow> new | Some old \<Rightarrow> merge_account new old)
      else find (\<lambda>r. sa_wallet r = w) rs)"
  unfolding put_account_def by (rule find_upsert_row) (simp add: merge_account_def)

interpretation account_table: upsert_table "\<lambda>w rs. find (\<lambda>r. sa_wallet r = w) rs" put_account drop_account sa_wallet merge_account
  by unfold_locales
     (auto simp: find_put_account drop_account_def find_del_same find_del_other merge_account_def coalesce_def
       split: option.splits)

text \<open>A signer is known for good: recording "has none" keeps it.\<close>

definition accounts_kept :: "db \<Rightarrow> db \<Rightarrow> bool" where
  "accounts_kept s s' \<longleftrightarrow> (\<forall>w r. stored_account s w = Some r \<longrightarrow>
     (\<exists>r'. stored_account s' w = Some r' \<and> (sa_signer r \<noteq> None \<longrightarrow> sa_signer r' \<noteq> None)))"

text \<open>Nothing but the store changes.\<close>

definition only_accounts :: "db \<Rightarrow> db \<Rightarrow> bool" where
  "only_accounts s s' \<longleftrightarrow> s' = s\<lparr>shared_accounts := shared_accounts s'\<rparr>"

lemma accounts_kept_refl [simp]: "accounts_kept s s" and only_accounts_refl [simp]: "only_accounts s s"
  by (simp_all add: accounts_kept_def only_accounts_def)

lemma accounts_kept_trans: "accounts_kept s t \<Longrightarrow> accounts_kept t u \<Longrightarrow> accounts_kept s u"
  unfolding accounts_kept_def by metis

lemma only_accounts_trans: "only_accounts s t \<Longrightarrow> only_accounts t u \<Longrightarrow> only_accounts s u"
proof -
  assume a: "only_accounts s t" and b: "only_accounts t u"
  from a obtain rs where t: "t = s\<lparr>shared_accounts := rs\<rparr>" by (auto simp: only_accounts_def)
  from b show ?thesis unfolding only_accounts_def t by simp
qed

lemma RecordAccount_keeps:
  "accounts_kept s (fst (RecordAccount L flt now s w sa)) \<and> only_accounts s (fst (RecordAccount L flt now s w sa))"
proof -
  have "accounts_kept s (s\<lparr>shared_accounts := put_account new (shared_accounts s)\<rparr>)" for new
    unfolding accounts_kept_def stored_account_def
    by (auto simp: find_put_account merge_account_def coalesce_def split: option.splits)
  then show ?thesis by (auto simp: RecordAccount_def only_accounts_def)
qed

lemma record_answer_keeps:
  "accounts_kept s (record_answer V sched now p s) \<and> only_accounts s (record_answer V sched now p s)"
  by (cases "snd p") (simp_all add: record_answer_def RecordAccount_keeps)

lemma record_answers_keep:
  "accounts_kept s (fold (record_answer V sched now) ps s) \<and> only_accounts s (fold (record_answer V sched now) ps s)"
proof (induction ps arbitrary: s)
  case (Cons p ps)
  show ?case using Cons.IH [of "record_answer V sched now p s"] record_answer_keeps [of s V sched now p]
    accounts_kept_trans only_accounts_trans by (simp; blast)
qed simp

subsection \<open>What a batch and the gate return\<close>

lemma resolveMany_result:
  assumes "resolveMany V flt sched now cache s tid owners = (cache', s', r)"
  shows "accounts_kept s s' \<and> only_accounts s s' \<and> cache' = fst (DeveloperJWT (ev_lib V) (ev_cry V) (ev_auth V) (ev_cfg V) flt cache s tid) \<and>
    (\<forall>f. r = Inr f \<longrightarrow> (\<exists>token. f = answered (map (\<lambda>o'. (o', lookupSigner V o' token)) (sc_order sched owners)) \<and>
       s' = fold (record_answer V sched now) (map (\<lambda>o'. (o', lookupSigner V o' token)) (sc_order sched owners)) s))"
proof -
  obtain c e where j: "DeveloperJWT (ev_lib V) (ev_cry V) (ev_auth V) (ev_cfg V) flt cache s tid = (c, e)" by fastforce
  show ?thesis
  proof (cases e)
    case (Inl x)
    with assms j show ?thesis by (auto simp: resolveMany_def)
  next
    case (Inr tok)
    let ?rs = "map (\<lambda>o'. (o', lookupSigner V o' (mt_token tok))) (sc_order sched owners)"
    have "s' = fold (record_answer V sched now) ?rs s \<and> cache' = c \<and> (\<forall>f. r = Inr f \<longrightarrow> f = answered ?rs)"
      using assms j Inr unfolding resolveMany_def Let_def
      by (auto split: option.splits sum.splits prod.splits if_splits)
    then show ?thesis using record_answers_keep [of s V sched now ?rs] j by auto
  qed
qed

lemma answered_lookup:
  "answered (map (\<lambda>o'. (o', f o')) os) w = Some sa \<longleftrightarrow> w \<in> set os \<and> f w = Inr sa"
  by (auto simp: answered_def map_of_map_restrict restrict_map_def split: option.splits sum.splits)

lemma Effective_faults: "Effective flt s tid = Inr cred \<Longrightarrow> Effective no_faults s tid = Inr cred"
  unfolding Effective_def effectiveWithKey_def by (auto simp: bind_eq_Some_conv split: if_splits option.splits)

lemma lookupSigner_Inr:
  "lookupSigner V w token = Inr sa \<Longrightarrow> sa \<noteq> [] \<Longrightarrow> GetAccountByWallet (ev_accounts V) w token = AccFound sa"
  by (auto simp: lookupSigner_def split: account_answer.splits)

lemma set_distinct_owners: "set (distinct_owners L owners) = HexAddr L ` {w \<in> set owners. IsHexAddress L w}"
  by (auto simp: distinct_owners_def)

lemma distinct_distinct_owners [simp]: "distinct (distinct_owners L owners)"
  by (simp add: distinct_owners_def)

lemma known_fresh_Lookup:
  "Lookup L flt s ws = Inr known \<Longrightarrow> known_fresh now known w = Some sa \<Longrightarrow> sa \<noteq> [] \<Longrightarrow>
     \<exists>r. stored_account s w = Some r \<and> sa_signer r = Some sa"
  by (auto simp: Lookup_def Let_def known_fresh_def account_of_row_def null_str_def
      split: if_splits option.splits)

text \<open>Why an owner is reported signable.\<close>

definition may_sign :: "env \<Rightarrow> db \<Rightarrow> effective_credential \<Rightarrow> string \<Rightarrow> bool" where
  "may_sign V s cred w \<longleftrightarrow>
     (OwnerModeConfigured (ev_cfg V) \<and> ec_aa_wallet cred \<noteq> [] \<and> w = HexAddr (ev_lib V) (ec_aa_wallet cred)) \<or>
     (ec_signer cred \<noteq> [] \<and> (\<exists>sa. lower sa = lower (HexAddr (ev_lib V) (ec_signer cred)) \<and>
        ((\<exists>r. stored_account s w = Some r \<and> sa_signer r = Some sa) \<or>
         (\<exists>token. GetAccountByWallet (ev_accounts V) w token = AccFound sa))))"

lemma signs_for_SomeD: "signs_for signer reg \<Longrightarrow> \<exists>sa. reg = Some sa \<and> sa \<noteq> [] \<and> lower sa = lower signer"
  by (simp add: signs_for_def split: option.splits)

text \<open>
  The three ways a call can end once the credential is known: without asking anybody, with the
  store read and everything fresh, or after a batch.
\<close>

lemma FilterSignable_cases:
  assumes "FilterSignable V flt sched now cache s tid owners = (cache', s', r)"
    and "Effective flt s tid = Inr cred"
    and "signer = (if ec_signer cred \<noteq> [] then HexAddr (ev_lib V) (ec_signer cred) else [])"
    and "aa = (if OwnerModeConfigured (ev_cfg V) \<and> ec_aa_wallet cred \<noteq> [] then HexAddr (ev_lib V) (ec_aa_wallet cred) else [])"
    and "asked = filter (\<lambda>o'. \<not> (aa \<noteq> [] \<and> o' = aa)) (distinct_owners (ev_lib V) owners)"
    and "base = (if aa \<noteq> [] \<and> aa \<in> set (distinct_owners (ev_lib V) owners) then [aa] else [])"
  obtains (quiet) out where "cache' = cache" "s' = s" "r = Inr (out, [], aa)" "out = [] \<or> out = base"
    | (failed) e where "s' = s \<or> (\<exists>flt' unknown. resolveMany V flt' sched now cache s tid unknown = (cache', s', Inl e))" "r = Inl e"
    | (stored) known where "cache' = cache" "s' = s" "signer \<noteq> []" "asked \<noteq> []" "Lookup (ev_lib V) (\<lambda>n. flt (n + 2)) s asked = Inr known"
        "filter (\<lambda>o'. known_fresh now known o' = None) asked = []"
        "r = Inr (base @ filter (\<lambda>o'. signs_for signer (known_fresh now known o')) asked, [], aa)"
    | (late) known e where "signer \<noteq> []" "asked \<noteq> []" "Lookup (ev_lib V) (\<lambda>n. flt (n + 2)) s asked = Inr known"
        "resolveMany V (\<lambda>n. flt (n + 3)) sched now cache s tid (filter (\<lambda>o'. known_fresh now known o' = None) asked) = (cache', s', Inl e)"
        "errors_is e DeadlineExceeded"
        "r = Inr (base @ filter (\<lambda>o'. signs_for signer (known_fresh now known o')) asked,
                  filter (\<lambda>o'. known_fresh now known o' = None) asked, aa)"
    | (batch) known resolved where "signer \<noteq> []" "asked \<noteq> []" "Lookup (ev_lib V) (\<lambda>n. flt (n + 2)) s asked = Inr known"
        "filter (\<lambda>o'. known_fresh now known o' = None) asked \<noteq> []"
        "resolveMany V (\<lambda>n. flt (n + 3)) sched now cache s tid (filter (\<lambda>o'. known_fresh now known o' = None) asked) = (cache', s', Inr resolved)"
        "r = Inr (base @ filter (\<lambda>o'. signs_for signer (case resolved o' of Some sa \<Rightarrow> Some sa | None \<Rightarrow> known_fresh now known o')) asked,
                  filter (\<lambda>o'. (case resolved o' of Some sa \<Rightarrow> Some sa | None \<Rightarrow> known_fresh now known o') = None)
                    (filter (\<lambda>o'. known_fresh now known o' = None) asked), aa)"
proof -
  let ?asked = asked
  consider "signer = [] \<and> aa = []" | "\<not> (signer = [] \<and> aa = [])" "asked = [] \<or> signer = []"
    | "\<not> (asked = [] \<or> signer = [])" by blast
  then show thesis
  proof cases
    case 1
    then show thesis using assms quiet by (simp add: FilterSignable_def Let_def)
  next
    case 2
    with assms show thesis using quiet [of base]
      unfolding FilterSignable_def Let_def assms(2) sum.case assms(3-6) [symmetric] by auto
  next
    case 3
    have eq: "FilterSignable V flt sched now cache s tid owners =
       (case Lookup (ev_lib V) (\<lambda>n. flt (n + 2)) s asked of
          Inl e \<Rightarrow> (cache, s, Inl e)
        | Inr known \<Rightarrow>
          if filter (\<lambda>o'. known_fresh now known o' = None) asked = []
          then (cache, s, Inr (base @ filter (\<lambda>o'. signs_for signer (known_fresh now known o')) asked, [], aa))
          else case resolveMany V (\<lambda>n. flt (n + 3)) sched now cache s tid (filter (\<lambda>o'. known_fresh now known o' = None) asked) of
            (cache', s', Inl e) \<Rightarrow>
              if errors_is e DeadlineExceeded
              then (cache', s', Inr (base @ filter (\<lambda>o'. signs_for signer (known_fresh now known o')) asked,
                      filter (\<lambda>o'. known_fresh now known o' = None) asked, aa))
              else (cache', s', Inl e)
          | (cache', s', Inr resolved) \<Rightarrow>
              (cache', s', Inr (base @ filter (\<lambda>o'. signs_for signer (case resolved o' of Some sa \<Rightarrow> Some sa | None \<Rightarrow> known_fresh now known o')) asked,
                  filter (\<lambda>o'. (case resolved o' of Some sa \<Rightarrow> Some sa | None \<Rightarrow> known_fresh now known o') = None)
                    (filter (\<lambda>o'. known_fresh now known o' = None) asked), aa)))"
      using 3 unfolding FilterSignable_def assms(2) sum.case Let_def assms(3-6) [symmetric] by auto
    show thesis
    proof (cases "Lookup (ev_lib V) (\<lambda>n. flt (n + 2)) s asked")
      case (Inl e)
      show thesis by (rule failed [of e]) (use assms(1) Inl in \<open>simp_all add: eq\<close>)
    next
      case (Inr known)
      let ?u = "filter (\<lambda>o'. known_fresh now known o' = None) asked"
      obtain c t res where rm: "resolveMany V (\<lambda>n. flt (n + 3)) sched now cache s tid ?u = (c, t, res)" by (metis prod_cases3)
      show thesis
      proof (cases "?u = []")
        case True
        show thesis by (rule stored [OF _ _ _ _ Inr True]) (use 3 assms(1) True Inr in \<open>simp_all add: eq\<close>)
      next
        case False
        show thesis
        proof (cases res)
          case (Inl e)
          then show thesis
            using assms(1) Inr False rm failed [of e] late [of known e] 3 by (auto simp: eq split: if_splits)
        next
          case res: (Inr resolved)
          note out = assms(1) [unfolded eq Inr rm res sum.case prod.case if_not_P [OF False], symmetric]
          show thesis by (rule batch [OF _ _ Inr False]) (use 3 rm res out in \<open>simp_all only: prod.inject de_Morgan_disj not_False_eq_True\<close>)
        qed
      qed
    qed
  qed
qed

lemma FilterSignable_needs_credential:
  "FilterSignable V flt sched now cache s tid owners = (cache', s', Inr out) \<Longrightarrow> \<exists>cred. Effective flt s tid = Inr cred"
  by (cases "Effective flt s tid") (auto simp: FilterSignable_def)

lemma FilterSignable_keeps:
  assumes "FilterSignable V flt sched now cache s tid owners = (cache', s', r)"
  shows "accounts_kept s s' \<and> only_accounts s s'"
proof (cases "Effective flt s tid")
  case (Inl e)
  then show ?thesis using assms by (simp add: FilterSignable_def)
next
  case (Inr cred)
  show ?thesis by (rule FilterSignable_cases [OF assms Inr refl refl refl refl]) (auto dest: resolveMany_result)
qed

lemma FilterSignable_sound:
  assumes f: "FilterSignable V flt sched now cache s tid owners = (cache', s', Inr (out, unresolved, aa'))"
    and eff: "Effective flt s tid = Inr cred" and w: "w \<in> set out"
  shows "may_sign V s cred w \<and> w \<in> set (distinct_owners (ev_lib V) owners)"
proof -
  let ?signer = "if ec_signer cred \<noteq> [] then HexAddr (ev_lib V) (ec_signer cred) else []"
  let ?aa = "if OwnerModeConfigured (ev_cfg V) \<and> ec_aa_wallet cred \<noteq> [] then HexAddr (ev_lib V) (ec_aa_wallet cred) else []"
  let ?all = "distinct_owners (ev_lib V) owners"
  let ?asked = "filter (\<lambda>o'. \<not> (?aa \<noteq> [] \<and> o' = ?aa)) ?all"
  let ?base = "if ?aa \<noteq> [] \<and> ?aa \<in> set ?all then [?aa] else []"
  have base: "may_sign V s cred w \<and> w \<in> set ?all" if "w \<in> set ?base"
    using that by (auto simp: may_sign_def split: if_splits)
  have signer: "may_sign V s cred w"
    if "?signer \<noteq> []" "lower sa = lower ?signer"
       "(\<exists>r. stored_account s w = Some r \<and> sa_signer r = Some sa) \<or> (\<exists>token. GetAccountByWallet (ev_accounts V) w token = AccFound sa)" for sa
    using that unfolding may_sign_def by (auto split: if_splits)
  have known: "may_sign V s cred w" if "?signer \<noteq> []" "Lookup (ev_lib V) flt' s ws = Inr known" "signs_for ?signer (known_fresh now known w)"
    for flt' ws known using that signer known_fresh_Lookup signs_for_SomeD by metis
  show ?thesis
  proof (rule FilterSignable_cases [OF f eff refl refl refl refl])
    fix o' assume "Inr (out, unresolved, aa') = Inr (o', [], ?aa)" "o' = [] \<or> o' = ?base"
    then show ?thesis using base w by auto
  next
    fix e assume "Inr (out, unresolved, aa') = Inl e"
    then show ?thesis by simp
  next
    fix known assume a: "?signer \<noteq> []" "Lookup (ev_lib V) (\<lambda>n. flt (n + 2)) s ?asked = Inr known"
      and r: "Inr (out, unresolved, aa') = Inr (?base @ filter (\<lambda>o'. signs_for ?signer (known_fresh now known o')) ?asked, [], ?aa)"
    from r have "out = ?base @ filter (\<lambda>o'. signs_for ?signer (known_fresh now known o')) ?asked" by blast
    with w consider "w \<in> set ?base" | "w \<in> set ?all" "signs_for ?signer (known_fresh now known w)" by auto
    then show ?thesis using base known [OF a] by cases blast+
  next
    fix known e assume a: "?signer \<noteq> []" "Lookup (ev_lib V) (\<lambda>n. flt (n + 2)) s ?asked = Inr known"
      and r: "Inr (out, unresolved, aa') = Inr (?base @ filter (\<lambda>o'. signs_for ?signer (known_fresh now known o')) ?asked,
          filter (\<lambda>o'. known_fresh now known o' = None) ?asked, ?aa)"
    from r have "out = ?base @ filter (\<lambda>o'. signs_for ?signer (known_fresh now known o')) ?asked" by blast
    with w consider "w \<in> set ?base" | "w \<in> set ?all" "signs_for ?signer (known_fresh now known w)" by auto
    then show ?thesis using base known [OF a] by cases blast+
  next
    fix known resolved
    let ?reg = "\<lambda>o'. case resolved o' of Some sa \<Rightarrow> Some sa | None \<Rightarrow> known_fresh now known o'"
    assume a: "?signer \<noteq> []" "Lookup (ev_lib V) (\<lambda>n. flt (n + 2)) s ?asked = Inr known"
      and b: "resolveMany V (\<lambda>n. flt (n + 3)) sched now cache s tid (filter (\<lambda>o'. known_fresh now known o' = None) ?asked) = (cache', s', Inr resolved)"
      and r: "Inr (out, unresolved, aa') = Inr (?base @ filter (\<lambda>o'. signs_for ?signer (?reg o')) ?asked,
          filter (\<lambda>o'. ?reg o' = None) (filter (\<lambda>o'. known_fresh now known o' = None) ?asked), ?aa)"
    from r have "out = ?base @ filter (\<lambda>o'. signs_for ?signer (?reg o')) ?asked" by blast
    with w consider "w \<in> set ?base" | "w \<in> set ?all" "signs_for ?signer (?reg w)" by auto
    then show ?thesis
    proof cases
      case 2
      have "may_sign V s cred w"
      proof (cases "resolved w")
        case None
        with 2 show ?thesis using known [OF a] by simp
      next
        case (Some sa)
        then obtain token where "lookupSigner V w token = Inr sa"
          using resolveMany_result [OF b] answered_lookup by fastforce
        moreover have "sa \<noteq> []" "lower sa = lower ?signer" using 2(2) Some by (simp_all add: signs_for_def)
        ultimately show ?thesis using signer a(1) lookupSigner_Inr by metis
      qed
      with 2 show ?thesis by blast
    qed (use base in blast)
  qed
qed

subsection \<open>A permission is never invented\<close>

lemma MaySignFor_reasons:
  assumes "MaySignFor V flt sched now cache s tid owner = (cache', s', r)"
  shows "accounts_kept s s' \<and> only_accounts s s' \<and>
    (r = None \<longrightarrow> IsHexAddress (ev_lib V) owner \<and>
       (\<exists>cred. Effective flt s tid = Inr cred \<and> may_sign V s cred (HexAddr (ev_lib V) owner)))"
proof (cases "IsHexAddress (ev_lib V) owner")
  case False
  then show ?thesis using assms by (auto simp: MaySignFor_def check_def)
next
  case True
  obtain c t res where f: "FilterSignable V flt sched now cache s tid [owner] = (c, t, res)" by (metis prod_cases3)
  have keep: "s' = t" using assms True f by (auto simp: MaySignFor_def check_def split: sum.splits)
  have "\<exists>cred. Effective flt s tid = Inr cred \<and> may_sign V s cred (HexAddr (ev_lib V) owner)" if ok: "r = None"
  proof -
    obtain out u aa where res: "res = Inr (out, u, aa)" "length out = 1"
      using assms True f ok by (auto simp: MaySignFor_def check_def split: sum.splits if_splits prod.splits)
    then obtain w where w: "w \<in> set out" by (cases out) auto
    obtain cred where e: "Effective flt s tid = Inr cred" using FilterSignable_needs_credential f res by blast
    have "may_sign V s cred w" "w = HexAddr (ev_lib V) owner"
      using FilterSignable_sound [OF f [unfolded res(1)] e w] set_distinct_owners [of "ev_lib V" "[owner]"] True by auto
    with e show ?thesis by blast
  qed
  then show ?thesis using FilterSignable_keeps [OF f] True keep by blast
qed

text \<open>
  C17. A tenant is told it may sign for an owner only for a reason: the owner is the tenant's own
  configured wallet, or the signer registered on the owner's account, as recorded or as
  accounts-api answers now, is the tenant's effective signer. Asking writes nothing but the
  memory of the answers, and never forgets a registered signer.
\<close>

theorem MaySignFor_sound:
  assumes "MaySignFor V flt sched now cache s tid owner = (cache', s', r)"
  shows "accounts_kept s s' \<and> only_accounts s s' \<and>
    (r = None \<longrightarrow> IsHexAddress (ev_lib V) owner \<and>
       (\<exists>cred. Effective flt s tid = Inr cred \<and> may_sign V s cred (HexAddr (ev_lib V) owner)))"
  using MaySignFor_reasons [OF assms] .

subsection \<open>A large fleet converges\<close>

text \<open>What the client library promises about canonical addresses.\<close>

definition hex_law :: "library \<Rightarrow> bool" where
  "hex_law L \<longleftrightarrow> (\<forall>w. IsHexAddress L w \<longrightarrow> IsHexAddress L (HexAddr L w))"

text \<open>accounts-api is up: it answers every lookup, with no signer or with an address.\<close>

definition api_answers :: "env \<Rightarrow> bool" where
  "api_answers V \<longleftrightarrow> (\<forall>w token. GetAccountByWallet (ev_accounts V) w token = AccNotFound \<or>
     (\<exists>sa. GetAccountByWallet (ev_accounts V) w token = AccFound sa \<and> (sa = [] \<or> IsHexAddress (ev_lib V) sa)))"

text \<open>A batch makes progress: of what it was asked it reaches something, and recording works.\<close>

definition progresses :: "schedule \<Rightarrow> bool" where
  "progresses sched \<longleftrightarrow> (\<forall>ws. set (sc_order sched ws) \<subseteq> set ws \<and> (ws \<noteq> [] \<longrightarrow> sc_order sched ws \<noteq> [])) \<and>
     (\<forall>w. \<not> sc_faults sched w)"

text \<open>The answers of a sequence of renders, each with its own database faults, schedule and time.\<close>

type_synonym signable_answer = "svc_error + string list \<times> string list \<times> string"

fun renders ::
  "env \<Rightarrow> uuid \<Rightarrow> string list \<Rightarrow> (faults \<times> schedule \<times> time) list \<Rightarrow> minters \<Rightarrow> db \<Rightarrow> signable_answer list" where
  "renders V tid owners [] cache s = []"
| "renders V tid owners ((flt, sched, now) # rs) cache s =
     (case FilterSignable V flt sched now cache s tid owners of (cache', s', r) \<Rightarrow> r # renders V tid owners rs cache' s')"

definition reports_unresolved :: "signable_answer \<Rightarrow> bool" where
  "reports_unresolved r \<longleftrightarrow> (case r of Inl _ \<Rightarrow> False | Inr (_, unresolved, _) \<Rightarrow> unresolved \<noteq> [])"

text \<open>An owner no render of the window starting at \<open>t0\<close> asks about again.\<close>

definition owner_settled :: "time \<Rightarrow> db \<Rightarrow> string \<Rightarrow> bool" where
  "owner_settled t0 s w \<longleftrightarrow> (\<exists>r. stored_account s w = Some r \<and> (null_str (sa_signer r) \<noteq> [] \<or> t0 \<le> sa_checked r))"

lemma settled_fresh:
  assumes "Lookup L flt s ws = Inr known" and "w \<in> set ws" and "\<forall>x\<in>set ws. IsHexAddress L x \<and> HexAddr L x = x"
    and "owner_settled t0 s w" and "now < t0 + negativeRecheckAfter"
  shows "known_fresh now known w \<noteq> None"
proof -
  have "known w = map_option account_of_row (stored_account s w)"
    using assms(1-3) by (force simp: Lookup_def Let_def split: if_splits)
  with assms(4,5) show ?thesis by (auto simp: owner_settled_def known_fresh_def Fresh_def account_of_row_def)
qed

lemma RecordAccount_settles:
  assumes "address_laws L" and "IsHexAddress L w" and "HexAddr L w = w" and "sa = [] \<or> IsHexAddress L sa" and "\<not> flt 0"
    and "t0 \<le> now"
  shows "owner_settled t0 (fst (RecordAccount L flt now s w sa)) w"
  using assms unfolding RecordAccount_def owner_settled_def stored_account_def
  by (auto simp: find_put_account merge_account_def split: option.splits)

lemma RecordAccount_settled:
  assumes "owner_settled t0 s v" and "t0 \<le> now"
  shows "owner_settled t0 (fst (RecordAccount L flt now s w sa)) v"
  using assms unfolding RecordAccount_def owner_settled_def stored_account_def
  by (auto simp: find_put_account merge_account_def split: option.splits)

lemma record_answer_settled:
  "owner_settled t0 s v \<Longrightarrow> t0 \<le> now \<Longrightarrow> owner_settled t0 (record_answer V sched now p s) v"
  by (simp add: record_answer_def RecordAccount_settled split: sum.split)

lemma record_answers_settled:
  "owner_settled t0 s v \<Longrightarrow> t0 \<le> now \<Longrightarrow> owner_settled t0 (fold (record_answer V sched now) ps s) v"
  by (induction ps arbitrary: s) (simp_all add: record_answer_settled)

lemma record_answers_settle:
  assumes "address_laws (ev_lib V)" and "api_answers V" and "progresses sched" and "t0 \<le> now"
    and "w \<in> set ws" and "IsHexAddress (ev_lib V) w" and "HexAddr (ev_lib V) w = w"
  shows "owner_settled t0 (fold (record_answer V sched now) (map (\<lambda>o'. (o', lookupSigner V o' token)) ws) s) w"
  using assms(5)
proof (induction ws arbitrary: s)
  case (Cons x ws)
  let ?s = "record_answer V sched now (x, lookupSigner V x token) s"
  have "owner_settled t0 ?s w" if "w = x"
    using that assms(2-4) RecordAccount_settles [OF assms(1,6,7)] unfolding api_answers_def progresses_def
    by (metis (no_types, lifting) record_answer_def lookupSigner_def account_answer.simps fst_conv snd_conv sum.case(2))
  then show ?case using Cons by (cases "w = x") (simp_all add: record_answers_settled assms(4))
qed simp

lemma resolveMany_state:
  assumes "resolveMany V flt sched now cache s tid owners = (cache', s', r)"
  shows "(s' = s \<or> (\<exists>ps. s' = fold (record_answer V sched now) ps s)) \<and> (\<forall>e. r = Inl e \<longrightarrow> \<not> errors_is e DeadlineExceeded)"
proof -
  have "\<not> errors_is e DeadlineExceeded" if "DeveloperJWT (ev_lib V) (ev_cry V) (ev_auth V) (ev_cfg V) flt cache s tid = (c, Inl e)" for c e
    using that unfolding DeveloperJWT_def minterFor_def effectiveWithKey_def Let_def
    by (auto split: if_splits option.splits prod.splits sum.splits)
  then show ?thesis using assms unfolding resolveMany_def Let_def
    by (fastforce split: option.splits sum.splits prod.splits if_splits)
qed

definition unsettled :: "env \<Rightarrow> string list \<Rightarrow> time \<Rightarrow> db \<Rightarrow> string set" where
  "unsettled V owners t0 s = {w \<in> set (distinct_owners (ev_lib V) owners). \<not> owner_settled t0 s w}"

lemma finite_unsettled [simp]: "finite (unsettled V owners t0 s)"
  by (simp add: unsettled_def)

lemma resolveMany_unsettled:
  assumes "resolveMany V flt sched now cache s tid ws = (cache', s', r)" and "t0 \<le> now"
  shows "unsettled V owners t0 s' \<subseteq> unsettled V owners t0 s"
  using resolveMany_state [OF assms(1)] record_answers_settled [OF _ assms(2)] by (auto simp: unsettled_def)

lemma render_step:
  assumes "address_laws (ev_lib V)" and "hex_law (ev_lib V)" and "api_answers V" and "progresses sched"
    and "t0 \<le> now" and "now < t0 + negativeRecheckAfter"
    and f: "FilterSignable V flt sched now cache s tid owners = (cache', s', r)"
  shows "unsettled V owners t0 s' \<subseteq> unsettled V owners t0 s \<and>
    (reports_unresolved r \<longrightarrow> unsettled V owners t0 s' \<subset> unsettled V owners t0 s)"
proof (cases "Effective flt s tid")
  case (Inl e)
  then show ?thesis using f by (auto simp: FilterSignable_def reports_unresolved_def)
next
  case (Inr cred)
  let ?all = "distinct_owners (ev_lib V) owners"
  have canon: "IsHexAddress (ev_lib V) w \<and> HexAddr (ev_lib V) w = w" if "w \<in> set ?all" for w
    using that assms(1,2) by (auto simp: set_distinct_owners hex_law_def HexAddr_idem)
  show ?thesis
  proof (rule FilterSignable_cases [OF f Inr refl refl refl refl], goal_cases)
    case (5 known resolved)
    define aa where "aa = (if OwnerModeConfigured (ev_cfg V) \<and> ec_aa_wallet cred \<noteq> [] then HexAddr (ev_lib V) (ec_aa_wallet cred) else [])"
    define asked where "asked = filter (\<lambda>o'. \<not> (aa \<noteq> [] \<and> o' = aa)) ?all"
    define unknown where "unknown = filter (\<lambda>o'. known_fresh now known o' = None) asked"
    note batch = 5 [folded aa_def, folded asked_def, folded unknown_def]
    obtain token where s': "s' = fold (record_answer V sched now) (map (\<lambda>o'. (o', lookupSigner V o' token)) (sc_order sched unknown)) s"
      using resolveMany_result [OF batch(5)] by blast
    obtain w where w: "w \<in> set (sc_order sched unknown)" "w \<in> set unknown"
      using assms(4) batch(4) unfolding progresses_def by (metis last_in_set subsetD)
    have all: "w \<in> set ?all" "w \<in> set asked" using w(2) by (simp_all add: unknown_def asked_def)
    have "owner_settled t0 s' w" unfolding s' using record_answers_settle [OF assms(1,3,4,5) w(1)] canon [OF all(1)] by blast
    moreover have "\<not> owner_settled t0 s w"
      using settled_fresh [OF batch(3) all(2) _ _ assms(6)] canon w(2) by (auto simp: unknown_def asked_def)
    ultimately show ?thesis using resolveMany_unsettled [OF batch(5) assms(5)] all(1) by (auto simp: unsettled_def)
  qed (auto simp: reports_unresolved_def dest: resolveMany_unsettled [OF _ assms(5), THEN subsetD] dest: resolveMany_state)
qed

lemma renders_bound:
  assumes "address_laws (ev_lib V)" and "hex_law (ev_lib V)" and "api_answers V"
    and "\<forall>(flt, sched, now)\<in>set rs. progresses sched \<and> t0 \<le> now \<and> now < t0 + negativeRecheckAfter"
  shows "length (filter reports_unresolved (renders V tid owners rs cache s)) \<le> card (unsettled V owners t0 s)"
  using assms(4)
proof (induction rs arbitrary: cache s)
  case (Cons q rs)
  obtain flt sched now where q: "q = (flt, sched, now)" by (metis prod_cases3)
  obtain c t r where f: "FilterSignable V flt sched now cache s tid owners = (c, t, r)" by (metis prod_cases3)
  have ok: "progresses sched" "t0 \<le> now" "now < t0 + negativeRecheckAfter" using Cons.prems q by auto
  have IH: "length (filter reports_unresolved (renders V tid owners rs c t)) \<le> card (unsettled V owners t0 t)"
    using Cons by simp
  have "card (unsettled V owners t0 t) + (if reports_unresolved r then 1 else 0) \<le> card (unsettled V owners t0 s)"
    using render_step [OF assms(1-3) ok f] by (auto simp: card_mono psubset_card_mono Suc_leI)
  with IH show ?case by (auto simp: q f split: if_splits)
qed simp

text \<open>
  C25. A cold fleet converges: within a day, however small the share of the owners each render reaches
  before its budget ends, and whatever database reads fail, at most as many renders as there are
  distinct owners report an owner as unresolved, since each such render settles one for good.
\<close>

theorem FilterSignable_converges:
  assumes "address_laws (ev_lib V)" and "hex_law (ev_lib V)" and "api_answers V"
    and "\<forall>(flt, sched, now)\<in>set rs. progresses sched \<and> t0 \<le> now \<and> now < t0 + negativeRecheckAfter"
  shows "length (filter reports_unresolved (renders V tid owners rs cache s)) \<le> length (distinct_owners (ev_lib V) owners)"
proof -
  have "card (unsettled V owners t0 s) \<le> card (set (distinct_owners (ev_lib V) owners))"
    by (rule card_mono) (auto simp: unsettled_def)
  then show ?thesis using renders_bound [OF assms] le_trans by (metis distinct_card distinct_distinct_owners)
qed

subsection \<open>A lookup that ran out of time\<close>

text \<open>
  An owner nobody got to in time is reported by the display gate as unresolved, but the execution
  gate, which drops that list, answers the policy denial: a slow accounts-api reads as "not
  authorized". Nothing is recorded about the owner, so the same question later can be granted.
\<close>

theorem MaySignFor_unresolved_denied:
  assumes "IsHexAddress (ev_lib V) owner" and "w = HexAddr (ev_lib V) owner"
    and "Effective flt s tid = Inr cred" and "ec_signer cred \<noteq> []" and "HexAddr (ev_lib V) (ec_signer cred) \<noteq> []"
    and "ec_aa_wallet cred = []" and "stored_account s w = None" and "\<not> flt 2"
    and "DeveloperJWT (ev_lib V) (ev_cry V) (ev_auth V) (ev_cfg V) (\<lambda>n. flt (n + 3)) cache s tid = (cache', Inr minted)"
    and "sc_order sched [w] = []"
  shows "FilterSignable V flt sched now cache s tid [owner] = (cache', s, Inr ([], [w], [])) \<and>
    MaySignFor V flt sched now cache s tid owner = (cache', s, Some ErrSignerNotAuthorized)"
proof -
  have all: "distinct_owners (ev_lib V) [owner] = [w]" using assms(1,2) by (simp add: distinct_owners_def)
  have known: "\<exists>known. Lookup (ev_lib V) (\<lambda>n. flt (n + 2)) s [w] = Inr known \<and> known w = None"
    using assms(7,8) by (simp add: Lookup_def numeral_2_eq_2)
  then obtain known where k: "Lookup (ev_lib V) (\<lambda>n. flt (n + 2)) s [w] = Inr known" "known_fresh now known w = None"
    by (auto simp: known_fresh_def)
  have r: "resolveMany V (\<lambda>n. flt (n + 3)) sched now cache s tid [w] = (cache', s, Inr (\<lambda>_. None))"
    unfolding resolveMany_def assms(9,10) by (simp add: answered_def fun_eq_iff)
  have "FilterSignable V flt sched now cache s tid [owner] = (cache', s, Inr ([], [w], []))"
    unfolding FilterSignable_def assms(3) using assms(4-6) k r by (simp add: all signs_for_def del: One_nat_def add_2_eq_Suc')
  then show ?thesis using assms(1) by (simp add: MaySignFor_def check_def)
qed

subsection \<open>Concrete runs\<close>

definition demo_env :: env where
  "demo_env = \<lparr>ev_lib = demo_library, ev_cry = demo_crypto, ev_eth = demo_eth, ev_auth = demo_auth, ev_cfg = demo_settings_chain,
     ev_accounts = \<lparr>GetAccountByWallet = (\<lambda>w t. if w = ''0xown'' then AccFound ''0xSIG'' else AccNotFound),
       GetAccountByEmail = (\<lambda>e t. AccNotFound), CreateAccount = (\<lambda>e a t. Some ''0xNEW'')\<rparr>\<rparr>"

definition one_at_a_time :: schedule where
  "one_at_a_time = \<lparr>sc_order = take 1, sc_faults = (\<lambda>_. False)\<rparr>"

definition out_of_time :: schedule where
  "out_of_time = \<lparr>sc_order = (\<lambda>_. []), sc_faults = (\<lambda>_. False)\<rparr>"

lemma demo_hex_law: "hex_law demo_library"
proof -
  have "take 2 (lower w) = ''0x''" if "take 2 w = ''0x''" for w
    using that by (simp add: lower_def take_map) code_simp
  moreover have "take 2 ''0x0'' = ''0x''" by simp
  ultimately show ?thesis by (simp add: hex_law_def demo_library_def)
qed

lemma demo_api_answers: "api_answers demo_env"
  by (simp add: api_answers_def demo_env_def demo_library_def)

lemma one_at_a_time_progresses: "progresses one_at_a_time"
  by (auto simp: progresses_def one_at_a_time_def neq_Nil_conv dest: in_set_takeD)

lemma FilterSignable_converges_witness:
  "length (filter reports_unresolved (renders demo_env ''cu'' [''0xA'', ''0xa'', ''0xOWN''] [(no_faults, one_at_a_time, 5), (no_faults, one_at_a_time, 9)]
     Map.empty demo_keys_db)) \<le> length (distinct_owners demo_library [''0xA'', ''0xa'', ''0xOWN''])"
proof -
  have "\<forall>(flt, sched, now)\<in>set [(no_faults, one_at_a_time, 5), (no_faults, one_at_a_time, 9)].
      progresses sched \<and> 5 \<le> now \<and> now < 5 + negativeRecheckAfter"
    by (simp add: one_at_a_time_progresses negativeRecheckAfter_def second_def)
  from FilterSignable_converges [OF _ _ demo_api_answers this] show ?thesis
    by (simp add: demo_env_def demo_address_laws demo_hex_law)
qed

lemma MaySignFor_unresolved_denied_witness:
  "\<exists>c. MaySignFor demo_env no_faults out_of_time 0 Map.empty demo_keys_db ''cu'' ''0xOWN'' = (c, demo_keys_db, Some ErrSignerNotAuthorized)"
proof -
  obtain c minted where j: "DeveloperJWT demo_library demo_crypto demo_auth demo_settings_chain no_faults Map.empty demo_keys_db ''cu'' = (c, Inr minted)"
    using demo_DeveloperJWT by metis
  have e: "Effective no_faults demo_keys_db ''cu'' = Inr \<lparr>ec_tenant = ''op'', ec_client_id = ''0xLIC'', ec_signer = ''0xsig'', ec_aa_wallet = []\<rparr>"
    by (simp add: Effective_def demo_keys_effective)
  have lib: "IsHexAddress (ev_lib demo_env) ''0xOWN''" "HexAddr (ev_lib demo_env) ''0xsig'' \<noteq> []"
      "stored_account demo_keys_db (HexAddr (ev_lib demo_env) ''0xOWN'') = None"
    by code_simp+
  have "MaySignFor demo_env no_faults out_of_time 0 Map.empty demo_keys_db ''cu'' ''0xOWN'' = (c, demo_keys_db, Some ErrSignerNotAuthorized)"
    by (rule MaySignFor_unresolved_denied [where w = "HexAddr (ev_lib demo_env) ''0xOWN''", OF lib(1) refl e, THEN conjunct2])
       (use j lib in \<open>simp_all add: demo_env_def out_of_time_def\<close>)
  then show ?thesis by blast
qed

lemma demo_MaySignFor:
  "\<exists>c s'. MaySignFor demo_env no_faults one_at_a_time 0 Map.empty demo_keys_db ''cu'' ''0xown'' = (c, s', None)"
proof -
  obtain c minted where j: "DeveloperJWT demo_library demo_crypto demo_auth demo_settings_chain no_faults Map.empty demo_keys_db ''cu'' = (c, Inr minted)"
    using demo_DeveloperJWT by metis
  have e: "Effective no_faults demo_keys_db ''cu'' = Inr \<lparr>ec_tenant = ''op'', ec_client_id = ''0xLIC'', ec_signer = ''0xsig'', ec_aa_wallet = []\<rparr>"
    by (simp add: Effective_def demo_keys_effective)
  have lib: "HexAddr demo_library ''0xsig'' = ''0xsig''" "HexAddr demo_library ''0xown'' = ''0xown''"
      "IsHexAddress demo_library ''0xown''" "stored_account demo_keys_db ''0xown'' = None" "lower ''0xSIG'' = lower ''0xsig''"
    by code_simp+
  have "\<exists>known. Lookup demo_library (\<lambda>n. no_faults (n + 2)) demo_keys_db [''0xown''] = Inr known \<and> known_fresh 0 known ''0xown'' = None"
    by (simp add: Lookup_def lib known_fresh_def)
  then obtain known where k: "Lookup demo_library (\<lambda>n. no_faults (n + 2)) demo_keys_db [''0xown''] = Inr known" "known_fresh 0 known ''0xown'' = None"
    by blast
  have d: "distinct_owners demo_library [''0xown''] = [''0xown'']" by (simp add: distinct_owners_def lib)
  have "\<exists>s'. resolveMany demo_env no_faults one_at_a_time 0 Map.empty demo_keys_db ''cu'' [''0xown''] = (c, s', Inr [''0xown'' \<mapsto> ''0xSIG''])"
    by (simp add: resolveMany_def demo_env_def j one_at_a_time_def lookupSigner_def answered_def fun_eq_iff)
  then obtain s' where r: "resolveMany demo_env no_faults one_at_a_time 0 Map.empty demo_keys_db ''cu'' [''0xown''] = (c, s', Inr [''0xown'' \<mapsto> ''0xSIG''])"
    by blast
  have "FilterSignable demo_env no_faults one_at_a_time 0 Map.empty demo_keys_db ''cu'' [''0xown''] = (c, s', Inr ([''0xown''], [], []))"
    unfolding FilterSignable_def e using k r lib by (simp add: demo_env_def d signs_for_def del: One_nat_def)
  then show ?thesis using lib by (simp add: MaySignFor_def check_def demo_env_def)
qed

lemma MaySignFor_sound_witness:
  "\<exists>c s'. MaySignFor demo_env no_faults one_at_a_time 0 Map.empty demo_keys_db ''cu'' ''0xown'' = (c, s', None) \<and>
     only_accounts demo_keys_db s' \<and>
     (\<exists>cred. Effective no_faults demo_keys_db ''cu'' = Inr cred \<and> may_sign demo_env demo_keys_db cred (HexAddr demo_library ''0xown''))"
proof -
  obtain c s' where m: "MaySignFor demo_env no_faults one_at_a_time 0 Map.empty demo_keys_db ''cu'' ''0xown'' = (c, s', None)"
    using demo_MaySignFor by blast
  with MaySignFor_sound [OF m] show ?thesis by (auto simp: demo_env_def)
qed

end
