(* ===== verification/Mail.thy ===== *)
theory Mail
  imports Schema
begin

text \<open>
  Notification email: the Postmark client (\<open>gateway/postmark.go\<close>) and the one email provisioning
  sends (\<open>service/access_email.go\<close>). What Postmark answers a request is an argument.
\<close>

subsection \<open>The Postmark client\<close>

type_synonym template_model = "(string \<times> string) list"

datatype postmark_request =
    EmailWithTemplate (pm_from: string) (pm_to: string) (pm_alias: string) (pm_model: template_model)
      (pm_track: bool) (pm_metadata: template_model)
  | PutTemplate (pm_alias: string) (pm_name: string) (pm_subject: string) (pm_html: string) (pm_text: string)
  | PostTemplate (pm_alias: string) (pm_name: string) (pm_subject: string) (pm_html: string) (pm_text: string)

text \<open>A body is absent, undecodable, or carries the three fields read from it.\<close>

datatype postmark_body = NoBody | BadBody | Body (pb_code: int) (pb_message: string) (pb_id: string)

datatype postmark_reply = Unreachable | Reply (pr_status: nat) (pr_body: postmark_body)

type_synonym postmark = "postmark_request \<Rightarrow> postmark_reply"

definition postmark_do :: "postmark \<Rightarrow> postmark_request \<Rightarrow> svc_error + int \<times> string" where
  "postmark_do http req =
     (case http req of
        Unreachable \<Rightarrow> Inl (Remote ''postmark request'')
      | Reply status body \<Rightarrow>
        if 500 \<le> status then Inl (Remote ''postmark status'')
        else case body of
          NoBody \<Rightarrow> Inr (0, [])
        | BadBody \<Rightarrow> Inl (Remote ''decode postmark response'')
        | Body code _ mid \<Rightarrow> Inr (code, mid))"

text \<open>\<open>token\<close> is the trimmed server token.\<close>

definition postmark_Enabled :: "string \<Rightarrow> bool" where
  "postmark_Enabled token \<longleftrightarrow> token \<noteq> []"

definition NewPostmarkAPI :: "string \<Rightarrow> string" where
  "NewPostmarkAPI serverToken = TrimSpace serverToken"

definition SendTemplated ::
  "postmark \<Rightarrow> string \<Rightarrow> string \<Rightarrow> string \<Rightarrow> string \<Rightarrow> template_model \<Rightarrow> svc_error option" where
  "SendTemplated http token from to templateAlias model =
     (if \<not> postmark_Enabled token then None
      else case postmark_do http (EmailWithTemplate from to templateAlias model False []) of
        Inl e \<Rightarrow> Some e
      | Inr (code, _) \<Rightarrow> if code \<noteq> 0 then Some (Remote ''postmark send error'') else None)"

definition SendInvitation ::
  "postmark \<Rightarrow> string \<Rightarrow> string \<Rightarrow> string \<Rightarrow> string \<Rightarrow> template_model \<Rightarrow> template_model \<Rightarrow> svc_error + string" where
  "SendInvitation http token from to templateAlias model metadata =
     (if \<not> postmark_Enabled token then Inr []
      else case postmark_do http (EmailWithTemplate from to templateAlias model True metadata) of
        Inl e \<Rightarrow> Inl e
      | Inr (code, mid) \<Rightarrow> if code \<noteq> 0 then Inl (Remote ''postmark send error'') else Inr mid)"

text \<open>Update by alias, then create when Postmark does not know the alias (or the update broke).\<close>

definition UpsertTemplate ::
  "postmark \<Rightarrow> string \<Rightarrow> string \<Rightarrow> string \<Rightarrow> string \<Rightarrow> string \<Rightarrow> string \<Rightarrow> svc_error option" where
  "UpsertTemplate http token alias name subject html text' =
     (if \<not> postmark_Enabled token then Some (BadRequest ''postmark server token not configured'')
      else let update = postmark_do http (PutTemplate alias name subject html text') in
      if \<exists>mid. update = Inr (0, mid) then None
      else if \<exists>code mid. update = Inr (code, mid) \<and> code \<noteq> 1101 then Some (Remote ''postmark update template error'')
      else case postmark_do http (PostTemplate alias name subject html text') of
        Inl e \<Rightarrow> Some e
      | Inr (code, _) \<Rightarrow> if code \<noteq> 0 then Some (Remote ''postmark create template error'') else None)"

subsection \<open>The access email\<close>

definition defaultProvisionTemplateAlias :: string where
  "defaultProvisionTemplateAlias = ''fleet-access-granted''"

definition TrimSuffix :: "string \<Rightarrow> string \<Rightarrow> string" where
  "TrimSuffix suf s = (if length suf \<le> length s \<and> drop (length s - length suf) s = suf then take (length s - length suf) s else s)"

record access_email =
  ae_http :: postmark
  ae_token :: string
  ae_from :: string
  ae_alias :: string
  ae_login_url :: string

definition NewAccessEmailService :: "postmark \<Rightarrow> string \<Rightarrow> string \<Rightarrow> string \<Rightarrow> string \<Rightarrow> access_email" where
  "NewAccessEmailService http serverToken from templateAlias appBaseURL =
     \<lparr>ae_http = http, ae_token = NewPostmarkAPI serverToken, ae_from = from,
      ae_alias = (if templateAlias = [] then defaultProvisionTemplateAlias else templateAlias),
      ae_login_url = TrimSuffix ''/'' appBaseURL\<rparr>"

definition access_Enabled :: "access_email \<Rightarrow> bool" where
  "access_Enabled a \<longleftrightarrow> postmark_Enabled (ae_token a) \<and> ae_from a \<noteq> []"

definition SendAccessGranted :: "access_email \<Rightarrow> string \<Rightarrow> string \<Rightarrow> svc_error option" where
  "SendAccessGranted a toEmail tenantName =
     (if \<not> access_Enabled a then Some (BadRequest ''access email is not configured'')
      else SendTemplated (ae_http a) (ae_token a) (ae_from a) toEmail (ae_alias a)
             [(''tenant_name'', tenantName), (''login_url'', ae_login_url a)])"

subsection \<open>A send is reported when Postmark reports no error\<close>

text \<open>
  What the client takes for no error: it was answered with a status below 500 and either an empty
  body or one whose \<open>ErrorCode\<close> is zero. A 2xx is not asked for, and a 4xx with an empty body
  counts too: the client reads errors from the body alone.
\<close>

definition postmark_no_error :: "postmark \<Rightarrow> postmark_request \<Rightarrow> bool" where
  "postmark_no_error http req \<longleftrightarrow>
     (\<exists>status body. http req = Reply status body \<and> status < 500 \<and> (body = NoBody \<or> (\<exists>m i. body = Body 0 m i)))"

lemma postmark_do_no_error: "(\<exists>mid. postmark_do http req = Inr (0, mid)) \<longleftrightarrow> postmark_no_error http req"
  by (auto simp: postmark_do_def postmark_no_error_def not_le split: postmark_reply.splits postmark_body.splits)

lemma SendTemplated_no_error:
  "postmark_Enabled token \<Longrightarrow> SendTemplated http token from to al model = None \<longleftrightarrow>
     postmark_no_error http (EmailWithTemplate from to al model False [])"
  by (auto simp: SendTemplated_def postmark_do_no_error [symmetric] split: sum.splits prod.splits if_splits)

lemma SendAccessGranted_no_error:
  "SendAccessGranted a to name = None \<longleftrightarrow> access_Enabled a \<and>
     postmark_no_error (ae_http a) (EmailWithTemplate (ae_from a) to (ae_alias a)
       [(''tenant_name'', name), (''login_url'', ae_login_url a)] False [])"
  by (simp add: SendAccessGranted_def access_Enabled_def SendTemplated_no_error)

text \<open>
  Pushing a template succeeds exactly when Postmark reported no error for the update, or answered
  that it does not know the alias (or not at all) and then reported none for the creation.
\<close>

theorem UpsertTemplate_upserts:
  "UpsertTemplate http token al name subject html txt = None \<longleftrightarrow>
     token \<noteq> [] \<and> (postmark_no_error http (PutTemplate al name subject html txt) \<or>
       ((\<forall>code mid. postmark_do http (PutTemplate al name subject html txt) = Inr (code, mid) \<longrightarrow> code = 1101) \<and>
        postmark_no_error http (PostTemplate al name subject html txt)))"
  unfolding UpsertTemplate_def postmark_Enabled_def Let_def postmark_do_no_error [symmetric]
  by (auto split: sum.splits if_splits)

end
