(* ===== verification/Provisioning.thy ===== *)
theory Provisioning
  imports SharedSigner Mail Members
begin

text \<open>
  Adding a person to a tenant by email, \<open>service/provision.go\<close>: look the account up, create it when
  there is none, write the membership, remember the signer, read the row back, send the email. The creations
  asked of accounts-api (email and signer) are returned with the result, for nothing here records
  them: a request whose answer could not be read counts, for the account may exist all the same.
\<close>

record provision_response =
  pv_created :: bool
  pv_member :: member
  pv_email_sent :: bool

definition upstream :: "svc_error + 'a" where
  "upstream = Inl (Wrapped ''upstream'' ErrUpstream)"

definition notifyAccessGranted :: "access_email option \<Rightarrow> faults \<Rightarrow> db \<Rightarrow> uuid \<Rightarrow> string \<Rightarrow> bool" where
  "notifyAccessGranted email flt s tenantID toEmail =
     (case email of
        None \<Rightarrow> False
      | Some a \<Rightarrow>
        if \<not> access_Enabled a then False
        else let tenantName = (case (if flt 0 then None else tenant_by_id tenantID s) of
                   None \<Rightarrow> ''your fleet'' | Some t \<Rightarrow> t_name t) in
        SendAccessGranted a toEmail tenantName = None)"

text \<open>The wallet an email resolves to, and the creation asked of accounts-api on the way.\<close>

definition resolve_wallet ::
  "env \<Rightarrow> faults \<Rightarrow> db \<Rightarrow> uuid \<Rightarrow> string \<Rightarrow> string \<Rightarrow> (string \<times> string) list \<times> (svc_error + string \<times> bool)" where
  "resolve_wallet V flt s tenantID email token =
     (case GetAccountByEmail (ev_accounts V) email token of
        AccFound wallet \<Rightarrow> ([], Inr (wallet, False))
      | AccNotFound \<Rightarrow>
        (case Effective flt s tenantID of
           Inl _ \<Rightarrow> ([], upstream)
         | Inr cred \<Rightarrow>
           if ec_signer cred = [] then ([], Inl ErrNoSignerAddress)
           else case CreateAccount (ev_accounts V) email (ec_signer cred) token of
             None \<Rightarrow> ([(email, ec_signer cred)], upstream)
           | Some wallet \<Rightarrow> ([(email, ec_signer cred)], Inr (wallet, True)))
      | _ \<Rightarrow> ([], upstream))"

definition record_created :: "env \<Rightarrow> faults \<Rightarrow> time \<Rightarrow> db \<Rightarrow> uuid \<Rightarrow> string \<Rightarrow> bool \<Rightarrow> db" where
  "record_created V flt now s tenantID wallet created =
     (if \<not> created then s
      else case Effective flt s tenantID of
        Inl _ \<Rightarrow> s
      | Inr cred \<Rightarrow>
        if ec_signer cred = [] then s
        else fst (RecordAccount (ev_lib V) (\<lambda>n. flt (n + 2)) now s (HexAddr (ev_lib V) wallet) (ec_signer cred)))"

text \<open>The member answered when the read-back fails.\<close>

definition written_member :: "library \<Rightarrow> string \<Rightarrow> member_write \<Rightarrow> member" where
  "written_member L wallet inp = \<lparr>wm_wallet = HexAddr L wallet, wm_email = None, wm_role = mw_role inp, wm_perms = mw_perms inp,
     wm_scope = None, wm_granted_by_tenant = None, wm_granted_by_wallet = None, wm_last_login = None, wm_created = 0\<rparr>"

definition Provision ::
  "env \<Rightarrow> access_email option \<Rightarrow> faults \<Rightarrow> time \<Rightarrow> minters \<Rightarrow> db \<Rightarrow> uuid \<Rightarrow> member_write \<Rightarrow>
   minters \<times> db \<times> (string \<times> string) list \<times> (svc_error + provision_response)" where
  "Provision V email flt now cache s tenantID inp =
     (if mw_email inp = [] then (cache, s, [], Inl (BadRequest ''email is required''))
      else if \<not> snd (snd (Scope inp)) then (cache, s, [], Inl (BadRequest ''scopeGroupIds is required (null for unrestricted, [] for no groups)''))
      else case DeveloperJWT (ev_lib V) (ev_cry V) (ev_auth V) (ev_cfg V) flt cache s tenantID of
        (cache', Inl e) \<Rightarrow>
          (cache', s, [], if errors_is e ErrNoCredential \<or> errors_is e ErrTenantNotFound then Inl e else upstream)
      | (cache', Inr minted) \<Rightarrow>
        (case resolve_wallet V (\<lambda>n. flt (n + 2)) s tenantID (mw_email inp) (mt_token minted) of
           (accts, Inl e) \<Rightarrow> (cache', s, accts, Inl e)
         | (accts, Inr (wallet, created)) \<Rightarrow>
           if wallet = [] then (cache', s, accts, upstream)
           else case Upsert (ev_lib V) (\<lambda>n. flt (n + 4)) now s tenantID wallet inp of
             (s1, Inl e) \<Rightarrow> (cache', s1, accts, Inl e)
           | (s1, Inr _) \<Rightarrow>
             let s2 = record_created V (\<lambda>n. flt (n + 9)) now s1 tenantID wallet created;
                 member = (case GetMember (\<lambda>n. flt (n + 12)) s2 tenantID wallet of
                             Inl _ \<Rightarrow> written_member (ev_lib V) wallet inp | Inr m \<Rightarrow> m) in
             (cache', s2, accts, Inr \<lparr>pv_created = created, pv_member = member,
                pv_email_sent = notifyAccessGranted email (\<lambda>n. flt (n + 13)) s2 tenantID (mw_email inp)\<rparr>)))"

subsection \<open>What a provision leaves\<close>

lemma record_created_keeps: "only_accounts s (record_created V flt now s tid w c)"
  by (simp add: record_created_def RecordAccount_keeps split: sum.split)

lemma only_accounts_reads:
  assumes "only_accounts s t"
  shows "membership_of t = membership_of s" "tenant_by_id x t = tenant_by_id x s" "Authorize L flt t = Authorize L flt s"
proof -
  obtain rs where t: "t = s\<lparr>shared_accounts := rs\<rparr>" using assms by (auto simp: only_accounts_def)
  show m: "membership_of t = membership_of s" by (simp add: t membership_of_def fun_eq_iff)
  have d: "delegation_for t = delegation_for s" by (simp add: t delegation_for_def fun_eq_iff)
  have i: "tenant_by_id y t = tenant_by_id y s" for y by (simp add: t tenant_by_id_def)
  show "tenant_by_id x t = tenant_by_id x s" by (rule i)
  show "Authorize L flt t = Authorize L flt s" unfolding fun_eq_iff Authorize_def m d i by simp
qed

text \<open>
  The wallet that belongs to an email, said of accounts-api alone: the one it answers for the email,
  or, when it knows no account, the one it answers for the account it was asked to create with the
  signer of the tenant's effective credential.
\<close>

definition wallet_answered :: "env \<Rightarrow> db \<Rightarrow> uuid \<Rightarrow> string \<Rightarrow> string \<Rightarrow> bool \<Rightarrow> (string \<times> string) list \<Rightarrow> string \<Rightarrow> bool" where
  "wallet_answered V s tid email token created accts wallet \<longleftrightarrow>
     (if created
      then GetAccountByEmail (ev_accounts V) email token = AccNotFound \<and>
        (\<exists>cred. Effective no_faults s tid = Inr cred \<and> ec_signer cred \<noteq> [] \<and>
           accts = [(email, ec_signer cred)] \<and>
           CreateAccount (ev_accounts V) email (ec_signer cred) token = Some wallet)
      else accts = [] \<and> GetAccountByEmail (ev_accounts V) email token = AccFound wallet)"

lemma resolve_wallet_result:
  "resolve_wallet V flt s tid email token = (accts, res) \<Longrightarrow>
     length accts \<le> 1 \<and> (\<forall>w c. res = Inr (w, c) \<longrightarrow> wallet_answered V s tid email token c accts w)"
  using Effective_faults
  by (auto simp: resolve_wallet_def upstream_def wallet_answered_def
      split: account_answer.splits sum.splits option.splits if_splits)

lemma GetMember_faults: "GetMember flt s tid w = Inr m \<Longrightarrow> GetMember no_faults s tid w = Inr m"
  by (simp add: GetMember_def split: if_splits)

lemma Provision_result:
  assumes "Provision V email flt now cache s tid inp = (cache', s', accts, r)"
  obtains (refused) e where "r = Inl e" "s' = s" "length accts \<le> 1"
      "mw_email inp = [] \<or> \<not> snd (snd (Scope inp)) \<Longrightarrow> accts = [] \<and> cache' = cache"
    | (provisioned) wallet s1 created minted where "mw_email inp \<noteq> []" "wallet \<noteq> []"
        "Upsert (ev_lib V) (\<lambda>n. flt (n + 4)) now s tid wallet inp = (s1, Inr ())"
        "s' = record_created V (\<lambda>n. flt (n + 9)) now s1 tid wallet created"
        "DeveloperJWT (ev_lib V) (ev_cry V) (ev_auth V) (ev_cfg V) flt cache s tid = (cache', Inr minted)"
        "wallet_answered V s tid (mw_email inp) (mt_token minted) created accts wallet" "length accts \<le> 1"
        "\<exists>m. r = Inr \<lparr>pv_created = created, pv_member = m,
           pv_email_sent = notifyAccessGranted email (\<lambda>n. flt (n + 13)) s' tid (mw_email inp)\<rparr> \<and>
           (m = written_member (ev_lib V) wallet inp \<or> GetMember no_faults s' tid wallet = Inr m)"
proof (cases "mw_email inp = [] \<or> \<not> snd (snd (Scope inp))")
  case True
  then have "\<exists>e. r = Inl e \<and> s' = s \<and> accts = [] \<and> cache' = cache"
    using assms unfolding Provision_def by (auto split: if_split_asm)
  then show thesis using refused by auto
next
  case ok: False
  have stop: thesis if "\<exists>e. r = Inl e \<and> s' = s \<and> length accts \<le> 1" using that refused ok by blast
  obtain c j where j: "DeveloperJWT (ev_lib V) (ev_cry V) (ev_auth V) (ev_cfg V) flt cache s tid = (c, j)" by fastforce
  show thesis
  proof (cases j)
    case (Inl e)
    then show thesis using assms ok j by (intro stop) (auto simp: Provision_def upstream_def)
  next
    case (Inr minted)
    obtain as res where w: "resolve_wallet V (\<lambda>n. flt (n + 2)) s tid (mw_email inp) (mt_token minted) = (as, res)" by fastforce
    note as = resolve_wallet_result [OF w]
    show thesis
    proof (cases "\<exists>wallet created. res = Inr (wallet, created) \<and> wallet \<noteq> []")
      case False
      then show thesis using assms ok j Inr w as
        by (intro stop) (auto simp: Provision_def upstream_def split: sum.splits prod.splits if_splits)
    next
      case True
      then obtain wallet created where res: "res = Inr (wallet, created)" "wallet \<noteq> []" by blast
      obtain s1 u where u: "Upsert (ev_lib V) (\<lambda>n. flt (n + 4)) now s tid wallet inp = (s1, u)" by fastforce
      show thesis
      proof (cases u)
        case e: (Inl e)
        then show thesis using assms ok j Inr w as res u Upsert_InlD [OF u [unfolded e]]
          by (intro stop) (auto simp: Provision_def)
      next
        case u': (Inr x)
        define s2 where "s2 = record_created V (\<lambda>n. flt (n + 9)) now s1 tid wallet created"
        define m where "m = (case GetMember (\<lambda>n. flt (n + 12)) s2 tid wallet of Inl _ \<Rightarrow> written_member (ev_lib V) wallet inp | Inr m \<Rightarrow> m)"
        have out: "s' = s2" "accts = as" "cache' = c" "r = Inr \<lparr>pv_created = created, pv_member = m,
            pv_email_sent = notifyAccessGranted email (\<lambda>n. flt (n + 13)) s2 tid (mw_email inp)\<rparr>"
          using assms ok j Inr w res u u' by (auto simp: Provision_def Let_def s2_def m_def)
        have "m = written_member (ev_lib V) wallet inp \<or> GetMember no_faults s' tid wallet = Inr m"
          unfolding out m_def by (auto dest: GetMember_faults split: sum.splits)
        then show thesis using ok res u u' as out j Inr by (intro provisioned) (auto simp: s2_def)
      qed
    qed
  qed
qed

text \<open>
  C20. A provision that answers success has made the grant, to the right person: the wallet is the
  one accounts-api answered, under the token minted for the tenant, for the email asked for, or for
  the account it was asked to create for that email (one request, with the signer of the tenant's
  effective credential, made only when it knew no account). That wallet is a direct member with
  exactly the written permissions and scope, whatever failed after the write, and the email counts
  as sent only if Postmark reported no error for the message addressed to them. One that fails has
  changed nothing here, and at most one account was asked for on the way; a request without an
  email or a scope asks for none.
\<close>

theorem Provision_grants:
  assumes "address_laws (ev_lib V)" and "member_inv (ev_lib V) s"
    and "Provision V email flt now cache s tid inp = (cache', s', accts, r)"
  shows "length accts \<le> 1 \<and> (mw_email inp = [] \<or> \<not> snd (snd (Scope inp)) \<longrightarrow> accts = []) \<and>
    (\<forall>e. r = Inl e \<longrightarrow> s' = s) \<and>
    (\<forall>resp. r = Inr resp \<longrightarrow>
      (\<exists>minted wallet. wallet \<noteq> [] \<and>
         DeveloperJWT (ev_lib V) (ev_cry V) (ev_auth V) (ev_cfg V) flt cache s tid = (cache', Inr minted) \<and>
         wallet_answered V s tid (mw_email inp) (mt_token minted) (pv_created resp) accts wallet \<and>
         (\<forall>t. tenant_by_id tid s = Some t \<and> t_status t = StatusActive \<longrightarrow>
         (\<exists>a. Authorize (ev_lib V) no_faults s' tid wallet = Inr a \<and> ar_via a = ViaDirect \<and> ar_perms a = mw_perms inp \<and>
            ar_scope a = (let (groups, unrestricted, present) = Scope inp in if unrestricted then None else groups)))) \<and>
      (pv_email_sent resp \<longrightarrow> (\<exists>a name. email = Some a \<and> postmark_no_error (ae_http a)
         (EmailWithTemplate (ae_from a) (mw_email inp) (ae_alias a) [(''tenant_name'', name), (''login_url'', ae_login_url a)] False []))))"
proof (rule Provision_result [OF assms(3)])
  fix e assume "r = Inl e" "s' = s" "length accts \<le> 1"
    and "mw_email inp = [] \<or> \<not> snd (snd (Scope inp)) \<Longrightarrow> accts = [] \<and> cache' = cache"
  then show ?thesis by auto
next
  fix wallet s1 created minted
  assume ok: "mw_email inp \<noteq> []" "wallet \<noteq> []" and u: "Upsert (ev_lib V) (\<lambda>n. flt (n + 4)) now s tid wallet inp = (s1, Inr ())"
    and s': "s' = record_created V (\<lambda>n. flt (n + 9)) now s1 tid wallet created"
    and acc: "DeveloperJWT (ev_lib V) (ev_cry V) (ev_auth V) (ev_cfg V) flt cache s tid = (cache', Inr minted)"
      "wallet_answered V s tid (mw_email inp) (mt_token minted) created accts wallet" "length accts \<le> 1"
    and r: "\<exists>m. r = Inr \<lparr>pv_created = created, pv_member = m,
         pv_email_sent = notifyAccessGranted email (\<lambda>n. flt (n + 13)) s' tid (mw_email inp)\<rparr> \<and>
         (m = written_member (ev_lib V) wallet inp \<or> GetMember no_faults s' tid wallet = Inr m)"
  note d = Upsert_SomeD [OF u]
  have oa: "only_accounts s1 s'" by (simp add: s' record_created_keeps)
  have "\<exists>a. Authorize (ev_lib V) no_faults s1 tid wallet = Inr a \<and> ar_via a = ViaDirect \<and> ar_perms a = mw_perms inp \<and>
      ar_scope a = (let (groups, unrestricted, present) = Scope inp in if unrestricted then None else groups)"
    if t: "tenant_by_id tid s = Some t" "t_status t = StatusActive" for t
    using Upsert_lookup [OF assms(1,2) u] d t ok by (auto simp: Authorize_def Let_def)
  moreover have "\<exists>a name. email = Some a \<and> postmark_no_error (ae_http a)
      (EmailWithTemplate (ae_from a) (mw_email inp) (ae_alias a) [(''tenant_name'', name), (''login_url'', ae_login_url a)] False [])"
    if "notifyAccessGranted email (\<lambda>n. flt (n + 13)) s' tid (mw_email inp)"
    using that by (auto simp: notifyAccessGranted_def SendAccessGranted_no_error Let_def split: option.splits if_splits)
  ultimately show ?thesis using r acc ok d only_accounts_reads(3) [OF oa] by auto
qed

definition demo_postmark :: access_email where
  "demo_postmark = NewAccessEmailService (\<lambda>_. Reply 200 (Body 0 ''OK'' ''m1'')) '' tok '' ''no-reply@x'' [] ''https://app/''"

definition demo_provision :: member_write where
  "demo_provision = \<lparr>mw_email = ''n@x'', mw_role = [], mw_perms = [CapReports], mw_scope = Some JNull,
     mw_granted_by_wallet = [], mw_granted_by_tenant = []\<rparr>"

lemma demo_keys_member_inv: "member_inv demo_library demo_keys_db"
  using demo_member_inv by (simp add: member_inv_def demo_keys_db_def)

lemma demo_Provision:
  "\<exists>c s' resp. Provision demo_env (Some demo_postmark) no_faults 5 Map.empty demo_keys_db ''cu'' demo_provision =
     (c, s', [(''n@x'', ''0xsig'')], Inr resp) \<and> pv_email_sent resp"
proof -
  obtain c minted where j: "DeveloperJWT demo_library demo_crypto demo_auth demo_settings_chain no_faults Map.empty demo_keys_db ''cu'' = (c, Inr minted)"
    using demo_DeveloperJWT by metis
  have e: "Effective no_faults demo_keys_db ''cu'' = Inr \<lparr>ec_tenant = ''op'', ec_client_id = ''0xLIC'', ec_signer = ''0xsig'', ec_aa_wallet = []\<rparr>"
    by (simp add: Effective_def demo_keys_effective)
  have w: "resolve_wallet demo_env no_faults demo_keys_db ''cu'' ''n@x'' t = ([(''n@x'', ''0xsig'')], Inr (''0xNEW'', True))" for t
    by (simp add: resolve_wallet_def e demo_env_def)
  have "snd (Upsert demo_library no_faults 5 demo_keys_db ''cu'' ''0xNEW'' demo_provision) = Inr ()"
    by (simp add: Upsert_def upsertMemberTx_def member_row_for_def Scope_def decodeScope_def demo_provision_def demo_keys_db_def
        scope_groups_exist_def tenant_ref_ok_def tenant_by_id_def demo_defs text_eval split: prod.splits)
  then obtain s1 where u: "Upsert demo_library no_faults 5 demo_keys_db ''cu'' ''0xNEW'' demo_provision = (s1, Inr ())"
    by (metis prod.collapse)
  have p: "mw_email demo_provision = ''n@x''" "snd (snd (Scope demo_provision))"
    by (simp_all add: demo_provision_def Scope_def decodeScope_def)
  have n: "notifyAccessGranted (Some demo_postmark) no_faults s2 ''cu'' ''n@x''" for s2
  proof -
    have "access_Enabled demo_postmark" by code_simp
    then show ?thesis unfolding notifyAccessGranted_def SendAccessGranted_no_error
      by (simp add: postmark_no_error_def demo_postmark_def NewAccessEmailService_def)
  qed
  show ?thesis unfolding Provision_def using p w u n j by (simp add: demo_env_def Let_def)
qed

lemma Provision_grants_witness:
  "\<exists>s' a. Authorize demo_library no_faults s' ''cu'' ''0xNEW'' = Inr a \<and> ar_perms a = [CapReports] \<and> ar_scope a = None"
proof -
  obtain c s' resp where p: "Provision demo_env (Some demo_postmark) no_faults 5 Map.empty demo_keys_db ''cu'' demo_provision =
      (c, s', [(''n@x'', ''0xsig'')], Inr resp)" using demo_Provision by blast
  have laws: "address_laws (ev_lib demo_env)" "member_inv (ev_lib demo_env) demo_keys_db"
    using demo_address_laws demo_keys_member_inv by (simp_all add: demo_env_def)
  have t: "tenant_by_id ''cu'' demo_keys_db = Some (mk_tenant ''cu'' ''Beta'' KindCustomer (Some ''op'') StatusActive EntitlementExplicit)"
    using demo_tenant_cu by (simp add: demo_keys_db_def)
  have new: "w = ''0xNEW''"
    if "wallet_answered demo_env demo_keys_db ''cu'' ''n@x'' tok b [(''n@x'', ''0xsig'')] w" for tok b w
    using that by (auto simp: wallet_answered_def demo_env_def split: if_splits)
  have "mw_email demo_provision = ''n@x''" by (simp add: demo_provision_def)
  with Provision_grants [OF laws p, THEN conjunct2, THEN conjunct2, THEN conjunct2, rule_format, OF refl] new
  have "\<forall>t. tenant_by_id ''cu'' demo_keys_db = Some t \<and> t_status t = StatusActive \<longrightarrow>
      (\<exists>a. Authorize demo_library no_faults s' ''cu'' ''0xNEW'' = Inr a \<and> ar_perms a = [CapReports] \<and> ar_scope a = None)"
    by (fastforce simp: demo_env_def demo_provision_def Scope_def decodeScope_def)
  with t show ?thesis by (auto simp: mk_tenant_def)
qed

end
