(* ===== verification/Sacd.thy ===== *)
theory Sacd
  imports Minting "HOL-Library.Word"
begin

unbundle bit_operations_syntax

text \<open>
  What goes on chain when a vehicle is shared: the permission mask and expiration
  (\<open>sharing/permissions.go\<close>), reading the grant a call would overwrite (\<open>sharing/grant.go\<close>), the
  calls themselves (\<open>sharing/call.go\<close>, the builders of \<open>sharing/shared_ops.go\<close>) and the document a
  grant points at (\<open>sharing/sacd_document.go\<close>). The contract bindings that pack calldata are an
  argument.
\<close>

subsection \<open>Permissions\<close>

type_synonym permission = nat

definition NonLocationTelemetry :: permission where "NonLocationTelemetry = 1"
definition Commands :: permission where "Commands = 2"
definition CurrentLocation :: permission where "CurrentLocation = 3"
definition AllTimeLocation :: permission where "AllTimeLocation = 4"
definition Credentials :: permission where "Credentials = 5"
definition Streams :: permission where "Streams = 6"
definition RawData :: permission where "RawData = 7"
definition ApproximateLocation :: permission where "ApproximateLocation = 8"

lemmas permission_defs = NonLocationTelemetry_def Commands_def CurrentLocation_def AllTimeLocation_def
  Credentials_def Streams_def RawData_def ApproximateLocation_def

definition Permissions :: "permission list \<Rightarrow> int" where
  "Permissions granted = fold (\<lambda>p mask. mask OR push_bit (2 * p) 0b11) granted 0"

definition defaultPermissionList :: "permission list" where
  "defaultPermissionList =
     [NonLocationTelemetry, Commands, CurrentLocation, AllTimeLocation, Credentials, Streams, RawData]"

definition DefaultPermissions :: int where
  "DefaultPermissions = Permissions defaultPermissionList"

definition FullPermissions :: int where
  "FullPermissions = Permissions
     [NonLocationTelemetry, Commands, CurrentLocation, AllTimeLocation, Credentials, Streams, RawData, ApproximateLocation]"

definition NoPermissions :: int where
  "NoPermissions = 0"

definition RevokedExpiration :: int where
  "RevokedExpiration = 0"

definition indefiniteYears :: int where
  "indefiniteYears = 40"

text \<open>
  A \<open>time.Duration\<close> is nanoseconds in an \<open>int64\<close>; \<open>now\<close> is in microseconds.
\<close>

type_synonym duration = "64 word"

definition days_duration :: "int \<Rightarrow> duration" where
  "days_duration d = word_of_int d * 24 * 3600000000000"

text \<open>
  \<open>AddDate(n, 0, 0)\<close> in UTC: the same month, day and time of day \<open>n\<close> years on. \<open>time.Date\<close> normalises a
  day the month has not, so 29 February becomes 1 March. With years counted from 1 March the leap
  day is the last of its year, and both come out as keeping the day of that year; days are counted
  from 1 January 1970, which is day 719468 from 1 March of year 0.
\<close>

definition march_start :: "int \<Rightarrow> int" where
  "march_start y = 365 * y + y div 4 - y div 100 + y div 400 - 719468"

definition march_year :: "int \<Rightarrow> int" where
  "march_year day =
     (let y = (400 * (day + 719468)) div 146097 in
      if day < march_start y then y - 1 else if march_start (y + 1) \<le> day then y + 1 else y)"

definition day_length :: time where
  "day_length = 86400 * second"

definition AddYears :: "int \<Rightarrow> time \<Rightarrow> time" where
  "AddYears n t =
     (let day = t div day_length; y = march_year day in
      (march_start (y + n) + (day - march_start y)) * day_length + t mod day_length)"

definition ExpirationFrom :: "time \<Rightarrow> duration \<Rightarrow> int" where
  "ExpirationFrom now d =
     (if d \<le>s 0 then wireTime (AddYears indefiniteYears now)
      else (now * 1000 + sint d) div 1000000000)"

subsection \<open>The record on chain\<close>

record sacd_record =
  sr_permissions :: "int option"
  sr_expiration :: "int option"
  sr_source :: string

definition GrantIsLive :: "sacd_record \<Rightarrow> time \<Rightarrow> bool" where
  "GrantIsLive r now =
     (case sr_expiration r of
        None \<Rightarrow> False
      | Some e \<Rightarrow>
        if e \<le> wireTime now then False
        else (case sr_permissions r of None \<Rightarrow> False | Some p \<Rightarrow> p \<noteq> 0) \<or> sr_source r \<noteq> [])"

text \<open>The check the contract makes of a stored record, as the comment on \<open>RevokedExpiration\<close> quotes it.\<close>

definition chain_permits :: "sacd_record \<Rightarrow> int \<Rightarrow> permission \<Rightarrow> bool" where
  "chain_permits r timestamp n =
     (case (sr_expiration r, sr_permissions r) of
        (Some e, Some p) \<Rightarrow> timestamp < e \<and> drop_bit (2 * n) p AND 0b11 = 0b11
      | _ \<Rightarrow> False)"

subsection \<open>Calls\<close>

text \<open>The packers of the contract bindings and the reads over the RPC; \<open>None\<close> is an error.\<close>

record contracts =
  packSetPermissions0 :: "string \<Rightarrow> int \<Rightarrow> string \<Rightarrow> int \<Rightarrow> int \<Rightarrow> string \<Rightarrow> string option"
  packSafeTransferFrom :: "string \<Rightarrow> string \<Rightarrow> int \<Rightarrow> string option"
  packBurnVehicle :: "int \<Rightarrow> string option"
  packBurnSynthetic :: "int \<Rightarrow> string"
  packCurrentPermissionRecord :: "string \<Rightarrow> int \<Rightarrow> string \<Rightarrow> string option"
  callContract :: "string \<Rightarrow> string \<Rightarrow> string option"
  unpackCurrentPermissionRecord :: "string \<Rightarrow> sacd_record option"

record call_msg =
  cm_to :: string
  cm_value :: int
  cm_data :: string

definition call_to :: "string \<Rightarrow> string \<Rightarrow> call_msg" where
  "call_to addr dat = \<lparr>cm_to = addr, cm_value = 0, cm_data = dat\<rparr>"

definition BuildSetPermissionsCall ::
  "contracts \<Rightarrow> string \<Rightarrow> string \<Rightarrow> int \<Rightarrow> string \<Rightarrow> int \<Rightarrow> int \<Rightarrow> string \<Rightarrow> svc_error + call_msg" where
  "BuildSetPermissionsCall B sacdAddr vehicleNft tokenID grantee permissions expiration source =
     (case packSetPermissions0 B vehicleNft tokenID grantee permissions expiration source of
        None \<Rightarrow> Inl (Remote ''pack setPermissions0'')
      | Some dat \<Rightarrow> Inr (call_to sacdAddr dat))"

definition BuildSafeTransferFromCall :: "contracts \<Rightarrow> string \<Rightarrow> string \<Rightarrow> string \<Rightarrow> int \<Rightarrow> svc_error + call_msg" where
  "BuildSafeTransferFromCall B vehicleNft owner target tokenID =
     (case packSafeTransferFrom B owner target tokenID of
        None \<Rightarrow> Inl (Remote ''pack safeTransferFrom'')
      | Some dat \<Rightarrow> Inr (call_to vehicleNft dat))"

definition BuildBurnVehicleCall :: "contracts \<Rightarrow> string \<Rightarrow> int \<Rightarrow> svc_error + call_msg" where
  "BuildBurnVehicleCall B vehicleNft tokenID =
     (case packBurnVehicle B tokenID of None \<Rightarrow> Inl (Remote ''pack burn'') | Some dat \<Rightarrow> Inr (call_to vehicleNft dat))"

definition BuildBurnSyntheticCall :: "contracts \<Rightarrow> string \<Rightarrow> int \<Rightarrow> call_msg" where
  "BuildBurnSyntheticCall B syntheticNft syntheticTokenID = call_to syntheticNft (packBurnSynthetic B syntheticTokenID)"

definition ReadCurrentGrant :: "contracts \<Rightarrow> string \<Rightarrow> string \<Rightarrow> int \<Rightarrow> string \<Rightarrow> svc_error + sacd_record" where
  "ReadCurrentGrant B sacdAddr vehicleNft tokenID grantee =
     (case packCurrentPermissionRecord B vehicleNft tokenID grantee of
        None \<Rightarrow> Inl (Remote ''pack currentPermissionRecord'')
      | Some dat \<Rightarrow>
        (case callContract B sacdAddr dat of
           None \<Rightarrow> Inl (Remote ''call currentPermissionRecord'')
         | Some out \<Rightarrow>
           (case unpackCurrentPermissionRecord B out of
              None \<Rightarrow> Inl (Remote ''decode currentPermissionRecord'')
            | Some r \<Rightarrow> Inr r)))"

subsection \<open>The document\<close>

definition docEventTypePatterns :: "string list" where
  "docEventTypePatterns = [''dimo.document.vehicle.*'', ''dimo.document.driver.*'', ''dimo.raw.vehicle.*'', ''dimo.raw.driver.*'']"

definition sdkPermissionNames :: "permission \<Rightarrow> string option" where
  "sdkPermissionNames = map_of
     [(NonLocationTelemetry, ''GetNonLocationHistory''), (Commands, ''ExecuteCommands''),
      (CurrentLocation, ''GetCurrentLocation''), (AllTimeLocation, ''GetLocationHistory''),
      (Credentials, ''GetVINCredential''), (Streams, ''GetLiveData''), (RawData, ''GetRawData''),
      (ApproximateLocation, ''GetApproximateLocation'')]"

datatype sacd_agreement =
    PermissionAgreement (sg_asset: string) (sg_permissions: "string list")
  | CloudeventAgreement (sg_asset: string) (sg_event_type: string) (sg_source: string) (sg_tags: "string list")
      (sg_effective: int) (sg_expires: int)

record sacd_data =
  sd_grantor :: string
  sd_grantee :: string
  sd_effective :: int
  sd_expires :: int
  sd_agreements :: "sacd_agreement list"

record sacd_document =
  doc_spec_version :: string
  doc_time :: int
  doc_type :: string
  doc_data_version :: string
  doc_data :: sacd_data
  doc_signature :: string

definition VehicleAssetDID :: "int \<Rightarrow> string \<Rightarrow> int \<Rightarrow> string" where
  "VehicleAssetDID chainID vehicleNft tokenID =
     ''did:erc721:'' @ FormatInt chainID @ '':'' @ vehicleNft @ '':'' @ FormatInt tokenID"

definition privilege :: "string \<Rightarrow> string" where
  "privilege name = ''privilege:'' @ name"

definition permission_names :: "permission list \<Rightarrow> string list" where
  "permission_names ps = map privilege (List.map_filter sdkPermissionNames ps)"

text \<open>\<open>big.Int.Int64\<close>; a time is its whole seconds.\<close>

definition Int64 :: "int \<Rightarrow> int" where
  "Int64 i = sint (word_of_int i :: 64 word)"

definition BuildSACDDocument ::
  "string \<Rightarrow> string \<Rightarrow> string \<Rightarrow> permission list \<Rightarrow> time \<Rightarrow> int \<Rightarrow> bool \<Rightarrow> sacd_document" where
  "BuildSACDDocument grantor grantee asset permissions now expiration shareDocuments =
     (let effectiveAt = wireTime now; expiresAt = Int64 expiration;
          agreements = PermissionAgreement asset (permission_names permissions) #
            (if shareDocuments
             then map (\<lambda>ty. CloudeventAgreement asset ty grantor [''documents''] effectiveAt expiresAt) docEventTypePatterns
             else []) in
      \<lparr>doc_spec_version = ''1.0'', doc_time = effectiveAt, doc_type = ''dimo.sacd'', doc_data_version = ''sacd/v1.0'',
       doc_data = \<lparr>sd_grantor = grantor, sd_grantee = grantee, sd_effective = effectiveAt, sd_expires = expiresAt,
                   sd_agreements = agreements\<rparr>,
       doc_signature = ''0x''\<rparr>)"

text \<open>Signing as the grantor's kernel, and the upload endpoint.\<close>

datatype upload_reply = UploadFailed | UploadReply (up_status: nat) (up_cid: "string option")

record publisher_net =
  marshalData :: "sacd_data \<Rightarrow> string"
  textHash :: "string \<Rightarrow> string"
  kernelSign :: "string \<Rightarrow> string \<Rightarrow> string \<Rightarrow> string option"  \<comment> \<open>kernel, key, hash\<close>
  postDocument :: "string \<Rightarrow> sacd_document \<Rightarrow> upload_reply"

definition SignSACDDocument :: "publisher_net \<Rightarrow> sacd_document \<Rightarrow> string \<Rightarrow> string \<Rightarrow> svc_error + sacd_document" where
  "SignSACDDocument N doc grantor signerPK =
     (case kernelSign N grantor signerPK (textHash N (marshalData N (doc_data doc))) of
        None \<Rightarrow> Inl (Remote ''kernel-sign SACD data'')
      | Some sig \<Rightarrow> Inr (doc\<lparr>doc_signature := ''0x'' @ hexEncode sig\<rparr>))"

definition UploadSACDDocument :: "publisher_net \<Rightarrow> string \<Rightarrow> sacd_document \<Rightarrow> svc_error + string" where
  "UploadSACDDocument N uploadURL doc =
     (case postDocument N uploadURL doc of
        UploadFailed \<Rightarrow> Inl (Remote ''upload SACD document'')
      | UploadReply status body \<Rightarrow>
        if status < 200 \<or> 300 \<le> status then Inl (Remote ''SACD upload status'')
        else case body of
          None \<Rightarrow> Inl (Remote ''decode SACD upload response'')
        | Some cid \<Rightarrow> if cid = [] then Inl (Remote ''SACD upload returned no cid'') else Inr cid)"

definition SourceURI :: "string \<Rightarrow> string" where
  "SourceURI cid = ''ipfs://'' @ cid"

subsection \<open>The mask\<close>

lemma bit_two_ones: "bit (push_bit (2 * p) (3 :: int)) k \<longleftrightarrow> k div 2 = p"
proof -
  have three: "bit (3 :: int) j \<longleftrightarrow> j < 2" for j
    using bit_mask_iff [of 2 j, where ?'a = int] by (simp add: mask_eq_exp_minus_1)
  show ?thesis by (auto simp: bit_push_bit_iff three)
qed

lemma bit_Permissions: "bit (Permissions ps) k \<longleftrightarrow> k div 2 \<in> set ps"
proof -
  have "bit (fold (\<lambda>p mask. mask OR push_bit (2 * p) 3) ps m) k \<longleftrightarrow> bit m k \<or> k div 2 \<in> set ps" for m :: int
    by (induction ps arbitrary: m) (auto simp: bit_or_iff bit_two_ones)
  then show ?thesis by (simp add: Permissions_def)
qed

lemma pair_granted: "drop_bit (2 * n) p AND 3 = (3 :: int) \<longleftrightarrow> bit p (2 * n) \<and> bit p (2 * n + 1)"
proof -
  have three: "bit (3 :: int) j \<longleftrightarrow> j = 0 \<or> j = 1" for j
    using bit_mask_iff [of 2 j, where ?'a = int] by (auto simp: mask_eq_exp_minus_1)
  have "drop_bit (2 * n) p AND 3 = 3 \<longleftrightarrow> (\<forall>j. bit (drop_bit (2 * n) p AND 3) j \<longleftrightarrow> bit (3 :: int) j)"
    by (metis bit_eqI)
  also have "\<dots> \<longleftrightarrow> (\<forall>j. j = 0 \<or> j = 1 \<longrightarrow> bit p (2 * n + j))"
    unfolding bit_and_iff three bit_drop_bit_eq comp_def by blast
  also have "\<dots> \<longleftrightarrow> bit p (2 * n + 0) \<and> bit p (2 * n + 1)" by blast
  finally show ?thesis unfolding add_0_right .
qed

text \<open>
  The mask means what the contract reads: a record written with \<open>Permissions ps\<close> permits exactly the
  permissions listed, and only before its expiration; the full mask is \<open>0xFFFF << 2\<close>, and the two
  reserved low bits stay clear. A revocation's record permits nothing at any time, by its mask
  alone, and reads as dead.
\<close>

theorem sacd_mask_meaning:
  "(\<forall>ps e src ts n. chain_permits \<lparr>sr_permissions = Some (Permissions ps), sr_expiration = Some e, sr_source = src\<rparr> ts n \<longleftrightarrow>
      ts < e \<and> n \<in> set ps) \<and>
   FullPermissions = push_bit 2 0xFFFF \<and> DefaultPermissions = push_bit 2 0x3FFF \<and>
   (\<forall>ts n e. \<not> chain_permits \<lparr>sr_permissions = Some NoPermissions, sr_expiration = Some e, sr_source = []\<rparr> ts n) \<and>
   (\<forall>now. \<not> GrantIsLive \<lparr>sr_permissions = Some NoPermissions, sr_expiration = Some RevokedExpiration, sr_source = []\<rparr> now)"
proof (intro conjI allI)
  show "FullPermissions = push_bit 2 0xFFFF" "DefaultPermissions = push_bit 2 0x3FFF"
    by code_simp+
qed (auto simp: chain_permits_def pair_granted bit_Permissions NoPermissions_def GrantIsLive_def)

subsection \<open>The document says what the mask says\<close>

lemma set_map_filter: "set (List.map_filter f xs) = {y. \<exists>x\<in>set xs. f x = Some y}"
  by (induction xs) (auto simp: List.map_filter_def split: option.splits)

lemma sdk_names_cases:
  "sdkPermissionNames p = Some n \<Longrightarrow> sdkPermissionNames q = Some n \<Longrightarrow> p = q"
  unfolding sdkPermissionNames_def permission_defs by (auto split: if_split_asm)

lemma mem_permission_names:
  "sdkPermissionNames p = Some n \<Longrightarrow> privilege n \<in> set (permission_names ps) \<longleftrightarrow> p \<in> set ps"
  by (auto simp: permission_names_def privilege_def set_map_filter dest: sdk_names_cases)

text \<open>
  The document and the call it accompanies grant the same thing: of the named permissions, exactly
  those the document lists are permitted by the record on chain, until the same second; and the
  document shares documents under every event type when asked to, as the grantor's.
\<close>

theorem document_matches_grant:
  assumes "doc = BuildSACDDocument grantor grantee asset ps now (ExpirationFrom now d) True"
    and "r = \<lparr>sr_permissions = Some (Permissions ps), sr_expiration = Some (ExpirationFrom now d), sr_source = src\<rparr>"
    and "sdkPermissionNames p = Some name" and "- (2 ^ 63) \<le> ExpirationFrom now d" and "ExpirationFrom now d < 2 ^ 63"
  shows "((\<exists>a\<in>set (sd_agreements (doc_data doc)). \<exists>names. a = PermissionAgreement asset names \<and> privilege name \<in> set names) \<and>
      ts < sd_expires (doc_data doc)) = chain_permits r ts p \<and>
    (\<forall>ty\<in>set docEventTypePatterns. \<exists>a\<in>set (sd_agreements (doc_data doc)). sg_asset a = asset \<and>
       a = CloudeventAgreement asset ty grantor [''documents''] (wireTime now) (sd_expires (doc_data doc)))"
proof -
  have e: "Int64 (ExpirationFrom now d) = ExpirationFrom now d"
    unfolding Int64_def using assms(4,5) by (simp add: signed_of_int signed_take_bit_int_eq_self)
  show ?thesis
    using assms(1-3) by (auto simp: BuildSACDDocument_def Let_def e mem_permission_names chain_permits_def pair_granted bit_Permissions)
qed

subsection \<open>How long a share lasts\<close>

lemma div_between: "m * (z div m) \<le> z \<and> z < m * (z div m) + m" if "0 < m" for z m :: int
  using that mult_div_mod_eq [of m z] pos_mod_bound [of m z] pos_mod_sign [of m z] by linarith

lemma div_add_carry: "(y + n) div m = y div m + (if m \<le> y mod m + n then 1 else 0)" if "0 \<le> n" "n < m" for y n m :: int
proof -
  have r: "0 \<le> y mod m" "y mod m < m" using that by simp_all
  have one: "(y mod m + n) div m = 1" if "m \<le> y mod m + n"
    by (rule int_div_pos_eq [where r = "y mod m + n - m"]) (use that r \<open>n < m\<close> in simp_all)
  have "(y + n) div m = (y mod m + n + m * (y div m)) div m" by (simp add: algebra_simps)
  also have "\<dots> = y div m + (y mod m + n) div m" using that by (simp only: div_mult_self2)
  also have "(y mod m + n) div m = (if m \<le> y mod m + n then 1 else 0)"
    using that r one by (auto simp: div_pos_pos_trivial)
  finally show ?thesis .
qed

text \<open>Every day falls in the year the formula gives it.\<close>

lemma march_start_close:
  "146097 * y - 800 \<le> 400 * (march_start y + 719468)" "400 * (march_start y + 719468) \<le> 146097 * y + 800"
  using div_between [of 4 y] div_between [of 100 y] div_between [of 400 y] unfolding march_start_def by auto

lemma march_year_of_day: "march_start (march_year d) \<le> d \<and> d < march_start (march_year d + 1)"
proof -
  define y where "y = (400 * (d + 719468)) div 146097"
  have "march_start (y - 1) \<le> d" "d < march_start (2 + y)"
    using div_between [of 146097 "400 * (d + 719468)"] march_start_close [of "y - 1"] march_start_close [of "2 + y"]
    unfolding y_def by auto
  moreover have "march_year d = (if d < march_start y then y - 1 else if march_start (y + 1) \<le> d then y + 1 else y)"
    by (simp add: march_year_def y_def Let_def)
  ultimately show ?thesis by (simp split: if_splits)
qed

lemma march_start_forty: "march_start (y + 40) - march_start y \<in> {14609, 14610}"
proof -
  have m: "y mod 400 mod 100 = y mod 100" by (simp add: mod_mod_cancel)
  have late: "60 \<le> y mod 100" if "360 \<le> y mod 400"
  proof -
    have "y mod 400 mod 100 = y mod 400 - 300"
      by (rule int_mod_pos_eq [where q = 3]) (use that pos_mod_bound [of 400 y] in linarith)+
    then show ?thesis using that m by linarith
  qed
  have "(y + 40) div 4 = y div 4 + 10" by simp
  with late show ?thesis
    unfolding march_start_def div_add_carry [of 40 100 y, simplified] div_add_carry [of 40 400 y, simplified]
    by (simp split: if_splits)
qed

lemma forty_years: "\<exists>k\<in>{14609, 14610}. wireTime (AddYears 40 t) = wireTime t + k * 24 * 3600"
proof -
  define k where "k = march_start (march_year (t div day_length) + 40) - march_start (march_year (t div day_length))"
  have k: "k \<in> {14609, 14610}" unfolding k_def using march_start_forty by simp
  have "AddYears 40 t = (k + t div day_length) * day_length + t mod day_length"
    by (simp add: AddYears_def Let_def k_def algebra_simps)
  also have "\<dots> = t + k * day_length" by (simp add: distrib_right)
  finally have "wireTime (AddYears 40 t) = wireTime t + k * 24 * 3600"
    by (simp add: wireTime_def day_length_def second_def)
  with k show ?thesis by blast
qed

text \<open>The days of the formula are those of the calendar, and the leap day is normalised.\<close>

lemma calendar_days:
  "map (\<lambda>d. march_year d) [0, 58, 59, 19782, 19783, -719468] = [1969, 1969, 1970, 2023, 2024, 0]"
  "AddYears 40 (32931 * day_length + 5) = 47541 * day_length + 5"
  by code_simp+

text \<open>
  C35. A share of up to 106751 days ends that many days from now, and one of zero days forty calendar
  years on, which is 14609 or 14610 days. The product of days and hours is a 64-bit duration, though: 213504 days, which the endpoint
  accepts, wrap to 25 minutes.
\<close>

theorem share_duration:
  assumes "0 < days" and "days \<le> 106751"
  shows "ExpirationFrom now (days_duration days) = wireTime now + days * 24 * 3600 \<and>
    ExpirationFrom now (days_duration 0) = wireTime (AddYears 40 now) \<and>
    (\<exists>k\<in>{14609, 14610}. ExpirationFrom now (days_duration 0) = wireTime now + k * 24 * 3600) \<and>
    ExpirationFrom now (days_duration 213504) < wireTime now + 26 * 60"
proof -
  have v: "days_duration d = word_of_int (d * 86400000000000)" for d
    by (simp add: days_duration_def flip: wi_hom_mult)
  have big: "signed_take_bit 63 (213504 * 86400000000000 :: int) = 1526290448384"
    by (simp add: signed_take_bit_eq_take_bit_minus take_bit_eq_mod bit_iff_odd)
  have sv: "sint (days_duration days) = days * 86400000000000" "sint (days_duration 213504) = 1526290448384"
    unfolding v signed_of_int using assms big by (simp_all add: signed_take_bit_int_eq_self)
  have "(now * 1000 + days * 86400000000000) div 1000000000 = now div 1000000 + days * 86400"
    by (simp add: div_mult2_eq)
  moreover have "ExpirationFrom now (days_duration 0) = wireTime (AddYears 40 now)"
    by (simp add: ExpirationFrom_def indefiniteYears_def days_duration_def)
  ultimately show ?thesis using assms sv forty_years [of now]
    by (simp add: ExpirationFrom_def word_sle_eq wireTime_def second_def days_duration_def)
qed

lemma share_duration_witness:
  "ExpirationFrom 5 (days_duration 30) = 2592000 \<and> ExpirationFrom 5 (days_duration 213504) < 1560"
  using share_duration [of 30 5] by (simp add: wireTime_def second_def)

lemma document_matches_grant_witness:
  "\<not> chain_permits \<lparr>sr_permissions = Some (Permissions defaultPermissionList), sr_expiration = Some 2592000, sr_source = []\<rparr> 7 ApproximateLocation \<and>
   (\<exists>a\<in>set (sd_agreements (doc_data (BuildSACDDocument ''0xo'' ''0xg'' ''did'' defaultPermissionList 5
       (ExpirationFrom 5 (days_duration 30)) True))). sg_asset a = ''did'')"
proof -
  have e: "ExpirationFrom 5 (days_duration 30) = 2592000" by code_simp
  have n: "sdkPermissionNames ApproximateLocation = Some ''GetApproximateLocation''" by code_simp
  note m = document_matches_grant [OF refl refl n, where now = 5 and d = "days_duration 30" and
      grantor = "''0xo''" and grantee = "''0xg''" and asset = "''did''" and ps = defaultPermissionList and src = "[]" and ts = 7]
  have "ApproximateLocation \<notin> set defaultPermissionList" by code_simp
  then have "privilege ''GetApproximateLocation'' \<notin> set (permission_names defaultPermissionList)"
    using mem_permission_names [OF n] by blast
  then show ?thesis using m e by (auto simp: BuildSACDDocument_def Let_def)
qed

end
