(* ===== verification/Sharing.thy ===== *)
theory Sharing
  imports SharedSigner Sacd Entitlements
begin

text \<open>
  Acting on a vehicle through its owner's account: who may (\<open>service/sharing.go\<close>), and the three
  workers that do it (\<open>sharing/worker.go\<close>, \<open>sharing/revoke.go\<close>, \<open>sharing/shared_ops.go\<close>). A worker
  returns, with its result, the calls it sent, in order: which account they came from, whose key
  signed them and through which validator.
\<close>

subsection \<open>The outside world\<close>

datatype owner_answer = OwnerFound string | OwnerUnknown | OwnerFailed

datatype send_reply = SendFailed | NoReceipt | Landed

type_synonym sender = "string \<Rightarrow> string \<Rightarrow> call_msg \<Rightarrow> send_reply"  \<comment> \<open>kernel, key, call\<close>

text \<open>\<open>kernelRPC\<close> says whether the \<open>n\<close>-th use of the RPC client in a job finds it connected.\<close>

record share_env =
  sv_env :: env
  VehicleOwner :: "int \<Rightarrow> owner_answer"
  sv_contracts :: contracts
  sv_net :: publisher_net
  kernelRPC :: "nat \<Rightarrow> bool"
  SendCall :: sender
  SendOwnerCall :: "sender option"

record sent_call =
  sn_owner_mode :: bool
  sn_kernel :: string
  sn_key :: string
  sn_msg :: call_msg

subsection \<open>Authorization\<close>

definition ValidateGrantee :: "library \<Rightarrow> string \<Rightarrow> string \<Rightarrow> svc_error option" where
  "ValidateGrantee L grantee owner =
     (if \<not> IsHexAddress L grantee then Some (ErrGranteeInvalid ''not a hex address'')
      else let addr = HexAddr L grantee in
      if addr = zero_address L then Some (ErrGranteeInvalid ''the zero address'')
      else if owner \<noteq> zero_address L \<and> addr = owner then Some (ErrGranteeInvalid ''the grantee is the owner'')
      else None)"

definition assertEntitled :: "faults \<Rightarrow> db \<Rightarrow> uuid \<Rightarrow> token_id \<Rightarrow> svc_error option" where
  "assertEntitled flt s tenantID tokenID =
     (if flt 0 then Some (DbError ''read entitlement mode'')
      else case tenant_by_id tenantID s of
        None \<Rightarrow> Some ErrTenantNotFound
      | Some t \<Rightarrow>
        if t_mode t \<noteq> EntitlementExplicit then None
        else if flt 1 then Some (DbError ''assert entitled'')
        else if entitled (entitlements s) tenantID tokenID then None
        else Some ErrNotEntitled)"

text \<open>
  The column read of \<open>signerKeyOf\<close> and \<open>aaWalletKey\<close>: a failed query leaves the scanned value NULL,
  and NULL is tested before the error.
\<close>

definition scanned_key :: "bool \<Rightarrow> db \<Rightarrow> (credential_row \<Rightarrow> string option) \<Rightarrow> uuid \<Rightarrow> string" where
  "scanned_key failed s col credTenantID =
     (if failed then [] else null_str (Option.bind (find (\<lambda>c. c_tenant c = credTenantID) (credentials s)) col))"

definition key_of :: "env \<Rightarrow> string \<Rightarrow> svc_error + string" where
  "key_of V keyEnc =
     (case DecryptSecret (ev_cry V) (TenantSecretEncKey (ev_cfg V)) keyEnc of
        None \<Rightarrow> Inl (Remote ''decrypt key'')
      | Some plaintext \<Rightarrow>
        (case HexToECDSA (ev_eth V) plaintext of None \<Rightarrow> Inl (Remote ''parse key'') | Some pk \<Rightarrow> Inr pk))"

definition signerKeyOf :: "env \<Rightarrow> faults \<Rightarrow> db \<Rightarrow> uuid \<Rightarrow> svc_error + string" where
  "signerKeyOf V flt s credTenantID =
     (let keyEnc = scanned_key (flt 0) s c_signer_key_enc credTenantID in
      if keyEnc = [] then Inl ErrNoSignerKey else key_of V keyEnc)"

definition aaWalletKey :: "env \<Rightarrow> faults \<Rightarrow> db \<Rightarrow> uuid \<Rightarrow> svc_error + string" where
  "aaWalletKey V flt s credTenantID =
     (let keyEnc = scanned_key (flt 0) s c_aa_key_enc credTenantID in
      if keyEnc = [] then Inl (Wrapped ''AA wallet key vanished'' ErrNoAAWallet) else key_of V keyEnc)"

definition AuthorizeShare ::
  "share_env \<Rightarrow> faults \<Rightarrow> schedule \<Rightarrow> time \<Rightarrow> minters \<Rightarrow> db \<Rightarrow> uuid \<Rightarrow> token_id \<Rightarrow>
   minters \<times> db \<times> (svc_error + string \<times> string \<times> bool)" where
  "AuthorizeShare W flt sched now cache s tenantID tokenID =
     (let V = sv_env W; L = ev_lib V in
      case assertEntitled flt s tenantID tokenID of
        Some e \<Rightarrow> (cache, s, Inl e)
      | None \<Rightarrow>
        (case VehicleOwner W tokenID of
           OwnerUnknown \<Rightarrow> (cache, s, Inl ErrVehicleUnknown)
         | OwnerFailed \<Rightarrow> (cache, s, Inl (Remote ''resolve owner of vehicle''))
         | OwnerFound ownerHex \<Rightarrow>
           let owner = HexAddr L ownerHex in
           (case Effective (\<lambda>n. flt (n + 2)) s tenantID of
              Inl e \<Rightarrow> (cache, s, Inl (Wrapped ''resolve effective credential'' e))
            | Inr cred \<Rightarrow>
              if OwnerModeConfigured (ev_cfg V) \<and> ec_aa_wallet cred \<noteq> [] \<and> owner = HexAddr L (ec_aa_wallet cred)
              then case aaWalletKey V (\<lambda>n. flt (n + 4)) s (ec_tenant cred) of
                     Inl e \<Rightarrow> (cache, s, Inl e)
                   | Inr rootPK \<Rightarrow> (cache, s, Inr (owner, rootPK, True))
              else case MaySignFor V (\<lambda>n. flt (n + 5)) sched now cache s tenantID owner of
                     (cache', s', Some e) \<Rightarrow> (cache', s', Inl e)
                   | (cache', s', None) \<Rightarrow>
                     (case signerKeyOf V (\<lambda>n. flt (n + 10)) s' (ec_tenant cred) of
                        Inl e \<Rightarrow> (cache', s', Inl e)
                      | Inr signerPK \<Rightarrow> (cache', s', Inr (owner, signerPK, False))))))"

definition GranteeClientID :: "library \<Rightarrow> faults \<Rightarrow> db \<Rightarrow> uuid \<Rightarrow> svc_error + string" where
  "GranteeClientID L flt s tenantID =
     (case Effective flt s tenantID of
        Inl e \<Rightarrow> Inl (Wrapped ''resolve effective credential'' e)
      | Inr cred \<Rightarrow> if \<not> IsHexAddress L (ec_client_id cred) then Inl ErrNoClientID else Inr (HexAddr L (ec_client_id cred)))"

subsection \<open>Sending\<close>

definition sendByMode :: "share_env \<Rightarrow> string \<Rightarrow> string \<Rightarrow> bool \<Rightarrow> call_msg \<Rightarrow> sent_call list \<times> (svc_error + send_reply)" where
  "sendByMode W owner pk ownerMode msg =
     (let call = \<lparr>sn_owner_mode = ownerMode, sn_kernel = owner, sn_key = pk, sn_msg = msg\<rparr> in
      if \<not> ownerMode then ([call], Inr (SendCall W owner pk msg))
      else case SendOwnerCall W of
        None \<Rightarrow> ([], Inl ErrOwnerModeNotConfigured)
      | Some send \<Rightarrow> ([call], Inr (send owner pk msg)))"

definition receipt_required :: "send_reply \<Rightarrow> svc_error option" where
  "receipt_required reply =
     (case reply of
        SendFailed \<Rightarrow> Some (Wrapped ''send UserOp'' (Remote ''bundler''))
      | NoReceipt \<Rightarrow> Some (Remote ''UserOp returned no receipt'')
      | Landed \<Rightarrow> None)"

definition send_and_wait :: "share_env \<Rightarrow> string \<Rightarrow> string \<Rightarrow> bool \<Rightarrow> call_msg \<Rightarrow> sent_call list \<times> svc_error option" where
  "send_and_wait W owner pk ownerMode msg =
     (case sendByMode W owner pk ownerMode msg of
        (calls, Inl e) \<Rightarrow> (calls, Some (Wrapped ''send UserOp'' e))
      | (calls, Inr reply) \<Rightarrow> (calls, receipt_required reply))"

subsection \<open>The share worker\<close>

record share_args =
  sh_tenant :: uuid
  sh_token :: token_id
  sh_grantee :: string
  sh_days :: int
  sh_actor :: string

definition sacd_addr :: "share_env \<Rightarrow> string" where
  "sacd_addr W = HexAddr (ev_lib (sv_env W)) (SacdAddress (ev_cfg (sv_env W)))"

definition vehicle_nft :: "share_env \<Rightarrow> string" where
  "vehicle_nft W = HexAddr (ev_lib (sv_env W)) (VehicleNftAddress (ev_cfg (sv_env W)))"

definition publishSACDDocument :: "share_env \<Rightarrow> time \<Rightarrow> string \<Rightarrow> string \<Rightarrow> token_id \<Rightarrow> int \<Rightarrow> string \<Rightarrow> svc_error + string" where
  "publishSACDDocument W now owner grantee tokenID expiration signerPK =
     (let cfg = ev_cfg (sv_env W); N = sv_net W in
      if SacdUploadURL cfg = [] then Inl (BadRequest ''no SACD upload URL configured'')
      else let asset = VehicleAssetDID (ChainID cfg) (vehicle_nft W) tokenID;
               doc = BuildSACDDocument owner grantee asset defaultPermissionList now expiration True in
      if \<not> kernelRPC W 0 then Inl (Remote ''dial RPC'')
      else case SignSACDDocument N doc owner signerPK of
        Inl e \<Rightarrow> Inl (Wrapped ''sign SACD document'' e)
      | Inr signedDoc \<Rightarrow>
        (case UploadSACDDocument N (SacdUploadURL cfg) signedDoc of Inl e \<Rightarrow> Inl e | Inr cid \<Rightarrow> Inr (SourceURI cid)))"

definition currentGrant :: "share_env \<Rightarrow> token_id \<Rightarrow> string \<Rightarrow> svc_error + sacd_record" where
  "currentGrant W tokenID grantee =
     (if \<not> kernelRPC W 1 then Inl (Remote ''dial RPC'')
      else ReadCurrentGrant (sv_contracts W) (sacd_addr W) (vehicle_nft W) tokenID grantee)"

definition sacdSource :: "share_env \<Rightarrow> time \<Rightarrow> string \<Rightarrow> string \<Rightarrow> token_id \<Rightarrow> int \<Rightarrow> string \<Rightarrow> svc_error + string" where
  "sacdSource W now owner grantee tokenID expiration signerPK =
     (case publishSACDDocument W now owner grantee tokenID expiration signerPK of
        Inr source \<Rightarrow> Inr source
      | Inl _ \<Rightarrow>
        (case currentGrant W tokenID grantee of
           Inl _ \<Rightarrow> Inl ErrShareDocumentRequired
         | Inr r \<Rightarrow> if GrantIsLive r now then Inl ErrShareDocumentRequired else Inr []))"

text \<open>What one run of a worker leaves.\<close>

type_synonym work_result = "minters \<times> db \<times> sent_call list \<times> svc_error option"

definition share_Work :: "share_env \<Rightarrow> faults \<Rightarrow> schedule \<Rightarrow> time \<Rightarrow> minters \<Rightarrow> db \<Rightarrow> share_args \<Rightarrow> work_result" where
  "share_Work W flt sched now cache s args =
     (let L = ev_lib (sv_env W) in
      if \<not> IsHexAddress L (sh_grantee args) then (cache, s, [], Some (BadRequest ''grantee is not a hex address''))
      else let grantee = HexAddr L (sh_grantee args) in
      case AuthorizeShare W flt sched now cache s (sh_tenant args) (sh_token args) of
        (cache', s', Inl e) \<Rightarrow> (cache', s', [], Some (Wrapped ''authorize share'' e))
      | (cache', s', Inr (owner, signerPK, ownerMode)) \<Rightarrow>
        let expiration = ExpirationFrom now (days_duration (sh_days args)) in
        (case sacdSource W now owner grantee (sh_token args) expiration signerPK of
           Inl e \<Rightarrow> (cache', s', [], Some e)
         | Inr source \<Rightarrow>
           (case BuildSetPermissionsCall (sv_contracts W) (sacd_addr W) (vehicle_nft W) (sh_token args) grantee
                   DefaultPermissions expiration source of
              Inl e \<Rightarrow> (cache', s', [], Some (Wrapped ''build setPermissions call'' e))
            | Inr msg \<Rightarrow> (cache', s', send_and_wait W owner signerPK ownerMode msg))))"

subsection \<open>The revoke worker\<close>

definition revoke_Work :: "share_env \<Rightarrow> faults \<Rightarrow> schedule \<Rightarrow> time \<Rightarrow> minters \<Rightarrow> db \<Rightarrow> share_args \<Rightarrow> work_result" where
  "revoke_Work W flt sched now cache s args =
     (let L = ev_lib (sv_env W) in
      if \<not> IsHexAddress L (sh_grantee args) then (cache, s, [], Some (BadRequest ''grantee is not a hex address''))
      else let grantee = HexAddr L (sh_grantee args) in
      case AuthorizeShare W flt sched now cache s (sh_tenant args) (sh_token args) of
        (cache', s', Inl e) \<Rightarrow> (cache', s', [], Some (Wrapped ''authorize revoke'' e))
      | (cache', s', Inr (owner, signerPK, ownerMode)) \<Rightarrow>
        (case BuildSetPermissionsCall (sv_contracts W) (sacd_addr W) (vehicle_nft W) (sh_token args) grantee
                NoPermissions RevokedExpiration [] of
           Inl e \<Rightarrow> (cache', s', [], Some (Wrapped ''build setPermissions call'' e))
         | Inr msg \<Rightarrow> (cache', s', send_and_wait W owner signerPK ownerMode msg)))"

subsection \<open>Shared operations\<close>

datatype shared_op = OpTransferVehicle | OpBurnSynthetic | OpBurnVehicle | OpGrantSacd

definition parse_op :: "string \<Rightarrow> shared_op option" where
  "parse_op op =
     (if op = ''transfer_vehicle'' then Some OpTransferVehicle
      else if op = ''burn_synthetic'' then Some OpBurnSynthetic
      else if op = ''burn_vehicle'' then Some OpBurnVehicle
      else if op = ''grant_sacd'' then Some OpGrantSacd
      else None)"

record shared_op_args =
  so_tenant :: uuid
  so_token :: token_id
  so_op :: string
  so_target :: string
  so_synthetic :: token_id
  so_actor :: string

definition op_Validate :: "library \<Rightarrow> shared_op_args \<Rightarrow> svc_error option" where
  "op_Validate L a =
     (if so_token a \<le> 0 then Some (ErrOpInvalid ''tokenId must be positive'')
      else case parse_op (so_op a) of
        Some OpTransferVehicle \<Rightarrow>
          if \<not> IsHexAddress L (so_target a) then Some (ErrOpInvalid ''targetWallet is not a hex address'')
          else if HexAddr L (so_target a) = zero_address L then Some (ErrOpInvalid ''targetWallet must not be the zero address'')
          else if so_synthetic a \<noteq> 0 then Some (ErrOpInvalid ''syntheticTokenId only applies to burn_synthetic'')
          else None
      | Some OpBurnSynthetic \<Rightarrow>
          if so_synthetic a \<le> 0 then Some (ErrOpInvalid ''burn_synthetic requires a positive syntheticTokenId'')
          else if so_target a \<noteq> [] then Some (ErrOpInvalid ''targetWallet only applies to transfer_vehicle'')
          else None
      | Some _ \<Rightarrow>
          if so_target a \<noteq> [] then Some (ErrOpInvalid ''targetWallet only applies to transfer_vehicle'')
          else if so_synthetic a \<noteq> 0 then Some (ErrOpInvalid ''syntheticTokenId only applies to burn_synthetic'')
          else None
      | None \<Rightarrow> Some (ErrOpInvalid ''op must be one of the four''))"

definition buildTenantGrant :: "share_env \<Rightarrow> time \<Rightarrow> token_id \<Rightarrow> string \<Rightarrow> svc_error + call_msg" where
  "buildTenantGrant W now tokenID grantee =
     BuildSetPermissionsCall (sv_contracts W) (sacd_addr W) (vehicle_nft W) tokenID grantee FullPermissions
       (ExpirationFrom now 0) []"

definition op_send :: "share_env \<Rightarrow> string \<Rightarrow> string \<Rightarrow> call_msg \<Rightarrow> sent_call list \<times> svc_error option" where
  "op_send W kern signerPK msg =
     ([\<lparr>sn_owner_mode = False, sn_kernel = kern, sn_key = signerPK, sn_msg = msg\<rparr>],
      receipt_required (SendCall W kern signerPK msg))"

text \<open>
  The chained re-share after a transfer, which never fails the operation. \<open>flt\<close> and \<open>sched\<close> are
  those of its own signer check.
\<close>

definition reshare ::
  "share_env \<Rightarrow> faults \<Rightarrow> schedule \<Rightarrow> time \<Rightarrow> minters \<Rightarrow> db \<Rightarrow> shared_op_args \<Rightarrow> string \<Rightarrow> string \<Rightarrow>
   minters \<times> db \<times> sent_call list" where
  "reshare W flt sched now cache s args target signerPK =
     (case MaySignFor (sv_env W) flt sched now cache s (so_tenant args) target of
        (cache', s', Some _) \<Rightarrow> (cache', s', [])
      | (cache', s', None) \<Rightarrow>
        (case GranteeClientID (ev_lib (sv_env W)) (\<lambda>n. flt (n + 5)) s' (so_tenant args) of
           Inl _ \<Rightarrow> (cache', s', [])
         | Inr grantee \<Rightarrow>
           (case buildTenantGrant W now (so_token args) grantee of
              Inl _ \<Rightarrow> (cache', s', [])
            | Inr msg \<Rightarrow> (cache', s', fst (op_send W target signerPK msg)))))"

definition transferVehicle ::
  "share_env \<Rightarrow> faults \<Rightarrow> schedule \<Rightarrow> time \<Rightarrow> minters \<Rightarrow> db \<Rightarrow> shared_op_args \<Rightarrow> string \<Rightarrow> string \<Rightarrow> work_result" where
  "transferVehicle W flt sched now cache s args owner signerPK =
     (let target = HexAddr (ev_lib (sv_env W)) (so_target args);
          leg = (if target = owner then Inr ([], None)
                 else case BuildSafeTransferFromCall (sv_contracts W) (vehicle_nft W) owner target (so_token args) of
                   Inl e \<Rightarrow> Inl (Wrapped ''build transfer calldata'' e)
                 | Inr msg \<Rightarrow> Inr (op_send W owner signerPK msg)) in
      case leg of
        Inl e \<Rightarrow> (cache, s, [], Some e)
      | Inr (calls, Some e) \<Rightarrow> (cache, s, calls, Some e)
      | Inr (calls, None) \<Rightarrow>
        (case reshare W flt sched now cache s args target signerPK of
           (cache', s', regrant) \<Rightarrow> (cache', s', calls @ regrant, None)))"

definition grantToTenant ::
  "share_env \<Rightarrow> faults \<Rightarrow> time \<Rightarrow> minters \<Rightarrow> db \<Rightarrow> shared_op_args \<Rightarrow> string \<Rightarrow> string \<Rightarrow> work_result" where
  "grantToTenant W flt now cache s args owner signerPK =
     (case GranteeClientID (ev_lib (sv_env W)) flt s (so_tenant args) of
        Inl e \<Rightarrow> (cache, s, [], Some (Wrapped ''resolve grantee client id'' e))
      | Inr grantee \<Rightarrow>
        (case buildTenantGrant W now (so_token args) grantee of
           Inl e \<Rightarrow> (cache, s, [], Some (Wrapped ''build setPermissions call'' e))
         | Inr msg \<Rightarrow> (cache, s, op_send W owner signerPK msg)))"

definition op_Work ::
  "share_env \<Rightarrow> faults \<Rightarrow> schedule \<Rightarrow> schedule \<Rightarrow> time \<Rightarrow> minters \<Rightarrow> db \<Rightarrow> shared_op_args \<Rightarrow> work_result" where
  "op_Work W flt sched sched2 now cache s args =
     (case op_Validate (ev_lib (sv_env W)) args of
        Some e \<Rightarrow> (cache, s, [], Some e)
      | None \<Rightarrow>
        (case AuthorizeShare W flt sched now cache s (so_tenant args) (so_token args) of
           (cache', s', Inl e) \<Rightarrow> (cache', s', [], Some (Wrapped ''authorize'' e))
         | (cache', s', Inr (owner, signerPK, ownerMode)) \<Rightarrow>
           if ownerMode then (cache', s', [], Some (BadRequest ''AA-wallet-owned vehicle is not supported yet''))
           else case parse_op (so_op args) of
             Some OpTransferVehicle \<Rightarrow> transferVehicle W (\<lambda>n. flt (n + 11)) sched2 now cache' s' args owner signerPK
           | Some OpBurnSynthetic \<Rightarrow>
               (cache', s', op_send W owner signerPK
                  (BuildBurnSyntheticCall (sv_contracts W)
                     (HexAddr (ev_lib (sv_env W)) (SyntheticNftAddress (ev_cfg (sv_env W)))) (so_synthetic args)))
           | Some OpBurnVehicle \<Rightarrow>
               (case BuildBurnVehicleCall (sv_contracts W) (vehicle_nft W) (so_token args) of
                  Inl e \<Rightarrow> (cache', s', [], Some (Wrapped ''build burn calldata'' e))
                | Inr msg \<Rightarrow> (cache', s', op_send W owner signerPK msg))
           | Some OpGrantSacd \<Rightarrow> grantToTenant W (\<lambda>n. flt (n + 11)) now cache' s' args owner signerPK
           | None \<Rightarrow> (cache', s', [], Some (ErrOpInvalid ''op''))))"

subsection \<open>Jobs\<close>

datatype job = JShare share_args | JRevoke share_args | JOp shared_op_args

fun work :: "share_env \<Rightarrow> faults \<Rightarrow> schedule \<Rightarrow> schedule \<Rightarrow> time \<Rightarrow> minters \<Rightarrow> db \<Rightarrow> job \<Rightarrow> work_result" where
  "work W flt sched sched2 now cache s (JShare a) = share_Work W flt sched now cache s a"
| "work W flt sched sched2 now cache s (JRevoke a) = revoke_Work W flt sched now cache s a"
| "work W flt sched sched2 now cache s (JOp a) = op_Work W flt sched sched2 now cache s a"

fun job_tenant :: "job \<Rightarrow> uuid" where
  "job_tenant (JShare a) = sh_tenant a"
| "job_tenant (JRevoke a) = sh_tenant a"
| "job_tenant (JOp a) = so_tenant a"

fun job_token :: "job \<Rightarrow> token_id" where
  "job_token (JShare a) = sh_token a"
| "job_token (JRevoke a) = sh_token a"
| "job_token (JOp a) = so_token a"

subsection \<open>Standing\<close>

text \<open>
  What must hold when a call is signed: the vehicle is in the tenant's fleet if its fleet is
  explicit, the kernel is the vehicle's current owner, and the key is the one stored with the
  effective credential for the way it signs.
\<close>

definition holds_key :: "env \<Rightarrow> db \<Rightarrow> (credential_row \<Rightarrow> string option) \<Rightarrow> uuid \<Rightarrow> string \<Rightarrow> bool" where
  "holds_key V s col holder key \<longleftrightarrow>
     (\<exists>c\<in>set (credentials s). c_tenant c = holder \<and> (\<exists>enc. col c = Some enc \<and> key_of V enc = Inr key))"

definition may_act :: "share_env \<Rightarrow> db \<Rightarrow> uuid \<Rightarrow> token_id \<Rightarrow> string \<Rightarrow> string \<Rightarrow> bool \<Rightarrow> bool" where
  "may_act W s tid tok owner key ownerMode \<longleftrightarrow>
     (\<exists>t. tenant_by_id tid s = Some t \<and> (t_mode t = EntitlementExplicit \<longrightarrow> entitled (entitlements s) tid tok)) \<and>
     (\<exists>hex. VehicleOwner W tok = OwnerFound hex \<and> owner = HexAddr (ev_lib (sv_env W)) hex) \<and>
     (\<exists>cred. Effective no_faults s tid = Inr cred \<and>
        (if ownerMode
         then OwnerModeConfigured (ev_cfg (sv_env W)) \<and> ec_aa_wallet cred \<noteq> [] \<and>
              owner = HexAddr (ev_lib (sv_env W)) (ec_aa_wallet cred) \<and> holds_key (sv_env W) s c_aa_key_enc (ec_tenant cred) key
         else may_sign (sv_env W) s cred owner \<and> holds_key (sv_env W) s c_signer_key_enc (ec_tenant cred) key))"

lemma only_accounts_Effective: "only_accounts s t \<Longrightarrow> Effective flt t = Effective flt s"
proof -
  assume "only_accounts s t"
  then obtain rs where t: "t = s\<lparr>shared_accounts := rs\<rparr>" by (auto simp: only_accounts_def)
  have e: "effective_row t = effective_row s" by (rule ext) (simp add: t effective_row_def split: option.split)
  have i: "tenant_by_id y t = tenant_by_id y s" for y by (simp add: t tenant_by_id_def)
  show ?thesis by (rule ext) (simp only: Effective_def effectiveWithKey_def e i)
qed

lemma assertEntitled_sound:
  "assertEntitled flt s tid tok = None \<Longrightarrow>
     \<exists>t. tenant_by_id tid s = Some t \<and> (t_mode t = EntitlementExplicit \<longrightarrow> entitled (entitlements s) tid tok)"
  by (auto simp: assertEntitled_def split: if_splits option.splits)

lemma scanned_keyD:
  "scanned_key f s col h = enc \<Longrightarrow> enc \<noteq> [] \<Longrightarrow> \<exists>c\<in>set (credentials s). c_tenant c = h \<and> col c = Some enc"
  by (auto simp: scanned_key_def null_str_def split: if_splits option.splits bind_split_asm dest: find_SomeD)

lemma key_reads:
  "signerKeyOf V flt s h = Inr key \<Longrightarrow> holds_key V s c_signer_key_enc h key"
  "aaWalletKey V flt s h = Inr key \<Longrightarrow> holds_key V s c_aa_key_enc h key"
  unfolding signerKeyOf_def aaWalletKey_def holds_key_def Let_def
  by (auto split: if_splits dest!: scanned_keyD [OF refl])

lemma MaySignFor_standing:
  assumes "address_laws (ev_lib V)" and "MaySignFor V flt sched now cache s tid (HexAddr (ev_lib V) w) = (cache', s', r)"
  shows "only_accounts s s' \<and>
    (r = None \<longrightarrow> (\<exists>cred. Effective no_faults s tid = Inr cred \<and> may_sign V s cred (HexAddr (ev_lib V) w)))"
proof -
  note m = MaySignFor_reasons [OF assms(2)]
  show ?thesis using m Effective_faults HexAddr_idem [OF assms(1), of w] by metis
qed

lemma AuthorizeShare_sound:
  assumes "address_laws (ev_lib (sv_env W))"
    and "AuthorizeShare W flt sched now cache s tid tok = (cache', s', r)"
  shows "only_accounts s s' \<and> (\<forall>owner key m. r = Inr (owner, key, m) \<longrightarrow> may_act W s tid tok owner key m)"
proof -
  let ?V = "sv_env W" and ?L = "ev_lib (sv_env W)"
  have keep: ?thesis if "s' = s" "\<exists>e. r = Inl e" using that by auto
  show ?thesis
  proof (cases "assertEntitled flt s tid tok")
    case (Some e)
    then show ?thesis using assms(2) by (intro keep) (auto simp: AuthorizeShare_def)
  next
    case ent: None
    show ?thesis
    proof (cases "\<exists>hex cred. VehicleOwner W tok = OwnerFound hex \<and> Effective (\<lambda>n. flt (n + 2)) s tid = Inr cred")
      case False
      then show ?thesis using assms(2) ent
        by (intro keep) (auto simp: AuthorizeShare_def Let_def split: owner_answer.splits sum.splits)
    next
      case True
      then obtain hex cred where o: "VehicleOwner W tok = OwnerFound hex" and eff: "Effective (\<lambda>n. flt (n + 2)) s tid = Inr cred" by blast
      note eff' = Effective_faults [OF eff]
      note act = assertEntitled_sound [OF ent] o eff'
      show ?thesis
      proof (cases "OwnerModeConfigured (ev_cfg ?V) \<and> ec_aa_wallet cred \<noteq> [] \<and> HexAddr ?L hex = HexAddr ?L (ec_aa_wallet cred)")
        case aa: True
        then show ?thesis using assms(2) ent o eff act key_reads(2)
          by (auto simp: AuthorizeShare_def Let_def may_act_def split: sum.splits)
      next
        case False
        obtain c t q where m: "MaySignFor ?V (\<lambda>n. flt (n + 5)) sched now cache s tid (HexAddr ?L hex) = (c, t, q)" by (metis prod_cases3)
        note ms = MaySignFor_standing [OF assms(1) m]
        have out: "s' = t" "\<forall>owner key m. r = Inr (owner, key, m) \<longrightarrow> q = None \<and> owner = HexAddr ?L hex \<and> \<not> m \<and>
            signerKeyOf ?V (\<lambda>n. flt (n + 10)) t (ec_tenant cred) = Inr key"
          using assms(2) ent o eff False m by (auto simp: AuthorizeShare_def Let_def split: sum.splits option.splits)
        have cr: "credentials t = credentials s" using ms by (metis only_accounts_def db.select_convs db.surjective db.update_convs)
        then show ?thesis using out ms act key_reads(1) [of ?V _ t] unfolding may_act_def holds_key_def by fastforce
      qed
    qed
  qed
qed

subsection \<open>What a job may send\<close>

text \<open>The one call (for a transfer, the two) a job names, given the vehicle's owner.\<close>

definition grant_of :: "share_env \<Rightarrow> token_id \<Rightarrow> string \<Rightarrow> int \<Rightarrow> int \<Rightarrow> string \<Rightarrow> call_msg \<Rightarrow> bool" where
  "grant_of W tok grantee perms expires source msg \<longleftrightarrow>
     BuildSetPermissionsCall (sv_contracts W) (sacd_addr W) (vehicle_nft W) tok grantee perms expires source = Inr msg"

definition tenant_grant :: "share_env \<Rightarrow> db \<Rightarrow> time \<Rightarrow> shared_op_args \<Rightarrow> call_msg \<Rightarrow> bool" where
  "tenant_grant W s now a msg \<longleftrightarrow> (\<exists>cred. Effective no_faults s (so_tenant a) = Inr cred \<and>
     grant_of W (so_token a) (HexAddr (ev_lib (sv_env W)) (ec_client_id cred)) FullPermissions
       (ExpirationFrom now 0) [] msg)"

fun permitted_call :: "share_env \<Rightarrow> db \<Rightarrow> time \<Rightarrow> job \<Rightarrow> string \<Rightarrow> string \<Rightarrow> call_msg \<Rightarrow> bool" where
  "permitted_call W s now (JShare a) owner kern msg \<longleftrightarrow> kern = owner \<and>
     (\<exists>source. grant_of W (sh_token a) (HexAddr (ev_lib (sv_env W)) (sh_grantee a)) DefaultPermissions
        (ExpirationFrom now (days_duration (sh_days a))) source msg)"
| "permitted_call W s now (JRevoke a) owner kern msg \<longleftrightarrow> kern = owner \<and>
     grant_of W (sh_token a) (HexAddr (ev_lib (sv_env W)) (sh_grantee a)) NoPermissions RevokedExpiration [] msg"
| "permitted_call W s now (JOp a) owner kern msg \<longleftrightarrow>
     (case parse_op (so_op a) of
        Some OpTransferVehicle \<Rightarrow>
          (let target = HexAddr (ev_lib (sv_env W)) (so_target a) in
           (kern = owner \<and> target \<noteq> owner \<and> target \<noteq> zero_address (ev_lib (sv_env W)) \<and>
              BuildSafeTransferFromCall (sv_contracts W) (vehicle_nft W) owner target (so_token a) = Inr msg) \<or>
           (kern = target \<and> tenant_grant W s now a msg))
      | Some OpBurnSynthetic \<Rightarrow> kern = owner \<and> 0 < so_synthetic a \<and> msg = BuildBurnSyntheticCall (sv_contracts W)
          (HexAddr (ev_lib (sv_env W)) (SyntheticNftAddress (ev_cfg (sv_env W)))) (so_synthetic a)
      | Some OpBurnVehicle \<Rightarrow> kern = owner \<and> BuildBurnVehicleCall (sv_contracts W) (vehicle_nft W) (so_token a) = Inr msg
      | Some OpGrantSacd \<Rightarrow> kern = owner \<and> tenant_grant W s now a msg
      | None \<Rightarrow> False)"

text \<open>A kernel the tenant may sign for: the owner, or the account a transfer leaves the vehicle with.\<close>

definition signable :: "share_env \<Rightarrow> db \<Rightarrow> uuid \<Rightarrow> string \<Rightarrow> string \<Rightarrow> bool" where
  "signable W s tid owner kern \<longleftrightarrow> kern = owner \<or>
     (\<exists>s1 cred. only_accounts s s1 \<and> Effective no_faults s tid = Inr cred \<and> may_sign (sv_env W) s1 cred kern)"

text \<open>
  What confirms a call, said of the bundler alone: it was sent in the mode it names, and its user
  operation landed with a receipt. A call sent without a receipt to show for it is not confirmed.
\<close>

definition call_landed :: "share_env \<Rightarrow> sent_call \<Rightarrow> bool" where
  "call_landed W q \<longleftrightarrow>
     (if sn_owner_mode q
      then \<exists>send. SendOwnerCall W = Some send \<and> send (sn_kernel q) (sn_key q) (sn_msg q) = Landed
      else SendCall W (sn_kernel q) (sn_key q) (sn_msg q) = Landed)"

lemma send_and_wait_confirmed:
  assumes "send_and_wait W owner pk m msg = (calls, r)"
  shows "r = None \<longleftrightarrow> (\<exists>q. calls = [q] \<and> call_landed W q)"
  using assms unfolding send_and_wait_def sendByMode_def Let_def
  by (auto simp: receipt_required_def call_landed_def split: if_splits option.splits send_reply.splits)

lemma send_and_wait_result:
  assumes "send_and_wait W owner pk m msg = (calls, r)"
  shows "length calls \<le> 1 \<and> (\<forall>q\<in>set calls. q = \<lparr>sn_owner_mode = m, sn_kernel = owner, sn_key = pk, sn_msg = msg\<rparr>) \<and>
    (r = None \<longrightarrow> length calls = 1)"
  using assms unfolding send_and_wait_def sendByMode_def Let_def
  by (auto simp: receipt_required_def split: if_splits option.splits send_reply.splits)

lemma share_Work_result:
  assumes "share_Work W flt sched now cache s x = (cache', s', calls, r)"
    and "AuthorizeShare W flt sched now cache s (sh_tenant x) (sh_token x) = (c, t, a)"
    and "L = ev_lib (sv_env W)" and "ex = ExpirationFrom now (days_duration (sh_days x))"
  shows "(s' = s \<or> s' = t) \<and> (calls = [] \<and> r \<noteq> None \<or> (\<exists>owner pk m source msg. a = Inr (owner, pk, m) \<and>
    sacdSource W now owner (HexAddr L (sh_grantee x)) (sh_token x) ex pk = Inr source \<and>
    grant_of W (sh_token x) (HexAddr L (sh_grantee x)) DefaultPermissions ex source msg \<and> send_and_wait W owner pk m msg = (calls, r)))"
  using assms by (auto simp: share_Work_def Let_def grant_of_def split: if_splits sum.splits)

lemma revoke_Work_result:
  assumes "revoke_Work W flt sched now cache s x = (cache', s', calls, r)"
    and "AuthorizeShare W flt sched now cache s (sh_tenant x) (sh_token x) = (c, t, a)"
  shows "(s' = s \<or> s' = t) \<and> (calls = [] \<and> r \<noteq> None \<or> (\<exists>owner pk m msg. a = Inr (owner, pk, m) \<and>
    grant_of W (sh_token x) (HexAddr (ev_lib (sv_env W)) (sh_grantee x)) NoPermissions RevokedExpiration [] msg \<and>
    send_and_wait W owner pk m msg = (calls, r)))"
  using assms by (auto simp: revoke_Work_def Let_def grant_of_def split: if_splits sum.splits)

lemma GranteeClientID_grant:
  assumes "GranteeClientID (ev_lib (sv_env W)) flt s (so_tenant a) = Inr g" and "buildTenantGrant W now (so_token a) g = Inr msg"
  shows "tenant_grant W s now a msg"
  using assms Effective_faults unfolding GranteeClientID_def buildTenantGrant_def tenant_grant_def grant_of_def
  by (fastforce split: sum.splits if_splits)

lemma tenant_grant_frame: "only_accounts s t \<Longrightarrow> tenant_grant W t now a msg = tenant_grant W s now a msg"
  by (simp add: tenant_grant_def only_accounts_Effective)

lemma reshare_result:
  assumes "address_laws (ev_lib (sv_env W))"
    and "reshare W flt sched now cache s a (HexAddr (ev_lib (sv_env W)) w) pk = (cache', s', calls)"
  shows "only_accounts s s' \<and> length calls \<le> 1 \<and> (\<forall>q\<in>set calls.
    \<not> sn_owner_mode q \<and> sn_kernel q = HexAddr (ev_lib (sv_env W)) w \<and> sn_key q = pk \<and> tenant_grant W s now a (sn_msg q) \<and>
    (\<exists>cred. Effective no_faults s (so_tenant a) = Inr cred \<and> may_sign (sv_env W) s cred (sn_kernel q)))"
proof -
  obtain c t r where m: "MaySignFor (sv_env W) flt sched now cache s (so_tenant a) (HexAddr (ev_lib (sv_env W)) w) = (c, t, r)"
    by (metis prod_cases3)
  note ms = MaySignFor_standing [OF assms(1) m]
  show ?thesis using assms(2) m ms GranteeClientID_grant [of W _ t a] tenant_grant_frame [of s t]
    unfolding reshare_def by (auto simp: op_send_def split: option.splits sum.splits)
qed

lemma transferVehicle_result:
  assumes "address_laws (ev_lib (sv_env W))" and "transferVehicle W flt sched now cache s a owner pk = (cache', s', calls, r)"
    and "target = HexAddr (ev_lib (sv_env W)) (so_target a)"
  shows "only_accounts s s' \<and> (\<exists>leg regrant. calls = leg @ regrant \<and> length leg \<le> 1 \<and> length regrant \<le> 1 \<and>
    (\<forall>q\<in>set leg. \<not> sn_owner_mode q \<and> sn_kernel q = owner \<and> sn_key q = pk \<and> target \<noteq> owner \<and>
       BuildSafeTransferFromCall (sv_contracts W) (vehicle_nft W) owner target (so_token a) = Inr (sn_msg q)) \<and>
    (\<forall>q\<in>set regrant. \<not> sn_owner_mode q \<and> sn_kernel q = target \<and> sn_key q = pk \<and> tenant_grant W s now a (sn_msg q) \<and>
       (\<exists>cred. Effective no_faults s (so_tenant a) = Inr cred \<and> may_sign (sv_env W) s cred target)) \<and>
    (if target = owner then leg = [] \<and> r = None
     else if r = None then \<exists>q. leg = [q] \<and> SendCall W owner pk (sn_msg q) = Landed
     else regrant = []))"
proof -
  obtain c t more where rs: "reshare W flt sched now cache s a target pk = (c, t, more)" by (metis prod_cases3)
  note rr = reshare_result [OF assms(1) rs [unfolded assms(3)], folded assms(3)]
  show ?thesis
  proof (cases "target = owner")
    case True
    then have "calls = [] @ more \<and> s' = t \<and> r = None" using assms(2) rs by (simp add: transferVehicle_def assms(3) [symmetric] Let_def)
    then show ?thesis using rr True by (intro conjI exI [of _ "[]"] exI [of _ more]) auto
  next
    case ne: False
    show ?thesis
    proof (cases "BuildSafeTransferFromCall (sv_contracts W) (vehicle_nft W) owner target (so_token a)")
      case (Inl e)
      then show ?thesis using assms(2) ne by (auto simp: transferVehicle_def assms(3) [symmetric] Let_def)
    next
      case (Inr msg)
      let ?q = "\<lparr>sn_owner_mode = False, sn_kernel = owner, sn_key = pk, sn_msg = msg\<rparr>"
      have "if SendCall W owner pk msg = Landed then calls = [?q] @ more \<and> s' = t \<and> r = None else calls = [?q] @ [] \<and> s' = s \<and> r \<noteq> None"
        using assms(2) ne Inr rs
        by (auto simp: transferVehicle_def assms(3) [symmetric] Let_def op_send_def receipt_required_def split: send_reply.splits)
      then show ?thesis using rr ne Inr
        by (intro conjI exI [of _ "[?q]"] exI [of _ "if r = None then more else []"]) (auto split: if_splits)
    qed
  qed
qed

lemma op_calls_permitted:
  assumes "address_laws (ev_lib (sv_env W))" and v: "op_Validate (ev_lib (sv_env W)) x = None"
    and au: "AuthorizeShare W flt sched now cache s (so_tenant x) (so_token x) = (c, t, Inr (owner, pk, False))"
    and oa: "only_accounts s t" and w: "op_Work W flt sched sched2 now cache s x = (cache', s', calls, r)"
  shows "only_accounts s s' \<and> length calls \<le> 2 \<and> (\<forall>q\<in>set calls. \<not> sn_owner_mode q \<and> sn_key q = pk \<and>
    permitted_call W s now (JOp x) owner (sn_kernel q) (sn_msg q) \<and> signable W s (so_tenant x) owner (sn_kernel q))"
proof (cases "parse_op (so_op x)")
  case None
  then show ?thesis using v by (simp add: op_Validate_def split: if_splits)
next
  case (Some op)
  show ?thesis
  proof (cases "op = OpTransferVehicle")
    case True
    let ?target = "HexAddr (ev_lib (sv_env W)) (so_target x)"
    have nz: "?target \<noteq> zero_address (ev_lib (sv_env W))" using v Some True by (simp add: op_Validate_def split: if_splits)
    have "transferVehicle W (\<lambda>n. flt (n + 11)) sched2 now c t x owner pk = (cache', s', calls, r)"
      using w v au Some True by (simp add: op_Work_def)
    from transferVehicle_result [OF assms(1) this refl] obtain leg regrant where "only_accounts t s'" "calls = leg @ regrant"
        "length leg \<le> 1" "length regrant \<le> 1"
      and leg: "\<forall>q\<in>set leg. \<not> sn_owner_mode q \<and> sn_kernel q = owner \<and> sn_key q = pk \<and> ?target \<noteq> owner \<and>
          BuildSafeTransferFromCall (sv_contracts W) (vehicle_nft W) owner ?target (so_token x) = Inr (sn_msg q)"
      and re: "\<forall>q\<in>set regrant. \<not> sn_owner_mode q \<and> sn_kernel q = ?target \<and> sn_key q = pk \<and> tenant_grant W t now x (sn_msg q) \<and>
          (\<exists>cred. Effective no_faults t (so_tenant x) = Inr cred \<and> may_sign (sv_env W) t cred ?target)"
      by blast
    then show ?thesis using nz oa only_accounts_trans [OF oa] Some True
      by (auto simp: signable_def tenant_grant_frame [OF oa] only_accounts_Effective [OF oa])
  next
    case False
    then consider "op = OpBurnSynthetic" | "op = OpBurnVehicle" | "op = OpGrantSacd" by (cases op) auto
    then show ?thesis
    proof cases
      case 1
      then have "0 < so_synthetic x" using v Some by (simp add: op_Validate_def split: if_splits)
      then show ?thesis using w v au oa Some 1 by (auto simp: op_Work_def op_send_def signable_def)
    next
      case 2
      then show ?thesis using w v au oa Some by (auto simp: op_Work_def op_send_def signable_def split: sum.splits)
    next
      case 3
      then show ?thesis using w v au oa Some GranteeClientID_grant [of W _ t x]
        by (auto simp: op_Work_def grantToTenant_def op_send_def signable_def tenant_grant_frame [OF oa] split: sum.splits)
    qed
  qed
qed

text \<open>
  C5. Nothing is signed without standing, and nothing else is signed: each call a share, a revocation
  or a shared operation sends, at the moment it runs, is for a vehicle in the tenant's fleet, goes
  out from the vehicle's current owner (or the account a transfer gave it to, if the tenant may
  sign for that one too), is signed with the key stored for the tenant's effective credential, and
  is exactly the call the job names. The database keeps everything but remembered signers.
\<close>

theorem work_authorized:
  assumes "address_laws (ev_lib (sv_env W))" and "work W flt sched sched2 now cache s j = (cache', s', calls, r)"
  shows "only_accounts s s' \<and> length calls \<le> 2 \<and>
    (\<forall>q\<in>set calls. \<exists>owner. may_act W s (job_tenant j) (job_token j) owner (sn_key q) (sn_owner_mode q) \<and>
       permitted_call W s now j owner (sn_kernel q) (sn_msg q) \<and> signable W s (job_tenant j) owner (sn_kernel q))"
proof -
  obtain c t a where au: "AuthorizeShare W flt sched now cache s (job_tenant j) (job_token j) = (c, t, a)" by (metis prod_cases3)
  note as = AuthorizeShare_sound [OF assms(1) au]
  show ?thesis
  proof (cases j)
    case (JShare x)
    then have w: "share_Work W flt sched now cache s x = (cache', s', calls, r)"
        "AuthorizeShare W flt sched now cache s (sh_tenant x) (sh_token x) = (c, t, a)"
      using assms(2) au by simp_all
    from share_Work_result [OF w refl refl] show ?thesis using as JShare
      by (fastforce simp: signable_def dest: send_and_wait_result)
  next
    case (JRevoke x)
    then have w: "revoke_Work W flt sched now cache s x = (cache', s', calls, r)"
        "AuthorizeShare W flt sched now cache s (sh_tenant x) (sh_token x) = (c, t, a)"
      using assms(2) au by simp_all
    from revoke_Work_result [OF w] show ?thesis using as JRevoke
      by (fastforce simp: signable_def dest: send_and_wait_result)
  next
    case (JOp x)
    show ?thesis
    proof (cases "op_Validate (ev_lib (sv_env W)) x = None \<and> (\<exists>owner pk. a = Inr (owner, pk, False))")
      case False
      then have "s' = s \<or> s' = t" "calls = []" using assms(2) au
        by (auto simp: JOp op_Work_def split: option.splits sum.splits)
      then show ?thesis using as by auto
    next
      case True
      then obtain owner pk where v: "op_Validate (ev_lib (sv_env W)) x = None" and a: "a = Inr (owner, pk, False)" by blast
      have act: "may_act W s (so_tenant x) (so_token x) owner pk False" and oa: "only_accounts s t" using as a JOp by auto
      have w: "op_Work W flt sched sched2 now cache s x = (cache', s', calls, r)" using assms(2) JOp by simp
      from op_calls_permitted [OF assms(1) v au [unfolded JOp job_tenant.simps job_token.simps a] oa w] act JOp
      show ?thesis by fastforce
    qed
  qed
qed

text \<open>
  C16. A share never takes documents away: the grant it sends points at a freshly published document,
  or, when none could be published, at nothing, and then only if the record it overwrites was read
  and gives its grantee nothing. It sends at most one call, and the job succeeds exactly when that
  one call was sent and confirmed: the bundler answered it, in the mode it was sent in, with the
  receipt of a user operation that landed. A refused send and a missing receipt both fail the job.
\<close>

theorem share_keeps_documents:
  assumes "share_Work W flt sched now cache s x = (cache', s', calls, r)"
    and "L = ev_lib (sv_env W)" and "ex = ExpirationFrom now (days_duration (sh_days x))"
  shows "length calls \<le> 1 \<and> (r = None \<longleftrightarrow> (\<exists>q. calls = [q] \<and> call_landed W q)) \<and>
    (\<forall>q\<in>set calls. \<exists>source.
    grant_of W (sh_token x) (HexAddr L (sh_grantee x)) DefaultPermissions ex source (sn_msg q) \<and>
    (if source = [] then \<exists>old. currentGrant W (sh_token x) (HexAddr L (sh_grantee x)) = Inr old \<and> \<not> GrantIsLive old now
     else publishSACDDocument W now (sn_kernel q) (HexAddr L (sh_grantee x)) (sh_token x) ex (sn_key q) = Inr source))"
proof -
  obtain c t a where au: "AuthorizeShare W flt sched now cache s (sh_tenant x) (sh_token x) = (c, t, a)" by (metis prod_cases3)
  have src: "if source = [] then \<exists>old. currentGrant W (sh_token x) g = Inr old \<and> \<not> GrantIsLive old now
     else publishSACDDocument W now owner g (sh_token x) ex pk = Inr source"
    if "sacdSource W now owner g (sh_token x) ex pk = Inr source" for owner g pk source
    using that by (auto simp: sacdSource_def publishSACDDocument_def SourceURI_def Let_def split: sum.splits if_splits)
  show ?thesis
  proof (cases "calls = [] \<and> r \<noteq> None")
    case False
    with share_Work_result [OF assms(1) au assms(2,3)] obtain owner pk m source msg where
        w: "sacdSource W now owner (HexAddr L (sh_grantee x)) (sh_token x) ex pk = Inr source"
          "grant_of W (sh_token x) (HexAddr L (sh_grantee x)) DefaultPermissions ex source msg"
          "send_and_wait W owner pk m msg = (calls, r)" by blast
    have q: "q = \<lparr>sn_owner_mode = m, sn_kernel = owner, sn_key = pk, sn_msg = msg\<rparr>" if "q \<in> set calls" for q
      using send_and_wait_result [OF w(3)] that by blast
    have "\<exists>source. grant_of W (sh_token x) (HexAddr L (sh_grantee x)) DefaultPermissions ex source (sn_msg q) \<and>
        (if source = [] then \<exists>old. currentGrant W (sh_token x) (HexAddr L (sh_grantee x)) = Inr old \<and> \<not> GrantIsLive old now
         else publishSACDDocument W now (sn_kernel q) (HexAddr L (sh_grantee x)) (sh_token x) ex (sn_key q) = Inr source)"
      if "q \<in> set calls" for q using src [OF w(1)] w(2) q [OF that] by (intro exI [of _ source]) simp
    then show ?thesis using send_and_wait_result [OF w(3)] send_and_wait_confirmed [OF w(3)] by blast
  qed auto
qed

text \<open>
  A transfer is one job in two legs. It succeeds exactly when the vehicle ends with its target: it
  was there already, or the transfer was confirmed. The tenant's access is granted again on the new
  owner's account only after that, and its failure never fails the job.
\<close>

theorem transfer_sequence:
  assumes "address_laws (ev_lib (sv_env W))" and "transferVehicle W flt sched now cache s a owner pk = (cache', s', calls, r)"
    and "target = HexAddr (ev_lib (sv_env W)) (so_target a)"
  shows "(r = None \<longleftrightarrow> target = owner \<or> (\<exists>msg. BuildSafeTransferFromCall (sv_contracts W) (vehicle_nft W) owner target (so_token a) = Inr msg \<and>
        SendCall W owner pk msg = Landed)) \<and>
    (\<exists>leg regrant. calls = leg @ regrant \<and> length leg \<le> 1 \<and> length regrant \<le> 1 \<and> (\<forall>q\<in>set leg. sn_kernel q = owner \<and> target \<noteq> owner) \<and>
       (\<forall>q\<in>set regrant. sn_kernel q = target \<and> tenant_grant W s now a (sn_msg q)) \<and>
       (regrant \<noteq> [] \<longrightarrow> r = None))"
proof -
  from transferVehicle_result [OF assms] obtain leg regrant where c: "calls = leg @ regrant" "length leg \<le> 1" "length regrant \<le> 1"
    and leg: "\<forall>q\<in>set leg. sn_kernel q = owner \<and> target \<noteq> owner \<and>
       BuildSafeTransferFromCall (sv_contracts W) (vehicle_nft W) owner target (so_token a) = Inr (sn_msg q)"
    and re: "\<forall>q\<in>set regrant. sn_kernel q = target \<and> tenant_grant W s now a (sn_msg q)"
    and r: "if target = owner then leg = [] \<and> r = None
      else if r = None then \<exists>q. leg = [q] \<and> SendCall W owner pk (sn_msg q) = Landed else regrant = []"
    by blast
  have "r = None" if "target \<noteq> owner" "BuildSafeTransferFromCall (sv_contracts W) (vehicle_nft W) owner target (so_token a) = Inr msg"
      "SendCall W owner pk msg = Landed" for msg
    using that assms(2,3) by (auto simp: transferVehicle_def Let_def op_send_def receipt_required_def split: prod.splits)
  moreover have "target = owner \<or> (\<exists>msg. BuildSafeTransferFromCall (sv_contracts W) (vehicle_nft W) owner target (so_token a) = Inr msg \<and>
      SendCall W owner pk msg = Landed)" if "r = None" using r leg that by (auto split: if_splits)
  ultimately show ?thesis using c leg re r by (intro conjI exI [of _ leg] exI [of _ regrant]) (auto split: if_splits)
qed

text \<open>
  A failed read of the stored signer key is answered as the absence of one: the query's error is
  tested only after the value it left NULL, so a tenant that has a key and may sign is told, when
  the database fails at that read, that it has no signer key.
\<close>

theorem key_read_failure_masked:
  assumes "flt 0" and "signerKeyOf V no_faults s h = Inr pk"
  shows "signerKeyOf V flt s h = Inl ErrNoSignerKey \<and> (\<forall>flt' m. signerKeyOf V flt' s h \<noteq> Inl (DbError m)) \<and>
    (\<forall>flt' m. aaWalletKey V flt' s h \<noteq> Inl (DbError m))"
  using assms(1) unfolding signerKeyOf_def aaWalletKey_def key_of_def Let_def scanned_key_def
  by (auto split: option.splits)

subsection \<open>Concrete runs\<close>

definition demo_contracts :: contracts where
  "demo_contracts = \<lparr>packSetPermissions0 = (\<lambda>nft tok g p e src. Some (''set'' @ g @ src)),
     packSafeTransferFrom = (\<lambda>o' t tok. Some (''move'' @ t)), packBurnVehicle = (\<lambda>tok. Some ''burn''), packBurnSynthetic = (\<lambda>tok. ''burns''),
     packCurrentPermissionRecord = (\<lambda>nft tok g. Some g), callContract = (\<lambda>a d. Some d),
     unpackCurrentPermissionRecord = (\<lambda>d. Some \<lparr>sr_permissions = Some 0, sr_expiration = Some 0, sr_source = []\<rparr>)\<rparr>"

definition demo_net :: publisher_net where
  "demo_net = \<lparr>marshalData = sd_grantee, textHash = id, kernelSign = (\<lambda>k pk h. Some h), postDocument = (\<lambda>u d. UploadReply 503 None)\<rparr>"

definition demo_share_env :: share_env where
  "demo_share_env = \<lparr>sv_env = demo_env, VehicleOwner = (\<lambda>tok. OwnerFound ''0xOWN''), sv_contracts = demo_contracts, sv_net = demo_net,
     kernelRPC = (\<lambda>_. True), SendCall = (\<lambda>k pk m. Landed), SendOwnerCall = None\<rparr>"

definition demo_share :: share_args where
  "demo_share = \<lparr>sh_tenant = ''cu'', sh_token = 7, sh_grantee = ''0xFriend'', sh_days = 30, sh_actor = ''0xbb''\<rparr>"

lemma demo_signer_key: "signerKeyOf demo_env flt demo_keys_db ''op'' = (if flt 0 then Inl ErrNoSignerKey else Inr ''k'')"
proof -
  have "DecryptSecret demo_crypto ''pass'' ''012345678901pass6b'' = Some ''6b''" using demo_secret by (simp add: demo_seal)
  then show ?thesis
    by (simp add: signerKeyOf_def scanned_key_def key_of_def demo_keys_db_def demo_env_def demo_seal demo_eth_def
        demo_settings_chain_def null_str_def)
qed

lemma demo_AuthorizeShare:
  "\<exists>c s'. AuthorizeShare demo_share_env no_faults one_at_a_time 0 Map.empty demo_keys_db ''cu'' 7 = (c, s', Inr (''0xown'', ''k'', False))"
proof -
  obtain c s' where m: "MaySignFor demo_env no_faults one_at_a_time 0 Map.empty demo_keys_db ''cu'' ''0xown'' = (c, s', None)"
    using demo_MaySignFor by blast
  have e: "Effective no_faults demo_keys_db ''cu'' = Inr \<lparr>ec_tenant = ''op'', ec_client_id = ''0xLIC'', ec_signer = ''0xsig'', ec_aa_wallet = []\<rparr>"
    by (simp add: Effective_def demo_keys_effective)
  have a: "assertEntitled no_faults demo_keys_db ''cu'' 7 = None" by code_simp
  have lib: "HexAddr demo_library ''0xOWN'' = ''0xown''" by code_simp
  have "only_accounts demo_keys_db s'" using MaySignFor_reasons [OF m] by blast
  then have "credentials s' = credentials demo_keys_db"
    by (metis only_accounts_def db.select_convs db.surjective db.update_convs)
  then have "signerKeyOf demo_env no_faults s' ''op'' = Inr ''k''"
    using demo_signer_key [of no_faults] by (simp add: signerKeyOf_def scanned_key_def)
  then show ?thesis unfolding AuthorizeShare_def demo_share_env_def using m e a lib
    by (simp add: demo_env_def Let_def)
qed

lemma demo_share_Work:
  "\<exists>c s' q. share_Work demo_share_env no_faults one_at_a_time 0 Map.empty demo_keys_db demo_share = (c, s', [q], None)"
proof -
  obtain c s' where a: "AuthorizeShare demo_share_env no_faults one_at_a_time 0 Map.empty demo_keys_db ''cu'' 7 = (c, s', Inr (''0xown'', ''k'', False))"
    using demo_AuthorizeShare by blast
  have h: "IsHexAddress demo_library ''0xFriend''" by code_simp
  have "sacdSource demo_share_env 0 o' g 7 ex pk = Inr []" for o' g ex pk
    by (simp add: sacdSource_def publishSACDDocument_def demo_share_env_def demo_net_def demo_env_def demo_settings_chain_def
        currentGrant_def ReadCurrentGrant_def demo_contracts_def GrantIsLive_def wireTime_def SignSACDDocument_def UploadSACDDocument_def
        Let_def)
  moreover define ex where "ex = ExpirationFrom 0 (days_duration 30)"
  ultimately have src: "sacdSource demo_share_env 0 ''0xown'' (HexAddr demo_library ''0xFriend'') 7 ex ''k'' = Inr []" by blast
  obtain msg where b: "BuildSetPermissionsCall (sv_contracts demo_share_env) (sacd_addr demo_share_env) (vehicle_nft demo_share_env) 7
      (HexAddr demo_library ''0xFriend'') DefaultPermissions ex [] = Inr msg"
    by (simp add: BuildSetPermissionsCall_def demo_share_env_def demo_contracts_def)
  have "send_and_wait demo_share_env ''0xown'' ''k'' False msg = ([\<lparr>sn_owner_mode = False, sn_kernel = ''0xown'', sn_key = ''k'', sn_msg = msg\<rparr>], None)"
    by (simp add: send_and_wait_def sendByMode_def receipt_required_def demo_share_env_def)
  moreover have "ev_lib (sv_env demo_share_env) = demo_library" by (simp add: demo_share_env_def demo_env_def)
  ultimately show ?thesis using a h src b unfolding share_Work_def by (simp add: demo_share_def Let_def ex_def)
qed

lemma work_authorized_witness:
  "\<exists>c s' q owner. work demo_share_env no_faults one_at_a_time one_at_a_time 0 Map.empty demo_keys_db (JShare demo_share) = (c, s', [q], None) \<and>
     may_act demo_share_env demo_keys_db ''cu'' 7 owner (sn_key q) (sn_owner_mode q)"
proof -
  obtain c s' q where w: "work demo_share_env no_faults one_at_a_time one_at_a_time 0 Map.empty demo_keys_db (JShare demo_share) = (c, s', [q], None)"
    using demo_share_Work by auto
  have "address_laws (ev_lib (sv_env demo_share_env))" using demo_address_laws by (simp add: demo_share_env_def demo_env_def)
  from work_authorized [OF this w] w show ?thesis by (auto simp: demo_share_def)
qed

lemma share_keeps_documents_witness:
  "\<exists>c s' q source. share_Work demo_share_env no_faults one_at_a_time 0 Map.empty demo_keys_db demo_share = (c, s', [q], None) \<and>
     grant_of demo_share_env (sh_token demo_share) (HexAddr demo_library (sh_grantee demo_share)) DefaultPermissions
       (ExpirationFrom 0 (days_duration (sh_days demo_share))) source (sn_msg q)"
proof -
  obtain c s' q where w: "share_Work demo_share_env no_faults one_at_a_time 0 Map.empty demo_keys_db demo_share = (c, s', [q], None)"
    using demo_share_Work by blast
  have L: "demo_library = ev_lib (sv_env demo_share_env)" by (simp add: demo_share_env_def demo_env_def)
  have "q \<in> set [q]" by simp
  then show ?thesis using share_keeps_documents [OF w L refl] w by blast
qed

lemma key_read_failure_masked_witness:
  "signerKeyOf demo_env (\<lambda>_. True) demo_keys_db ''op'' = Inl ErrNoSignerKey"
  using key_read_failure_masked [of "\<lambda>_. True" demo_env demo_keys_db "''op''" "''k''"] demo_signer_key [of no_faults] by simp

definition demo_op :: shared_op_args where
  "demo_op = \<lparr>so_tenant = ''cu'', so_token = 7, so_op = ''transfer_vehicle'', so_target = ''0xBuyer'', so_synthetic = 0, so_actor = []\<rparr>"

lemma transfer_sequence_witness:
  "\<exists>c s' calls. transferVehicle demo_share_env no_faults one_at_a_time 0 Map.empty demo_keys_db demo_op ''0xown'' ''k'' = (c, s', calls, None)"
proof -
  obtain c s' calls r where t: "transferVehicle demo_share_env no_faults one_at_a_time 0 Map.empty demo_keys_db demo_op ''0xown'' ''k'' = (c, s', calls, r)"
    by (metis prod_cases4)
  have "address_laws (ev_lib (sv_env demo_share_env))" using demo_address_laws by (simp add: demo_share_env_def demo_env_def)
  from transfer_sequence [OF this t refl] have "r = None"
    by (simp add: BuildSafeTransferFromCall_def) (simp add: demo_share_env_def demo_contracts_def)
  with t show ?thesis by blast
qed

end
