(* ===== verification/ShareQueue.thy ===== *)
theory ShareQueue
  imports Sharing
begin

text \<open>
  The job queue in front of the workers: \<open>sharing/enqueue.go\<close>, \<open>sharing/sequence.go\<close> and the
  settings of \<open>sharing/queue.go\<close>. River itself, which is not part of the repository, appears as the
  transitions its documentation gives a job: fetched, snoozed, finished, lost with its process,
  rescued. The middleware that keeps one vehicle's jobs in order decides between two of them.
\<close>

subsection \<open>Job arguments as they are stored\<close>

definition encode_share :: "share_args \<Rightarrow> json" where
  "encode_share a = JObj [(''tenantId'', JStr (sh_tenant a)), (''tokenId'', JNum (sh_token a)), (''grantee'', JStr (sh_grantee a)),
     (''durationDays'', JNum (sh_days a)), (''actorWallet'', JStr (sh_actor a))]"

definition encode_revoke :: "share_args \<Rightarrow> json" where
  "encode_revoke a = JObj [(''tenantId'', JStr (sh_tenant a)), (''tokenId'', JNum (sh_token a)), (''grantee'', JStr (sh_grantee a)),
     (''actorWallet'', JStr (sh_actor a))]"

definition omit_empty :: "string \<Rightarrow> string \<Rightarrow> (string \<times> json) list" where
  "omit_empty k v = (if v = [] then [] else [(k, JStr v)])"

definition encode_op :: "shared_op_args \<Rightarrow> json" where
  "encode_op a = JObj ([(''tenantId'', JStr (so_tenant a)), (''tokenId'', JNum (so_token a)), (''op'', JStr (so_op a))] @
     omit_empty ''targetWallet'' (so_target a) @
     (if so_synthetic a = 0 then [] else [(''syntheticTokenId'', JNum (so_synthetic a))]) @
     omit_empty ''actorWallet'' (so_actor a))"

text \<open>\<open>json.Unmarshal\<close> of one field: absent or \<open>null\<close> leaves the zero value, another type is an error.\<close>

definition str_field :: "(string \<times> json) list \<Rightarrow> string \<Rightarrow> string option" where
  "str_field kvs k = (case map_of kvs k of None \<Rightarrow> Some [] | Some JNull \<Rightarrow> Some [] | Some (JStr v) \<Rightarrow> Some v | _ \<Rightarrow> None)"

definition int_field :: "(string \<times> json) list \<Rightarrow> string \<Rightarrow> int option" where
  "int_field kvs k = (case map_of kvs k of None \<Rightarrow> Some 0 | Some JNull \<Rightarrow> Some 0 | Some (JNum n) \<Rightarrow> Some n | _ \<Rightarrow> None)"

fun decodeShareArgs :: "json \<Rightarrow> share_args option" where
  "decodeShareArgs (JObj kvs) =
     (case (str_field kvs ''tenantId'', int_field kvs ''tokenId'', str_field kvs ''grantee'', int_field kvs ''durationDays'',
            str_field kvs ''actorWallet'') of
        (Some t, Some n, Some g, Some d, Some a) \<Rightarrow> Some \<lparr>sh_tenant = t, sh_token = n, sh_grantee = g, sh_days = d, sh_actor = a\<rparr>
      | _ \<Rightarrow> None)"
| "decodeShareArgs _ = None"

fun decodeOpArgs :: "json \<Rightarrow> shared_op_args option" where
  "decodeOpArgs (JObj kvs) =
     (case (str_field kvs ''tenantId'', int_field kvs ''tokenId'', str_field kvs ''op'', str_field kvs ''targetWallet'',
            int_field kvs ''syntheticTokenId'', str_field kvs ''actorWallet'') of
        (Some t, Some n, Some p, Some w, Some y, Some a) \<Rightarrow>
          Some \<lparr>so_tenant = t, so_token = n, so_op = p, so_target = w, so_synthetic = y, so_actor = a\<rparr>
      | _ \<Rightarrow> None)"
| "decodeOpArgs _ = None"

subsection \<open>The job table\<close>

datatype job_state = Available | Scheduled | Retryable | Pending | Running | Completed | Discarded | Cancelled

definition unfinished :: "job_state \<Rightarrow> bool" where
  "unfinished st \<longleftrightarrow> st \<in> {Available, Pending, Retryable, Running, Scheduled}"

text \<open>
  \<open>jr_since\<close> and \<open>jr_live\<close> describe a running job: when it was fetched, and whether a worker still
  has it; \<open>jr_inner\<close> says the middleware let it through.
\<close>

record job_row =
  jr_id :: int
  jr_queue :: string
  jr_kind :: string
  jr_args :: json
  jr_state :: job_state
  jr_errors :: "string list"
  jr_attempt :: nat
  jr_max :: nat
  jr_since :: time
  jr_live :: bool
  jr_inner :: bool

definition QueueName :: string where
  "QueueName = ''vehicle_sharing''"

definition minute :: time where
  "minute = 60 * second"

definition rescueStuckJobsAfter :: time where
  "rescueStuckJobsAfter = 20 * minute"

definition sequenceSnooze :: time where
  "sequenceSnooze = 10 * second"

fun job_kind :: "job \<Rightarrow> string" where
  "job_kind (JShare _) = ''vehicle_share''"
| "job_kind (JRevoke _) = ''vehicle_share_revoke''"
| "job_kind (JOp _) = ''shared_operation''"

fun encode_job :: "job \<Rightarrow> json" where
  "encode_job (JShare a) = encode_share a"
| "encode_job (JRevoke a) = encode_revoke a"
| "encode_job (JOp a) = encode_op a"

fun Timeout :: "job \<Rightarrow> time" where
  "Timeout (JShare _) = 10 * minute"
| "Timeout (JRevoke _) = 10 * minute"
| "Timeout (JOp a) = (if so_op a = ''transfer_vehicle'' then 15 * minute else 10 * minute)"

text \<open>The job a stored row is worked as.\<close>

definition job_of :: "job_row \<Rightarrow> job option" where
  "job_of r =
     (if jr_kind r = ''vehicle_share'' then map_option JShare (decodeShareArgs (jr_args r))
      else if jr_kind r = ''vehicle_share_revoke'' then map_option JRevoke (decodeShareArgs (jr_args r))
      else if jr_kind r = ''shared_operation'' then map_option JOp (decodeOpArgs (jr_args r))
      else None)"

text \<open>\<open>InsertOpts\<close>: the sharing queue, one attempt.\<close>

definition new_row :: "int \<Rightarrow> job \<Rightarrow> job_row" where
  "new_row i j = \<lparr>jr_id = i, jr_queue = QueueName, jr_kind = job_kind j, jr_args = encode_job j, jr_state = Available, jr_errors = [],
     jr_attempt = 0, jr_max = 1, jr_since = 0, jr_live = False, jr_inner = False\<rparr>"

record queue =
  q_jobs :: "job_row list"
  q_next :: int

definition Insert :: "queue \<Rightarrow> job \<Rightarrow> queue \<times> int" where
  "Insert q j = (\<lparr>q_jobs = q_jobs q @ [new_row (q_next q) j], q_next = q_next q + 1\<rparr>, q_next q)"

text \<open>\<open>Enqueue\<close>, \<open>EnqueueRevoke\<close> and \<open>EnqueueSharedOp\<close>; a nil queue is \<open>None\<close>.\<close>

definition Enqueue :: "faults \<Rightarrow> queue option \<Rightarrow> job \<Rightarrow> queue option \<times> (svc_error + int)" where
  "Enqueue flt q j =
     (case q of
        None \<Rightarrow> (None, Inl ErrQueueUnavailable)
      | Some q' \<Rightarrow> if flt 0 then (q, Inl (DbError ''enqueue'')) else (case Insert q' j of (q'', i) \<Rightarrow> (Some q'', Inr i)))"

record share_status =
  ss_job :: int
  ss_state :: job_state
  ss_success :: bool
  ss_errors :: "string list"

definition job_status :: "job_row \<Rightarrow> share_status" where
  "job_status r = \<lparr>ss_job = jr_id r, ss_state = jr_state r, ss_success = (jr_state r = Completed), ss_errors = jr_errors r\<rparr>"

definition get_job :: "queue \<Rightarrow> int \<Rightarrow> job_row option" where
  "get_job q i = find (\<lambda>r. jr_id r = i) (q_jobs q)"

definition Status :: "faults \<Rightarrow> queue option \<Rightarrow> uuid \<Rightarrow> int \<Rightarrow> svc_error + share_status" where
  "Status flt q tenantID jobID =
     (case q of
        None \<Rightarrow> Inl ErrQueueUnavailable
      | Some q' \<Rightarrow>
        if flt 0 then Inl (DbError ''read share job'')
        else case get_job q' jobID of
          None \<Rightarrow> Inl ErrJobNotFound
        | Some r \<Rightarrow>
          if jr_kind r \<noteq> ''vehicle_share'' \<and> jr_kind r \<noteq> ''vehicle_share_revoke'' then Inl ErrJobNotFound
          else case decodeShareArgs (jr_args r) of
            None \<Rightarrow> Inl (Remote ''decode share job'')
          | Some args \<Rightarrow> if sh_tenant args \<noteq> tenantID then Inl ErrJobNotFound else Inr (job_status r))"

definition SharedOpStatus :: "faults \<Rightarrow> queue option \<Rightarrow> uuid \<Rightarrow> int \<Rightarrow> svc_error + share_status" where
  "SharedOpStatus flt q tenantID jobID =
     (case q of
        None \<Rightarrow> Inl ErrQueueUnavailable
      | Some q' \<Rightarrow>
        if flt 0 then Inl (DbError ''read shared-op job'')
        else case get_job q' jobID of
          None \<Rightarrow> Inl ErrJobNotFound
        | Some r \<Rightarrow>
          if jr_kind r \<noteq> ''shared_operation'' then Inl ErrJobNotFound
          else case decodeOpArgs (jr_args r) of
            None \<Rightarrow> Inl (Remote ''decode shared-op job'')
          | Some args \<Rightarrow> if so_tenant args \<noteq> tenantID then Inl ErrJobNotFound else Inr (job_status r))"

subsection \<open>The vehicle sequencer\<close>

text \<open>
  \<open>strconv.ParseInt(s, 10, 64)\<close>: a sign or none, then at least one digit and nothing else, and a value
  in the range of an \<open>int64\<close>. Leading zeros are digits.
\<close>

definition digit :: "char \<Rightarrow> bool" where
  "digit c \<longleftrightarrow> 48 \<le> (of_char c :: nat) \<and> (of_char c :: nat) \<le> 57"

definition digits_val :: "string \<Rightarrow> nat" where
  "digits_val ds = foldl (\<lambda>acc c. 10 * acc + (of_char c - 48)) 0 ds"

definition int64 :: "int \<Rightarrow> bool" where
  "int64 n \<longleftrightarrow> - (2 ^ 63) \<le> n \<and> n < 2 ^ 63"

definition unsigned_part :: "string \<Rightarrow> string" where
  "unsigned_part s = (case s of [] \<Rightarrow> [] | c # ds \<Rightarrow> if c = CHR ''-'' \<or> c = CHR ''+'' then ds else s)"

definition ParseInt :: "string \<Rightarrow> int option" where
  "ParseInt s =
     (let ds = unsigned_part s in
      if ds = [] \<or> \<not> list_all digit ds then None
      else let n = (if hd s = CHR ''-'' then - int (digits_val ds) else int (digits_val ds)) in
      if int64 n then Some n else None)"

text \<open>
  A quoted \<open>json.Number\<close> must first be a number of JSON's grammar; of those that \<open>ParseInt\<close> accepts,
  the ones without a plus sign and without a leading zero.
\<close>

definition json_integer :: "string \<Rightarrow> bool" where
  "json_integer s \<longleftrightarrow> (let ds = (if s \<noteq> [] \<and> hd s = CHR ''-'' then tl s else s) in
     ds \<noteq> [] \<and> list_all digit ds \<and> (hd ds = CHR ''0'' \<longrightarrow> tl ds = []))"

fun jobTokenID :: "json \<Rightarrow> string option" where
  "jobTokenID (JObj kvs) =
     (case map_of kvs ''tokenId'' of
        Some (JNum n) \<Rightarrow> if int64 n then Some (FormatInt n) else None
      | Some (JStr t) \<Rightarrow> if json_integer t then map_option FormatInt (ParseInt t) else None
      | _ \<Rightarrow> None)"
| "jobTokenID _ = None"

lemma ParseInt_int64: "ParseInt s = Some n \<Longrightarrow> int64 n"
  by (auto simp: ParseInt_def Let_def split: if_splits)

lemma ParseInt_examples:
  "map ParseInt [''7'', ''+5'', ''007'', ''-0'', ''-12'', [], ''-'', ''1_0'', ''5x''] =
     [Some 7, Some 5, Some 7, Some 0, Some (-12), None, None, None, None]"
  by code_simp

text \<open>Postgres' \<open>args->>'tokenId'\<close>; a nested value renders as text that is no number.\<close>

fun pg_token :: "json \<Rightarrow> string option" where
  "pg_token (JObj kvs) =
     (case map_of kvs ''tokenId'' of
        Some (JNum n) \<Rightarrow> Some (FormatInt n)
      | Some (JStr t) \<Rightarrow> Some t
      | _ \<Rightarrow> None)"
| "pg_token _ = None"

definition earlierUnfinishedJob :: "queue \<Rightarrow> int \<Rightarrow> string \<Rightarrow> bool" where
  "earlierUnfinishedJob q i token =
     list_ex (\<lambda>r. jr_queue r = QueueName \<and> jr_id r < i \<and> unfinished (jr_state r) \<and> pg_token (jr_args r) = Some token) (q_jobs q)"

datatype verdict = RunInner | Snooze

definition sequencer_Work :: "faults \<Rightarrow> queue \<Rightarrow> job_row \<Rightarrow> verdict" where
  "sequencer_Work flt q r =
     (case jobTokenID (jr_args r) of
        None \<Rightarrow> RunInner
      | Some token \<Rightarrow> if flt 0 then Snooze else if earlierUnfinishedJob q (jr_id r) token then Snooze else RunInner)"

subsection \<open>The life of a job\<close>

record world =
  w_queue :: queue
  w_now :: time
  w_log :: "int list"  \<comment> \<open>the jobs whose worker was entered, in order\<close>

definition change :: "int \<Rightarrow> (job_row \<Rightarrow> job_row) \<Rightarrow> world \<Rightarrow> world" where
  "change i f w = w\<lparr>w_queue := (w_queue w)\<lparr>q_jobs := upd (\<lambda>r. jr_id r = i) f (q_jobs (w_queue w))\<rparr>\<rparr>"

abbreviation w_jobs :: "world \<Rightarrow> job_row list" where
  "w_jobs w \<equiv> q_jobs (w_queue w)"

definition attempt_over :: "job_row \<Rightarrow> job_state" where
  "attempt_over r = (if jr_max r \<le> jr_attempt r then Discarded else Retryable)"

definition fetched :: "time \<Rightarrow> job_row \<Rightarrow> job_row" where
  "fetched now r = r\<lparr>jr_state := Running, jr_attempt := jr_attempt r + 1, jr_since := now, jr_live := True, jr_inner := False\<rparr>"

definition snoozed :: "job_row \<Rightarrow> job_row" where
  "snoozed r = r\<lparr>jr_state := Scheduled, jr_attempt := jr_attempt r - 1, jr_live := False\<rparr>"

definition succeeded :: "job_row \<Rightarrow> job_row" where
  "succeeded r = r\<lparr>jr_state := Completed, jr_live := False\<rparr>"

definition failed_with :: "string \<Rightarrow> job_row \<Rightarrow> job_row" where
  "failed_with e r = r\<lparr>jr_state := attempt_over r, jr_errors := jr_errors r @ [e], jr_live := False\<rparr>"

text \<open>
  One step. The middleware runs first thing in a fetched job; a worker returns before its timeout,
  so time passes only while every job in hand is within it; a job of a dead process stays running
  until the rescuer finds it older than \<open>rescueStuckJobsAfter\<close>.
\<close>

inductive river :: "world \<Rightarrow> world \<Rightarrow> bool" where
  insert: "int64 (job_token j) \<Longrightarrow> river w (w\<lparr>w_queue := fst (Insert (w_queue w) j)\<rparr>)"
| fetch: "r \<in> set (w_jobs w) \<Longrightarrow> jr_state r \<in> {Available, Scheduled, Retryable} \<Longrightarrow>
    river w (change (jr_id r) (fetched (w_now w)) w)"
| hold: "r \<in> set (w_jobs w) \<Longrightarrow> jr_state r = Running \<Longrightarrow> jr_live r \<Longrightarrow> \<not> jr_inner r \<Longrightarrow>
    sequencer_Work flt (w_queue w) r = Snooze \<Longrightarrow> river w (change (jr_id r) snoozed w)"
| pass: "r \<in> set (w_jobs w) \<Longrightarrow> jr_state r = Running \<Longrightarrow> jr_live r \<Longrightarrow> \<not> jr_inner r \<Longrightarrow>
    sequencer_Work flt (w_queue w) r = RunInner \<Longrightarrow>
    river w (change (jr_id r) (\<lambda>r. r\<lparr>jr_inner := True\<rparr>) w\<lparr>w_log := w_log w @ [jr_id r]\<rparr>)"
| succeed: "r \<in> set (w_jobs w) \<Longrightarrow> jr_state r = Running \<Longrightarrow> jr_live r \<Longrightarrow> jr_inner r \<Longrightarrow>
    river w (change (jr_id r) succeeded w)"
| fail: "r \<in> set (w_jobs w) \<Longrightarrow> jr_state r = Running \<Longrightarrow> jr_live r \<Longrightarrow> jr_inner r \<Longrightarrow>
    river w (change (jr_id r) (failed_with e) w)"
| lose: "r \<in> set (w_jobs w) \<Longrightarrow> jr_state r = Running \<Longrightarrow> river w (change (jr_id r) (\<lambda>r. r\<lparr>jr_live := False\<rparr>) w)"
| rescue: "r \<in> set (w_jobs w) \<Longrightarrow> jr_state r = Running \<Longrightarrow> jr_since r + rescueStuckJobsAfter < w_now w \<Longrightarrow>
    river w (change (jr_id r) (failed_with ''Stuck job rescued'') w)"
| tick: "0 \<le> d \<Longrightarrow> \<forall>r\<in>set (w_jobs w). jr_live r \<longrightarrow> (\<forall>j. job_of r = Some j \<longrightarrow> w_now w + d \<le> jr_since r + Timeout j) \<Longrightarrow>
    river w (w\<lparr>w_now := w_now w + d\<rparr>)"

definition start_world :: world where
  "start_world = \<lparr>w_queue = \<lparr>q_jobs = [], q_next = 1\<rparr>, w_now = 0, w_log = []\<rparr>"

definition reachable :: "world \<Rightarrow> bool" where
  "reachable w \<longleftrightarrow> river\<^sup>*\<^sup>* start_world w"

subsection \<open>The stored arguments\<close>

lemma decode_encode:
  "decodeShareArgs (encode_share a) = Some a"
  "decodeShareArgs (encode_revoke a) = Some (a\<lparr>sh_days := 0\<rparr>)"
  "decodeOpArgs (encode_op b) = Some b"
  by (simp_all add: encode_share_def encode_revoke_def encode_op_def omit_empty_def str_field_def int_field_def)

lemma pg_token_encode: "pg_token (encode_job j) = Some (FormatInt (job_token j))"
  by (cases j) (simp_all add: encode_share_def encode_revoke_def encode_op_def)

lemma jobTokenID_encode: "int64 (job_token j) \<Longrightarrow> jobTokenID (encode_job j) = Some (FormatInt (job_token j))"
  by (cases j) (simp_all add: encode_share_def encode_revoke_def encode_op_def)

lemma job_of_new_row: "\<exists>j'. job_of (new_row i j) = Some j' \<and> Timeout j' = Timeout j"
  by (cases j) (auto simp: job_of_def new_row_def decode_encode)

subsection \<open>The invariant\<close>

definition row_inv :: "time \<Rightarrow> int \<Rightarrow> int list \<Rightarrow> job_row \<Rightarrow> bool" where
  "row_inv now next log r \<longleftrightarrow>
     jr_id r < next \<and> jr_queue r = QueueName \<and> jr_max r = 1 \<and> (jr_inner r \<longleftrightarrow> jr_id r \<in> set log) \<and>
     (\<exists>j. jr_args r = encode_job j \<and> jr_kind r = job_kind j \<and> int64 (job_token j)) \<and> job_of r \<noteq> None \<and>
     (jr_state r \<in> {Available, Scheduled} \<and> jr_attempt r = 0 \<and> \<not> jr_inner r \<and> \<not> jr_live r \<or>
      jr_state r = Running \<and> jr_attempt r = 1 \<and> (jr_live r \<longrightarrow> (\<forall>j. job_of r = Some j \<longrightarrow> now \<le> jr_since r + Timeout j)) \<or>
      jr_state r \<in> {Completed, Discarded} \<and> \<not> jr_live r)"

text \<open>Entered only after every earlier job of the vehicle was finished.\<close>

definition order_inv :: "job_row list \<Rightarrow> bool" where
  "order_inv rs \<longleftrightarrow> (\<forall>r\<in>set rs. \<forall>r'\<in>set rs. pg_token (jr_args r) = pg_token (jr_args r') \<longrightarrow> jr_id r < jr_id r' \<longrightarrow> jr_inner r' \<longrightarrow>
     \<not> unfinished (jr_state r))"

definition entered :: "job_row list \<Rightarrow> string \<Rightarrow> int list \<Rightarrow> int list" where
  "entered rs token log = filter (\<lambda>i. \<exists>r\<in>set rs. jr_id r = i \<and> pg_token (jr_args r) = Some token) log"

definition world_inv :: "world \<Rightarrow> bool" where
  "world_inv w \<longleftrightarrow>
     unique_on (\<lambda>_. True) jr_id (w_jobs w) \<and> (\<forall>r\<in>set (w_jobs w). row_inv (w_now w) (q_next (w_queue w)) (w_log w) r) \<and>
     order_inv (w_jobs w) \<and> distinct (w_log w) \<and> set (w_log w) \<subseteq> jr_id ` set (w_jobs w) \<and>
     (\<forall>token. sorted_wrt (<) (entered (w_jobs w) token (w_log w)))"

lemma change_simps [simp]:
  "w_now (change i f w) = w_now w" "w_log (change i f w) = w_log w" "q_next (w_queue (change i f w)) = q_next (w_queue w)"
  "w_jobs (change i f w) = upd (\<lambda>r. jr_id r = i) f (w_jobs w)"
  by (simp_all add: change_def)

lemma entered_upd:
  assumes "\<And>r. jr_id (f r) = jr_id r \<and> jr_args (f r) = jr_args r"
  shows "entered (upd P f rs) token log = entered rs token log"
  unfolding entered_def bex_upd by (rule filter_cong) (auto simp: assms)

lemma ids_upd:
  assumes "\<And>r. jr_id (f r) = jr_id r"
  shows "jr_id ` set (upd P f rs) = jr_id ` set rs"
proof -
  have "jr_id (if P r then f r else r) = jr_id r" for r using assms by simp
  then show ?thesis unfolding upd_def set_map image_image by simp
qed

lemma change_inv:
  assumes inv: "world_inv w" and r: "r \<in> set (w_jobs w)" and i: "i = jr_id r"
    and same: "\<And>r. jr_id (f r) = jr_id r \<and> jr_args (f r) = jr_args r"
    and ok: "row_inv (w_now w) (q_next (w_queue w)) (w_log w) (f r)"
    and inner: "jr_inner (f r) = jr_inner r" and fin: "unfinished (jr_state (f r)) \<Longrightarrow> unfinished (jr_state r)"
  shows "world_inv (change i f w)"
proof -
  have u: "unique_on (\<lambda>_. True) jr_id (w_jobs w)" using inv by (simp add: world_inv_def)
  have one: "x = r" if "x \<in> set (w_jobs w)" "jr_id x = i" for x using unique_on_inj [OF u that(1) r] that(2) i by simp
  have o: "order_inv (w_jobs w)" using inv by (simp add: world_inv_def)
  have "order_inv (upd (\<lambda>r. jr_id r = i) f (w_jobs w))"
    unfolding order_inv_def ball_upd using o [unfolded order_inv_def] one inner fin by (simp add: same split: if_split) metis
  moreover have "\<forall>x\<in>set (upd (\<lambda>r. jr_id r = i) f (w_jobs w)). row_inv (w_now w) (q_next (w_queue w)) (w_log w) x"
    unfolding ball_upd using inv one ok by (auto simp: world_inv_def)
  moreover have "unique_on (\<lambda>_. True) jr_id (upd (\<lambda>r. jr_id r = i) f (w_jobs w))"
    using u by (rule unique_on_upd) (simp add: same)
  ultimately show ?thesis using inv unfolding world_inv_def change_simps entered_upd [OF same]
    by (simp add: ids_upd same)
qed

lemma row_invD:
  assumes "world_inv w" and "r \<in> set (w_jobs w)"
  shows "row_inv (w_now w) (q_next (w_queue w)) (w_log w) r"
  using assms by (simp add: world_inv_def)

lemma Timeout_pos: "0 < Timeout j" and Timeout_bound: "Timeout j < rescueStuckJobsAfter"
  by (cases j; simp add: minute_def second_def rescueStuckJobsAfter_def)+

lemma job_of_frame:
  "job_of (fetched now r) = job_of r" "job_of (snoozed r) = job_of r" "job_of (succeeded r) = job_of r"
  "job_of (failed_with e r) = job_of r" "job_of (r\<lparr>jr_live := b\<rparr>) = job_of r" "job_of (r\<lparr>jr_inner := b\<rparr>) = job_of r"
  by (simp_all add: job_of_def fetched_def snoozed_def succeeded_def failed_with_def)

lemmas transition_defs = fetched_def snoozed_def succeeded_def failed_with_def attempt_over_def

lemma insert_inv:
  assumes "world_inv w" and "int64 (job_token j)"
  shows "world_inv (w\<lparr>w_queue := fst (Insert (w_queue w) j)\<rparr>)"
proof -
  let ?n = "new_row (q_next (w_queue w)) j"
  have old: "jr_id r < q_next (w_queue w)" if "r \<in> set (w_jobs w)" for r using row_invD [OF assms(1) that] by (simp add: row_inv_def)
  have log: "q_next (w_queue w) \<notin> set (w_log w)" using assms(1) old by (force simp: world_inv_def)
  have e: "entered (w_jobs w @ [?n]) token (w_log w) = entered (w_jobs w) token (w_log w)" for token
    unfolding entered_def using log by (intro filter_cong) (auto simp: new_row_def)
  have "row_inv (w_now w) (q_next (w_queue w) + 1) (w_log w) ?n"
    using job_of_new_row [of "q_next (w_queue w)" j] assms(2) log by (auto simp: row_inv_def new_row_def)
  moreover have "row_inv (w_now w) (q_next (w_queue w) + 1) (w_log w) r" if "r \<in> set (w_jobs w)" for r
    using row_invD [OF assms(1) that] by (auto simp: row_inv_def)
  moreover have "order_inv (w_jobs w @ [?n])"
    using assms(1) old by (fastforce simp: world_inv_def order_inv_def new_row_def)
  moreover have "unique_on (\<lambda>_. True) jr_id (w_jobs w @ [?n])"
    using assms(1) old by (fastforce simp: world_inv_def unique_on_def new_row_def)
  ultimately show ?thesis using assms(1) by (auto simp: world_inv_def Insert_def e)
qed

lemma sorted_wrt_snoc: "sorted_wrt P (xs @ [x]) \<longleftrightarrow> sorted_wrt P xs \<and> (\<forall>y\<in>set xs. P y x)"
  by (simp add: sorted_wrt_append)

lemma passed_is_first:
  assumes inv: "world_inv w" and r: "r \<in> set (w_jobs w)" and v: "sequencer_Work flt (w_queue w) r = RunInner"
    and x: "x \<in> set (w_jobs w)" "pg_token (jr_args x) = pg_token (jr_args r)" "jr_id x < jr_id r"
  shows "\<not> unfinished (jr_state x)"
proof -
  obtain j where j: "jr_args r = encode_job j" "int64 (job_token j)" using row_invD [OF inv r] by (auto simp: row_inv_def)
  then show ?thesis using v x row_invD [OF inv x(1)]
    by (auto simp: sequencer_Work_def jobTokenID_encode pg_token_encode earlierUnfinishedJob_def list_ex_iff row_inv_def split: if_splits)
qed

lemma entered_pass:
  assumes u: "unique_on (\<lambda>_. True) jr_id rs" and r: "r \<in> set rs"
  shows "entered (upd P (\<lambda>r. r\<lparr>jr_inner := True\<rparr>) rs) token (log @ [jr_id r]) =
    entered rs token log @ (if pg_token (jr_args r) = Some token then [jr_id r] else [])"
proof -
  have one: "x = r" if "x \<in> set rs" "jr_id x = jr_id r" for x using unique_on_inj [OF u that(1) r] that(2) by simp
  have "entered (upd P (\<lambda>r. r\<lparr>jr_inner := True\<rparr>) rs) token l = entered rs token l" for l by (rule entered_upd) simp
  then show ?thesis using r one by (auto simp: entered_def)
qed

lemma pass_inv:
  assumes inv: "world_inv w" and r: "r \<in> set (w_jobs w)" and st: "jr_state r = Running" "\<not> jr_inner r"
    and v: "sequencer_Work flt (w_queue w) r = RunInner"
  shows "world_inv (change (jr_id r) (\<lambda>r. r\<lparr>jr_inner := True\<rparr>) w\<lparr>w_log := w_log w @ [jr_id r]\<rparr>)"
proof -
  let ?rs = "upd (\<lambda>x. jr_id x = jr_id r) (\<lambda>r. r\<lparr>jr_inner := True\<rparr>) (w_jobs w)"
  have u: "unique_on (\<lambda>_. True) jr_id (w_jobs w)" and o: "order_inv (w_jobs w)" using inv by (simp_all add: world_inv_def)
  have one: "x = r" if "x \<in> set (w_jobs w)" "jr_id x = jr_id r" for x using unique_on_inj [OF u that(1) r] that(2) by simp
  note ri = row_invD [OF inv r]
  have new: "jr_id r \<notin> set (w_log w)" using ri st by (simp add: row_inv_def)
  note clear = passed_is_first [OF inv r v]
  have later: "\<not> jr_inner x" if "x \<in> set (w_jobs w)" "pg_token (jr_args r) = pg_token (jr_args x)" "jr_id r < jr_id x" for x
    using o r that st by (auto simp: order_inv_def unfinished_def)
  have ord: "order_inv ?rs" unfolding order_inv_def ball_upd using o [unfolded order_inv_def] clear one
    by (simp split: if_split) metis
  have rows: "\<forall>x\<in>set ?rs. row_inv (w_now w) (q_next (w_queue w)) (w_log w @ [jr_id r]) x"
    unfolding ball_upd
  proof
    fix x assume x: "x \<in> set (w_jobs w)"
    show "if jr_id x = jr_id r then row_inv (w_now w) (q_next (w_queue w)) (w_log w @ [jr_id r]) (x\<lparr>jr_inner := True\<rparr>)
        else row_inv (w_now w) (q_next (w_queue w)) (w_log w @ [jr_id r]) x"
      using one [OF x] ri row_invD [OF inv x] st by (auto simp: row_inv_def job_of_frame)
  qed
  note ent = entered_pass [OF u r]
  have below: "i < jr_id r" if i: "i \<in> set (entered (w_jobs w) token (w_log w))" and t: "pg_token (jr_args r) = Some token" for i token
  proof -
    obtain x where x: "x \<in> set (w_jobs w)" "jr_id x = i" "pg_token (jr_args x) = Some token" "i \<in> set (w_log w)"
      using i by (auto simp: entered_def)
    then have "jr_inner x" using row_invD [OF inv x(1)] by (simp add: row_inv_def)
    with later [OF x(1)] t x(3) have "\<not> jr_id r < i" using x(2) by auto
    moreover have "i \<noteq> jr_id r" using new x(4) by auto
    ultimately show ?thesis by simp
  qed
  have "sorted_wrt (<) (entered ?rs token (w_log w @ [jr_id r]))" for token
    using inv below unfolding ent by (auto simp: world_inv_def sorted_wrt_snoc)
  moreover have "unique_on (\<lambda>_. True) jr_id ?rs" using u by (rule unique_on_upd) simp
  ultimately show ?thesis using inv rows ord new r by (auto simp: world_inv_def ids_upd)
qed

lemma tick_inv:
  assumes "world_inv w" and "\<forall>r\<in>set (w_jobs w). jr_live r \<longrightarrow> (\<forall>j. job_of r = Some j \<longrightarrow> w_now w + d \<le> jr_since r + Timeout j)"
  shows "world_inv (w\<lparr>w_now := w_now w + d\<rparr>)"
proof -
  have "row_inv (w_now w + d) (q_next (w_queue w)) (w_log w) r" if "r \<in> set (w_jobs w)" for r
    using row_invD [OF assms(1) that] assms(2) that by (auto simp: row_inv_def)
  then show ?thesis using assms(1) by (simp add: world_inv_def)
qed

lemma row_inv_idle:
  "row_inv now nxt log r \<Longrightarrow> jr_state r \<in> {Available, Scheduled, Retryable} \<Longrightarrow>
     jr_state r \<in> {Available, Scheduled} \<and> jr_attempt r = 0 \<and> \<not> jr_inner r"
  by (auto simp: row_inv_def)

lemma row_inv_busy: "row_inv now nxt log r \<Longrightarrow> jr_state r = Running \<Longrightarrow> jr_attempt r = 1 \<and> jr_max r = 1"
  by (auto simp: row_inv_def)

lemma row_inv_fetched:
  assumes "row_inv now nxt log r" and "jr_state r \<in> {Available, Scheduled, Retryable}"
  shows "row_inv now nxt log (fetched now r)"
proof -
  have "now \<le> now + Timeout j" for j using Timeout_pos [of j] by linarith
  then show ?thesis using assms(1) row_inv_idle [OF assms] unfolding row_inv_def job_of_frame by (simp add: fetched_def)
qed

lemma row_inv_running:
  assumes "row_inv now nxt log r" and "jr_state r = Running"
  shows "\<not> jr_inner r \<Longrightarrow> row_inv now nxt log (snoozed r)" "row_inv now nxt log (succeeded r)"
    "row_inv now nxt log (failed_with e r)" "row_inv now nxt log (r\<lparr>jr_live := False\<rparr>)"
  using assms row_inv_busy [OF assms] unfolding row_inv_def job_of_frame
  by (simp_all add: snoozed_def succeeded_def failed_with_def attempt_over_def)

lemma transition_frame [simp]:
  "jr_kind (fetched now r) = jr_kind r" "jr_kind (snoozed r) = jr_kind r" "jr_kind (succeeded r) = jr_kind r"
  "jr_kind (failed_with e r) = jr_kind r" "jr_id (fetched now r) = jr_id r" "jr_args (fetched now r) = jr_args r" "jr_inner (snoozed r) = jr_inner r"
  "jr_id (snoozed r) = jr_id r" "jr_args (snoozed r) = jr_args r" "jr_inner (succeeded r) = jr_inner r"
  "jr_id (succeeded r) = jr_id r" "jr_args (succeeded r) = jr_args r" "jr_inner (failed_with e r) = jr_inner r"
  "jr_id (failed_with e r) = jr_id r" "jr_args (failed_with e r) = jr_args r" "jr_inner (fetched now r) = False"
  by (simp_all add: transition_defs)

lemma river_inv: "river w w' \<Longrightarrow> world_inv w \<Longrightarrow> world_inv w'"
proof (induction rule: river.induct)
  case (insert j w)
  then show ?case by (blast intro: insert_inv)
next
  case (fetch r w)
  note ri = row_invD [OF fetch(3,1)]
  show ?case by (rule change_inv [OF fetch(3,1) refl])
    (use row_inv_fetched [OF ri fetch(2)] row_inv_idle [OF ri fetch(2)] in \<open>auto simp: unfinished_def\<close>)
next
  case (hold r w flt)
  note ri = row_invD [OF hold(6,1)]
  show ?case by (rule change_inv [OF hold(6,1) refl]) (use row_inv_running(1) [OF ri hold(2,4)] hold(2) in \<open>simp_all add: unfinished_def\<close>)
next
  case (pass r w flt)
  then show ?case by (blast intro: pass_inv)
next
  case (succeed r w)
  note ri = row_invD [OF succeed(5,1)]
  show ?case by (rule change_inv [OF succeed(5,1) refl]) (use row_inv_running(2) [OF ri succeed(2)] succeed(2) in \<open>simp_all add: unfinished_def\<close>)
next
  case (fail r w e)
  note ri = row_invD [OF fail(5,1)]
  show ?case by (rule change_inv [OF fail(5,1) refl]) (use row_inv_running(3) [OF ri fail(2)] fail(2) in \<open>simp_all add: unfinished_def\<close>)
next
  case (lose r w)
  note ri = row_invD [OF lose(3,1)]
  show ?case by (rule change_inv [OF lose(3,1) refl]) (use row_inv_running(4) [OF ri lose(2)] lose(2) in \<open>simp_all add: unfinished_def\<close>)
next
  case (rescue r w)
  note ri = row_invD [OF rescue(4,1)]
  show ?case by (rule change_inv [OF rescue(4,1) refl]) (use row_inv_running(3) [OF ri rescue(2)] rescue(2) in \<open>simp_all add: unfinished_def\<close>)
next
  case (tick d w)
  then show ?case by (blast intro: tick_inv)
qed

lemma reachable_inv: "reachable w \<Longrightarrow> world_inv w"
  unfolding reachable_def
proof (induction rule: rtranclp_induct)
  case base
  show ?case by (simp add: start_world_def world_inv_def order_inv_def entered_def unique_on_def)
next
  case (step w w')
  then show ?case by (blast intro: river_inv)
qed

subsection \<open>One vehicle at a time, in queue order\<close>

text \<open>
  C10. However jobs are fetched, held, finished, lost with their process and rescued, each vehicle's
  jobs reach their worker in the order they were queued, each at most once, and one only when every
  earlier job of the same vehicle is finished. So a revocation queued after a share is never
  overtaken by it, and no grant is sent twice.
\<close>

theorem vehicle_jobs_in_order:
  assumes "reachable w"
  shows "distinct (w_log w) \<and> (\<forall>token. sorted_wrt (<) (entered (w_jobs w) token (w_log w))) \<and>
    (\<forall>r\<in>set (w_jobs w). \<forall>r'\<in>set (w_jobs w). pg_token (jr_args r) = pg_token (jr_args r') \<longrightarrow> jr_id r < jr_id r' \<longrightarrow>
       jr_id r' \<in> set (w_log w) \<longrightarrow> \<not> unfinished (jr_state r))"
proof -
  note inv = reachable_inv [OF assms]
  have "jr_inner r" if "r \<in> set (w_jobs w)" "jr_id r \<in> set (w_log w)" for r
    using row_invD [OF inv that(1)] that(2) by (simp add: row_inv_def)
  then show ?thesis using inv unfolding world_inv_def order_inv_def by metis
qed

text \<open>
  A rescue never takes a job from a worker that still has it: no worker's timeout reaches
  \<open>rescueStuckJobsAfter\<close>, so a job old enough to be rescued was lost with its process.
\<close>

theorem rescue_finds_no_live_worker:
  assumes "reachable w" and "r \<in> set (w_jobs w)" and "jr_state r = Running" and "jr_since r + rescueStuckJobsAfter < w_now w"
  shows "\<not> jr_live r"
proof
  assume live: "jr_live r"
  note ri = row_invD [OF reachable_inv [OF assms(1)] assms(2)]
  then obtain j where j: "job_of r = Some j" by (auto simp: row_inv_def)
  with ri live have "w_now w \<le> jr_since r + Timeout j" using assms(3) by (auto simp: row_inv_def)
  with Timeout_bound [of j] assms(4) show False by linarith
qed

text \<open>
  Nothing waits for ever on nobody: of a vehicle's unfinished jobs the earliest is always let
  through, and a job is only ever held for an earlier unfinished job of its own vehicle.
\<close>

theorem earliest_job_runs:
  assumes "reachable w" and "r \<in> set (w_jobs w)" and "unfinished (jr_state r)"
  shows "\<exists>r0\<in>set (w_jobs w). pg_token (jr_args r0) = pg_token (jr_args r) \<and> jr_id r0 \<le> jr_id r \<and> unfinished (jr_state r0) \<and>
    sequencer_Work no_faults (w_queue w) r0 = RunInner \<and> (r0 \<noteq> r \<longleftrightarrow> sequencer_Work no_faults (w_queue w) r = Snooze)"
proof -
  note inv = reachable_inv [OF assms(1)]
  let ?A = "{x \<in> set (w_jobs w). pg_token (jr_args x) = pg_token (jr_args r) \<and> unfinished (jr_state x)}"
  obtain r0 where r0: "r0 \<in> ?A" and min: "\<forall>x\<in>?A. jr_id r0 \<le> jr_id x"
    using ex_min_if_finite [of "jr_id ` ?A"] assms(2,3) by (force simp: not_less)
  have held: "sequencer_Work no_faults (w_queue w) x = Snooze \<longleftrightarrow> (\<exists>y\<in>?A. jr_id y < jr_id x)" if x: "x \<in> ?A" for x
  proof -
    obtain j where "jr_args x = encode_job j" "int64 (job_token j)"
      using row_invD [OF inv] x by (auto simp: row_inv_def)
    moreover have "jr_queue y = QueueName" if "y \<in> set (w_jobs w)" for y using row_invD [OF inv that] by (simp add: row_inv_def)
    moreover from calculation x have "pg_token (jr_args r) = Some (FormatInt (job_token j))" by (auto simp: pg_token_encode)
    ultimately show ?thesis by (auto simp: sequencer_Work_def jobTokenID_encode earlierUnfinishedJob_def list_ex_iff)
  qed
  have "sequencer_Work no_faults (w_queue w) r0 = RunInner" using held [OF r0] min by (cases "sequencer_Work no_faults (w_queue w) r0") auto
  moreover have "r0 \<noteq> r \<longleftrightarrow> sequencer_Work no_faults (w_queue w) r = Snooze"
  proof -
    have u: "unique_on (\<lambda>_. True) jr_id (w_jobs w)" using inv by (simp add: world_inv_def)
    have r: "r \<in> ?A" using assms(2,3) by simp
    have "r0 \<noteq> r \<longleftrightarrow> jr_id r0 < jr_id r" using unique_on_inj [OF u, of r0 r] r0 r min by force
    then show ?thesis using held [OF r] r0 min by force
  qed
  ultimately show ?thesis using r0 min assms(2,3) by blast
qed

subsection \<open>Each vehicle has a first-in first-out queue\<close>

text \<open>
  What the queue promises one vehicle, without River: jobs wait in order; only the first may start;
  a started job leaves from the front; one that never started may be given up.
\<close>

record fifo =
  ff_waiting :: "int list"
  ff_started :: "int list"

inductive fifo_step :: "fifo \<Rightarrow> fifo \<Rightarrow> bool" where
  arrive: "\<forall>x\<in>set (ff_waiting f) \<union> set (ff_started f). x < i \<Longrightarrow> fifo_step f (f\<lparr>ff_waiting := ff_waiting f @ [i]\<rparr>)"
| start: "ff_waiting f = i # q \<Longrightarrow> i \<notin> set (ff_started f) \<Longrightarrow> fifo_step f (f\<lparr>ff_started := ff_started f @ [i]\<rparr>)"
| leave: "ff_waiting f = i # q \<Longrightarrow> i \<in> set (ff_started f) \<Longrightarrow> fifo_step f (f\<lparr>ff_waiting := q\<rparr>)"
| give_up: "i \<in> set (ff_waiting f) \<Longrightarrow> i \<notin> set (ff_started f) \<Longrightarrow> fifo_step f (f\<lparr>ff_waiting := remove1 i (ff_waiting f)\<rparr>)"

definition waiting_ids :: "string \<Rightarrow> job_row list \<Rightarrow> int set" where
  "waiting_ids token rs = jr_id ` {r \<in> set rs. pg_token (jr_args r) = Some token \<and> unfinished (jr_state r)}"

definition abs_vehicle :: "string \<Rightarrow> world \<Rightarrow> fifo" where
  "abs_vehicle token w = \<lparr>ff_waiting = sorted_list_of_set (waiting_ids token (w_jobs w)), ff_started = entered (w_jobs w) token (w_log w)\<rparr>"

lemma finite_waiting [simp]: "finite (waiting_ids token rs)"
  by (simp add: waiting_ids_def)

lemma waiting_upd:
  assumes u: "unique_on (\<lambda>_. True) jr_id rs" and r: "r \<in> set rs" and same: "\<And>r. jr_id (f r) = jr_id r \<and> jr_args (f r) = jr_args r"
    and un: "unfinished (jr_state r)"
  shows "waiting_ids token (upd (\<lambda>x. jr_id x = jr_id r) f rs) =
    (if pg_token (jr_args r) = Some token \<and> \<not> unfinished (jr_state (f r)) then waiting_ids token rs - {jr_id r} else waiting_ids token rs)"
proof -
  have one: "x = r" if "x \<in> set rs" "jr_id x = jr_id r" for x using unique_on_inj [OF u that(1) r] that(2) by simp
  have mem: "i \<in> waiting_ids token xs \<longleftrightarrow> (\<exists>x\<in>set xs. jr_id x = i \<and> pg_token (jr_args x) = Some token \<and> unfinished (jr_state x))" for i xs
    by (auto simp: waiting_ids_def)
  let ?rs' = "upd (\<lambda>x. jr_id x = jr_id r) f rs"
  have new: "i \<in> waiting_ids token ?rs' \<longleftrightarrow> (\<exists>x\<in>set rs. jr_id x = i \<and> pg_token (jr_args x) = Some token \<and>
      (if x = r then unfinished (jr_state (f r)) else unfinished (jr_state x)))" for i
    unfolding mem bex_upd by (rule bex_cong [OF refl]) (use one same in auto)
  have at: "jr_id r \<in> waiting_ids token ?rs' \<longleftrightarrow> pg_token (jr_args r) = Some token \<and> unfinished (jr_state (f r))"
    "jr_id r \<in> waiting_ids token rs \<longleftrightarrow> pg_token (jr_args r) = Some token"
    unfolding new unfolding mem using one r un by auto
  have off: "i \<in> waiting_ids token ?rs' \<longleftrightarrow> i \<in> waiting_ids token rs" if "i \<noteq> jr_id r" for i
    unfolding new unfolding mem using that by auto
  show ?thesis
  proof (rule set_eqI)
    fix i
    show "i \<in> waiting_ids token ?rs' \<longleftrightarrow> i \<in> (if pg_token (jr_args r) = Some token \<and> \<not> unfinished (jr_state (f r))
        then waiting_ids token rs - {jr_id r} else waiting_ids token rs)"
      using at off [of i] by (cases "i = jr_id r") auto
  qed
qed

lemma sorted_list_head:
  assumes "finite A" and "x \<in> A" and "\<forall>y\<in>A. x \<le> (y :: int)"
  shows "sorted_list_of_set A = x # sorted_list_of_set (A - {x})"
proof -
  have "Min A = x" using assms by (intro Min_eqI) auto
  then show ?thesis using assms sorted_list_of_set_nonempty [of A] by auto
qed

lemma finish_refines:
  assumes inv: "world_inv w" and r: "r \<in> set (w_jobs w)" and st: "jr_state r = Running"
    and same: "\<And>r. jr_id (f r) = jr_id r \<and> jr_args (f r) = jr_args r" and fin: "\<not> unfinished (jr_state (f r))"
  shows "abs_vehicle token (change (jr_id r) f w) = abs_vehicle token w \<or>
    fifo_step (abs_vehicle token w) (abs_vehicle token (change (jr_id r) f w))"
proof (cases "pg_token (jr_args r) = Some token")
  case True
  let ?A = "waiting_ids token (w_jobs w)" and ?i = "jr_id r"
  have u: "unique_on (\<lambda>_. True) jr_id (w_jobs w)" and o: "order_inv (w_jobs w)" using inv by (simp_all add: world_inv_def)
  have un: "unfinished (jr_state r)" using st by (simp add: unfinished_def)
  have i: "?i \<in> ?A" using r True un by (auto simp: waiting_ids_def)
  have w': "abs_vehicle token (change ?i f w) = abs_vehicle token w\<lparr>ff_waiting := sorted_list_of_set (?A - {?i})\<rparr>"
    using waiting_upd [OF u r same un, of token] True fin by (simp add: abs_vehicle_def entered_upd [OF same])
  have started: "?i \<in> set (entered (w_jobs w) token (w_log w)) \<longleftrightarrow> jr_inner r"
    using row_invD [OF inv r] r True by (auto simp: entered_def row_inv_def)
  show ?thesis
  proof (cases "jr_inner r")
    case inner: True
    have "?i \<le> y" if y: "y \<in> ?A" for y
    proof (rule ccontr)
      assume "\<not> ?i \<le> y"
      with y o r True inner show False unfolding waiting_ids_def order_inv_def by force
    qed
    then have hd: "ff_waiting (abs_vehicle token w) = ?i # sorted_list_of_set (?A - {?i})"
      using i by (simp add: abs_vehicle_def sorted_list_head)
    show ?thesis unfolding w' by (rule disjI2, rule fifo_step.leave [OF hd]) (use started inner in \<open>simp add: abs_vehicle_def\<close>)
  next
    case False
    have "sorted_list_of_set (?A - {?i}) = remove1 ?i (sorted_list_of_set ?A)" by (rule sorted_list_of_set_remove) simp
    then show ?thesis unfolding w' using fifo_step.give_up [of ?i "abs_vehicle token w"] started False i by (simp add: abs_vehicle_def)
  qed
next
  case False
  have u: "unique_on (\<lambda>_. True) jr_id (w_jobs w)" using inv by (simp add: world_inv_def)
  have un: "unfinished (jr_state r)" using st by (simp add: unfinished_def)
  show ?thesis using waiting_upd [OF u r same un, of token] False by (simp add: abs_vehicle_def entered_upd [OF same])
qed

lemma stutter:
  assumes inv: "world_inv w" and r: "r \<in> set (w_jobs w)" and un: "unfinished (jr_state r)"
    and same: "\<And>r. jr_id (f r) = jr_id r \<and> jr_args (f r) = jr_args r" and un': "unfinished (jr_state (f r))"
  shows "abs_vehicle token (change (jr_id r) f w) = abs_vehicle token w"
proof -
  have u: "unique_on (\<lambda>_. True) jr_id (w_jobs w)" using inv by (simp add: world_inv_def)
  show ?thesis using waiting_upd [OF u r same un, of token] un' by (simp add: abs_vehicle_def entered_upd [OF same])
qed

lemma pass_refines:
  assumes inv: "world_inv w" and r: "r \<in> set (w_jobs w)" and st: "jr_state r = Running" "\<not> jr_inner r"
    and v: "sequencer_Work flt (w_queue w) r = RunInner"
    and w': "w' = change (jr_id r) (\<lambda>r. r\<lparr>jr_inner := True\<rparr>) w\<lparr>w_log := w_log w @ [jr_id r]\<rparr>"
  shows "abs_vehicle token w' = abs_vehicle token w \<or> fifo_step (abs_vehicle token w) (abs_vehicle token w')"
proof -
  let ?A = "waiting_ids token (w_jobs w)" and ?i = "jr_id r"
  have u: "unique_on (\<lambda>_. True) jr_id (w_jobs w)" using inv by (simp add: world_inv_def)
  have un: "unfinished (jr_state r)" using st by (simp add: unfinished_def)
  have same: "\<And>r :: job_row. jr_id (r\<lparr>jr_inner := True\<rparr>) = jr_id r \<and> jr_args (r\<lparr>jr_inner := True\<rparr>) = jr_args r" by simp
  have q: "waiting_ids token (w_jobs w') = ?A" using waiting_upd [OF u r same un, of token] un by (simp add: w')
  have e: "entered (w_jobs w') token (w_log w') = entered (w_jobs w) token (w_log w) @ (if pg_token (jr_args r) = Some token then [?i] else [])"
    using entered_pass [OF u r] by (simp add: w')
  show ?thesis
  proof (cases "pg_token (jr_args r) = Some token")
    case True
    have i: "?i \<in> ?A" using r True un by (auto simp: waiting_ids_def)
    have "?i \<le> y" if "y \<in> ?A" for y
      using that passed_is_first [OF inv r v] True by (force simp: waiting_ids_def not_le [symmetric])
    then have "sorted_list_of_set ?A = ?i # sorted_list_of_set (?A - {?i})" using i by (simp add: sorted_list_head)
    moreover have "?i \<notin> set (entered (w_jobs w) token (w_log w))"
      using row_invD [OF inv r] st by (auto simp: entered_def row_inv_def)
    ultimately show ?thesis using fifo_step.start [of "abs_vehicle token w"] e q True by (simp add: abs_vehicle_def)
  next
    case False
    then show ?thesis using e q by (simp add: abs_vehicle_def)
  qed
qed

lemma insert_refines:
  assumes inv: "world_inv w" and w': "w' = w\<lparr>w_queue := fst (Insert (w_queue w) j)\<rparr>"
  shows "abs_vehicle token w' = abs_vehicle token w \<or> fifo_step (abs_vehicle token w) (abs_vehicle token w')"
proof -
  let ?A = "waiting_ids token (w_jobs w)" and ?i = "q_next (w_queue w)"
  have old: "jr_id r < ?i" if "r \<in> set (w_jobs w)" for r using row_invD [OF inv that] by (simp add: row_inv_def)
  have log: "?i \<notin> set (w_log w)" using inv old by (force simp: world_inv_def)
  have e: "entered (w_jobs w') token (w_log w') = entered (w_jobs w) token (w_log w)"
    unfolding entered_def w' using log by (intro filter_cong) (auto simp: Insert_def new_row_def)
  have rows: "set (w_jobs w') = Set.insert (new_row ?i j) (set (w_jobs w))" by (simp add: w' Insert_def)
  have "unfinished (jr_state (new_row ?i j))" "jr_args (new_row ?i j) = encode_job j" "jr_id (new_row ?i j) = ?i"
    by (simp_all add: new_row_def unfinished_def)
  then have q: "waiting_ids token (w_jobs w') = (if pg_token (encode_job j) = Some token then Set.insert ?i ?A else ?A)"
    unfolding waiting_ids_def rows by (auto intro: rev_image_eqI)
  have A: "x < ?i" if "x \<in> ?A \<or> x \<in> set (entered (w_jobs w) token (w_log w))" for x using that old by (auto simp: waiting_ids_def entered_def)
  have "sorted_list_of_set (Set.insert ?i ?A) = sorted_list_of_set ?A @ [?i]"
  proof -
    have n: "?i \<notin> ?A" using A by blast
    have "insort ?i (sorted_list_of_set ?A) = sorted_list_of_set ?A @ [?i]"
      by (rule sorted_insort_is_snoc) (use A in \<open>auto intro: less_imp_le\<close>)
    then show ?thesis using n by simp
  qed
  then show ?thesis using q e fifo_step.arrive [of "abs_vehicle token w" ?i] A by (auto simp: abs_vehicle_def)
qed

text \<open>
  C14. The queue refines the first-in first-out specification, vehicle by vehicle: seen from one
  vehicle, every transition of a reachable queue, with its fetches, snoozes, crashes, rescues and
  other vehicles' jobs, is a step of that specification or no step at all.
\<close>

theorem queue_refines_fifo:
  assumes "reachable w" and "river w w'"
  shows "abs_vehicle token w' = abs_vehicle token w \<or> fifo_step (abs_vehicle token w) (abs_vehicle token w')"
  using assms(2) reachable_inv [OF assms(1)]
proof (induction rule: river.induct)
  case (insert j w)
  then show ?case by (intro insert_refines [OF _ refl])
next
  case (fetch r w)
  then show ?case by (intro disjI1 stutter) (auto simp: unfinished_def fetched_def)
next
  case (hold r w flt)
  then show ?case by (intro disjI1 stutter) (auto simp: unfinished_def snoozed_def)
next
  case (pass r w flt)
  then show ?case by (intro pass_refines [OF _ _ _ _ _ refl])
next
  case (succeed r w)
  then show ?case by (intro finish_refines) (auto simp: unfinished_def succeeded_def)
next
  case (fail r w e)
  then show ?case using row_inv_busy [OF row_invD] by (intro finish_refines) (auto simp: unfinished_def failed_with_def attempt_over_def)
next
  case (lose r w)
  then show ?case by (intro disjI1 stutter) (auto simp: unfinished_def)
next
  case (rescue r w)
  then show ?case using row_inv_busy [OF row_invD] by (intro finish_refines) (auto simp: unfinished_def failed_with_def attempt_over_def)
next
  case (tick d w)
  then show ?case by (simp add: abs_vehicle_def)
qed

subsection \<open>Who may read a job's outcome\<close>

lemma status_args:
  assumes "reachable w" and "get_job (w_queue w) i = Some r"
  obtains j where "jr_args r = encode_job j" "jr_kind r = job_kind j" "r \<in> set (w_jobs w)" "jr_id r = i"
proof -
  have r: "r \<in> set (w_jobs w)" "jr_id r = i" using find_SomeD [OF assms(2) [unfolded get_job_def]] by auto
  then show thesis using row_invD [OF reachable_inv [OF assms(1)] r(1)] that by (auto simp: row_inv_def)
qed

text \<open>
  A job's outcome is told only to the tenant that queued it, on the endpoint of its kind, and a job
  of another tenant is answered exactly as one that does not exist.
\<close>

theorem Status_scoped:
  assumes "reachable w"
  shows "(case get_job (w_queue w) i of
      None \<Rightarrow> Status no_faults (Some (w_queue w)) tid i = Inl ErrJobNotFound \<and> SharedOpStatus no_faults (Some (w_queue w)) tid i = Inl ErrJobNotFound
    | Some r \<Rightarrow> (\<exists>j. jr_args r = encode_job j \<and> jr_kind r = job_kind j \<and>
        Status no_faults (Some (w_queue w)) tid i =
          (if job_tenant j = tid \<and> (\<forall>a. j \<noteq> JOp a) then Inr (job_status r) else Inl ErrJobNotFound) \<and>
        SharedOpStatus no_faults (Some (w_queue w)) tid i =
          (if job_tenant j = tid \<and> (\<exists>a. j = JOp a) then Inr (job_status r) else Inl ErrJobNotFound)))"
proof (cases "get_job (w_queue w) i")
  case None
  then show ?thesis by (simp add: Status_def SharedOpStatus_def)
next
  case (Some r)
  obtain j where j: "jr_args r = encode_job j" "jr_kind r = job_kind j" using status_args [OF assms Some] by blast
  have "Status no_faults (Some (w_queue w)) tid i =
      (if job_tenant j = tid \<and> (\<forall>a. j \<noteq> JOp a) then Inr (job_status r) else Inl ErrJobNotFound)"
    using Some j by (cases j) (simp_all add: Status_def decode_encode)
  moreover have "SharedOpStatus no_faults (Some (w_queue w)) tid i =
      (if job_tenant j = tid \<and> (\<exists>a. j = JOp a) then Inr (job_status r) else Inl ErrJobNotFound)"
    using Some j by (cases j) (simp_all add: SharedOpStatus_def decode_encode)
  ultimately show ?thesis using Some j by auto
qed

subsection \<open>A concrete queue\<close>

definition demo_world :: world where
  "demo_world = start_world\<lparr>w_queue := fst (Insert (fst (Insert \<lparr>q_jobs = [], q_next = 1\<rparr> (JShare demo_share))) (JRevoke demo_share))\<rparr>"

lemma demo_world_reachable: "reachable demo_world"
proof -
  have i: "int64 (job_token (JShare demo_share))" "int64 (job_token (JRevoke demo_share))" by (simp_all add: int64_def demo_share_def)
  have "river start_world (start_world\<lparr>w_queue := fst (Insert (w_queue start_world) (JShare demo_share))\<rparr>)" by (rule river.insert [OF i(1)])
  moreover have "river (start_world\<lparr>w_queue := fst (Insert (w_queue start_world) (JShare demo_share))\<rparr>) demo_world"
    using river.insert [OF i(2), of "start_world\<lparr>w_queue := fst (Insert (w_queue start_world) (JShare demo_share))\<rparr>"]
    by (simp add: demo_world_def start_world_def)
  ultimately show ?thesis unfolding reachable_def by (meson rtranclp.rtrancl_into_rtrancl rtranclp.rtrancl_refl)
qed

lemma demo_jobs: "w_jobs demo_world = [new_row 1 (JShare demo_share), new_row 2 (JRevoke demo_share)]"
  by (simp add: demo_world_def Insert_def)

lemma vehicle_jobs_in_order_witness: "distinct (w_log demo_world) \<and> sorted_wrt (<) (entered (w_jobs demo_world) ''7'' (w_log demo_world))"
  using vehicle_jobs_in_order [OF demo_world_reachable] by blast

lemma queue_refines_fifo_witness:
  "\<exists>w'. river demo_world w' \<and>
     (abs_vehicle ''7'' w' = abs_vehicle ''7'' demo_world \<or> fifo_step (abs_vehicle ''7'' demo_world) (abs_vehicle ''7'' w'))"
proof -
  have "river demo_world (demo_world\<lparr>w_queue := fst (Insert (w_queue demo_world) (JShare demo_share))\<rparr>)"
    by (rule river.insert) (simp add: int64_def demo_share_def)
  with queue_refines_fifo [OF demo_world_reachable this] show ?thesis by blast
qed

lemma earliest_job_runs_witness:
  "\<exists>r0\<in>set (w_jobs demo_world). jr_id r0 \<le> 2 \<and> sequencer_Work no_faults (w_queue demo_world) r0 = RunInner"
proof -
  have r: "new_row 2 (JRevoke demo_share) \<in> set (w_jobs demo_world)" "unfinished (jr_state (new_row 2 (JRevoke demo_share)))"
    by (simp_all add: demo_jobs new_row_def unfinished_def)
  from earliest_job_runs [OF demo_world_reachable r] show ?thesis by (auto simp: new_row_def)
qed

lemma Status_scoped_witness:
  "Status no_faults (Some (w_queue demo_world)) ''other'' 1 = Inl ErrJobNotFound"
proof -
  have g: "get_job (w_queue demo_world) 1 = Some (new_row 1 (JShare demo_share))" by (simp add: get_job_def demo_jobs new_row_def)
  from Status_scoped [OF demo_world_reachable, where i = 1 and tid = "''other''"] g obtain j where
      j: "encode_share demo_share = encode_job j" "''vehicle_share'' = job_kind j"
        "Status no_faults (Some (w_queue demo_world)) ''other'' 1 =
          (if job_tenant j = ''other'' \<and> (\<forall>a. j \<noteq> JOp a) then Inr (job_status (new_row 1 (JShare demo_share))) else Inl ErrJobNotFound)"
    by (auto simp: new_row_def)
  then have "job_tenant j = ''cu''" by (cases j) (auto simp: encode_share_def demo_share_def)
  with j show ?thesis by simp
qed

lemma demo_crash: "\<exists>w r. reachable w \<and> r \<in> set (w_jobs w) \<and> jr_state r = Running \<and> jr_since r + rescueStuckJobsAfter < w_now w"
proof -
  let ?r = "new_row 1 (JShare demo_share)"
  let ?w1 = "change 1 (fetched 0) demo_world"
  let ?w2 = "change 1 (\<lambda>r. r\<lparr>jr_live := False\<rparr>) ?w1"
  let ?w3 = "?w2\<lparr>w_now := 21 * minute\<rparr>"
  have now: "w_now demo_world = 0" by (simp add: demo_world_def start_world_def)
  have j1: "w_jobs ?w1 = [fetched 0 ?r, new_row 2 (JRevoke demo_share)]" by (simp add: demo_jobs upd_def new_row_def)
  have j2: "w_jobs ?w2 = [fetched 0 ?r\<lparr>jr_live := False\<rparr>, new_row 2 (JRevoke demo_share)]"
    unfolding change_simps j1 [unfolded change_simps] by (simp add: upd_def new_row_def)
  have "river demo_world ?w1" using river.fetch [of ?r demo_world] by (simp add: demo_jobs now) (simp add: new_row_def)
  moreover have "river ?w1 ?w2" using river.lose [of "fetched 0 ?r" ?w1] by (simp only: j1) (simp add: fetched_def new_row_def)
  moreover have "river ?w2 ?w3"
  proof -
    have "\<forall>r\<in>set (w_jobs ?w2). \<not> jr_live r" unfolding j2 by (simp add: new_row_def)
    then show ?thesis using river.tick [of "21 * minute" ?w2] by (simp add: now minute_def second_def del: change_simps(4))
  qed
  ultimately have "reachable ?w3" using demo_world_reachable unfolding reachable_def by (meson rtranclp.rtrancl_into_rtrancl)
  moreover have "fetched 0 ?r\<lparr>jr_live := False\<rparr> \<in> set (w_jobs ?w3)" using j2 by simp
  ultimately show ?thesis
    by (intro exI [of _ ?w3] exI [of _ "fetched 0 ?r\<lparr>jr_live := False\<rparr>"]) (simp add: fetched_def rescueStuckJobsAfter_def minute_def second_def)
qed

lemma rescue_finds_no_live_worker_witness: "\<exists>w r. reachable w \<and> r \<in> set (w_jobs w) \<and> jr_state r = Running \<and> \<not> jr_live r"
  using demo_crash rescue_finds_no_live_worker by metis

end
