(* ===== verification/Publisher.thy ===== *)
theory Publisher
  imports Minting FleetGroups
begin

text \<open>
  Publishing each vehicle's fleet groups as signed attestations: \<open>service/group_publisher.go\<close> and
  the attest client of \<open>gateway/attest_api.go\<close>. A run compares what the groups are with the digest
  last accepted and publishes the difference; an empty document retracts.
\<close>

subsection \<open>The document\<close>

record group_ref =
  gr_id :: string
  gr_name :: string
  gr_color :: string

text \<open>
  \<open>encoding/json\<close> on text: quotes, backslashes and control characters escaped, and the three
  characters HTML would read.
\<close>

definition hex4 :: "nat \<Rightarrow> string" where
  "hex4 n = [hex_char (n div 4096 mod 16), hex_char (n div 256 mod 16), hex_char (n div 16 mod 16), hex_char (n mod 16)]"

definition json_char :: "char \<Rightarrow> string" where
  "json_char c =
     (let n = (of_char c :: nat) in
      if n = 34 \<or> n = 92 then [CHR 0x5C, c]
      else if n = 8 then [CHR 0x5C, CHR ''b''] else if n = 12 then [CHR 0x5C, CHR ''f'']
      else if n = 10 then [CHR 0x5C, CHR ''n''] else if n = 13 then [CHR 0x5C, CHR ''r'']
      else if n = 9 then [CHR 0x5C, CHR ''t'']
      else if n < 32 \<or> n = 60 \<or> n = 62 \<or> n = 38 then [CHR 0x5C, CHR ''u''] @ hex4 n
      else [c])"

definition json_string :: "string \<Rightarrow> string" where
  "json_string t = [CHR 0x22] @ concat (map json_char t) @ [CHR 0x22]"

fun json_join :: "string list \<Rightarrow> string" where
  "json_join [] = []"
| "json_join [x] = x"
| "json_join (x # xs) = x @ '','' @ json_join xs"

definition json_ref :: "group_ref \<Rightarrow> string" where
  "json_ref g = ''{'' @ json_string ''id'' @ '':'' @ json_string (gr_id g) @ '','' @ json_string ''name'' @ '':'' @ json_string (gr_name g) @
     '','' @ json_string ''color'' @ '':'' @ json_string (gr_color g) @ ''}''"

definition marshal_groups :: "group_ref list \<Rightarrow> string" where
  "marshal_groups gs = ''{'' @ json_string ''groups'' @ '':['' @ json_join (map json_ref gs) @ '']}''"

definition sha256Hex :: "crypto \<Rightarrow> string \<Rightarrow> string" where
  "sha256Hex K b = hexEncode (sha256 K b)"

subsection \<open>What is, and what was published\<close>

type_synonym veh_key = "uuid \<times> token_id"

definition tenant_selected :: "string \<Rightarrow> uuid \<Rightarrow> bool" where
  "tenant_selected filt tid \<longleftrightarrow> filt = [] \<or> tid = filt"

definition groups_of :: "db \<Rightarrow> veh_key \<Rightarrow> group_ref list" where
  "groups_of s k = sort_key (\<lambda>g. (gr_name g, gr_id g))
     (map (\<lambda>g. \<lparr>gr_id = g_id g, gr_name = g_name g, gr_color = g_color g\<rparr>)
       (concat (map (\<lambda>v. filter (\<lambda>g. g_id g = gv_group v \<and> g_tenant g = gv_tenant v) (fleet_groups s))
          (filter (\<lambda>v. (gv_tenant v, gv_token v) = k) (group_vehicles s)))))"

definition loadCurrentGroups :: "faults \<Rightarrow> db \<Rightarrow> string \<Rightarrow> svc_error + (veh_key list \<times> (veh_key \<Rightarrow> group_ref list))" where
  "loadCurrentGroups flt s filt =
     (if flt 0 then Inl (DbError ''load current groups'')
      else let keys = filter (\<lambda>k. groups_of s k \<noteq> []) (map (\<lambda>v. (gv_tenant v, gv_token v))
                        (filter (\<lambda>v. tenant_selected filt (gv_tenant v)) (group_vehicles s))) in
      Inr (keys, \<lambda>k. if k \<in> set keys then groups_of s k else []))"

definition at_key :: "attestation_row \<Rightarrow> veh_key" where
  "at_key a = (at_tenant a, at_token a)"

definition digest_of :: "db \<Rightarrow> veh_key \<Rightarrow> string option" where
  "digest_of s k = map_option at_digest (find (\<lambda>a. at_key a = k) (attestation_state s))"

definition loadPublishedDigests :: "faults \<Rightarrow> db \<Rightarrow> string \<Rightarrow> svc_error + (veh_key list \<times> (veh_key \<Rightarrow> string option))" where
  "loadPublishedDigests flt s filt =
     (if flt 0 then Inl (DbError ''load published digests'')
      else let keys = map at_key (filter (\<lambda>a. tenant_selected filt (at_tenant a)) (attestation_state s)) in
      Inr (keys, \<lambda>k. if k \<in> set keys then digest_of s k else None))"

subsection \<open>The plan\<close>

record pending_vehicle =
  pd_key :: veh_key
  pd_groups :: "group_ref list"
  pd_data :: string
  pd_digest :: string

record publish_result =
  Checked :: nat
  Planned :: nat
  Published :: nat
  Retracted :: nat
  FailedN :: nat
  SkippedVehicles :: nat
  Unchanged :: nat
  SkippedTenants :: nat

definition no_result :: publish_result where
  "no_result = \<lparr>Checked = 0, Planned = 0, Published = 0, Retracted = 0, FailedN = 0, SkippedVehicles = 0, Unchanged = 0, SkippedTenants = 0\<rparr>"

definition Balances :: "publish_result \<Rightarrow> bool" where
  "Balances r \<longleftrightarrow> Planned r = Published r + Retracted r + FailedN r + SkippedVehicles r"

definition plan_step ::
  "crypto \<Rightarrow> (veh_key \<Rightarrow> group_ref list) \<Rightarrow> (veh_key \<Rightarrow> string option) \<Rightarrow> veh_key \<Rightarrow>
   pending_vehicle list \<times> publish_result \<Rightarrow> pending_vehicle list \<times> publish_result" where
  "plan_step K current published k acc =
     (case acc of (pending, res) \<Rightarrow>
      if current k = [] \<and> published k = None then (pending, res)
      else let res = res\<lparr>Checked := Checked res + 1\<rparr>;
               dat = marshal_groups (current k); digest = sha256Hex K dat in
      if null_str (published k) = digest then (pending, res\<lparr>Unchanged := Unchanged res + 1\<rparr>)
      else (pending @ [\<lparr>pd_key = k, pd_groups = current k, pd_data = dat, pd_digest = digest\<rparr>], res\<lparr>Planned := Planned res + 1\<rparr>))"

definition ordered_keys :: "veh_key list \<Rightarrow> veh_key list \<Rightarrow> veh_key list" where
  "ordered_keys ks ks' = sort (remdups (ks @ ks'))"

definition planPublishes ::
  "crypto \<Rightarrow> veh_key list \<times> (veh_key \<Rightarrow> group_ref list) \<Rightarrow> veh_key list \<times> (veh_key \<Rightarrow> string option) \<Rightarrow>
   pending_vehicle list \<times> publish_result" where
  "planPublishes K current published =
     fold (plan_step K (snd current) (snd published)) (ordered_keys (fst current) (fst published)) ([], no_result)"

subsection \<open>Publishing\<close>

definition VehicleGroupsCloudEventType :: string where
  "VehicleGroupsCloudEventType = ''dimo.document.vehicle.groups''"

definition GroupAttestationProducer :: string where
  "GroupAttestationProducer = ''fleet-tenancy-api''"

text \<open>A cloud event without its random id and its time, and what the attest endpoint answers.\<close>

record cloud_event =
  ce_source :: string
  ce_producer :: string
  ce_subject :: string
  ce_type :: string
  ce_signature :: string
  ce_tags :: "string list"
  ce_data :: string

record attest_api =
  at_base_url :: string
  at_submit :: "string \<Rightarrow> cloud_event \<Rightarrow> nat option"  \<comment> \<open>token, event; the HTTP status\<close>
  erc721DID :: "int \<Rightarrow> string \<Rightarrow> int \<Rightarrow> string"

definition SubmitCloudEvent :: "attest_api \<Rightarrow> string \<Rightarrow> cloud_event \<Rightarrow> svc_error option" where
  "SubmitCloudEvent A developerJWT event =
     (if at_base_url A = [] then Some (BadRequest ''ATTEST_API_URL is not configured'')
      else case at_submit A developerJWT event of
        None \<Rightarrow> Some (Remote ''attest request'')
      | Some status \<Rightarrow> if status < 200 \<or> 300 \<le> status then Some (Remote ''attest API status'') else None)"

record pub_env =
  pe_lib :: library
  pe_cry :: crypto
  pe_eth :: eth
  pe_auth :: dimo_auth
  pe_cfg :: chain_settings
  pe_attest :: attest_api

definition put_digest :: "attestation_row \<Rightarrow> attestation_row list \<Rightarrow> attestation_row list" where
  "put_digest new = upsert_row at_key new (\<lambda>old. old\<lparr>at_digest := at_digest new\<rparr>)"

definition attestation_event :: "pub_env \<Rightarrow> pending_vehicle \<Rightarrow> string \<Rightarrow> effective_credential \<Rightarrow> cloud_event" where
  "attestation_event P v sig cred =
     \<lparr>ce_source = HexAddr (pe_lib P) (ec_client_id cred), ce_producer = GroupAttestationProducer,
      ce_subject = erc721DID (pe_attest P) (ChainID (pe_cfg P)) (HexAddr (pe_lib P) (VehicleNftAddress (pe_cfg P))) (snd (pd_key v)),
      ce_type = VehicleGroupsCloudEventType, ce_signature = sig, ce_tags = [''vehicle.groups'', ''vehicle''], ce_data = pd_data v\<rparr>"

text \<open>The events the endpoint accepted ride along, for nothing here undoes them.\<close>

definition publishOne ::
  "pub_env \<Rightarrow> faults \<Rightarrow> db \<Rightarrow> string \<Rightarrow> pending_vehicle \<Rightarrow> db \<times> cloud_event list \<times> svc_error option" where
  "publishOne P flt s developerJWT v =
     (case SignAsTenant (pe_cry P) (pe_eth P) (pe_cfg P) flt s (fst (pd_key v)) (pd_data v) of
        Inl e \<Rightarrow> (s, [], Some e)
      | Inr (sig, cred) \<Rightarrow>
        let event = attestation_event P v sig cred in
        (case SubmitCloudEvent (pe_attest P) developerJWT event of
           Some e \<Rightarrow> (s, [], Some e)
         | None \<Rightarrow>
           if flt 2 then (s, [event], Some (DbError ''record published digest''))
           else (s\<lparr>attestation_state := put_digest \<lparr>at_tenant = fst (pd_key v), at_token = snd (pd_key v), at_digest = pd_digest v\<rparr>
                   (attestation_state s)\<rparr>, [event], None)))"

type_synonym run_state = "db \<times> cloud_event list \<times> publish_result"

definition publish_step :: "pub_env \<Rightarrow> (veh_key \<Rightarrow> faults) \<Rightarrow> string \<Rightarrow> pending_vehicle \<Rightarrow> run_state \<Rightarrow> run_state" where
  "publish_step P vf token v st =
     (case st of (s, evs, res) \<Rightarrow>
      (case publishOne P (vf (pd_key v)) s token v of
         (s', new, Some _) \<Rightarrow> (s', evs @ new, res\<lparr>FailedN := FailedN res + 1\<rparr>)
       | (s', new, None) \<Rightarrow>
         (s', evs @ new, if pd_groups v = [] then res\<lparr>Retracted := Retracted res + 1\<rparr> else res\<lparr>Published := Published res + 1\<rparr>)))"

definition publish_tenant ::
  "pub_env \<Rightarrow> (uuid \<Rightarrow> faults) \<Rightarrow> (veh_key \<Rightarrow> faults) \<Rightarrow> pending_vehicle list \<Rightarrow> uuid \<Rightarrow> minters \<times> run_state \<Rightarrow> minters \<times> run_state" where
  "publish_tenant P tf vf pending tid st =
     (case st of (cache, s, evs, res) \<Rightarrow>
      let vs = filter (\<lambda>v. fst (pd_key v) = tid) pending in
      (case DeveloperJWT (pe_lib P) (pe_cry P) (pe_auth P) (pe_cfg P) (tf tid) cache s tid of
         (cache', Inl e) \<Rightarrow>
           if errors_is e ErrNoCredential
           then (cache', s, evs, res\<lparr>SkippedTenants := SkippedTenants res + 1, SkippedVehicles := SkippedVehicles res + length vs\<rparr>)
           else (cache', s, evs, res\<lparr>FailedN := FailedN res + length vs\<rparr>)
       | (cache', Inr token) \<Rightarrow> (cache', fold (publish_step P vf (mt_token token)) vs (s, evs, res))))"

definition tenant_ids :: "pending_vehicle list \<Rightarrow> uuid list" where
  "tenant_ids pending = sort (remdups (map (\<lambda>v. fst (pd_key v)) pending))"

definition Run ::
  "pub_env \<Rightarrow> faults \<Rightarrow> (uuid \<Rightarrow> faults) \<Rightarrow> (veh_key \<Rightarrow> faults) \<Rightarrow> minters \<Rightarrow> db \<Rightarrow> string \<Rightarrow> bool \<Rightarrow>
   db \<times> cloud_event list \<times> (svc_error + publish_result)" where
  "Run P flt tf vf cache s tenantFilter dryRun =
     (case loadCurrentGroups flt s tenantFilter of
        Inl e \<Rightarrow> (s, [], Inl e)
      | Inr current \<Rightarrow>
        (case loadPublishedDigests (\<lambda>n. flt (n + 1)) s tenantFilter of
           Inl e \<Rightarrow> (s, [], Inl e)
         | Inr published \<Rightarrow>
           (case planPublishes (pe_cry P) current published of
              (pending, res) \<Rightarrow>
                if dryRun then (s, [], Inr res)
                else (case fold (publish_tenant P tf vf pending) (tenant_ids pending) (cache, s, [], res) of
                        (_, s', evs, res') \<Rightarrow> (s', evs, Inr res')))))"

subsection \<open>The plan, declaratively\<close>

definition pending_for :: "crypto \<Rightarrow> (veh_key \<Rightarrow> group_ref list) \<Rightarrow> veh_key \<Rightarrow> pending_vehicle" where
  "pending_for K current k = \<lparr>pd_key = k, pd_groups = current k, pd_data = marshal_groups (current k),
     pd_digest = sha256Hex K (marshal_groups (current k))\<rparr>"

definition stale :: "crypto \<Rightarrow> (veh_key \<Rightarrow> group_ref list) \<Rightarrow> (veh_key \<Rightarrow> string option) \<Rightarrow> veh_key \<Rightarrow> bool" where
  "stale K current published k \<longleftrightarrow> \<not> (current k = [] \<and> published k = None) \<and>
     null_str (published k) \<noteq> sha256Hex K (marshal_groups (current k))"

definition handled :: "publish_result \<Rightarrow> nat" where
  "handled r = Published r + Retracted r + FailedN r + SkippedVehicles r"

lemma plan_fold:
  "fold (plan_step K cur pub) ks (pending, res) = (p', res') \<Longrightarrow>
     p' = pending @ map (pending_for K cur) (filter (stale K cur pub) ks) \<and>
     Planned res' = Planned res + length (filter (stale K cur pub) ks) \<and> handled res' = handled res \<and>
     FailedN res' = FailedN res \<and> SkippedVehicles res' = SkippedVehicles res"
proof (induction ks arbitrary: pending res)
  case (Cons k ks)
  obtain p1 r1 where s1: "plan_step K cur pub k (pending, res) = (p1, r1)" by fastforce
  have st: "p1 = pending @ map (pending_for K cur) (filter (stale K cur pub) [k]) \<and>
      Planned r1 = Planned res + length (filter (stale K cur pub) [k]) \<and> handled r1 = handled res \<and>
      FailedN r1 = FailedN res \<and> SkippedVehicles r1 = SkippedVehicles res"
    using s1 unfolding plan_step_def Let_def stale_def pending_for_def handled_def by (auto split: if_splits)
  have "fold (plan_step K cur pub) ks (p1, r1) = (p', res')" using Cons.prems s1 by simp
  from Cons.IH [OF this] st show ?case by (auto split: if_splits)
qed auto

lemma planPublishes_result:
  assumes "planPublishes K current published = (pending, res)"
  shows "pending = map (pending_for K (snd current)) (filter (stale K (snd current) (snd published)) (ordered_keys (fst current) (fst published)))
    \<and> Planned res = length pending \<and> handled res = 0 \<and> FailedN res = 0 \<and> SkippedVehicles res = 0"
  using plan_fold [OF assms [unfolded planPublishes_def]] by (auto simp: no_result_def handled_def)

subsection \<open>What publishing a list of vehicles does\<close>

definition attest_only :: "db \<Rightarrow> db \<Rightarrow> bool" where
  "attest_only s s' \<longleftrightarrow> s' = s\<lparr>attestation_state := attestation_state s'\<rparr>"

definition vehicle_event :: "pub_env \<Rightarrow> pending_vehicle \<Rightarrow> cloud_event \<Rightarrow> bool" where
  "vehicle_event P v e \<longleftrightarrow> ce_data e = pd_data v \<and> ce_type e = VehicleGroupsCloudEventType \<and>
     ce_subject e = erc721DID (pe_attest P) (ChainID (pe_cfg P)) (HexAddr (pe_lib P) (VehicleNftAddress (pe_cfg P))) (snd (pd_key v))"

definition advance :: "pub_env \<Rightarrow> pending_vehicle list \<Rightarrow> run_state \<Rightarrow> run_state \<Rightarrow> bool" where
  "advance P vs st st' \<longleftrightarrow> (case (st, st') of ((s, evs, r), (s', evs', r')) \<Rightarrow>
     attest_only s s' \<and> Planned r' = Planned r \<and> handled r' = handled r + length vs \<and>
     FailedN r + SkippedVehicles r \<le> FailedN r' + SkippedVehicles r' \<and>
     (\<forall>k. k \<notin> pd_key ` set vs \<longrightarrow> digest_of s' k = digest_of s k) \<and>
     (\<forall>v\<in>set vs. digest_of s' (pd_key v) \<in> {digest_of s (pd_key v), Some (pd_digest v)}) \<and>
     (FailedN r' + SkippedVehicles r' = FailedN r + SkippedVehicles r \<longrightarrow> (\<forall>v\<in>set vs. digest_of s' (pd_key v) = Some (pd_digest v))) \<and>
     (\<exists>new. evs' = evs @ new \<and> length new \<le> length vs \<and> (\<forall>e\<in>set new. \<exists>v\<in>set vs. vehicle_event P v e)))"

lemma digest_put:
  "digest_of (s\<lparr>attestation_state := put_digest row (attestation_state s)\<rparr>) k =
     (if k = at_key row then Some (at_digest row) else digest_of s k)"
proof -
  have "find (\<lambda>a. at_key a = k) (put_digest row (attestation_state s)) =
      (if k = at_key row
       then Some (case find (\<lambda>a. at_key a = k) (attestation_state s) of None \<Rightarrow> row | Some old \<Rightarrow> old\<lparr>at_digest := at_digest row\<rparr>)
       else find (\<lambda>a. at_key a = k) (attestation_state s))"
    unfolding put_digest_def by (rule find_upsert_row) (simp add: at_key_def)
  then show ?thesis by (simp add: digest_of_def split: option.split)
qed

lemma advance_refl: "advance P [] st st"
  by (simp add: advance_def attest_only_def split: prod.split)

lemma attest_only_trans: "attest_only s t \<Longrightarrow> attest_only t u \<Longrightarrow> attest_only s u"
proof -
  assume a: "attest_only s t" and b: "attest_only t u"
  from a obtain rs where t: "t = s\<lparr>attestation_state := rs\<rparr>" by (auto simp: attest_only_def)
  from b show ?thesis unfolding attest_only_def t by simp
qed

lemma advance_trans:
  assumes "advance P vs a b" and "advance P vs' b c" and "pd_key ` set vs \<inter> pd_key ` set vs' = {}"
  shows "advance P (vs @ vs') a c"
proof -
  obtain s e r where a: "a = (s, e, r)" by (metis prod_cases3)
  obtain t f q where b: "b = (t, f, q)" by (metis prod_cases3)
  obtain u g p where c: "c = (u, g, p)" by (metis prod_cases3)
  have keep: "digest_of u (pd_key v) = digest_of t (pd_key v)" if "v \<in> set vs" for v
    using assms(2,3) that unfolding b c advance_def by blast
  have keep': "digest_of t (pd_key v) = digest_of s (pd_key v)" if "v \<in> set vs'" for v
    using assms(1,3) that unfolding a b advance_def by blast
  obtain n n' where new: "f = e @ n" "g = f @ n'" "length n \<le> length vs" "length n' \<le> length vs'"
      "\<forall>x\<in>set n. \<exists>v\<in>set vs. vehicle_event P v x" "\<forall>x\<in>set n'. \<exists>v\<in>set vs'. vehicle_event P v x"
    using assms(1,2) unfolding a b c advance_def by auto
  have "\<exists>m. g = e @ m \<and> length m \<le> length (vs @ vs') \<and> (\<forall>x\<in>set m. \<exists>v\<in>set (vs @ vs'). vehicle_event P v x)"
    using new by (intro exI [of _ "n @ n'"]) auto
  moreover have "attest_only s u" using assms(1,2) attest_only_trans unfolding a b c advance_def by blast
  moreover note A = assms(1) [unfolded a b advance_def prod.case] and B = assms(2) [unfolded b c advance_def prod.case]
  moreover have "\<forall>k. k \<notin> pd_key ` set (vs @ vs') \<longrightarrow> digest_of u k = digest_of s k"
    using A B unfolding set_append image_Un Un_iff by metis
  moreover have "\<forall>v\<in>set (vs @ vs'). digest_of u (pd_key v) \<in> {digest_of s (pd_key v), Some (pd_digest v)}"
    using A B keep keep' unfolding set_append ball_Un by metis
  moreover have "\<forall>v\<in>set (vs @ vs'). digest_of u (pd_key v) = Some (pd_digest v)"
    if f: "FailedN p + SkippedVehicles p = FailedN r + SkippedVehicles r"
  proof -
    have "FailedN q + SkippedVehicles q = FailedN r + SkippedVehicles r" "FailedN p + SkippedVehicles p = FailedN q + SkippedVehicles q"
      using A B f by linarith+
    then show ?thesis using A B keep unfolding set_append ball_Un by metis
  qed
  ultimately show ?thesis unfolding a c advance_def prod.case by simp
qed

lemma publish_step_advance: "advance P [v] st (publish_step P vf token v st)"
proof -
  obtain s e r where st: "st = (s, e, r)" by (metis prod_cases3)
  obtain s' n x where o: "publishOne P (vf (pd_key v)) s token v = (s', n, x)" by (metis prod_cases3)
  have ev: "\<forall>y\<in>set n. vehicle_event P v y" "length n \<le> 1"
    using o unfolding publishOne_def Let_def
    by (auto simp: vehicle_event_def attestation_event_def split: sum.splits option.splits if_splits)
  have sv: "if x = None then s' = s\<lparr>attestation_state := put_digest \<lparr>at_tenant = fst (pd_key v), at_token = snd (pd_key v), at_digest = pd_digest v\<rparr>
      (attestation_state s)\<rparr> else s' = s"
    using o unfolding publishOne_def Let_def by (auto split: sum.splits option.splits if_splits)
  have new: "\<exists>m. e @ n = e @ m \<and> length m \<le> length [v] \<and> (\<forall>y\<in>set m. \<exists>v\<in>set [v]. vehicle_event P v y)"
    using ev by (intro exI [of _ n]) auto
  show ?thesis
  proof (cases x)
    case None
    have "digest_of s' k = (if k = pd_key v then Some (pd_digest v) else digest_of s k)" for k
      using sv None digest_put [where s = s and k = k and row = "\<lparr>at_tenant = fst (pd_key v), at_token = snd (pd_key v), at_digest = pd_digest v\<rparr>"]
      by (simp add: at_key_def)
    moreover have "attest_only s s'" using sv None by (simp add: attest_only_def)
    ultimately show ?thesis using new None by (simp add: advance_def publish_step_def st o handled_def)
  next
    case (Some err)
    then show ?thesis using new sv by (simp add: advance_def publish_step_def st o handled_def attest_only_def)
  qed
qed

lemma publish_fold_advance:
  "distinct (map pd_key vs) \<Longrightarrow> advance P vs st (fold (publish_step P vf token) vs st)"
proof (induction vs arbitrary: st)
  case (Cons v vs)
  then have "advance P vs (publish_step P vf token v st) (fold (publish_step P vf token) vs (publish_step P vf token v st))" by simp
  from advance_trans [OF publish_step_advance this] Cons.prems show ?case by simp
qed (simp add: advance_refl)

lemma publish_tenant_advance:
  assumes "distinct (map pd_key pending)" and "vs = filter (\<lambda>v. fst (pd_key v) = tid) pending"
  shows "advance P vs (snd st) (snd (publish_tenant P tf vf pending tid st))"
proof -
  obtain cache s e r where st: "st = (cache, s, e, r)" by (metis prod_cases4)
  obtain c j where j: "DeveloperJWT (pe_lib P) (pe_cry P) (pe_auth P) (pe_cfg P) (tf tid) cache s tid = (c, j)" by fastforce
  show ?thesis
  proof (cases j)
    case (Inl x)
    then have "\<exists>r1. snd (publish_tenant P tf vf pending tid st) = (s, e, r1) \<and> Planned r1 = Planned r \<and>
        handled r1 = handled r + length vs \<and> FailedN r1 + SkippedVehicles r1 = FailedN r + SkippedVehicles r + length vs"
      using j assms(2) by (simp add: publish_tenant_def st handled_def Let_def)
    then show ?thesis by (auto simp: st advance_def attest_only_def)
  next
    case (Inr tok)
    have "distinct (map pd_key vs)" using assms by (simp add: distinct_map_filter)
    from publish_fold_advance [OF this] show ?thesis using j Inr assms(2) by (simp add: publish_tenant_def st)
  qed
qed

lemma tenants_advance:
  assumes "distinct (map pd_key pending)" and "distinct tids"
  shows "advance P (concat (map (\<lambda>t. filter (\<lambda>v. fst (pd_key v) = t) pending) tids)) (snd st)
    (snd (fold (publish_tenant P tf vf pending) tids st))"
  using assms(2)
proof (induction tids arbitrary: st)
  case (Cons t tids)
  let ?vs = "\<lambda>t. filter (\<lambda>v. fst (pd_key v) = t) pending"
  have "advance P (concat (map ?vs tids)) (snd (publish_tenant P tf vf pending t st))
      (snd (fold (publish_tenant P tf vf pending) tids (publish_tenant P tf vf pending t st)))"
    using Cons by simp
  from advance_trans [OF publish_tenant_advance [OF assms(1) refl] this] Cons.prems show ?case by force
qed (simp add: advance_refl)

lemma concat_by_key:
  assumes "set (map key xs) \<subseteq> set ks" and "distinct ks"
  shows "length (concat (map (\<lambda>t. filter (\<lambda>v. key v = t) xs) ks)) = length xs \<and>
    set (concat (map (\<lambda>t. filter (\<lambda>v. key v = t) xs) ks)) = set xs"
proof
  have "(\<Sum>t\<in>set ks. length (filter (\<lambda>v. key v = t) xs)) = length xs"
    using assms(1)
  proof (induction xs)
    case (Cons x xs)
    have "(\<Sum>t\<in>set ks. length (filter (\<lambda>v. key v = t) (x # xs))) =
        (\<Sum>t\<in>set ks. (if t = key x then 1 else 0) + length (filter (\<lambda>v. key v = t) xs))"
      by (rule sum.cong) auto
    also have "\<dots> = (\<Sum>t\<in>set ks. if t = key x then 1 else 0) + length xs" using Cons by (simp add: sum.distrib)
    finally show ?case using Cons.prems by simp
  qed simp
  then show "length (concat (map (\<lambda>t. filter (\<lambda>v. key v = t) xs) ks)) = length xs"
    using assms(2) by (simp add: length_concat comp_def sum_list_distinct_conv_sum_set)
qed (use assms(1) in auto)

lemma sort_remdups_distinct [simp]: "distinct (ordered_keys a b)" "distinct (tenant_ids pending)"
  by (simp_all add: ordered_keys_def tenant_ids_def)

lemma Run_result:
  assumes "Run P flt tf vf cache s filt False = (s', evs, Inr res)"
  obtains current published pending res0 vs where
    "loadCurrentGroups flt s filt = Inr current" "loadPublishedDigests (\<lambda>n. flt (n + 1)) s filt = Inr published"
    "planPublishes (pe_cry P) current published = (pending, res0)" "distinct (map pd_key pending)"
    "set vs = set pending" "length vs = length pending" "advance P vs (s, [], res0) (s', evs, res)"
proof -
  obtain current published pending res0 where l: "loadCurrentGroups flt s filt = Inr current"
      "loadPublishedDigests (\<lambda>n. flt (n + 1)) s filt = Inr published" "planPublishes (pe_cry P) current published = (pending, res0)"
      and f: "snd (fold (publish_tenant P tf vf pending) (tenant_ids pending) (cache, s, [], res0)) = (s', evs, res)"
    using assms unfolding Run_def by (auto split: sum.splits prod.splits)
  have pk: "map pd_key pending = filter (stale (pe_cry P) (snd current) (snd published)) (ordered_keys (fst current) (fst published))"
    using planPublishes_result [OF l(3)] by (simp add: comp_def pending_for_def)
  have d: "distinct (map pd_key pending)" unfolding pk by simp
  let ?vs = "concat (map (\<lambda>t. filter (\<lambda>v. fst (pd_key v) = t) pending) (tenant_ids pending))"
  have "length ?vs = length pending \<and> set ?vs = set pending"
    by (rule concat_by_key) (auto simp: tenant_ids_def)
  moreover have "advance P ?vs (s, [], res0) (s', evs, res)"
    using tenants_advance [OF d sort_remdups_distinct(2), of P pending "(cache, s, [], res0)" tf vf] f by simp
  ultimately show thesis using that l d by blast
qed

text \<open>
  A run accounts for every vehicle it selected, as published, retracted, failed or skipped. It
  writes nothing but the recorded digests, and each event the network accepted is the current
  groups document of a selected vehicle; a digest changes only to the one selected for it.
\<close>

theorem Run_accounts:
  assumes "Run P flt tf vf cache s filt False = (s', evs, Inr res)"
  shows "Balances res \<and> attest_only s s' \<and> length evs \<le> Planned res \<and>
    (\<exists>current. loadCurrentGroups flt s filt = Inr current \<and>
      (\<forall>e\<in>set evs. \<exists>k. ce_data e = marshal_groups (snd current k) \<and>
         ce_subject e = erc721DID (pe_attest P) (ChainID (pe_cfg P)) (HexAddr (pe_lib P) (VehicleNftAddress (pe_cfg P))) (snd k)) \<and>
      (\<forall>k. digest_of s' k \<noteq> digest_of s k \<longrightarrow> digest_of s' k = Some (sha256Hex (pe_cry P) (marshal_groups (snd current k)))))"
proof (rule Run_result [OF assms])
  fix current published pending res0 vs
  assume c: "loadCurrentGroups flt s filt = Inr current" and pl: "planPublishes (pe_cry P) current published = (pending, res0)"
    and vs: "set vs = set pending" "length vs = length pending" and adv: "advance P vs (s, [], res0) (s', evs, res)"
  note p = planPublishes_result [OF pl]
  have form: "pd_data v = marshal_groups (snd current (pd_key v)) \<and> pd_digest v = sha256Hex (pe_cry P) (marshal_groups (snd current (pd_key v)))"
    if "v \<in> set vs" for v using that vs(1) p by (auto simp: pending_for_def)
  note A = adv [unfolded advance_def prod.case]
  have other: "\<forall>k. k \<notin> pd_key ` set vs \<longrightarrow> digest_of s' k = digest_of s k" using A by (elim conjE)
  have own: "\<forall>v\<in>set vs. digest_of s' (pd_key v) \<in> {digest_of s (pd_key v), Some (pd_digest v)}" using A by (elim conjE)
  have evs: "\<exists>new. evs = [] @ new \<and> length new \<le> length vs \<and> (\<forall>e\<in>set new. \<exists>v\<in>set vs. vehicle_event P v e)" using A by (elim conjE)
  have oa: "attest_only s s'" using A by (elim conjE)
  have "Balances res" "length evs \<le> Planned res" using A p vs(2) by (auto simp: Balances_def handled_def)
  moreover have "\<exists>k. ce_data e = marshal_groups (snd current k) \<and>
      ce_subject e = erc721DID (pe_attest P) (ChainID (pe_cfg P)) (HexAddr (pe_lib P) (VehicleNftAddress (pe_cfg P))) (snd k)"
    if e: "e \<in> set evs" for e
  proof -
    obtain v where "v \<in> set vs" "vehicle_event P v e" using evs e by auto
    then show ?thesis using form by (intro exI [of _ "pd_key v"]) (simp add: vehicle_event_def)
  qed
  moreover have "digest_of s' k = Some (sha256Hex (pe_cry P) (marshal_groups (snd current k)))" if ch: "digest_of s' k \<noteq> digest_of s k" for k
  proof -
    have "k \<in> pd_key ` set vs" using other [rule_format, of k] ch by argo
    then obtain v where v: "v \<in> set vs" "k = pd_key v" by (elim imageE)
    have "digest_of s' (pd_key v) = Some (pd_digest v)" using own [rule_format, OF v(1)] ch unfolding v(2) by simp
    then have "digest_of s' k = Some (pd_digest v)" unfolding v(2) .
    then show ?thesis using form [OF v(1)] v(2) by simp
  qed
  ultimately show ?thesis using oa c by (intro conjI exI [of _ current] ballI allI impI) simp_all
qed

lemma groups_frame: "attest_only s s' \<Longrightarrow> loadCurrentGroups flt s' filt = loadCurrentGroups flt s filt"
proof -
  assume "attest_only s s'"
  then obtain rs where s': "s' = s\<lparr>attestation_state := rs\<rparr>" by (auto simp: attest_only_def)
  have "groups_of s' = groups_of s" by (simp add: s' groups_of_def fun_eq_iff)
  then have g: "groups_of s' k = groups_of s k" for k by simp
  show ?thesis unfolding loadCurrentGroups_def g by (simp add: s')
qed

lemma digests_loaded:
  assumes "loadPublishedDigests flt s filt = Inr published" and "tenant_selected filt (fst k)"
  shows "snd published k = digest_of s k"
proof -
  have "digest_of s k = None" if "k \<notin> at_key ` {a \<in> set (attestation_state s). tenant_selected filt (at_tenant a)}"
    using that assms(2) by (auto simp: digest_of_def find_None_iff at_key_def)
  then show ?thesis using assms(1) by (auto simp: loadPublishedDigests_def split: if_splits)
qed

text \<open>
  C39. A run that lost nothing leaves nothing to do: if no vehicle failed or was skipped, running again
  before any group changes selects no vehicle and sends no event.
\<close>

theorem Run_converges:
  assumes r1: "Run P flt tf vf cache s filt False = (s', evs, Inr res)" and "FailedN res = 0" and "SkippedVehicles res = 0"
    and r2: "Run P flt tf' vf' cache' s' filt False = (s'', evs', Inr res')"
  shows "Planned res' = 0 \<and> evs' = [] \<and> s'' = s'"
proof (rule Run_result [OF r1])
  fix current published pending res0 vs
  assume c: "loadCurrentGroups flt s filt = Inr current" and p: "loadPublishedDigests (\<lambda>n. flt (n + 1)) s filt = Inr published"
    and pl: "planPublishes (pe_cry P) current published = (pending, res0)"
    and vs: "set vs = set pending" and adv: "advance P vs (s, [], res0) (s', evs, res)"
  note A = adv [unfolded advance_def prod.case] and P = planPublishes_result [OF pl]
  have other: "\<forall>k. k \<notin> pd_key ` set vs \<longrightarrow> digest_of s' k = digest_of s k" using A by (elim conjE)
  have same: "FailedN res + SkippedVehicles res = FailedN res0 + SkippedVehicles res0" using assms(2,3) P by simp
  have own: "\<forall>v\<in>set vs. digest_of s' (pd_key v) = Some (pd_digest v)" using A same by (elim conjE) simp
  have oa: "attest_only s s'" using A by (elim conjE)
  obtain current' published' pending' res0' vs' where c': "loadCurrentGroups flt s' filt = Inr current'"
      and p': "loadPublishedDigests (\<lambda>n. flt (n + 1)) s' filt = Inr published'"
      and pl': "planPublishes (pe_cry P) current' published' = (pending', res0')"
      and vs': "set vs' = set pending'" "length vs' = length pending'" and adv': "advance P vs' (s', [], res0') (s'', evs', res')"
    by (rule Run_result [OF r2])
  have cc: "current' = current" using c c' groups_frame [OF oa] by simp
  have none: "\<not> stale (pe_cry P) (snd current) (snd published') k" if k: "k \<in> set (ordered_keys (fst current) (fst published'))" for k
  proof -
    have sel: "tenant_selected filt (fst k)" using k c p'
      by (auto simp: ordered_keys_def loadCurrentGroups_def loadPublishedDigests_def at_key_def Let_def split: if_splits)
    have d: "snd published' k = digest_of s' k" "snd published k = digest_of s k"
      using digests_loaded [OF p' sel] digests_loaded [OF p sel] by simp_all
    show ?thesis
    proof (cases "k \<in> pd_key ` set vs")
      case True
      then have "digest_of s' k = Some (sha256Hex (pe_cry P) (marshal_groups (snd current k)))"
        using own vs P by (auto simp: pending_for_def)
      then show ?thesis by (simp add: stale_def d null_str_def)
    next
      case False
      then have eq: "digest_of s' k = digest_of s k" using other by blast
      have "k \<in> set (ordered_keys (fst current) (fst published)) \<or> snd current k = [] \<and> digest_of s k = None"
        using c p sel d(2) by (auto simp: ordered_keys_def loadCurrentGroups_def loadPublishedDigests_def Let_def split: if_splits)
      moreover have "\<not> stale (pe_cry P) (snd current) (snd published) k" if "k \<in> set (ordered_keys (fst current) (fst published))"
        using False that vs P by (auto simp: pending_for_def image_iff)
      ultimately show ?thesis using d eq by (auto simp: stale_def)
    qed
  qed
  have "pending' = []" using planPublishes_result [OF pl'] none by (simp add: cc filter_empty_conv)
  then show ?thesis using r2 c' p' pl' planPublishes_result [OF pl'] by (auto simp: Run_def tenant_ids_def)
qed

subsection \<open>A concrete run\<close>

definition demo_pub :: pub_env where
  "demo_pub = \<lparr>pe_lib = demo_library, pe_cry = demo_crypto, pe_eth = demo_eth, pe_auth = demo_auth, pe_cfg = demo_settings_chain,
     pe_attest = \<lparr>at_base_url = ''https://attest'', at_submit = (\<lambda>t e. Some 200), erc721DID = (\<lambda>c a t. FormatInt t)\<rparr>\<rparr>"

definition demo_grouped_db :: db where
  "demo_grouped_db = demo_keys_db\<lparr>group_vehicles := [\<lparr>gv_tenant = ''cu'', gv_token = 7, gv_group = ''cu_vans''\<rparr>]\<rparr>"

lemma demo_Run_counts:
  "(case Run demo_pub no_faults (\<lambda>_. no_faults) (\<lambda>_. no_faults) Map.empty demo_grouped_db [] False of
      (_, _, Inr res) \<Rightarrow> FailedN res = 0 \<and> SkippedVehicles res = 0 \<and> Published res = 1 | _ \<Rightarrow> False)"
  by code_simp

lemma demo_Run:
  obtains s' evs res where "Run demo_pub no_faults (\<lambda>_. no_faults) (\<lambda>_. no_faults) Map.empty demo_grouped_db [] False = (s', evs, Inr res)"
    "FailedN res = 0" "SkippedVehicles res = 0"
  using demo_Run_counts by (auto split: prod.splits sum.splits)

lemma Run_accounts_witness:
  "\<exists>s' evs res. Run demo_pub no_faults (\<lambda>_. no_faults) (\<lambda>_. no_faults) Map.empty demo_grouped_db [] False = (s', evs, Inr res) \<and> Balances res"
  by (rule demo_Run) (use Run_accounts in blast)

lemma Run_converges_witness:
  "\<exists>s' evs res s'' res'. Run demo_pub no_faults (\<lambda>_. no_faults) (\<lambda>_. no_faults) Map.empty demo_grouped_db [] False = (s', evs, Inr res) \<and>
     Run demo_pub no_faults (\<lambda>_. no_faults) (\<lambda>_. no_faults) Map.empty s' [] False = (s'', [], Inr res') \<and> s'' = s'"
proof (rule demo_Run)
  fix s' evs res
  assume r1: "Run demo_pub no_faults (\<lambda>_. no_faults) (\<lambda>_. no_faults) Map.empty demo_grouped_db [] False = (s', evs, Inr res)"
    and ok: "FailedN res = 0" "SkippedVehicles res = 0"
  have "\<exists>s'' evs' res'. Run demo_pub no_faults (\<lambda>_. no_faults) (\<lambda>_. no_faults) Map.empty s' [] False = (s'', evs', Inr res')"
    by (auto simp: Run_def loadCurrentGroups_def loadPublishedDigests_def Let_def split: prod.splits)
  then obtain s'' evs' res' where r2: "Run demo_pub no_faults (\<lambda>_. no_faults) (\<lambda>_. no_faults) Map.empty s' [] False = (s'', evs', Inr res')" by blast
  from Run_converges [OF r1 ok r2] r1 r2 show ?thesis by blast
qed

end
