(* ===== verification/Isolation.thy ===== *)
theory Isolation
  imports Provisioning Sharing VehicleMemberships Invitations
begin

text \<open>
  What a tenant owns in the database, and that an operation on one tenant leaves what every other
  tenant owns as it was: one frame lemma per operation of the services, collected in \<open>frames\<close>.
\<close>

named_theorems frames \<open>operations on one tenant leave the rows of another\<close>

subsection \<open>The rows of one tenant\<close>

text \<open>
  The tables that hold no tenant's data (people, vehicles and their owners, remembered signers) and
  the move history, which names memberships only, are left out. So is the group an entitlement was
  copied from: \<open>ON DELETE SET NULL\<close> lets an operator's deletion of its own group clear it.
\<close>

definition tenant_rows :: "uuid \<Rightarrow> db \<Rightarrow> db" where
  "tenant_rows t s = \<lparr>
     tenants = filter (\<lambda>r. t_id r = t) (tenants s),
     credentials = filter (\<lambda>r. c_tenant r = t) (credentials s),
     users = [],
     memberships = filter (\<lambda>r. m_tenant r = t) (memberships s),
     delegations = filter (\<lambda>r. d_operator r = t \<or> d_customer r = t) (delegations s),
     entitlements = map (\<lambda>e. e\<lparr>e_source_group := None\<rparr>) (filter (\<lambda>r. e_tenant r = t) (entitlements s)),
     fleet_groups = filter (\<lambda>r. g_tenant r = t) (fleet_groups s),
     group_vehicles = filter (\<lambda>r. gv_tenant r = t) (group_vehicles s),
     vehicle_memberships = filter (\<lambda>r. vm_tenant r = t) (vehicle_memberships s),
     membership_moves = [],
     invitations = filter (\<lambda>r. i_tenant r = t) (invitations s),
     vehicles = [], owner_changes = [], shared_accounts = [],
     attestation_state = filter (\<lambda>r. at_tenant r = t) (attestation_state s)\<rparr>"

subsection \<open>Statements\<close>

lemma filter_upd_row: "\<forall>r. r \<in> set rs \<longrightarrow> P r \<longrightarrow> \<not> Q r \<and> \<not> Q (f r) \<Longrightarrow> filter Q (upd P f rs) = filter Q rs"
  by (induction rs) auto

lemma filter_upd_frame: "\<forall>r. P r \<longrightarrow> \<not> Q r \<and> \<not> Q (f r) \<Longrightarrow> filter Q (upd P f rs) = filter Q rs"
  by (rule filter_upd_row) blast

lemma filter_del_frame: "\<forall>r. P r \<longrightarrow> \<not> Q r \<Longrightarrow> filter Q (del P rs) = filter Q rs"
  by (induction rs) auto

lemma filter_upsert_other:
  "(\<And>r. key r = key new \<Longrightarrow> \<not> Q r) \<Longrightarrow> (\<And>r. key r = key new \<Longrightarrow> key (merge r) = key new) \<Longrightarrow>
     filter Q (upsert_row key new merge rs) = filter Q rs"
  by (auto simp: upsert_row_def intro: filter_upd_frame)

lemma map_filter_upd:
  "\<forall>r. P r \<longrightarrow> Q (f r) = Q r \<and> h (f r) = h r \<Longrightarrow> map h (filter Q (upd P f rs)) = map h (filter Q rs)"
  by (induction rs) auto

lemma frameD: "tenant_rows t (fst p) = X \<Longrightarrow> p = (s', r) \<Longrightarrow> tenant_rows t s' = X"
  by simp

text \<open>A statement on one table matters only through that table's rows of the tenant.\<close>

lemma tenant_rows_global [simp]:
  "tenant_rows t (s\<lparr>users := us\<rparr>) = tenant_rows t s"
  "tenant_rows t (s\<lparr>membership_moves := mv\<rparr>) = tenant_rows t s"
  "tenant_rows t (s\<lparr>vehicles := vs\<rparr>) = tenant_rows t s"
  "tenant_rows t (s\<lparr>owner_changes := oc\<rparr>) = tenant_rows t s"
  "tenant_rows t (s\<lparr>shared_accounts := sa\<rparr>) = tenant_rows t s"
  by (simp_all add: tenant_rows_def)

lemma tenant_rows_tables:
  "filter (\<lambda>r. t_id r = t) ts = filter (\<lambda>r. t_id r = t) (tenants s) \<Longrightarrow>
     tenant_rows t (s\<lparr>tenants := ts\<rparr>) = tenant_rows t s"
  "filter (\<lambda>r. c_tenant r = t) cs = filter (\<lambda>r. c_tenant r = t) (credentials s) \<Longrightarrow>
     tenant_rows t (s\<lparr>credentials := cs\<rparr>) = tenant_rows t s"
  "filter (\<lambda>r. m_tenant r = t) ms = filter (\<lambda>r. m_tenant r = t) (memberships s) \<Longrightarrow>
     tenant_rows t (s\<lparr>memberships := ms\<rparr>) = tenant_rows t s"
  "filter (\<lambda>r. d_operator r = t \<or> d_customer r = t) ds = filter (\<lambda>r. d_operator r = t \<or> d_customer r = t) (delegations s) \<Longrightarrow>
     tenant_rows t (s\<lparr>delegations := ds\<rparr>) = tenant_rows t s"
  "map (e_source_group_update (\<lambda>_. None)) (filter (\<lambda>r. e_tenant r = t) es) =
     map (e_source_group_update (\<lambda>_. None)) (filter (\<lambda>r. e_tenant r = t) (entitlements s)) \<Longrightarrow>
     tenant_rows t (s\<lparr>entitlements := es\<rparr>) = tenant_rows t s"
  "filter (\<lambda>r. g_tenant r = t) gs = filter (\<lambda>r. g_tenant r = t) (fleet_groups s) \<Longrightarrow>
     tenant_rows t (s\<lparr>fleet_groups := gs\<rparr>) = tenant_rows t s"
  "filter (\<lambda>r. gv_tenant r = t) gvs = filter (\<lambda>r. gv_tenant r = t) (group_vehicles s) \<Longrightarrow>
     tenant_rows t (s\<lparr>group_vehicles := gvs\<rparr>) = tenant_rows t s"
  "filter (\<lambda>r. vm_tenant r = t) vms = filter (\<lambda>r. vm_tenant r = t) (vehicle_memberships s) \<Longrightarrow>
     tenant_rows t (s\<lparr>vehicle_memberships := vms\<rparr>) = tenant_rows t s"
  "filter (\<lambda>r. i_tenant r = t) is' = filter (\<lambda>r. i_tenant r = t) (invitations s) \<Longrightarrow>
     tenant_rows t (s\<lparr>invitations := is'\<rparr>) = tenant_rows t s"
  by (simp_all add: tenant_rows_def)

lemma accounts_frame: "only_accounts s s' \<Longrightarrow> tenant_rows t s' = tenant_rows t s"
  unfolding only_accounts_def by (metis tenant_rows_global(5))

subsection \<open>Members\<close>

lemma put_member_frame:
  "m_tenant r \<noteq> t \<Longrightarrow> filter (\<lambda>r. m_tenant r = t) (put_member r ms) = filter (\<lambda>r. m_tenant r = t) ms"
  unfolding put_member_def by (rule filter_upsert_other) (auto simp: member_key_def member_merge_def)

lemma member_row_tenant: "m_tenant (member_row_for L now u w inp) = u"
  by (simp add: member_row_for_def split: prod.split)

lemma upsertMemberTx_frame:
  "u \<noteq> t \<Longrightarrow> tenant_rows t (fst (upsertMemberTx L flt now s u w inp)) = tenant_rows t s"
  by (simp add: upsertMemberTx_def Let_def tenant_rows_tables put_member_frame member_row_tenant split: prod.split)

lemma Upsert_frame [frames]: "u \<noteq> t \<Longrightarrow> tenant_rows t (fst (Upsert L flt now s u w inp)) = tenant_rows t s"
  using upsertMemberTx_frame [of u t L "\<lambda>n. flt (n + 1)" now s w inp]
  by (auto simp: Upsert_def split: prod.split sum.split)

lemma Remove_frame [frames]: "u \<noteq> t \<Longrightarrow> tenant_rows t (fst (Remove L flt s u w)) = tenant_rows t s"
  by (simp add: Remove_def Let_def tenant_rows_tables filter_del_frame)

lemma TouchLogin_frame [frames]: "u \<noteq> t \<Longrightarrow> tenant_rows t (fst (TouchLogin flt now s u w e)) = tenant_rows t s"
  by (simp add: TouchLogin_def Let_def tenant_rows_tables filter_upd_frame)

subsection \<open>Tenants and credentials\<close>

lemma customer_row_id [simp]: "t_id (customer_row i now n u inp) = i"
  by (simp add: customer_row_def)

lemma tenant_conflict_id: "tenant_exists s (t_id row) \<Longrightarrow> tenant_conflict row (tenants s)"
  by (auto simp: tenant_conflict_def tenant_exists_def list_ex_iff)

lemma CreateCustomer_frame [frames]:
  assumes "u \<noteq> t" "tenant_exists s t"
  shows "tenant_rows t (fst (CreateCustomer flt newid now s u inp a)) = tenant_rows t s"
proof (cases "newid = t")
  case True
  then have "tenant_conflict (customer_row newid now n u inp) (tenants s)" for n
    using assms(2) by (simp add: tenant_conflict_id)
  then show ?thesis by (simp add: CreateCustomer_def Let_def split: option.split)
next
  case False
  with assms(1) show ?thesis by (simp add: CreateCustomer_def Let_def tenant_rows_tables split: option.split)
qed

lemma UpdateTenant_frame [frames]: "u \<noteq> t \<Longrightarrow> tenant_rows t (fst (UpdateTenant flt s u inp)) = tenant_rows t s"
  by (simp add: UpdateTenant_def Let_def tenant_rows_tables filter_upd_frame patch_tenant_def)

lemma CreateSelfServe_frame [frames]:
  assumes "tenant_exists s t"
  shows "tenant_rows t (fst (CreateSelfServe L vc seal flt newid now s inp)) = tenant_rows t s"
proof (cases "newid = t")
  case True
  with assms have "tenant_conflict (self_tenant_row newid now n) (tenants s)" for n
    by (simp add: tenant_conflict_id self_tenant_row_def)
  with True show ?thesis
    by (simp add: CreateSelfServe_def Let_def self_tenant_row_def split: option.split)
next
  case False
  then show ?thesis by (simp add: CreateSelfServe_def Let_def tenant_rows_tables split: option.split)
qed

lemma put_credential_frame:
  "u \<noteq> t \<Longrightarrow> filter (\<lambda>c. c_tenant c = t) (put_credential u i k cs) = filter (\<lambda>c. c_tenant c = t) cs"
  unfolding put_credential_def by (rule filter_upsert_other) auto

lemma SetCredentials_frame [frames]:
  "u \<noteq> t \<Longrightarrow> tenant_rows t (fst (SetCredentials vc seal flt s u i k)) = tenant_rows t s"
  by (simp add: SetCredentials_def Let_def tenant_rows_tables put_credential_frame split: option.split)

lemma SetAAWallet_frame [frames]:
  "u \<noteq> t \<Longrightarrow> tenant_rows t (fst (SetAAWallet L K E cfg d flt nonce s u w k)) = tenant_rows t s"
  by (simp add: SetAAWallet_def Let_def tenant_rows_tables filter_upd_frame split: option.split)

lemma ClearAAWallet_frame [frames]: "u \<noteq> t \<Longrightarrow> tenant_rows t (fst (ClearAAWallet flt s u)) = tenant_rows t s"
  by (simp add: ClearAAWallet_def tenant_rows_tables filter_upd_frame)

subsection \<open>Groups and entitlements\<close>

lemma CreateGroup_frame [frames]: "u \<noteq> t \<Longrightarrow> tenant_rows t (fst (CreateGroup flt now s u n c)) = tenant_rows t s"
  by (simp add: CreateGroup_def Let_def tenant_rows_tables)

lemma UpdateGroup_frame [frames]: "u \<noteq> t \<Longrightarrow> tenant_rows t (fst (UpdateGroup flt now s u g n c)) = tenant_rows t s"
  by (simp add: UpdateGroup_def Let_def tenant_rows_tables filter_upd_frame patch_group_def)

lemma group_row_of_tenant: "group_row_of s u g = Some r \<Longrightarrow> g_tenant r = u"
  by (auto simp: group_row_of_def dest: find_SomeD)

lemma DeleteGroup_frame [frames]: "u \<noteq> t \<Longrightarrow> tenant_rows t (fst (DeleteGroup flt s u g)) = tenant_rows t s"
  by (auto simp: DeleteGroup_def tenant_rows_tables drop_group_def filter_upd_frame filter_del_frame map_filter_upd
      dest: group_row_of_tenant split: option.split)

lemma put_group_vehicle_frame:
  "u \<noteq> t \<Longrightarrow> filter (\<lambda>v. gv_tenant v = t) (fold (put_group_vehicle u g) toks vs) = filter (\<lambda>v. gv_tenant v = t) vs"
  by (induction toks arbitrary: vs) (simp_all add: put_group_vehicle_def Let_def)

lemma AddVehicles_frame [frames]: "u \<noteq> t \<Longrightarrow> tenant_rows t (fst (AddVehicles flt s u g toks)) = tenant_rows t s"
  by (simp add: AddVehicles_def tenant_rows_tables put_group_vehicle_frame split: sum.split)

lemma RemoveVehicle_frame [frames]: "u \<noteq> t \<Longrightarrow> tenant_rows t (fst (RemoveVehicle flt s u g tok)) = tenant_rows t s"
  by (simp add: RemoveVehicle_def tenant_rows_tables filter_del_frame split: sum.split)

lemma put_entitlement_frame:
  "e_tenant r \<noteq> t \<Longrightarrow> filter (\<lambda>e. e_tenant e = t) (put_entitlement r es) = filter (\<lambda>e. e_tenant e = t) es"
  unfolding put_entitlement_def by (rule filter_upsert_other) (auto simp: ent_key_def ent_merge_def)

lemma map_sum_InrE:
  assumes "map_sum id f x = Inr y"
  obtains z where "x = Inr z" "f z = y"
  using assms by (cases x) auto

lemma assign_loop_frame:
  "(\<And>tok. e_tenant (mk tok) \<noteq> t) \<Longrightarrow> assign_loop flt mk gok held u n es toks = Inr (m, es', a, r) \<Longrightarrow>
     filter (\<lambda>e. e_tenant e = t) es' = filter (\<lambda>e. e_tenant e = t) es"
proof (induction toks arbitrary: n es m es' a r)
  case (Cons tok toks)
  let ?F = "filter (\<lambda>e. e_tenant e = t)"
  have p: "?F (put_entitlement (mk tok) es) = ?F es" using Cons.prems(1) by (rule put_entitlement_frame)
  have ih: "?F (fst (snd z)) = ?F es1" if "assign_loop flt mk gok held u n' es1 toks = Inr z" for n' es1 z
    using Cons.IH [OF Cons.prems(1), of n' es1 "fst z" "fst (snd z)" "fst (snd (snd z))" "snd (snd (snd z))"] that by simp
  from Cons.prems(2) show ?case
    by (auto simp: p dest!: ih split: option.splits if_splits prod.splits elim!: map_sum_InrE)
      (use ih p in force)
qed simp

lemma ent_row_tenant: "e_tenant (ent_row_for L now u p g a tok) = u"
  by (simp add: ent_row_for_def)

lemma Assign_frame [frames]:
  assumes "u \<noteq> t"
  shows "tenant_rows t (fst (Assign L flt now s u toks g a)) = tenant_rows t s"
proof -
  have "filter (\<lambda>e. e_tenant e = t) es = filter (\<lambda>e. e_tenant e = t) (entitlements s)"
    if "assign_loop flt (ent_row_for L now u p g a) gok held u n (entitlements s) toks = Inr (m, es, x, r)"
    for p gok held n m es x r
    using assign_loop_frame [OF _ that, of t] assms by (simp add: ent_row_tenant)
  then show ?thesis
    by (auto simp: Assign_def tenant_rows_tables split: option.split sum.split prod.split)
qed

lemma Revoke_frame [frames]: "u \<noteq> t \<Longrightarrow> tenant_rows t (fst (Revoke flt now s u tok)) = tenant_rows t s"
  by (simp add: Revoke_def Let_def tenant_rows_tables filter_upd_frame)

subsection \<open>Vehicle memberships\<close>

text \<open>These two write by primary key, so they need the key to be one.\<close>

lemma unique_id_tenant:
  "unique_on (\<lambda>_. True) k rs \<Longrightarrow> x \<in> set rs \<Longrightarrow> r \<in> set rs \<Longrightarrow> k r = k x \<Longrightarrow> r = x"
  by (erule unique_on_inj) auto

lemma supersede_frame:
  assumes "unique_on (\<lambda>_. True) vm_id vs" and "u \<noteq> t" and "supersedeOrRefuse flt now vs u tok = Inr vs'"
  shows "filter (\<lambda>r. vm_tenant r = t) vs' = filter (\<lambda>r. vm_tenant r = t) vs"
  using assms(3) unfolding supersedeOrRefuse_def
proof (auto split: if_splits option.splits)
  fix live assume "find (live_on u tok) vs = Some live"
  then have "live \<in> set vs" "vm_tenant live = u" by (auto dest!: find_SomeD simp: live_on_def)
  then show "filter (\<lambda>r. vm_tenant r = t) (upd (\<lambda>r. vm_id r = vm_id live) (\<lambda>r. r\<lparr>vm_canceled := Some now\<rparr>) vs) =
      filter (\<lambda>r. vm_tenant r = t) vs"
    using assms(1,2) by (intro filter_upd_row) (auto dest: unique_id_tenant)
qed

lemma vm_inv_ids: "vm_inv s \<Longrightarrow> unique_on (\<lambda>_. True) vm_id (vehicle_memberships s)"
  by (simp add: vm_inv_def vms_ok_def)

lemma CreateMembership_frame [frames]:
  assumes "vm_inv s" and "u \<noteq> t"
  shows "tenant_rows t (fst (CreateMembership L flt newid appnow now s u inp a)) = tenant_rows t s"
  using supersede_frame [OF vm_inv_ids [OF assms(1)] assms(2)] assms(2)
  by (auto simp: CreateMembership_def Let_def tenant_rows_tables vm_row_for_def split: option.split sum.split)

lemma supersede_ids:
  assumes "supersedeOrRefuse flt now vs u tok = Inr vs'"
  shows "map vm_id vs' = map vm_id vs \<and> map vm_tenant vs' = map vm_tenant vs"
  using assms by (auto simp: supersedeOrRefuse_def upd_def split: if_splits option.splits)

lemma MoveMembership_frame [frames]:
  assumes "vm_inv s" and "u \<noteq> t"
  shows "tenant_rows t (fst (MoveMembership L flt now s u mid tok a)) = tenant_rows t s"
proof -
  have "filter (\<lambda>r. vm_tenant r = t) (upd (\<lambda>r. vm_id r = mid) (\<lambda>r. r\<lparr>vm_token := tok\<rparr>) vs) =
      filter (\<lambda>r. vm_tenant r = t) (vehicle_memberships s)"
    if m: "find (\<lambda>r. vm_id r = mid \<and> vm_tenant r = u \<and> vm_canceled r = None) (vehicle_memberships s) = Some m"
      and sup: "supersedeOrRefuse f now (vehicle_memberships s) u tok = Inr vs" for m f vs
  proof -
    have old: "m \<in> set (vehicle_memberships s)" "vm_id m = mid" "vm_tenant m = u" using find_SomeD [OF m] by auto
    have "vm_tenant r = u" if r: "r \<in> set vs" "vm_id r = mid" for r
    proof -
      obtain i where i: "i < length vs" "vs ! i = r" using r(1) by (auto simp: in_set_conv_nth)
      let ?x = "vehicle_memberships s ! i"
      have len: "length vs = length (vehicle_memberships s)" using supersede_ids [OF sup] by (metis length_map)
      then have "vm_id ?x = vm_id r" "vm_tenant ?x = vm_tenant r"
        using supersede_ids [OF sup] i by (metis nth_map)+
      moreover have "?x \<in> set (vehicle_memberships s)" using i len by simp
      ultimately show ?thesis using unique_id_tenant [OF vm_inv_ids [OF assms(1)] old(1), of ?x] old r(2) by simp
    qed
    then have "filter (\<lambda>r. vm_tenant r = t) (upd (\<lambda>r. vm_id r = mid) (\<lambda>r. r\<lparr>vm_token := tok\<rparr>) vs) =
        filter (\<lambda>r. vm_tenant r = t) vs"
      using assms(2) by (intro filter_upd_row) auto
    then show ?thesis using supersede_frame [OF vm_inv_ids [OF assms(1)] assms(2) sup] by simp
  qed
  then show ?thesis
    by (simp add: MoveMembership_def Let_def tenant_rows_tables split: option.split sum.split)
qed

lemma RenewMembership_frame [frames]:
  "u \<noteq> t \<Longrightarrow> tenant_rows t (fst (RenewMembership L flt now s u mid term)) = tenant_rows t s"
  by (simp add: RenewMembership_def Let_def tenant_rows_tables filter_upd_frame renewed_def)

lemma CancelMembership_frame [frames]:
  "u \<noteq> t \<Longrightarrow> tenant_rows t (fst (CancelMembership L flt now s u mid)) = tenant_rows t s"
  by (simp add: CancelMembership_def Let_def tenant_rows_tables filter_upd_frame)

subsection \<open>Invitations\<close>

lemma markEmailSent_frame:
  assumes "\<forall>i\<in>set (invitations s). i_id i = wi_id w \<longrightarrow> i_tenant i \<noteq> t"
  shows "tenant_rows t (fst (markEmailSent flt now s w m)) = tenant_rows t s"
proof -
  have "filter (\<lambda>r. i_tenant r = t) (upd (\<lambda>i. i_id i = wi_id w) f (invitations s)) =
      filter (\<lambda>r. i_tenant r = t) (invitations s)" if "\<And>i. i_tenant (f i) = i_tenant i" for f
    using assms that by (intro filter_upd_row) auto
  then show ?thesis by (simp add: markEmailSent_def tenant_rows_tables)
qed

lemma dispatched_frame:
  "\<forall>i\<in>set (invitations s). i_id i = wi_id w \<longrightarrow> i_tenant i \<noteq> t \<Longrightarrow>
     tenant_rows t (fst (dispatched flt now s w sent)) = tenant_rows t s"
  using markEmailSent_frame [of s w t flt now]
  by (auto simp: dispatched_def split: option.split prod.split) (metis fst_conv)

lemma scanInvitation_ids [simp]: "wi_id (scanInvitation i) = i_id i" "wi_tenant (scanInvitation i) = i_tenant i"
  by (simp_all add: scanInvitation_def)

lemma invite_row_ids [simp]:
  "i_id (invite_row_for L cfg i now u e r h sc inp) = i" "i_tenant (invite_row_for L cfg i now u e r h sc inp) = u"
  "i_token_hash (invite_row_for L cfg i now u e r h sc inp) = h"
  by (simp_all add: invite_row_for_def)

lemma supersede_pending_frame:
  "u \<noteq> t \<Longrightarrow> filter (\<lambda>r. i_tenant r = t) (supersede_pending u e is') = filter (\<lambda>r. i_tenant r = t) is'"
  by (simp add: supersede_pending_def filter_upd_frame)

lemma CreateInvitation_frame [frames]:
  assumes "u \<noteq> t"
  shows "tenant_rows t (fst (CreateInvitation L K cfg post flt newid rnd now s u inp)) = tenant_rows t s"
proof -
  let ?s1 = "\<lambda>e. s\<lparr>invitations := supersede_pending u e (invitations s)\<rparr>"
  have one: "tenant_rows t (?s1 e) = tenant_rows t s" for e
    using assms by (simp add: tenant_rows_tables supersede_pending_frame)
  have two: "tenant_rows t (fst (dispatched f now (s\<lparr>invitations := supersede_pending u e (invitations s) @ [row]\<rparr>)
        (scanInvitation row) sent)) = tenant_rows t s"
    if "\<not> list_ex (\<lambda>i. i_id i = i_id row \<or> i_token_hash i = i_token_hash row) (supersede_pending u e (invitations s))"
      and "i_tenant row = u"
    for f e row sent
    using that assms one
    by (subst dispatched_frame) (auto simp: list_ex_iff tenant_rows_tables supersede_pending_frame)
  show ?thesis
    by (auto simp: CreateInvitation_def Let_def one split: option.split prod.split intro!: two)
qed

lemma RevokeInvitation_frame [frames]:
  "u \<noteq> t \<Longrightarrow> tenant_rows t (fst (RevokeInvitation L flt s u i)) = tenant_rows t s"
  by (simp add: RevokeInvitation_def tenant_rows_tables filter_upd_frame)

lemma invite_inv_ids: "invite_inv s \<Longrightarrow> unique_on (\<lambda>_. True) i_id (invitations s)"
  by (simp add: invite_inv_def invites_ok_def)

lemma refreshed_ids [simp]: "i_id (refreshed cfg now h i) = i_id i" "i_tenant (refreshed cfg now h i) = i_tenant i"
  by (simp_all add: refreshed_def)

lemma ResendInvitation_frame [frames]:
  assumes "invite_inv s" and "u \<noteq> t"
  shows "tenant_rows t (fst (ResendInvitation L K cfg post flt rnd now s u iid actor loc)) = tenant_rows t s"
proof -
  let ?m = "\<lambda>i. i_id i = iid \<and> i_tenant i = u \<and> i_status i = InviteStatusPending"
  have "tenant_rows t (fst (dispatched f now (s\<lparr>invitations := upd ?m (refreshed cfg now h) (invitations s)\<rparr>)
      (scanInvitation (refreshed cfg now h i)) sent)) = tenant_rows t s"
    if i: "find ?m (invitations s) = Some i" for f h i sent
  proof -
    have i': "i \<in> set (invitations s)" "i_id i = iid" "i_tenant i = u" using find_SomeD [OF i] by auto
    have "j \<in> set (invitations s) \<Longrightarrow> i_id j = iid \<Longrightarrow> i_tenant j = u" for j
      using unique_id_tenant [OF invite_inv_ids [OF assms(1)] i'(1), of j] i' by simp
    then have "\<forall>j\<in>set (upd ?m (refreshed cfg now h) (invitations s)). i_id j = iid \<longrightarrow> i_tenant j \<noteq> t"
      using assms(2) by (simp add: ball_upd)
    moreover have "tenant_rows t (s\<lparr>invitations := upd ?m (refreshed cfg now h) (invitations s)\<rparr>) = tenant_rows t s"
      using assms(2) by (simp add: tenant_rows_tables filter_upd_frame)
    ultimately show ?thesis using i' by (simp add: dispatched_frame)
  qed
  then show ?thesis by (simp add: ResendInvitation_def Let_def split: option.split prod.split)
qed

text \<open>An invitation into a tenant the caller is refused is not accepted.\<close>

lemma Accept_frame:
  assumes "invite_inv s" and "authorize t \<noteq> None"
  shows "tenant_rows t (fst (Accept L K authorize flt appnow now s inp)) = tenant_rows t s"
proof -
  have "tenant_rows t (s1\<lparr>invitations := upd (\<lambda>j. i_id j = i_id i) f (invitations s1)\<rparr>) = tenant_rows t s"
    if i: "find (\<lambda>i. i_token_hash i = h) (invitations s) = Some i" and a: "authorize (i_tenant i) = None"
      and u: "upsertMemberTx L fl now s (i_tenant i) w wr = (s1, Inr x)"
      and f: "\<And>j. i_tenant (f j) = i_tenant j"
    for h i fl w wr s1 x f
  proof -
    from a assms(2) have ne: "i_tenant i \<noteq> t" by auto
    have s1: "invitations s1 = invitations s"
      using u by (auto simp: upsertMemberTx_def Let_def split: prod.splits if_splits)
    have "i \<in> set (invitations s)" using find_SomeD [OF i] by simp
    then have "filter (\<lambda>r. i_tenant r = t) (upd (\<lambda>j. i_id j = i_id i) f (invitations s)) =
        filter (\<lambda>r. i_tenant r = t) (invitations s)"
      using ne f by (intro filter_upd_row) (auto dest: unique_id_tenant [OF invite_inv_ids [OF assms(1)]])
    then have "tenant_rows t (s1\<lparr>invitations := upd (\<lambda>j. i_id j = i_id i) f (invitations s1)\<rparr>) = tenant_rows t s1"
      by (simp add: tenant_rows_tables s1)
    also have "\<dots> = tenant_rows t s" using upsertMemberTx_frame [OF ne, of L fl now s w wr] u by simp
    finally show ?thesis .
  qed
  then show ?thesis by (simp add: Accept_def Let_def split: option.split prod.split sum.split)
qed

subsection \<open>Provisioning and sharing\<close>

lemma Provision_frame:
  assumes "Provision V email flt now cache s u inp = (cache', s', accts, r)" and "u \<noteq> t"
  shows "tenant_rows t s' = tenant_rows t s"
proof -
  have "tenant_rows t (record_created V f now s1 u w c) = tenant_rows t s"
    if "Upsert L f2 now s u w2 inp = (s1, r)" for L f f2 s1 w w2 c r
    using accounts_frame [OF record_created_keeps] Upsert_frame [OF assms(2), of L f2 now s w2 inp] that by simp
  moreover have "tenant_rows t s1 = tenant_rows t s" if "Upsert L f2 now s u w2 inp = (s1, r)" for L f2 s1 w2 r
    using Upsert_frame [OF assms(2), of L f2 now s w2 inp] that by simp
  ultimately have "tenant_rows t (fst (snd (Provision V email flt now cache s u inp))) = tenant_rows t s"
    by (simp add: Provision_def Let_def split: prod.split sum.split)
  with assms(1) show ?thesis by simp
qed

text \<open>The frame lemmas over the pair an operation returns.\<close>

lemmas frames_eq = frames [THEN frameD, rotated -1]

end
