(* ===== verification/Http.thy ===== *)
theory Http
  imports Isolation Roster ShareQueue Config
begin

text \<open>
  What the HTTP handlers of \<open>internal/controllers\<close> share: the state a request meets, what an answer
  is, the scope check every tenant-scoped handler begins with, and the translation of service
  errors into status codes. An error answer is its status; the text of its body is left out.
\<close>

subsection \<open>The server and its surroundings\<close>

text \<open>
  The state requests change: the database, the minter cache, the job queue (absent when sharing is
  not configured), and the creations asked of accounts-api.
\<close>

record server =
  hs_db :: db
  hs_cache :: minters
  hs_queue :: "queue option"
  hs_accounts :: "(string \<times> string) list"

text \<open>Third-party services and settings, fixed for the life of the process.\<close>

record http_env =
  he_share :: share_env
  he_settings :: settings
  he_post :: "Invitations.sender"
  he_email :: "access_email option"
  he_dialled :: "chain_reader option"

abbreviation he_env :: "http_env \<Rightarrow> env" where "he_env E \<equiv> sv_env (he_share E)"
abbreviation he_lib :: "http_env \<Rightarrow> library" where "he_lib E \<equiv> ev_lib (he_env E)"
abbreviation he_cry :: "http_env \<Rightarrow> crypto" where "he_cry E \<equiv> ev_cry (he_env E)"
abbreviation he_cfg :: "http_env \<Rightarrow> chain_settings" where "he_cfg E \<equiv> ev_cfg (he_env E)"

text \<open>
  What one request does not decide: which statements of the scope check, of the capability lookup
  and of the service call the driver fails, the two clocks, the id of a new row, randomness, and
  the schedule of concurrent lookups.
\<close>

record chance =
  ch_scope :: faults
  ch_cap :: faults
  ch_flt :: faults
  ch_app :: time
  ch_now :: time
  ch_id :: uuid
  ch_rnd :: "string option"
  ch_nonce :: "string option"
  ch_sched :: schedule

subsection \<open>Answers\<close>

datatype body =
    BNone
  | BAuthz authz_result
  | BTenantRef tenant_ref
  | BWalletTenants "wallet_tenant list"
  | BTenant tenant
  | BTenants "tenant list"
  | BMembers "member list"
  | BEntitlements "entitlement list"
  | BAssigned "token_id list" "rejected_vehicle list"
  | BMembership vehicle_membership
  | BMemberships bool "vehicle_membership list"
  | BActive bool "token_id list"
  | BGroup fleet_group
  | BGroups "fleet_group list"
  | BVehicleGroups "(fleet_group \<times> token_id list) list"
  | BTokens "token_id list"
  | BInvitations "invitation list"
  | BInvitation invitation bool
  | BAccepted invitation
  | BAAWallet aa_status
  | BProvisioned provision_response
  | BToken minted_token
  | BVehicles "vehicle_metadata list"
  | BOwners "string list" "string list" string
  | BJob int
  | BStatus share_status

datatype response = HttpError nat | Reply nat body

fun status :: "response \<Rightarrow> nat" where
  "status (HttpError n) = n"
| "status (Reply n b) = n"

text \<open>The error an \<open>fmt.Errorf\<close> chain ends in, which is what \<open>errors.Is\<close> finds.\<close>

fun root_error :: "svc_error \<Rightarrow> svc_error" where
  "root_error (Wrapped m e) = root_error e"
| "root_error e = e"

lemma errors_is_root: "(\<nexists>m e'. t = Wrapped m e') \<Longrightarrow> errors_is e t \<longleftrightarrow> root_error e = t"
  by (induction e) auto

text \<open>A read: nothing changes, an error is translated, a value is a 200.\<close>

definition answer :: "(svc_error \<Rightarrow> nat) \<Rightarrow> ('a \<Rightarrow> body) \<Rightarrow> svc_error + 'a \<Rightarrow> response" where
  "answer code b r = (case r of Inl e \<Rightarrow> HttpError (code e) | Inr v \<Rightarrow> Reply 200 (b v))"

definition always_500 :: "svc_error \<Rightarrow> nat" where
  "always_500 e = 500"

subsection \<open>The scope check\<close>

text \<open>
  \<open>assertScope\<close> of the members and provisioning controllers, which check the path parameters
  themselves, and of the others, which refuse an empty tenant id first. \<open>None\<close> lets the request in.
\<close>

definition checkScope :: "http_env \<Rightarrow> chance \<Rightarrow> server \<Rightarrow> caller_tenant option \<Rightarrow> uuid \<Rightarrow> nat option" where
  "checkScope E x z caller tenantID =
     (case CallerMayAccess (he_lib E) (ch_scope x) (hs_db z) caller tenantID of
        Inl e \<Rightarrow> Some (if errors_is e ErrInvalidTenantID then 400 else 500)
      | Inr ok \<Rightarrow> if ok then None else Some 403)"

definition assertScope :: "http_env \<Rightarrow> chance \<Rightarrow> server \<Rightarrow> caller_tenant option \<Rightarrow> uuid \<Rightarrow> nat option" where
  "assertScope E x z caller tenantID = (if tenantID = [] then Some 400 else checkScope E x z caller tenantID)"

definition may_access :: "library \<Rightarrow> db \<Rightarrow> caller_tenant option \<Rightarrow> uuid \<Rightarrow> bool" where
  "may_access L s caller t \<longleftrightarrow> CallerMayAccess L no_faults s caller t = Inr True"

lemma CallerMayAccess_allows: "CallerMayAccess L flt s caller t = Inr True \<Longrightarrow> may_access L s caller t"
  by (auto simp: may_access_def CallerMayAccess_def split: option.splits if_splits)

lemma checkScope_None: "checkScope E x z caller t = None \<Longrightarrow> may_access (he_lib E) (hs_db z) caller t"
  by (auto simp: checkScope_def split: sum.splits if_splits intro: CallerMayAccess_allows)

lemma assertScope_None: "assertScope E x z caller t = None \<Longrightarrow> may_access (he_lib E) (hs_db z) caller t"
  by (auto simp: assertScope_def split: if_splits intro: checkScope_None)

lemma checkScope_status: "checkScope E x z caller t = Some n \<Longrightarrow> n \<in> {400, 403, 500}"
  by (auto simp: checkScope_def split: sum.splits if_splits)

lemma assertScope_status: "assertScope E x z caller t = Some n \<Longrightarrow> n \<in> {400, 403, 500}"
  by (auto simp: assertScope_def split: if_splits dest: checkScope_status)

subsection \<open>Statuses\<close>

text \<open>
  The functions below compare the text of an error with the texts a service uses for a caller's
  mistake; \<open>BadRequest\<close> carries that text.
\<close>

definition scope_required :: string where
  "scope_required = ''scopeGroupIds is required (null for unrestricted, [] for no groups)''"

definition isBadRequest :: "svc_error \<Rightarrow> bool" where
  "isBadRequest e \<longleftrightarrow> e \<in> set (map BadRequest [scope_required, ''tenantID and wallet are required'', ''name is required'',
     ''clientId and apiKey are required'', ''ownerWallet is required''])"

definition isInvitationBadRequest :: "svc_error \<Rightarrow> bool" where
  "isInvitationBadRequest e \<longleftrightarrow> e \<in> set (map BadRequest [''email is required'', ''invitedByWallet is required'', scope_required,
     ''one or more group ids do not exist in this tenant'', ''token and wallet are required''])"

definition isProvisionBadRequest :: "svc_error \<Rightarrow> bool" where
  "isProvisionBadRequest e \<longleftrightarrow> e \<in> set (map BadRequest [''email is required'', scope_required])"

text \<open>\<open>TenantsController.mapError\<close>\<close>

definition tenants_mapError :: "svc_error \<Rightarrow> nat" where
  "tenants_mapError e = (if errors_is e ErrTenantNotFound then 403 else 500)"

text \<open>\<open>GroupsController.mapError\<close>\<close>

definition groups_mapError :: "svc_error \<Rightarrow> nat" where
  "groups_mapError e =
     (if errors_is e ErrTenantNotFound then 403
      else if errors_is e ErrGroupNotFound then 404
      else if errors_is e ErrGroupNameTaken then 409
      else case root_error e of ErrInvalidGroupInput _ \<Rightarrow> 400 | _ \<Rightarrow> 500)"

text \<open>\<open>MembershipsController.fail\<close>\<close>

definition memberships_fail :: "svc_error \<Rightarrow> nat" where
  "memberships_fail e =
     (if errors_is e ErrTenantNotFound then 403
      else if errors_is e ErrMembershipNotFound then 404
      else if errors_is e ErrMembershipExists then 409
      else if errors_is e ErrVehicleNotEntitled then 422
      else if errors_is e ErrNotExplicitMode \<or> errors_is e ErrInvalidTerm \<or> errors_is e ErrInvalidStartsAt \<or>
              errors_is e ErrSameVehicle then 400
      else 500)"

text \<open>\<open>ProvisionController.mapError\<close>\<close>

definition provision_mapError :: "svc_error \<Rightarrow> nat" where
  "provision_mapError e =
     (if errors_is e ErrTenantNotFound then 403
      else if errors_is e ErrNoCredential then 409
      else if errors_is e ErrNoSignerAddress then 409
      else if errors_is e ErrUpstream then 502
      else if isProvisionBadRequest e then 400
      else 500)"

text \<open>\<open>SharingController.shareAuthError\<close> and \<open>granteeClientIDError\<close>\<close>

definition shareAuthError :: "svc_error \<Rightarrow> nat" where
  "shareAuthError e =
     (if errors_is e ErrNotEntitled then 403
      else if errors_is e ErrVehicleUnknown then 404
      else if errors_is e ErrSignerNotAuthorized then 403
      else if errors_is e ErrNoSignerKey \<or> errors_is e ErrNoCredential then 409
      else if errors_is e ErrTenantNotFound then 403
      else 502)"

definition granteeClientIDError :: "svc_error \<Rightarrow> nat" where
  "granteeClientIDError e =
     (if errors_is e ErrNoClientID \<or> errors_is e ErrNoCredential then 409
      else if errors_is e ErrTenantNotFound then 403
      else 500)"

end
