(* ===== verification/Controllers.thy ===== *)
theory Controllers
  imports Http
begin

text \<open>
  The handlers of \<open>internal/controllers\<close> over the services, one definition per handler, sharing
  apart (theory \<open>SharingController\<close>). A path or query parameter is the text the router extracted;
  a body is what \<open>BodyParser\<close> made of the request, \<open>None\<close> when it failed; \<open>actor\<close> is the
  \<open>X-Actor-Wallet\<close> header. Every handler takes the caller the middleware resolved.
\<close>

text \<open>What the handlers read of the caller; there is one whenever a scope check has passed.\<close>

definition caller_tenant_id :: "caller_tenant option \<Rightarrow> uuid" where
  "caller_tenant_id caller = (case caller of Some c \<Rightarrow> ct_tenant c | None \<Rightarrow> [])"

definition is_service :: "caller_tenant option \<Rightarrow> bool" where
  "is_service caller = (case caller of Some c \<Rightarrow> ct_is_service c | None \<Rightarrow> False)"

subsection \<open>Authorization and resolution\<close>

definition GetAuthz ::
  "http_env \<Rightarrow> chance \<Rightarrow> server \<Rightarrow> caller_tenant option \<Rightarrow> string \<Rightarrow> string \<Rightarrow> response" where
  "GetAuthz E x z caller wallet tenantID =
     (if wallet = [] \<or> tenantID = [] then HttpError 400
      else case CallerMayAccess (he_lib E) (ch_scope x) (hs_db z) caller tenantID of
        Inl e \<Rightarrow> HttpError (if errors_is e ErrInvalidTenantID then 400 else 500)
      | Inr ok \<Rightarrow>
        if \<not> ok then HttpError 403
        else answer always_500 BAuthz (Authorize (he_lib E) (ch_flt x) (hs_db z) tenantID wallet))"

definition ResolveClientID ::
  "http_env \<Rightarrow> chance \<Rightarrow> server \<Rightarrow> caller_tenant option \<Rightarrow> string \<Rightarrow> response" where
  "ResolveClientID E x z caller clientID =
     (if clientID = [] then HttpError 400
      else case ResolveByClientID (ch_flt x) (hs_db z) clientID of
        Inl e \<Rightarrow> HttpError (if errors_is e ErrTenantNotFound then 404 else 500)
      | Inr ref \<Rightarrow>
        (case CallerMayAccess (he_lib E) (ch_scope x) (hs_db z) caller (tr_tenant ref) of
           Inl _ \<Rightarrow> HttpError 500
         | Inr ok \<Rightarrow> if ok then Reply 200 (BTenantRef ref) else HttpError 403))"

subsection \<open>Members\<close>

definition PutMember ::
  "http_env \<Rightarrow> chance \<Rightarrow> server \<Rightarrow> caller_tenant option \<Rightarrow> uuid \<Rightarrow> string \<Rightarrow> member_write option \<Rightarrow> server \<times> response" where
  "PutMember E x z caller tenantID wallet bdy =
     (if tenantID = [] \<or> wallet = [] then (z, HttpError 400)
      else case bdy of None \<Rightarrow> (z, HttpError 400)
      | Some inp \<Rightarrow>
        (case checkScope E x z caller tenantID of Some c \<Rightarrow> (z, HttpError c)
         | None \<Rightarrow>
           (case Upsert (he_lib E) (ch_flt x) (ch_now x) (hs_db z) tenantID wallet inp of
              (s, Inl e) \<Rightarrow> (z\<lparr>hs_db := s\<rparr>, HttpError (if errors_is e ErrTenantNotFound then 403
                                                else if isBadRequest e then 400 else 500))
            | (s, Inr _) \<Rightarrow> (z\<lparr>hs_db := s\<rparr>, Reply 204 BNone))))"

definition DeleteMember ::
  "http_env \<Rightarrow> chance \<Rightarrow> server \<Rightarrow> caller_tenant option \<Rightarrow> uuid \<Rightarrow> string \<Rightarrow> server \<times> response" where
  "DeleteMember E x z caller tenantID wallet =
     (if tenantID = [] \<or> wallet = [] then (z, HttpError 400)
      else case checkScope E x z caller tenantID of Some c \<Rightarrow> (z, HttpError c)
      | None \<Rightarrow>
        (case Remove (he_lib E) (ch_flt x) (hs_db z) tenantID wallet of
           (s, Inl e) \<Rightarrow> (z\<lparr>hs_db := s\<rparr>, if errors_is e ErrMemberNotFound then Reply 204 BNone else HttpError 500)
         | (s, Inr _) \<Rightarrow> (z\<lparr>hs_db := s\<rparr>, Reply 204 BNone)))"

text \<open>The body only carries an email; one that does not parse carries none.\<close>

definition LoginTouch ::
  "http_env \<Rightarrow> chance \<Rightarrow> server \<Rightarrow> caller_tenant option \<Rightarrow> uuid \<Rightarrow> string \<Rightarrow> string option \<Rightarrow> server \<times> response" where
  "LoginTouch E x z caller tenantID wallet email =
     (if tenantID = [] \<or> wallet = [] then (z, HttpError 400)
      else case checkScope E x z caller tenantID of Some c \<Rightarrow> (z, HttpError c)
      | None \<Rightarrow>
        (case TouchLogin (ch_flt x) (ch_now x) (hs_db z) tenantID wallet (null_str email) of
           (s, Inl e) \<Rightarrow> (z\<lparr>hs_db := s\<rparr>, HttpError 500)
         | (s, Inr found) \<Rightarrow> (z\<lparr>hs_db := s\<rparr>, Reply 204 BNone)))"

subsection \<open>Tenants\<close>

text \<open>Whether a licence mints, and what \<open>EncryptSecret\<close> makes of its key.\<close>

definition mints :: "http_env \<Rightarrow> server \<Rightarrow> string \<Rightarrow> string \<Rightarrow> bool" where
  "mints E z clientID apiKey \<longleftrightarrow>
     snd (ValidateCredential (he_lib E) (he_cry E) (ev_auth (he_env E)) (he_cfg E) (hs_cache z) clientID apiKey) = None"

definition seals :: "http_env \<Rightarrow> chance \<Rightarrow> string \<Rightarrow> string option" where
  "seals E x plain = map_option (\<lambda>n. EncryptSecret (he_cry E) n (TenantSecretEncKey (he_cfg E)) plain) (ch_nonce x)"

definition minted_cache :: "http_env \<Rightarrow> server \<Rightarrow> string \<Rightarrow> string \<Rightarrow> minters" where
  "minted_cache E z clientID apiKey =
     fst (ValidateCredential (he_lib E) (he_cry E) (ev_auth (he_env E)) (he_cfg E) (hs_cache z) clientID apiKey)"

definition CreateSelfServeTenant ::
  "http_env \<Rightarrow> chance \<Rightarrow> server \<Rightarrow> caller_tenant option \<Rightarrow> self_serve_input option \<Rightarrow> server \<times> response" where
  "CreateSelfServeTenant E x z caller bdy =
     (if \<not> is_service caller then (z, HttpError 403)
      else case bdy of None \<Rightarrow> (z, HttpError 400)
      | Some inp \<Rightarrow>
        let cache = (if TrimSpace (ssi_name inp) = [] \<or> ssi_owner_wallet inp = [] then hs_cache z
                     else minted_cache E z (ssi_client_id inp) (ssi_api_key inp)) in
        (case CreateSelfServe (he_lib E) (mints E z) (seals E x) (ch_flt x) (ch_id x) (ch_now x) (hs_db z) inp of
           (s, Inl e) \<Rightarrow> (z\<lparr>hs_db := s, hs_cache := cache\<rparr>,
              HttpError (if errors_is e ErrCredentialInvalid then 400
                         else if errors_is e ErrClientIDRegistered then 409
                         else if isBadRequest e then 400 else 500))
         | (s, Inr t) \<Rightarrow> (z\<lparr>hs_db := s, hs_cache := cache\<rparr>, Reply 201 (BTenant t))))"

definition SetCredentialsHandler ::
  "http_env \<Rightarrow> chance \<Rightarrow> server \<Rightarrow> caller_tenant option \<Rightarrow> uuid \<Rightarrow> (string \<times> string) option \<Rightarrow> server \<times> response" where
  "SetCredentialsHandler E x z caller tenantID bdy =
     (case assertScope E x z caller tenantID of Some c \<Rightarrow> (z, HttpError c)
      | None \<Rightarrow>
        (case bdy of None \<Rightarrow> (z, HttpError 400)
         | Some (clientID, apiKey) \<Rightarrow>
           (case SetCredentials (mints E z) (seals E x) (ch_flt x) (hs_db z) tenantID clientID apiKey of
              (s, Inl e) \<Rightarrow> (z\<lparr>hs_db := s, hs_cache := minted_cache E z clientID apiKey\<rparr>,
                 HttpError (if errors_is e ErrCredentialInvalid then 400
                            else if errors_is e ErrClientIDRegistered then 409
                            else if isBadRequest e then 400 else tenants_mapError e))
            | (s, Inr _) \<Rightarrow> (z\<lparr>hs_db := s, hs_cache := minted_cache E z clientID apiKey\<rparr>, Reply 204 BNone))))"

definition SetAAWalletHandler ::
  "http_env \<Rightarrow> chance \<Rightarrow> server \<Rightarrow> caller_tenant option \<Rightarrow> uuid \<Rightarrow> (string \<times> string) option \<Rightarrow> server \<times> response" where
  "SetAAWalletHandler E x z caller tenantID bdy =
     (case assertScope E x z caller tenantID of Some c \<Rightarrow> (z, HttpError c)
      | None \<Rightarrow>
        (case bdy of None \<Rightarrow> (z, HttpError 400)
         | Some (wallet, key) \<Rightarrow>
           (case SetAAWallet (he_lib E) (he_cry E) (ev_eth (he_env E)) (he_cfg E) (he_dialled E) (ch_flt x) (ch_nonce x)
                   (hs_db z) tenantID wallet key of
              (s, Inl e) \<Rightarrow> (z\<lparr>hs_db := s\<rparr>,
                 HttpError (case root_error e of
                              ErrAAWalletInvalid _ \<Rightarrow> 400
                            | ErrAANotCredentialHolder \<Rightarrow> 409
                            | ErrChainUnavailable _ \<Rightarrow> 503
                            | _ \<Rightarrow> tenants_mapError e))
            | (s, Inr st) \<Rightarrow> (z\<lparr>hs_db := s\<rparr>, Reply 200 (BAAWallet st)))))"

definition GetAAWalletHandler ::
  "http_env \<Rightarrow> chance \<Rightarrow> server \<Rightarrow> caller_tenant option \<Rightarrow> uuid \<Rightarrow> response" where
  "GetAAWalletHandler E x z caller tenantID =
     (case assertScope E x z caller tenantID of Some c \<Rightarrow> HttpError c
      | None \<Rightarrow> answer tenants_mapError BAAWallet (GetAAWallet (ch_flt x) (hs_db z) tenantID))"

definition ClearAAWalletHandler ::
  "http_env \<Rightarrow> chance \<Rightarrow> server \<Rightarrow> caller_tenant option \<Rightarrow> uuid \<Rightarrow> server \<times> response" where
  "ClearAAWalletHandler E x z caller tenantID =
     (case assertScope E x z caller tenantID of Some c \<Rightarrow> (z, HttpError c)
      | None \<Rightarrow>
        (case ClearAAWallet (ch_flt x) (hs_db z) tenantID of
           (s, Some e) \<Rightarrow> (z\<lparr>hs_db := s\<rparr>, HttpError (tenants_mapError e))
         | (s, None) \<Rightarrow> (z\<lparr>hs_db := s\<rparr>, Reply 204 BNone)))"

definition ListWalletTenants ::
  "http_env \<Rightarrow> chance \<Rightarrow> server \<Rightarrow> caller_tenant option \<Rightarrow> string \<Rightarrow> string \<Rightarrow> response" where
  "ListWalletTenants E x z caller wallet surface =
     (if wallet = [] then HttpError 400
      else answer (\<lambda>e. if errors_is e ErrInvalidSurface then 400 else 500) BWalletTenants
             (ListTenantsForWallet (ch_flt x) (hs_db z) caller wallet surface))"

definition ListChildrenHandler ::
  "http_env \<Rightarrow> chance \<Rightarrow> server \<Rightarrow> caller_tenant option \<Rightarrow> uuid \<Rightarrow> response" where
  "ListChildrenHandler E x z caller operatorID =
     (case assertScope E x z caller operatorID of Some c \<Rightarrow> HttpError c
      | None \<Rightarrow> answer always_500 BTenants (ListChildren (ch_flt x) (hs_db z) operatorID))"

definition GetTenantHandler ::
  "http_env \<Rightarrow> chance \<Rightarrow> server \<Rightarrow> caller_tenant option \<Rightarrow> uuid \<Rightarrow> response" where
  "GetTenantHandler E x z caller tenantID =
     (case assertScope E x z caller tenantID of Some c \<Rightarrow> HttpError c
      | None \<Rightarrow> answer tenants_mapError BTenant (GetTenant (ch_flt x) (hs_db z) tenantID))"

definition CreateCustomerHandler ::
  "http_env \<Rightarrow> chance \<Rightarrow> server \<Rightarrow> caller_tenant option \<Rightarrow> uuid \<Rightarrow> create_tenant_input option \<Rightarrow> string \<Rightarrow>
   server \<times> response" where
  "CreateCustomerHandler E x z caller operatorID bdy actor =
     (case bdy of None \<Rightarrow> (z, HttpError 400)
      | Some inp \<Rightarrow>
        (case assertScope E x z caller operatorID of Some c \<Rightarrow> (z, HttpError c)
         | None \<Rightarrow>
           (case CreateCustomer (ch_flt x) (ch_id x) (ch_now x) (hs_db z) operatorID inp actor of
              (s, Inl e) \<Rightarrow> (z\<lparr>hs_db := s\<rparr>, HttpError (if errors_is e ErrNameTaken then 409
                                                else if errors_is e ErrNotAnOperator then 400
                                                else tenants_mapError e))
            | (s, Inr t) \<Rightarrow> (z\<lparr>hs_db := s\<rparr>, Reply 201 (BTenant t)))))"

definition UpdateTenantHandler ::
  "http_env \<Rightarrow> chance \<Rightarrow> server \<Rightarrow> caller_tenant option \<Rightarrow> uuid \<Rightarrow> update_tenant_input option \<Rightarrow> server \<times> response" where
  "UpdateTenantHandler E x z caller tenantID bdy =
     (case bdy of None \<Rightarrow> (z, HttpError 400)
      | Some inp \<Rightarrow>
        (case assertScope E x z caller tenantID of Some c \<Rightarrow> (z, HttpError c)
         | None \<Rightarrow>
           (case UpdateTenant (ch_flt x) (hs_db z) tenantID inp of
              (s, Inl e) \<Rightarrow> (z\<lparr>hs_db := s\<rparr>, HttpError (if errors_is e ErrNameTaken then 409
                                                else if errors_is e ErrInvalidStatus then 400
                                                else tenants_mapError e))
            | (s, Inr t) \<Rightarrow> (z\<lparr>hs_db := s\<rparr>, Reply 200 (BTenant t)))))"

definition ListMembersHandler ::
  "http_env \<Rightarrow> chance \<Rightarrow> server \<Rightarrow> caller_tenant option \<Rightarrow> uuid \<Rightarrow> response" where
  "ListMembersHandler E x z caller tenantID =
     (case assertScope E x z caller tenantID of Some c \<Rightarrow> HttpError c
      | None \<Rightarrow> answer always_500 BMembers (ListMembers (ch_flt x) (hs_db z) tenantID))"

subsection \<open>Vehicle entitlements\<close>

definition ListVehiclesHandler ::
  "http_env \<Rightarrow> chance \<Rightarrow> server \<Rightarrow> caller_tenant option \<Rightarrow> uuid \<Rightarrow> response" where
  "ListVehiclesHandler E x z caller tenantID =
     (case assertScope E x z caller tenantID of Some c \<Rightarrow> HttpError c
      | None \<Rightarrow> answer always_500 BEntitlements (ListEntitlements (ch_flt x) (hs_db z) tenantID))"

text \<open>The body: the vehicles and the group they are copied from.\<close>

definition AssignVehicles ::
  "http_env \<Rightarrow> chance \<Rightarrow> server \<Rightarrow> caller_tenant option \<Rightarrow> uuid \<Rightarrow> (token_id list \<times> string) option \<Rightarrow> string \<Rightarrow> server \<times> response" where
  "AssignVehicles E x z caller tenantID bdy actor =
     (case bdy of None \<Rightarrow> (z, HttpError 400)
      | Some (toks, fromGroup) \<Rightarrow>
        (case assertScope E x z caller tenantID of Some c \<Rightarrow> (z, HttpError c)
         | None \<Rightarrow>
           (case Assign (he_lib E) (ch_flt x) (ch_now x) (hs_db z) tenantID toks fromGroup actor of
              (s, Inl e) \<Rightarrow> (z\<lparr>hs_db := s\<rparr>, HttpError (if errors_is e ErrTenantNotFound then 403
                                           else if errors_is e ErrNotExplicitMode then 400 else 500))
            | (s, Inr (assigned, rejected)) \<Rightarrow> (z\<lparr>hs_db := s\<rparr>, Reply 200 (BAssigned assigned rejected)))))"

definition RevokeVehicle ::
  "http_env \<Rightarrow> chance \<Rightarrow> server \<Rightarrow> caller_tenant option \<Rightarrow> uuid \<Rightarrow> string \<Rightarrow> server \<times> response" where
  "RevokeVehicle E x z caller tenantID token =
     (case ParseInt token of None \<Rightarrow> (z, HttpError 400)
      | Some tokenID \<Rightarrow>
        (case assertScope E x z caller tenantID of Some c \<Rightarrow> (z, HttpError c)
         | None \<Rightarrow>
           (case Revoke (ch_flt x) (ch_now x) (hs_db z) tenantID tokenID of
              (s, Inl e) \<Rightarrow> (z\<lparr>hs_db := s\<rparr>, if errors_is e ErrEntitlementNotFound then Reply 204 BNone else HttpError 500)
            | (s, Inr _) \<Rightarrow> (z\<lparr>hs_db := s\<rparr>, Reply 204 BNone))))"

subsection \<open>Vehicle memberships\<close>

definition ListMembershipsHandler ::
  "http_env \<Rightarrow> chance \<Rightarrow> server \<Rightarrow> caller_tenant option \<Rightarrow> uuid \<Rightarrow> response" where
  "ListMembershipsHandler E x z caller tenantID =
     (case assertScope E x z caller tenantID of Some c \<Rightarrow> HttpError c
      | None \<Rightarrow> answer (\<lambda>e. if errors_is e ErrTenantNotFound then 403 else 500) (\<lambda>(f, ms). BMemberships f ms) (ListMemberships (ch_flt x) (ch_now x) (hs_db z) tenantID))"

definition ActiveMemberships ::
  "http_env \<Rightarrow> chance \<Rightarrow> server \<Rightarrow> caller_tenant option \<Rightarrow> uuid \<Rightarrow> response" where
  "ActiveMemberships E x z caller tenantID =
     (case assertScope E x z caller tenantID of Some c \<Rightarrow> HttpError c
      | None \<Rightarrow> answer (\<lambda>e. if errors_is e ErrTenantNotFound then 403 else 500) (\<lambda>(f, ts). BActive f ts) (ActiveTokenIDs (ch_flt x) (ch_now x) (hs_db z) tenantID))"

definition CreateMembershipHandler ::
  "http_env \<Rightarrow> chance \<Rightarrow> server \<Rightarrow> caller_tenant option \<Rightarrow> uuid \<Rightarrow> create_membership_input option \<Rightarrow> string \<Rightarrow> server \<times> response" where
  "CreateMembershipHandler E x z caller tenantID bdy actor =
     (case bdy of None \<Rightarrow> (z, HttpError 400)
      | Some inp \<Rightarrow>
        (case assertScope E x z caller tenantID of Some c \<Rightarrow> (z, HttpError c)
         | None \<Rightarrow>
           (case CreateMembership (he_lib E) (ch_flt x) (ch_id x) (ch_app x) (ch_now x) (hs_db z) tenantID inp actor of
              (s, Inl e) \<Rightarrow> (z\<lparr>hs_db := s\<rparr>, HttpError (memberships_fail e))
            | (s, Inr m) \<Rightarrow> (z\<lparr>hs_db := s\<rparr>, Reply 201 (BMembership m)))))"

definition MoveMembershipHandler ::
  "http_env \<Rightarrow> chance \<Rightarrow> server \<Rightarrow> caller_tenant option \<Rightarrow> uuid \<Rightarrow> uuid \<Rightarrow> token_id option \<Rightarrow> string \<Rightarrow> server \<times> response" where
  "MoveMembershipHandler E x z caller tenantID membershipID bdy actor =
     (case bdy of None \<Rightarrow> (z, HttpError 400)
      | Some toToken \<Rightarrow>
        (case assertScope E x z caller tenantID of Some c \<Rightarrow> (z, HttpError c)
         | None \<Rightarrow>
           (case MoveMembership (he_lib E) (ch_flt x) (ch_now x) (hs_db z) tenantID membershipID toToken actor of
              (s, Inl e) \<Rightarrow> (z\<lparr>hs_db := s\<rparr>, HttpError (memberships_fail e))
            | (s, Inr m) \<Rightarrow> (z\<lparr>hs_db := s\<rparr>, Reply 200 (BMembership m)))))"

definition RenewMembershipHandler ::
  "http_env \<Rightarrow> chance \<Rightarrow> server \<Rightarrow> caller_tenant option \<Rightarrow> uuid \<Rightarrow> uuid \<Rightarrow> int option \<Rightarrow> server \<times> response" where
  "RenewMembershipHandler E x z caller tenantID membershipID bdy =
     (case bdy of None \<Rightarrow> (z, HttpError 400)
      | Some term \<Rightarrow>
        (case assertScope E x z caller tenantID of Some c \<Rightarrow> (z, HttpError c)
         | None \<Rightarrow>
           (case RenewMembership (he_lib E) (ch_flt x) (ch_now x) (hs_db z) tenantID membershipID term of
              (s, Inl e) \<Rightarrow> (z\<lparr>hs_db := s\<rparr>, HttpError (memberships_fail e))
            | (s, Inr m) \<Rightarrow> (z\<lparr>hs_db := s\<rparr>, Reply 200 (BMembership m)))))"

definition CancelMembershipHandler ::
  "http_env \<Rightarrow> chance \<Rightarrow> server \<Rightarrow> caller_tenant option \<Rightarrow> uuid \<Rightarrow> uuid \<Rightarrow> server \<times> response" where
  "CancelMembershipHandler E x z caller tenantID membershipID =
     (case assertScope E x z caller tenantID of Some c \<Rightarrow> (z, HttpError c)
      | None \<Rightarrow>
        (case CancelMembership (he_lib E) (ch_flt x) (ch_now x) (hs_db z) tenantID membershipID of
           (s, Inl e) \<Rightarrow> (z\<lparr>hs_db := s\<rparr>, if errors_is e ErrMembershipNotFound then Reply 204 BNone else HttpError (memberships_fail e))
         | (s, Inr _) \<Rightarrow> (z\<lparr>hs_db := s\<rparr>, Reply 204 BNone)))"

subsection \<open>Groups\<close>

definition ListGroupsHandler ::
  "http_env \<Rightarrow> chance \<Rightarrow> server \<Rightarrow> caller_tenant option \<Rightarrow> uuid \<Rightarrow> response" where
  "ListGroupsHandler E x z caller tenantID =
     (case assertScope E x z caller tenantID of Some c \<Rightarrow> HttpError c
      | None \<Rightarrow> answer groups_mapError BGroups (ListGroups (ch_flt x) (hs_db z) tenantID))"

definition ListVehicleGroups ::
  "http_env \<Rightarrow> chance \<Rightarrow> server \<Rightarrow> caller_tenant option \<Rightarrow> uuid \<Rightarrow> response" where
  "ListVehicleGroups E x z caller tenantID =
     (case assertScope E x z caller tenantID of Some c \<Rightarrow> HttpError c
      | None \<Rightarrow> answer groups_mapError BVehicleGroups (ListWithVehicles (ch_flt x) (hs_db z) tenantID))"

definition CreateGroupHandler ::
  "http_env \<Rightarrow> chance \<Rightarrow> server \<Rightarrow> caller_tenant option \<Rightarrow> uuid \<Rightarrow> (string \<times> string) option \<Rightarrow> server \<times> response" where
  "CreateGroupHandler E x z caller tenantID bdy =
     (case assertScope E x z caller tenantID of Some c \<Rightarrow> (z, HttpError c)
      | None \<Rightarrow>
        (case bdy of None \<Rightarrow> (z, HttpError 400)
         | Some (name, color) \<Rightarrow>
           (case CreateGroup (ch_flt x) (ch_now x) (hs_db z) tenantID name color of
              (s, Inl e) \<Rightarrow> (z\<lparr>hs_db := s\<rparr>, HttpError (groups_mapError e))
            | (s, Inr g) \<Rightarrow> (z\<lparr>hs_db := s\<rparr>, Reply 201 (BGroup g)))))"

definition UpdateGroupHandler ::
  "http_env \<Rightarrow> chance \<Rightarrow> server \<Rightarrow> caller_tenant option \<Rightarrow> uuid \<Rightarrow> string \<Rightarrow> (string option \<times> string option) option \<Rightarrow> server \<times> response" where
  "UpdateGroupHandler E x z caller tenantID groupID bdy =
     (case assertScope E x z caller tenantID of Some c \<Rightarrow> (z, HttpError c)
      | None \<Rightarrow>
        (case bdy of None \<Rightarrow> (z, HttpError 400)
         | Some (name, color) \<Rightarrow>
           (case UpdateGroup (ch_flt x) (ch_now x) (hs_db z) tenantID groupID name color of
              (s, Inl e) \<Rightarrow> (z\<lparr>hs_db := s\<rparr>, HttpError (groups_mapError e))
            | (s, Inr g) \<Rightarrow> (z\<lparr>hs_db := s\<rparr>, Reply 200 (BGroup g)))))"

definition DeleteGroupHandler ::
  "http_env \<Rightarrow> chance \<Rightarrow> server \<Rightarrow> caller_tenant option \<Rightarrow> uuid \<Rightarrow> string \<Rightarrow> server \<times> response" where
  "DeleteGroupHandler E x z caller tenantID groupID =
     (case assertScope E x z caller tenantID of Some c \<Rightarrow> (z, HttpError c)
      | None \<Rightarrow>
           (case DeleteGroup (ch_flt x) (hs_db z) tenantID groupID of
              (s, Inl e) \<Rightarrow> (z\<lparr>hs_db := s\<rparr>, HttpError (groups_mapError e))
            | (s, Inr _) \<Rightarrow> (z\<lparr>hs_db := s\<rparr>, Reply 204 BNone)))"

definition ListGroupVehiclesHandler ::
  "http_env \<Rightarrow> chance \<Rightarrow> server \<Rightarrow> caller_tenant option \<Rightarrow> uuid \<Rightarrow> string \<Rightarrow> response" where
  "ListGroupVehiclesHandler E x z caller tenantID groupID =
     (case assertScope E x z caller tenantID of Some c \<Rightarrow> HttpError c
      | None \<Rightarrow> answer groups_mapError BTokens (ListGroupVehicles (ch_flt x) (hs_db z) tenantID groupID))"

definition AddGroupVehicles ::
  "http_env \<Rightarrow> chance \<Rightarrow> server \<Rightarrow> caller_tenant option \<Rightarrow> uuid \<Rightarrow> string \<Rightarrow> token_id list option \<Rightarrow> server \<times> response" where
  "AddGroupVehicles E x z caller tenantID groupID bdy =
     (case assertScope E x z caller tenantID of Some c \<Rightarrow> (z, HttpError c)
      | None \<Rightarrow>
        (case bdy of None \<Rightarrow> (z, HttpError 400)
         | Some toks \<Rightarrow>
           (case AddVehicles (ch_flt x) (hs_db z) tenantID groupID toks of
              (s, Inl e) \<Rightarrow> (z\<lparr>hs_db := s\<rparr>, HttpError (groups_mapError e))
            | (s, Inr _) \<Rightarrow> (z\<lparr>hs_db := s\<rparr>, Reply 204 BNone))))"

definition RemoveGroupVehicle ::
  "http_env \<Rightarrow> chance \<Rightarrow> server \<Rightarrow> caller_tenant option \<Rightarrow> uuid \<Rightarrow> string \<Rightarrow> string \<Rightarrow> server \<times> response" where
  "RemoveGroupVehicle E x z caller tenantID groupID token =
     (case assertScope E x z caller tenantID of Some c \<Rightarrow> (z, HttpError c)
      | None \<Rightarrow>
        (case ParseInt token of None \<Rightarrow> (z, HttpError 400)
         | Some tokenID \<Rightarrow>
           (case RemoveVehicle (ch_flt x) (hs_db z) tenantID groupID tokenID of
              (s, Inl e) \<Rightarrow> (z\<lparr>hs_db := s\<rparr>, HttpError (groups_mapError e))
            | (s, Inr _) \<Rightarrow> (z\<lparr>hs_db := s\<rparr>, Reply 204 BNone))))"

subsection \<open>Invitations\<close>

definition ListInvitationsHandler ::
  "http_env \<Rightarrow> chance \<Rightarrow> server \<Rightarrow> caller_tenant option \<Rightarrow> uuid \<Rightarrow> response" where
  "ListInvitationsHandler E x z caller tenantID =
     (case assertScope E x z caller tenantID of Some c \<Rightarrow> HttpError c
      | None \<Rightarrow> answer always_500 BInvitations (ListInvitations (ch_flt x) (hs_db z) tenantID))"

text \<open>The issuing tenant is recorded when the caller is another tenant; the body cannot name one.\<close>

definition CreateInvitationHandler ::
  "http_env \<Rightarrow> chance \<Rightarrow> server \<Rightarrow> caller_tenant option \<Rightarrow> uuid \<Rightarrow> invitation_create option \<Rightarrow> server \<times> response" where
  "CreateInvitationHandler E x z caller tenantID bdy =
     (case bdy of None \<Rightarrow> (z, HttpError 400)
      | Some inp0 \<Rightarrow>
        (case assertScope E x z caller tenantID of Some c \<Rightarrow> (z, HttpError c)
         | None \<Rightarrow>
           let inp = inp0\<lparr>ic_created_by_tenant := (if caller_tenant_id caller \<noteq> tenantID
                                                then caller_tenant_id caller else [])\<rparr> in
           (case CreateInvitation (he_lib E) (he_cry E) (he_settings E) (he_post E) (ch_flt x) (ch_id x) (ch_rnd x) (ch_now x)
                   (hs_db z) tenantID inp of
              (s, InviteFailed e) \<Rightarrow> (z\<lparr>hs_db := s\<rparr>, HttpError (if errors_is e ErrTenantNotFound then 403
                                                    else if isInvitationBadRequest e then 400 else 500))
            | (s, InviteNotSent i) \<Rightarrow> (z\<lparr>hs_db := s\<rparr>, Reply 201 (BInvitation i False))
            | (s, InviteSent i) \<Rightarrow> (z\<lparr>hs_db := s\<rparr>, Reply 201 (BInvitation i True)))))"

definition RevokeInvitationHandler ::
  "http_env \<Rightarrow> chance \<Rightarrow> server \<Rightarrow> caller_tenant option \<Rightarrow> uuid \<Rightarrow> uuid \<Rightarrow> server \<times> response" where
  "RevokeInvitationHandler E x z caller tenantID invitationID =
     (case assertScope E x z caller tenantID of Some c \<Rightarrow> (z, HttpError c)
      | None \<Rightarrow>
        (case RevokeInvitation (he_lib E) (ch_flt x) (hs_db z) tenantID invitationID of
           (s, Inl e) \<Rightarrow> (z\<lparr>hs_db := s\<rparr>, HttpError 500)
         | (s, Inr _) \<Rightarrow> (z\<lparr>hs_db := s\<rparr>, Reply 204 BNone)))"

text \<open>An absent or undecodable body is one with empty fields.\<close>

definition ResendInvitationHandler ::
  "http_env \<Rightarrow> chance \<Rightarrow> server \<Rightarrow> caller_tenant option \<Rightarrow> uuid \<Rightarrow> uuid \<Rightarrow> (string \<times> string) option \<Rightarrow> server \<times> response" where
  "ResendInvitationHandler E x z caller tenantID invitationID bdy =
     (case assertScope E x z caller tenantID of Some c \<Rightarrow> (z, HttpError c)
      | None \<Rightarrow>
        let (actorWallet, locale) = (case bdy of Some b \<Rightarrow> b | None \<Rightarrow> ([], [])) in
        (case ResendInvitation (he_lib E) (he_cry E) (he_settings E) (he_post E) (ch_flt x) (ch_rnd x) (ch_now x) (hs_db z)
                tenantID invitationID actorWallet locale of
           (s, InviteFailed e) \<Rightarrow> (z\<lparr>hs_db := s\<rparr>, HttpError (if errors_is e ErrInviteInvalid then 404 else 500))
         | (s, InviteNotSent i) \<Rightarrow> (z\<lparr>hs_db := s\<rparr>, Reply 200 (BInvitation i False))
         | (s, InviteSent i) \<Rightarrow> (z\<lparr>hs_db := s\<rparr>, Reply 200 (BInvitation i True))))"

text \<open>The token names the tenant; the scope check runs when the service has found it.\<close>

definition AcceptHandler ::
  "http_env \<Rightarrow> chance \<Rightarrow> server \<Rightarrow> caller_tenant option \<Rightarrow> invitation_accept option \<Rightarrow> server \<times> response" where
  "AcceptHandler E x z caller bdy =
     (case bdy of None \<Rightarrow> (z, HttpError 400)
      | Some inp \<Rightarrow>
        if ia_token inp = [] \<or> ia_wallet inp = [] then (z, HttpError 400)
        else case Accept (he_lib E) (he_cry E) (\<lambda>t. map_option FiberError (assertScope E x z caller t))
                    (ch_flt x) (ch_app x) (ch_now x) (hs_db z) inp of
          (s, Inl e) \<Rightarrow> (z\<lparr>hs_db := s\<rparr>, HttpError (case root_error e of
             FiberError c \<Rightarrow> c
           | ErrInviteInvalid \<Rightarrow> 410
           | _ \<Rightarrow> if isInvitationBadRequest e then 400 else 500))
        | (s, Inr i) \<Rightarrow> (z\<lparr>hs_db := s\<rparr>, Reply 200 (BAccepted i)))"

subsection \<open>The roster\<close>

definition maxVehicleMetadataTokens :: nat where
  "maxVehicleMetadataTokens = 5000"

fun dedupe :: "int list \<Rightarrow> int list \<Rightarrow> int list" where
  "dedupe [] seen = []"
| "dedupe (t # ts) seen = (if t \<in> set seen then dedupe ts seen else t # dedupe ts (t # seen))"

definition dedupeTokenIDs :: "int list \<Rightarrow> int list" where
  "dedupeTokenIDs ts = dedupe ts []"

definition VehicleMetadata ::
  "http_env \<Rightarrow> chance \<Rightarrow> server \<Rightarrow> caller_tenant option \<Rightarrow> uuid \<Rightarrow> token_id list option \<Rightarrow> response" where
  "VehicleMetadata E x z caller tenantID bdy =
     (case bdy of None \<Rightarrow> HttpError 400
      | Some toks \<Rightarrow>
        (case assertScope E x z caller tenantID of Some c \<Rightarrow> HttpError c
         | None \<Rightarrow>
           if maxVehicleMetadataTokens < length toks then HttpError 400
           else answer always_500 BVehicles (Metadata (he_lib E) (ch_flt x) (hs_db z) (dedupeTokenIDs toks))))"

subsection \<open>Provisioning and tokens\<close>

text \<open>The granting tenant is the authenticated caller.\<close>

definition ProvisionHandler ::
  "http_env \<Rightarrow> chance \<Rightarrow> server \<Rightarrow> caller_tenant option \<Rightarrow> uuid \<Rightarrow> member_write option \<Rightarrow> server \<times> response" where
  "ProvisionHandler E x z caller tenantID bdy =
     (if tenantID = [] then (z, HttpError 400)
      else case bdy of None \<Rightarrow> (z, HttpError 400)
      | Some inp0 \<Rightarrow>
        (case checkScope E x z caller tenantID of Some c \<Rightarrow> (z, HttpError c)
         | None \<Rightarrow>
           let inp = inp0\<lparr>mw_granted_by_tenant := caller_tenant_id caller\<rparr> in
           (case Provision (he_env E) (he_email E) (ch_flt x) (ch_now x) (hs_cache z) (hs_db z) tenantID inp of
              (cache, s, accts, r) \<Rightarrow>
                (z\<lparr>hs_db := s, hs_cache := cache, hs_accounts := hs_accounts z @ accts\<rparr>,
                 answer provision_mapError BProvisioned r))))"

definition GetDimoToken ::
  "http_env \<Rightarrow> chance \<Rightarrow> server \<Rightarrow> caller_tenant option \<Rightarrow> uuid \<Rightarrow> server \<times> response" where
  "GetDimoToken E x z caller tenantID =
     (if tenantID = [] then (z, HttpError 400)
      else case checkScope E x z caller tenantID of Some c \<Rightarrow> (z, HttpError c)
      | None \<Rightarrow>
        (case DeveloperJWT (he_lib E) (he_cry E) (ev_auth (he_env E)) (he_cfg E) (ch_flt x) (hs_cache z) (hs_db z) tenantID of
           (cache, r) \<Rightarrow> (z\<lparr>hs_cache := cache\<rparr>, answer provision_mapError BToken r)))"

end
