(* ===== verification/SharingController.thy ===== *)
theory SharingController
  imports Http
begin

text \<open>
  The sharing endpoints (\<open>controllers/sharing.go\<close>, \<open>controllers/shared_ops.go\<close>): a share, a
  revocation or a typed operation is checked synchronously, then queued for the workers of theory
  \<open>Sharing\<close>, which check again. Job arguments carry the grantee in its canonical casing.
\<close>

definition maxShareableOwners :: nat where
  "maxShareableOwners = 200"

record share_input =
  si_grantee :: string
  si_days :: int
  si_wallet :: string

record shared_op_input =
  oi_op :: string
  oi_target :: string
  oi_synthetic :: token_id
  oi_actor :: string

text \<open>The acting member must hold \<open>manage_vehicles\<close>. \<open>None\<close> lets the request go on.\<close>

definition assertCapability :: "http_env \<Rightarrow> chance \<Rightarrow> server \<Rightarrow> uuid \<Rightarrow> string \<Rightarrow> nat option" where
  "assertCapability E x z tenantID wallet =
     (if wallet = [] then Some 400
      else case Authorize (he_lib E) (ch_cap x) (hs_db z) tenantID wallet of
        Inl _ \<Rightarrow> Some 500
      | Inr res \<Rightarrow> if list_ex (\<lambda>p. p = CapManageVehicles) (ar_perms res) then None else Some 403)"

definition queue_status :: "svc_error \<Rightarrow> nat" where
  "queue_status e = (if errors_is e ErrQueueUnavailable then 503 else 500)"

text \<open>Queueing a job: 202 and its id.\<close>

definition enqueue :: "chance \<Rightarrow> server \<Rightarrow> job \<Rightarrow> server \<times> response" where
  "enqueue x z j =
     (case Enqueue (ch_flt x) (hs_queue z) j of
        (q, Inl e) \<Rightarrow> (z\<lparr>hs_queue := q\<rparr>, HttpError (queue_status e))
      | (q, Inr i) \<Rightarrow> (z\<lparr>hs_queue := q\<rparr>, Reply 202 (BJob i)))"

text \<open>\<open>AuthorizeShare\<close> at request time; the statements of \<open>ch_flt\<close> after the first belong to it.\<close>

definition authorize_share ::
  "http_env \<Rightarrow> chance \<Rightarrow> server \<Rightarrow> uuid \<Rightarrow> token_id \<Rightarrow> server \<times> (nat + string \<times> string \<times> bool)" where
  "authorize_share E x z tenantID tokenID =
     (case AuthorizeShare (he_share E) (\<lambda>n. ch_flt x (n + 1)) (ch_sched x) (ch_now x) (hs_cache z) (hs_db z) tenantID tokenID of
        (cache, s, r) \<Rightarrow> (z\<lparr>hs_cache := cache, hs_db := s\<rparr>, (case r of Inl e \<Rightarrow> Inl (shareAuthError e) | Inr v \<Rightarrow> Inr v)))"

definition ShareVehicle ::
  "http_env \<Rightarrow> chance \<Rightarrow> server \<Rightarrow> caller_tenant option \<Rightarrow> uuid \<Rightarrow> string \<Rightarrow> share_input option \<Rightarrow> server \<times> response" where
  "ShareVehicle E x z caller tenantID token bdy =
     (case ParseInt token of None \<Rightarrow> (z, HttpError 400)
      | Some tokenID \<Rightarrow>
        (case bdy of None \<Rightarrow> (z, HttpError 400)
         | Some inp \<Rightarrow>
           (case assertScope E x z caller tenantID of Some c \<Rightarrow> (z, HttpError c)
            | None \<Rightarrow>
              if si_days inp < 0 then (z, HttpError 400)
              else if ValidateGrantee (he_lib E) (si_grantee inp) (zero_address (he_lib E)) \<noteq> None then (z, HttpError 400)
              else (case assertCapability E x z tenantID (si_wallet inp) of Some c \<Rightarrow> (z, HttpError c)
              | None \<Rightarrow>
                (case authorize_share E x z tenantID tokenID of
                   (z', Inl c) \<Rightarrow> (z', HttpError c)
                 | (z', Inr (owner, _, _)) \<Rightarrow>
                   if ValidateGrantee (he_lib E) (si_grantee inp) owner \<noteq> None then (z', HttpError 400)
                   else enqueue x z' (JShare \<lparr>sh_tenant = tenantID, sh_token = tokenID,
                          sh_grantee = HexAddr (he_lib E) (si_grantee inp), sh_days = si_days inp, sh_actor = si_wallet inp\<rparr>))))))"

definition RevokeShare ::
  "http_env \<Rightarrow> chance \<Rightarrow> server \<Rightarrow> caller_tenant option \<Rightarrow> uuid \<Rightarrow> string \<Rightarrow> string \<Rightarrow> string \<Rightarrow> server \<times> response" where
  "RevokeShare E x z caller tenantID token grantee wallet =
     (case ParseInt token of None \<Rightarrow> (z, HttpError 400)
      | Some tokenID \<Rightarrow>
        (case assertScope E x z caller tenantID of Some c \<Rightarrow> (z, HttpError c)
         | None \<Rightarrow>
           if \<not> IsHexAddress (he_lib E) grantee then (z, HttpError 400)
           else if HexAddr (he_lib E) grantee = zero_address (he_lib E) then (z, HttpError 400)
           else (case assertCapability E x z tenantID wallet of Some c \<Rightarrow> (z, HttpError c)
           | None \<Rightarrow>
             (case authorize_share E x z tenantID tokenID of
                (z', Inl c) \<Rightarrow> (z', HttpError c)
              | (z', Inr _) \<Rightarrow>
                enqueue x z' (JRevoke \<lparr>sh_tenant = tenantID, sh_token = tokenID,
                  sh_grantee = HexAddr (he_lib E) grantee, sh_days = 0, sh_actor = wallet\<rparr>)))))"

definition status_code :: "svc_error \<Rightarrow> nat" where
  "status_code e = (if errors_is e ErrJobNotFound then 404 else if errors_is e ErrQueueUnavailable then 503 else 500)"

definition ShareStatus ::
  "http_env \<Rightarrow> chance \<Rightarrow> server \<Rightarrow> caller_tenant option \<Rightarrow> uuid \<Rightarrow> string \<Rightarrow> response" where
  "ShareStatus E x z caller tenantID jobId =
     (case ParseInt jobId of None \<Rightarrow> HttpError 400
      | Some jobID \<Rightarrow>
        (case assertScope E x z caller tenantID of Some c \<Rightarrow> HttpError c
         | None \<Rightarrow> answer status_code BStatus (Status (ch_flt x) (hs_queue z) tenantID jobID)))"

definition SharedOperation ::
  "http_env \<Rightarrow> chance \<Rightarrow> server \<Rightarrow> caller_tenant option \<Rightarrow> uuid \<Rightarrow> string \<Rightarrow> shared_op_input option \<Rightarrow> server \<times> response" where
  "SharedOperation E x z caller tenantID token bdy =
     (case ParseInt token of None \<Rightarrow> (z, HttpError 400)
      | Some tokenID \<Rightarrow>
        (case bdy of None \<Rightarrow> (z, HttpError 400)
         | Some inp \<Rightarrow>
           (case assertScope E x z caller tenantID of Some c \<Rightarrow> (z, HttpError c)
            | None \<Rightarrow>
              let args = \<lparr>so_tenant = tenantID, so_token = tokenID, so_op = oi_op inp, so_target = oi_target inp,
                          so_synthetic = oi_synthetic inp, so_actor = oi_actor inp\<rparr> in
              if op_Validate (he_lib E) args \<noteq> None then (z, HttpError 400)
              else (case authorize_share E x z tenantID tokenID of
                (z', Inl c) \<Rightarrow> (z', HttpError c)
              | (z', Inr (owner, _, ownerMode)) \<Rightarrow>
                if ownerMode then (z', HttpError 409)
                else (case parse_op (so_op args) of
                  Some OpTransferVehicle \<Rightarrow>
                    if HexAddr (he_lib E) (so_target args) = owner then (z', HttpError 400) else enqueue x z' (JOp args)
                | Some OpGrantSacd \<Rightarrow>
                    (case GranteeClientID (he_lib E) (ch_cap x) (hs_db z') tenantID of
                       Inl e \<Rightarrow> (z', HttpError (granteeClientIDError e))
                     | Inr _ \<Rightarrow> enqueue x z' (JOp args))
                | _ \<Rightarrow> enqueue x z' (JOp args))))))"

definition SharedOperationStatus ::
  "http_env \<Rightarrow> chance \<Rightarrow> server \<Rightarrow> caller_tenant option \<Rightarrow> uuid \<Rightarrow> string \<Rightarrow> response" where
  "SharedOperationStatus E x z caller tenantID jobId =
     (case ParseInt jobId of None \<Rightarrow> HttpError 400
      | Some jobID \<Rightarrow>
        (case assertScope E x z caller tenantID of Some c \<Rightarrow> HttpError c
         | None \<Rightarrow> answer status_code BStatus (SharedOpStatus (ch_flt x) (hs_queue z) tenantID jobID)))"

definition ShareableOwners ::
  "http_env \<Rightarrow> chance \<Rightarrow> server \<Rightarrow> caller_tenant option \<Rightarrow> uuid \<Rightarrow> string list option \<Rightarrow> server \<times> response" where
  "ShareableOwners E x z caller tenantID bdy =
     (case bdy of None \<Rightarrow> (z, HttpError 400)
      | Some owners \<Rightarrow>
        (case assertScope E x z caller tenantID of Some c \<Rightarrow> (z, HttpError c)
         | None \<Rightarrow>
           if maxShareableOwners < length owners then (z, HttpError 400)
           else if owners = [] then (z, Reply 200 (BOwners [] [] []))
           else (case FilterSignable (he_env E) (ch_flt x) (ch_sched x) (ch_now x) (hs_cache z) (hs_db z) tenantID owners of
             (cache, s, Inl e) \<Rightarrow> (z\<lparr>hs_cache := cache, hs_db := s\<rparr>, HttpError (if errors_is e ErrNoCredential then 409 else 502))
           | (cache, s, Inr (mine, unresolved, wallet)) \<Rightarrow>
               (z\<lparr>hs_cache := cache, hs_db := s\<rparr>, Reply 200 (BOwners mine unresolved wallet)))))"

end
