(* ===== verification/Routes.thy ===== *)
theory Routes
  imports Controllers SharingController
begin

text \<open>
  The \<open>/v1\<close> surface as \<open>app/app.go\<close> wires it: the gates of theory \<open>Config\<close> in front of the route
  table. The router that matches a path and extracts its parameters, and the verification of the
  token, are third-party code; a request is the route it matched with its parameters, one
  datatype per controller.
\<close>

subsection \<open>The route table\<close>

datatype authz_request =
    QAuthz string string
  | QResolve string
  | QWalletTenants string string

datatype member_request =
    QPutMember uuid string "member_write option"
  | QDeleteMember uuid string
  | QLoginTouch uuid string "string option"
  | QProvision uuid "member_write option"
  | QDimoToken uuid

datatype tenant_request =
    QListChildren uuid
  | QCreateCustomer uuid "create_tenant_input option" string
  | QCreateSelfServe "self_serve_input option"
  | QGetTenant uuid
  | QUpdateTenant uuid "update_tenant_input option"
  | QSetCredentials uuid "(string \<times> string) option"
  | QSetAAWallet uuid "(string \<times> string) option"
  | QGetAAWallet uuid
  | QClearAAWallet uuid
  | QListMembers uuid

datatype vehicle_request =
    QListVehicles uuid
  | QAssignVehicles uuid "(token_id list \<times> string) option" string
  | QRevokeVehicle uuid string
  | QListMemberships uuid
  | QActiveMemberships uuid
  | QCreateMembership uuid "create_membership_input option" string
  | QMoveMembership uuid uuid "token_id option" string
  | QRenewMembership uuid uuid "int option"
  | QCancelMembership uuid uuid
  | QVehicleMetadata uuid "token_id list option"

datatype invitation_request =
    QListInvitations uuid
  | QCreateInvitation uuid "invitation_create option"
  | QRevokeInvitation uuid uuid
  | QResendInvitation uuid uuid "(string \<times> string) option"
  | QAcceptInvitation "invitation_accept option"

datatype sharing_request =
    QShareableOwners uuid "string list option"
  | QShareVehicle uuid string "share_input option"
  | QShareStatus uuid string
  | QRevokeShare uuid string string string
  | QSharedOperation uuid string "shared_op_input option"
  | QSharedOpStatus uuid string

datatype group_request =
    QListGroups uuid
  | QListVehicleGroups uuid
  | QCreateGroup uuid "(string \<times> string) option"
  | QUpdateGroup uuid string "(string option \<times> string option) option"
  | QDeleteGroup uuid string
  | QListGroupVehicles uuid string
  | QAddGroupVehicles uuid string "token_id list option"
  | QRemoveGroupVehicle uuid string string

fun authz_route :: "http_env \<Rightarrow> chance \<Rightarrow> server \<Rightarrow> caller_tenant option \<Rightarrow> authz_request \<Rightarrow> server \<times> response" where
  "authz_route E x z caller (QAuthz a b) = (z, GetAuthz E x z caller a b)"
| "authz_route E x z caller (QResolve a) = (z, ResolveClientID E x z caller a)"
| "authz_route E x z caller (QWalletTenants a b) = (z, ListWalletTenants E x z caller a b)"

fun member_route :: "http_env \<Rightarrow> chance \<Rightarrow> server \<Rightarrow> caller_tenant option \<Rightarrow> member_request \<Rightarrow> server \<times> response" where
  "member_route E x z caller (QPutMember a b c) = PutMember E x z caller a b c"
| "member_route E x z caller (QDeleteMember a b) = DeleteMember E x z caller a b"
| "member_route E x z caller (QLoginTouch a b c) = LoginTouch E x z caller a b c"
| "member_route E x z caller (QProvision a b) = ProvisionHandler E x z caller a b"
| "member_route E x z caller (QDimoToken a) = GetDimoToken E x z caller a"

fun tenant_route :: "http_env \<Rightarrow> chance \<Rightarrow> server \<Rightarrow> caller_tenant option \<Rightarrow> tenant_request \<Rightarrow> server \<times> response" where
  "tenant_route E x z caller (QListChildren a) = (z, ListChildrenHandler E x z caller a)"
| "tenant_route E x z caller (QCreateCustomer a b c) = CreateCustomerHandler E x z caller a b c"
| "tenant_route E x z caller (QCreateSelfServe a) = CreateSelfServeTenant E x z caller a"
| "tenant_route E x z caller (QGetTenant a) = (z, GetTenantHandler E x z caller a)"
| "tenant_route E x z caller (QUpdateTenant a b) = UpdateTenantHandler E x z caller a b"
| "tenant_route E x z caller (QSetCredentials a b) = SetCredentialsHandler E x z caller a b"
| "tenant_route E x z caller (QSetAAWallet a b) = SetAAWalletHandler E x z caller a b"
| "tenant_route E x z caller (QGetAAWallet a) = (z, GetAAWalletHandler E x z caller a)"
| "tenant_route E x z caller (QClearAAWallet a) = ClearAAWalletHandler E x z caller a"
| "tenant_route E x z caller (QListMembers a) = (z, ListMembersHandler E x z caller a)"

fun vehicle_route :: "http_env \<Rightarrow> chance \<Rightarrow> server \<Rightarrow> caller_tenant option \<Rightarrow> vehicle_request \<Rightarrow> server \<times> response" where
  "vehicle_route E x z caller (QListVehicles a) = (z, ListVehiclesHandler E x z caller a)"
| "vehicle_route E x z caller (QAssignVehicles a b c) = AssignVehicles E x z caller a b c"
| "vehicle_route E x z caller (QRevokeVehicle a b) = RevokeVehicle E x z caller a b"
| "vehicle_route E x z caller (QListMemberships a) = (z, ListMembershipsHandler E x z caller a)"
| "vehicle_route E x z caller (QActiveMemberships a) = (z, ActiveMemberships E x z caller a)"
| "vehicle_route E x z caller (QCreateMembership a b c) = CreateMembershipHandler E x z caller a b c"
| "vehicle_route E x z caller (QMoveMembership a b c d) = MoveMembershipHandler E x z caller a b c d"
| "vehicle_route E x z caller (QRenewMembership a b c) = RenewMembershipHandler E x z caller a b c"
| "vehicle_route E x z caller (QCancelMembership a b) = CancelMembershipHandler E x z caller a b"
| "vehicle_route E x z caller (QVehicleMetadata a b) = (z, VehicleMetadata E x z caller a b)"

fun invitation_route :: "http_env \<Rightarrow> chance \<Rightarrow> server \<Rightarrow> caller_tenant option \<Rightarrow> invitation_request \<Rightarrow> server \<times> response" where
  "invitation_route E x z caller (QListInvitations a) = (z, ListInvitationsHandler E x z caller a)"
| "invitation_route E x z caller (QCreateInvitation a b) = CreateInvitationHandler E x z caller a b"
| "invitation_route E x z caller (QRevokeInvitation a b) = RevokeInvitationHandler E x z caller a b"
| "invitation_route E x z caller (QResendInvitation a b c) = ResendInvitationHandler E x z caller a b c"
| "invitation_route E x z caller (QAcceptInvitation a) = AcceptHandler E x z caller a"

fun sharing_route :: "http_env \<Rightarrow> chance \<Rightarrow> server \<Rightarrow> caller_tenant option \<Rightarrow> sharing_request \<Rightarrow> server \<times> response" where
  "sharing_route E x z caller (QShareableOwners a b) = ShareableOwners E x z caller a b"
| "sharing_route E x z caller (QShareVehicle a b c) = ShareVehicle E x z caller a b c"
| "sharing_route E x z caller (QShareStatus a b) = (z, ShareStatus E x z caller a b)"
| "sharing_route E x z caller (QRevokeShare a b c d) = RevokeShare E x z caller a b c d"
| "sharing_route E x z caller (QSharedOperation a b c) = SharedOperation E x z caller a b c"
| "sharing_route E x z caller (QSharedOpStatus a b) = (z, SharedOperationStatus E x z caller a b)"

fun group_route :: "http_env \<Rightarrow> chance \<Rightarrow> server \<Rightarrow> caller_tenant option \<Rightarrow> group_request \<Rightarrow> server \<times> response" where
  "group_route E x z caller (QListGroups a) = (z, ListGroupsHandler E x z caller a)"
| "group_route E x z caller (QListVehicleGroups a) = (z, ListVehicleGroups E x z caller a)"
| "group_route E x z caller (QCreateGroup a b) = CreateGroupHandler E x z caller a b"
| "group_route E x z caller (QUpdateGroup a b c) = UpdateGroupHandler E x z caller a b c"
| "group_route E x z caller (QDeleteGroup a b) = DeleteGroupHandler E x z caller a b"
| "group_route E x z caller (QListGroupVehicles a b) = (z, ListGroupVehiclesHandler E x z caller a b)"
| "group_route E x z caller (QAddGroupVehicles a b c) = AddGroupVehicles E x z caller a b c"
| "group_route E x z caller (QRemoveGroupVehicle a b c) = RemoveGroupVehicle E x z caller a b c"

datatype request =
    OnAuthz authz_request
  | OnMembers member_request
  | OnTenants tenant_request
  | OnVehicles vehicle_request
  | OnInvitations invitation_request
  | OnSharing sharing_request
  | OnGroups group_request

fun v1_route :: "http_env \<Rightarrow> chance \<Rightarrow> server \<Rightarrow> caller_tenant option \<Rightarrow> request \<Rightarrow> server \<times> response" where
  "v1_route E x z caller (OnAuthz q) = authz_route E x z caller q"
| "v1_route E x z caller (OnMembers q) = member_route E x z caller q"
| "v1_route E x z caller (OnTenants q) = tenant_route E x z caller q"
| "v1_route E x z caller (OnVehicles q) = vehicle_route E x z caller q"
| "v1_route E x z caller (OnInvitations q) = invitation_route E x z caller q"
| "v1_route E x z caller (OnSharing q) = sharing_route E x z caller q"
| "v1_route E x z caller (OnGroups q) = group_route E x z caller q"

text \<open>The tenant a path, or the authorization question, is about.\<close>

fun authz_subject :: "authz_request \<Rightarrow> uuid option" where
  "authz_subject (QAuthz _ b) = Some b"
| "authz_subject (QResolve _) = None"
| "authz_subject (QWalletTenants _ _) = None"

fun member_subject :: "member_request \<Rightarrow> uuid option" where
  "member_subject (QPutMember a _ _) = Some a"
| "member_subject (QDeleteMember a _) = Some a"
| "member_subject (QLoginTouch a _ _) = Some a"
| "member_subject (QProvision a _) = Some a"
| "member_subject (QDimoToken a) = Some a"

fun tenant_subject :: "tenant_request \<Rightarrow> uuid option" where
  "tenant_subject (QListChildren a) = Some a"
| "tenant_subject (QCreateCustomer a _ _) = Some a"
| "tenant_subject (QCreateSelfServe _) = None"
| "tenant_subject (QGetTenant a) = Some a"
| "tenant_subject (QUpdateTenant a _) = Some a"
| "tenant_subject (QSetCredentials a _) = Some a"
| "tenant_subject (QSetAAWallet a _) = Some a"
| "tenant_subject (QGetAAWallet a) = Some a"
| "tenant_subject (QClearAAWallet a) = Some a"
| "tenant_subject (QListMembers a) = Some a"

fun vehicle_subject :: "vehicle_request \<Rightarrow> uuid option" where
  "vehicle_subject (QListVehicles a) = Some a"
| "vehicle_subject (QAssignVehicles a _ _) = Some a"
| "vehicle_subject (QRevokeVehicle a _) = Some a"
| "vehicle_subject (QListMemberships a) = Some a"
| "vehicle_subject (QActiveMemberships a) = Some a"
| "vehicle_subject (QCreateMembership a _ _) = Some a"
| "vehicle_subject (QMoveMembership a _ _ _) = Some a"
| "vehicle_subject (QRenewMembership a _ _) = Some a"
| "vehicle_subject (QCancelMembership a _) = Some a"
| "vehicle_subject (QVehicleMetadata a _) = Some a"

fun invitation_subject :: "invitation_request \<Rightarrow> uuid option" where
  "invitation_subject (QListInvitations a) = Some a"
| "invitation_subject (QCreateInvitation a _) = Some a"
| "invitation_subject (QRevokeInvitation a _) = Some a"
| "invitation_subject (QResendInvitation a _ _) = Some a"
| "invitation_subject (QAcceptInvitation _) = None"

fun sharing_subject :: "sharing_request \<Rightarrow> uuid option" where
  "sharing_subject (QShareableOwners a _) = Some a"
| "sharing_subject (QShareVehicle a _ _) = Some a"
| "sharing_subject (QShareStatus a _) = Some a"
| "sharing_subject (QRevokeShare a _ _ _) = Some a"
| "sharing_subject (QSharedOperation a _ _) = Some a"
| "sharing_subject (QSharedOpStatus a _) = Some a"

fun group_subject :: "group_request \<Rightarrow> uuid option" where
  "group_subject (QListGroups a) = Some a"
| "group_subject (QListVehicleGroups a) = Some a"
| "group_subject (QCreateGroup a _) = Some a"
| "group_subject (QUpdateGroup a _ _) = Some a"
| "group_subject (QDeleteGroup a _) = Some a"
| "group_subject (QListGroupVehicles a _) = Some a"
| "group_subject (QAddGroupVehicles a _ _) = Some a"
| "group_subject (QRemoveGroupVehicle a _ _) = Some a"

fun subject :: "request \<Rightarrow> uuid option" where
  "subject (OnAuthz q) = authz_subject q"
| "subject (OnMembers q) = member_subject q"
| "subject (OnTenants q) = tenant_subject q"
| "subject (OnVehicles q) = vehicle_subject q"
| "subject (OnInvitations q) = invitation_subject q"
| "subject (OnSharing q) = sharing_subject q"
| "subject (OnGroups q) = group_subject q"

text \<open>
  A request with what it presents: the trusted-caller key and the claim of its token, \<open>None\<close> when
  the token does not verify. The statement of the licence lookup is numbered by \<open>gate\<close>.
\<close>

definition serve ::
  "http_env \<Rightarrow> (string \<times> string) list \<Rightarrow> faults \<Rightarrow> chance \<Rightarrow> server \<Rightarrow> string \<Rightarrow> string option \<Rightarrow> request \<Rightarrow> server \<times> response" where
  "serve E keys gate x z key claim req =
     (case v1_gate keys gate (hs_db z) key claim of
        Inl c \<Rightarrow> (z, HttpError c)
      | Inr caller \<Rightarrow> v1_route E x z (Some caller) req)"

end
