(* ===== verification/FrontDoor.thy ===== *)
theory FrontDoor
  imports Routes
begin

text \<open>
  What a request can and cannot do through the \<open>/v1\<close> surface: it reaches only tenants its caller
  may access, a refusal changes nothing, and a share is queued only when every check passed.
\<close>

subsection \<open>Confinement\<close>

definition jobs_of :: "server \<Rightarrow> job_row list" where
  "jobs_of z = (case hs_queue z of None \<Rightarrow> [] | Some q \<Rightarrow> q_jobs q)"

text \<open>Tenant \<open>t\<close> keeps its rows, and every job queued since is another tenant's.\<close>

definition confined :: "uuid \<Rightarrow> server \<Rightarrow> server \<Rightarrow> bool" where
  "confined t z z' \<longleftrightarrow> tenant_rows t (hs_db z') = tenant_rows t (hs_db z) \<and>
     (\<exists>js. jobs_of z' = jobs_of z @ js \<and> (\<forall>r\<in>set js. \<exists>i j. r = new_row i j \<and> job_tenant j \<noteq> t))"

lemma confined_db:
  "tenant_rows t (hs_db z') = tenant_rows t (hs_db z) \<Longrightarrow> hs_queue z' = hs_queue z \<Longrightarrow> confined t z z'"
  by (simp add: confined_def jobs_of_def)

lemma confined_refl [simp]: "confined t z z"
  by (rule confined_db) simp_all

lemma confined_trans: "confined t z z' \<Longrightarrow> confined t z' z'' \<Longrightarrow> confined t z z''"
  unfolding confined_def by (metis append.assoc in_set_conv_decomp set_append Un_iff)

text \<open>The hypothesis of the frame lemmas, from a scope check that let the request in.\<close>

lemma scope_other:
  "\<not> may_access (he_lib E) (hs_db z) caller t \<Longrightarrow> assertScope E x z caller u = None \<Longrightarrow> u \<noteq> t"
  "\<not> may_access (he_lib E) (hs_db z) caller t \<Longrightarrow> checkScope E x z caller u = None \<Longrightarrow> u \<noteq> t"
  by (auto dest: assertScope_None checkScope_None)

lemmas member_handlers = PutMember_def DeleteMember_def LoginTouch_def ProvisionHandler_def GetDimoToken_def
lemmas tenant_handlers = CreateCustomerHandler_def CreateSelfServeTenant_def UpdateTenantHandler_def SetCredentialsHandler_def
  SetAAWalletHandler_def ClearAAWalletHandler_def
lemmas vehicle_handlers = AssignVehicles_def RevokeVehicle_def CreateMembershipHandler_def MoveMembershipHandler_def
  RenewMembershipHandler_def CancelMembershipHandler_def
lemmas invitation_handlers = CreateInvitationHandler_def RevokeInvitationHandler_def ResendInvitationHandler_def
  AcceptHandler_def
lemmas group_handlers = CreateGroupHandler_def UpdateGroupHandler_def DeleteGroupHandler_def AddGroupVehicles_def
  RemoveGroupVehicle_def

lemmas sharing_handlers = ShareableOwners_def ShareVehicle_def RevokeShare_def SharedOperation_def

lemma member_route_confined:
  assumes "\<not> may_access (he_lib E) (hs_db z) caller t"
  shows "confined t z (fst (member_route E x z caller q))"
  by (cases q; auto simp: member_handlers Let_def split: option.split sum.split prod.split
      intro!: confined_db dest!: scope_other(2) [OF assms] dest: frames_eq Provision_frame)

lemma tenant_route_confined:
  assumes "\<not> may_access (he_lib E) (hs_db z) caller t" and "tenant_exists (hs_db z) t"
  shows "confined t z (fst (tenant_route E x z caller q))"
  using assms(2)
  by (cases q; auto simp: tenant_handlers Let_def split: option.split sum.split prod.split
      intro!: confined_db dest!: scope_other(1) [OF assms(1)] dest: frames_eq)

lemma vehicle_route_confined:
  assumes "\<not> may_access (he_lib E) (hs_db z) caller t" and "vm_inv (hs_db z)"
  shows "confined t z (fst (vehicle_route E x z caller q))"
  using assms(2)
  by (cases q; auto simp: vehicle_handlers Let_def split: option.split sum.split prod.split
      intro!: confined_db dest!: scope_other(1) [OF assms(1)] dest: frames_eq)

lemma group_route_confined:
  assumes "\<not> may_access (he_lib E) (hs_db z) caller t"
  shows "confined t z (fst (group_route E x z caller q))"
  by (cases q; auto simp: group_handlers Let_def split: option.split sum.split prod.split
      intro!: confined_db dest!: scope_other(1) [OF assms(1)] dest: frames_eq)

lemma invitation_route_confined:
  assumes "\<not> may_access (he_lib E) (hs_db z) caller t" and "invite_inv (hs_db z)"
  shows "confined t z (fst (invitation_route E x z caller q))"
proof (cases q)
  case (QAcceptInvitation inp)
  have refused: "map_option FiberError (assertScope E x z caller t) \<noteq> None"
    using assms(1) by (cases "assertScope E x z caller t") (auto dest: assertScope_None)
  have "tenant_rows t s' = tenant_rows t (hs_db z)"
    if "Accept L K (\<lambda>t. map_option FiberError (assertScope E x z caller t)) f a n (hs_db z) i = (s', r)" for L K f a n i s' r
    by (rule frameD [OF Accept_frame [OF assms(2)] that]) (rule refused)
  with QAcceptInvitation show ?thesis
    by (auto simp: invitation_handlers split: option.split sum.split prod.split intro!: confined_db)
qed (use assms(2) in \<open>auto simp: invitation_handlers Let_def split: option.split sum.split prod.split invite_result.split
      intro!: confined_db dest!: scope_other(1) [OF assms(1)] dest: frames_eq\<close>)

text \<open>Sharing: what the synchronous checks leave behind are remembered signers; a job is for the subject.\<close>

lemma authorize_share_keeps:
  assumes "address_laws (he_lib E)" and "authorize_share E x z u tok = (z', r)"
  shows "only_accounts (hs_db z) (hs_db z') \<and> hs_queue z' = hs_queue z \<and> hs_accounts z' = hs_accounts z"
  using assms(2) AuthorizeShare_sound [OF assms(1)]
  by (fastforce simp: authorize_share_def split: prod.splits sum.splits)

lemma authorize_share_confined:
  assumes "address_laws (he_lib E)" and "authorize_share E x z u tok = (z', r)"
  shows "confined t z z'"
  using authorize_share_keeps [OF assms] by (auto intro!: confined_db dest: accounts_frame)

lemma enqueue_confined:
  "job_tenant j \<noteq> t \<Longrightarrow> confined t z (fst (enqueue x z j))"
  by (auto simp: enqueue_def Enqueue_def Insert_def confined_def jobs_of_def split: option.split prod.split sum.split)

lemma sharing_route_confined:
  assumes "\<not> may_access (he_lib E) (hs_db z) caller t" and "address_laws (he_lib E)"
  shows "confined t z (fst (sharing_route E x z caller q))"
proof -
  note au = authorize_share_confined [OF assms(2), of x z]
  have queued: "confined t z (fst (enqueue x z' j))"
    if "authorize_share E x z u tok = (z', r)" "job_tenant j \<noteq> t" for u tok z' r j
    using confined_trans [OF au [OF that(1)] enqueue_confined [OF that(2)]] .
  have fs: "confined t z (z\<lparr>hs_cache := c, hs_db := s\<rparr>)"
    if "FilterSignable (he_env E) f sc n ca (hs_db z) u os = (c, s, r)" for f sc n ca u os c s r
    using FilterSignable_keeps [OF that] by (auto intro!: confined_db dest: accounts_frame)
  show ?thesis
    by (cases q; auto simp: sharing_handlers Let_def job_tenant.simps split: option.split sum.split prod.split shared_op.split
        intro: au fs queued dest!: scope_other(1) [OF assms(1)])
qed

lemma v1_route_confined:
  assumes "address_laws (he_lib E)" and "vm_inv (hs_db z)" and "invite_inv (hs_db z)" and "tenant_exists (hs_db z) t"
    and "\<not> may_access (he_lib E) (hs_db z) caller t"
  shows "confined t z (fst (v1_route E x z caller req))"
proof (cases req)
  case (OnAuthz q)
  then show ?thesis by (cases q) simp_all
qed (simp_all add: assms member_route_confined tenant_route_confined vehicle_route_confined invitation_route_confined
      sharing_route_confined group_route_confined)

subsection \<open>A demo server\<close>

definition demo_http :: http_env where
  "demo_http = \<lparr>he_share = demo_share_env, he_settings = demo_settings, he_post = (\<lambda>_ _ _ _ _. Some ''mail''),
     he_email = None, he_dialled = Some demo_reader\<rparr>"

definition demo_chance :: chance where
  "demo_chance = \<lparr>ch_scope = no_faults, ch_cap = no_faults, ch_flt = no_faults, ch_app = 0, ch_now = 0, ch_id = ''id'',
     ch_rnd = Some ''rnd'', ch_nonce = Some ''012345678901'', ch_sched = one_at_a_time\<rparr>"

text \<open>Beside the demo operator and its customers, an operator that nobody shares anything with.\<close>

definition demo_two_db :: db where
  "demo_two_db = demo_db\<lparr>tenants := tenants demo_db @ [mk_tenant ''ot'' ''Other'' KindOperator None StatusActive EntitlementImplicit]\<rparr>"

definition demo_server :: "db \<Rightarrow> server" where
  "demo_server s = \<lparr>hs_db = s, hs_cache = Map.empty, hs_queue = Some \<lparr>q_jobs = [], q_next = 1\<rparr>, hs_accounts = []\<rparr>"

abbreviation demo_key :: string where "demo_key \<equiv> replicate 32 (CHR ''k'')"
abbreviation demo_callers :: "(string \<times> string) list" where "demo_callers \<equiv> [(''fleet'', demo_key)]"

definition demo_op_caller :: caller_tenant where
  "demo_op_caller = \<lparr>ct_tenant = ''op'', ct_name = ''Acme'', ct_kind = KindOperator, ct_status = StatusActive,
     ct_client = ''0xlic'', ct_is_service = False\<rparr>"

lemma demo_http_lib: "he_lib demo_http = demo_library"
  by (simp add: demo_http_def demo_share_env_def demo_env_def)

lemma demo_http_laws: "address_laws (he_lib demo_http)"
  using demo_address_laws by (simp add: demo_http_lib)

lemma demo_gate: "v1_gate demo_callers no_faults demo_db demo_key (Some ''0xlic'') = Inr demo_op_caller"
  "v1_gate demo_callers no_faults demo_two_db demo_key (Some ''0xlic'') = Inr demo_op_caller"
  by (simp_all add: v1_gate_def TrustedCallerGuard_def DeveloperLicenseTenantResolver_def lookupCallerByClientID_def
      map_filter_def tenant_by_id_def demo_two_db_def demo_op_caller_def caller_row_def demo_defs text_eval)

lemma demo_two_vm_inv: "vm_inv demo_two_db"
  by (simp add: vm_inv_def vms_ok_def live_keys_def demo_two_db_def demo_defs)

lemma demo_two_invite_inv: "invite_inv demo_two_db"
  using demo_invite_inv(2) by (simp add: invite_inv_def demo_two_db_def)

lemma demo_two_access: "may_access demo_library demo_two_db (Some demo_op_caller) ''op''"
  "\<not> may_access demo_library demo_two_db (Some demo_op_caller) ''ot''"
  by code_simp+

lemma demo_Delete:
  "serve demo_http demo_callers no_faults demo_chance (demo_server demo_two_db) demo_key (Some ''0xlic'')
     (OnMembers (QDeleteMember ''op'' ''0xAA'')) =
   (demo_server (demo_two_db\<lparr>memberships := tl (memberships demo_db)\<rparr>), Reply 204 BNone)"
proof -
  have "checkScope demo_http demo_chance (demo_server demo_two_db) (Some demo_op_caller) ''op'' = None"
    using demo_two_access(1) by (simp add: checkScope_def demo_http_lib demo_server_def demo_chance_def may_access_def)
  moreover have "Remove demo_library no_faults demo_two_db ''op'' ''0xAA'' = (demo_two_db\<lparr>memberships := tl (memberships demo_db)\<rparr>, Inr ())"
    by (simp add: Remove_def Let_def demo_two_db_def demo_defs text_eval)
  ultimately show ?thesis
    by (simp add: serve_def demo_gate DeleteMember_def demo_server_def demo_http_lib demo_chance_def)
qed

text \<open>
  C1. A tenant the caller may not access keeps its rows through any request the caller makes, with
  any database faults: its tenant row, credentials, members, delegations, entitlements, groups,
  vehicle memberships, invitations and published digests are what they were, and no job is queued
  for it. So is every tenant's when the gates refuse the request.
\<close>

theorem v1_confined:
  assumes "address_laws (he_lib E)" and "vm_inv (hs_db z)" and "invite_inv (hs_db z)" and "tenant_exists (hs_db z) t"
    and "\<And>c. v1_gate keys gate (hs_db z) key claim = Inr c \<Longrightarrow> \<not> may_access (he_lib E) (hs_db z) (Some c) t"
    and "serve E keys gate x z key claim req = (z', r)"
  shows "confined t z z'"
proof (cases "v1_gate keys gate (hs_db z) key claim")
  case (Inl c)
  with assms(6) show ?thesis by (simp add: serve_def)
next
  case (Inr c)
  have "confined t z (fst (v1_route E x z (Some c) req))"
    using assms(1-4) assms(5) [OF Inr] by (rule v1_route_confined)
  with assms(6) Inr show ?thesis by (simp add: serve_def)
qed

lemma v1_confined_witness:
  "\<exists>z'. serve demo_http demo_callers no_faults demo_chance (demo_server demo_two_db) demo_key (Some ''0xlic'')
       (OnMembers (QDeleteMember ''op'' ''0xAA'')) = (z', Reply 204 BNone) \<and>
     confined ''ot'' (demo_server demo_two_db) z' \<and> \<not> confined ''op'' (demo_server demo_two_db) z'"
proof -
  let ?z = "demo_server demo_two_db"
  have "tenant_exists (hs_db ?z) ''ot''" by (simp add: demo_server_def demo_two_db_def tenant_exists_def mk_tenant_def)
  moreover have "vm_inv (hs_db ?z)" "invite_inv (hs_db ?z)"
    by (simp_all add: demo_server_def demo_two_vm_inv demo_two_invite_inv)
  moreover have "\<not> may_access (he_lib demo_http) (hs_db ?z) (Some c) ''ot''"
    if "v1_gate demo_callers no_faults (hs_db ?z) demo_key (Some ''0xlic'') = Inr c" for c
    using that demo_gate(2) demo_two_access(2) by (simp add: demo_server_def demo_http_lib)
  ultimately have "confined ''ot'' ?z (demo_server (demo_two_db\<lparr>memberships := tl (memberships demo_db)\<rparr>))"
    using v1_confined [OF demo_http_laws _ _ _ _ demo_Delete, of "''ot''"] by blast
  moreover have "\<not> confined ''op'' ?z (demo_server (demo_two_db\<lparr>memberships := tl (memberships demo_db)\<rparr>))"
    by (simp add: confined_def tenant_rows_def demo_server_def demo_two_db_def demo_defs)
  ultimately show ?thesis using demo_Delete by blast
qed

subsection \<open>Who is answered\<close>

text \<open>The statuses a failed gate or scope check answers with.\<close>

definition refusals :: "nat set" where
  "refusals = {400, 401, 403, 500}"

lemma scope_refuses:
  "assertScope E x z caller t = Some c \<Longrightarrow> c \<in> refusals" "checkScope E x z caller t = Some c \<Longrightarrow> c \<in> refusals"
  by (auto simp: refusals_def dest: assertScope_status checkScope_status)

lemma refusals_mem [simp]: "400 \<in> refusals" "401 \<in> refusals" "403 \<in> refusals" "500 \<in> refusals"
  by (simp_all add: refusals_def)

lemma refusals_Suc [simp]: "Suc n \<in> refusals \<longleftrightarrow> Suc n = 400 \<or> Suc n = 401 \<or> Suc n = 403 \<or> Suc n = 500"
  by (simp add: refusals_def)

lemmas tenant_reads = ListChildrenHandler_def GetTenantHandler_def GetAAWalletHandler_def ListMembersHandler_def
lemmas vehicle_reads = ListVehiclesHandler_def ListMembershipsHandler_def ActiveMemberships_def VehicleMetadata_def
lemmas group_reads = ListGroupsHandler_def ListVehicleGroups_def ListGroupVehiclesHandler_def
lemmas sharing_reads = ShareStatus_def SharedOperationStatus_def

lemma v1_route_scoped:
  assumes "subject req = Some t" and "status (snd (v1_route E x z caller req)) \<notin> refusals"
  shows "may_access (he_lib E) (hs_db z) caller t"
proof (rule ccontr)
  assume n: "\<not> may_access (he_lib E) (hs_db z) caller t"
  obtain c where c: "assertScope E x z caller t = Some c" "c \<in> refusals"
    using n by (cases "assertScope E x z caller t") (auto dest: assertScope_None scope_refuses)
  obtain d where d: "checkScope E x z caller t = Some d" "d \<in> refusals"
    using n by (cases "checkScope E x z caller t") (auto dest: checkScope_None scope_refuses)
  note sc = c d
  show False
  proof (cases req)
    case (OnAuthz q)
    with assms n show ?thesis
      by (cases q) (auto simp: GetAuthz_def split: if_splits sum.splits dest: CallerMayAccess_allows)
  next
    case (OnMembers q)
    with assms sc show ?thesis by (cases q) (auto simp: member_handlers split: if_splits option.splits)
  next
    case (OnTenants q)
    with assms sc show ?thesis by (cases q) (auto simp: tenant_handlers tenant_reads split: option.splits)
  next
    case (OnVehicles q)
    with assms sc show ?thesis by (cases q) (auto simp: vehicle_handlers vehicle_reads split: option.splits prod.splits)
  next
    case (OnInvitations q)
    with assms sc show ?thesis
      by (cases q) (auto simp: invitation_handlers ListInvitationsHandler_def split: option.splits)
  next
    case (OnSharing q)
    with assms sc show ?thesis by (cases q) (auto simp: sharing_handlers sharing_reads split: option.splits)
  next
    case (OnGroups q)
    with assms sc show ?thesis by (cases q) (auto simp: group_handlers group_reads split: option.splits)
  qed
qed

lemma Accept_authorized: "Accept L K authorize flt a n s inp = (s', Inr i) \<Longrightarrow> authorize (wi_tenant i) = None"
  by (auto simp: Accept_def Let_def scanInvitation_def split: if_splits option.splits prod.splits sum.splits)

text \<open>
  C3. An answer that is not a refusal (400, 401, 403 or 500) went to a caller that passed the gates
  and may access the tenant the request is about: the one in the path or the question, the one a
  client id resolved to, the one an accepted invitation leads into. A self-serve tenant is
  created for a service caller only.
\<close>

theorem v1_scoped:
  assumes "serve E keys gate x z key claim req = (z', r)" and "status r \<notin> refusals"
  shows "\<exists>c. v1_gate keys gate (hs_db z) key claim = Inr c \<and>
    (\<forall>t. subject req = Some t \<longrightarrow> may_access (he_lib E) (hs_db z) (Some c) t) \<and>
    (\<forall>cid ref. req = OnAuthz (QResolve cid) \<and> r = Reply 200 (BTenantRef ref) \<longrightarrow>
       may_access (he_lib E) (hs_db z) (Some c) (tr_tenant ref)) \<and>
    (\<forall>b i. req = OnInvitations (QAcceptInvitation b) \<and> r = Reply 200 (BAccepted i) \<longrightarrow>
       may_access (he_lib E) (hs_db z) (Some c) (wi_tenant i)) \<and>
    (\<forall>b. req = OnTenants (QCreateSelfServe b) \<longrightarrow> ct_is_service c)"
proof (cases "v1_gate keys gate (hs_db z) key claim")
  case (Inl n)
  then have "n \<in> refusals"
    by (auto simp: v1_gate_def TrustedCallerGuard_def DeveloperLicenseTenantResolver_def Let_def
        split: sum.splits option.splits if_splits)
  with Inl assms show ?thesis by (auto simp: serve_def)
next
  case (Inr c)
  then have route: "v1_route E x z (Some c) req = (z', r)" using assms(1) by (simp add: serve_def)
  have "may_access (he_lib E) (hs_db z) (Some c) (tr_tenant ref)"
    if "req = OnAuthz (QResolve cid)" "r = Reply 200 (BTenantRef ref)" for cid ref
    using route that by (auto simp: ResolveClientID_def split: if_splits sum.splits dest: CallerMayAccess_allows)
  moreover have "may_access (he_lib E) (hs_db z) (Some c) (wi_tenant i)"
    if "req = OnInvitations (QAcceptInvitation b)" "r = Reply 200 (BAccepted i)" for b i
    using route that
    by (auto simp: AcceptHandler_def split: if_splits option.splits prod.splits sum.splits
        dest!: Accept_authorized assertScope_None)
  moreover have "ct_is_service c" if "req = OnTenants (QCreateSelfServe b)" for b
    using route that assms(2) by (auto simp: CreateSelfServeTenant_def is_service_def split: if_splits)
  moreover have "may_access (he_lib E) (hs_db z) (Some c) t" if "subject req = Some t" for t
    using v1_route_scoped [OF that, of E x z "Some c"] route assms(2) by simp
  ultimately show ?thesis using Inr by (intro exI [of _ c]) auto
qed

lemma v1_scoped_witness:
  "\<exists>z'. serve demo_http demo_callers no_faults demo_chance (demo_server demo_two_db) demo_key (Some ''0xlic'')
       (OnMembers (QDeleteMember ''op'' ''0xAA'')) = (z', Reply 204 BNone) \<and>
     (\<exists>c. v1_gate demo_callers no_faults demo_two_db demo_key (Some ''0xlic'') = Inr c \<and> may_access demo_library demo_two_db (Some c) ''op'')"
  using v1_scoped [OF demo_Delete] demo_Delete by (auto simp: refusals_def demo_server_def demo_http_lib)

subsection \<open>Refusals\<close>

definition db_failure :: "svc_error \<Rightarrow> bool" where
  "db_failure e \<longleftrightarrow> (\<exists>m. root_error e = DbError m)"

lemma db_failure_DbError [simp]: "db_failure (DbError m)"
  by (simp add: db_failure_def)

named_theorems clean_errors \<open>an operation that fails for the caller's reasons leaves the database as it was\<close>

lemma UpdateGroup_found:
  "affected (\<lambda>g. g_tenant g = u \<and> g_id g = gid) gs \<noteq> 0 \<Longrightarrow>
     find (\<lambda>g. g_tenant g = u \<and> g_id g = gid) (upd (\<lambda>g. g_tenant g = u \<and> g_id g = gid) (patch_group now n c) gs) \<noteq> None"
  by (auto simp: find_None ball_upd patch_group_def)

lemma Upsert_clean [clean_errors]: "Upsert L flt now s u w inp = (s', Inl e) \<Longrightarrow> s' = s \<or> db_failure e"
  by (auto simp: Upsert_def split: if_splits prod.splits sum.splits)

lemma Remove_clean [clean_errors]: "Remove L flt s u w = (s', Inl e) \<Longrightarrow> s' = s \<or> db_failure e"
  by (auto simp: Remove_def Let_def split: if_splits)

lemma TouchLogin_clean [clean_errors]: "TouchLogin flt now s u w m = (s', Inl e) \<Longrightarrow> s' = s \<or> db_failure e"
  by (auto simp: TouchLogin_def Let_def split: if_splits)

lemma GetTenant_error: "GetTenant flt s u = Inl e \<Longrightarrow> tenant_exists s u \<Longrightarrow> db_failure e"
  by (auto simp: GetTenant_def tenant_exists_def list_ex_iff tenant_by_id_def find_None split: if_splits option.splits)

lemma CreateCustomer_clean [clean_errors]:
  "CreateCustomer flt i now s u inp a = (s', Inl e) \<Longrightarrow> s' = s \<or> db_failure e"
  by (auto simp: CreateCustomer_def Let_def tenant_exists_def split: if_splits option.splits dest!: GetTenant_error)

lemma UpdateTenant_clean [clean_errors]: "UpdateTenant flt s u inp = (s', Inl e) \<Longrightarrow> s' = s \<or> db_failure e"
  by (auto simp: UpdateTenant_def Let_def tenant_exists_def list_ex_iff bex_upd upd_none patch_tenant_def
      split: if_splits dest!: GetTenant_error)

lemma CreateSelfServe_clean [clean_errors]:
  "CreateSelfServe L vc seal flt i now s inp = (s', Inl e) \<Longrightarrow> s' = s \<or> db_failure e"
  by (auto simp: CreateSelfServe_def Let_def tenant_exists_def split: if_splits option.splits dest!: GetTenant_error)

lemma SetCredentials_clean [clean_errors]:
  "SetCredentials vc seal flt s u i k = (s', Inl e) \<Longrightarrow> s' = s \<or> db_failure e"
  by (auto simp: SetCredentials_def Let_def split: if_splits option.splits)

lemma SetAAWallet_clean [clean_errors]:
  "SetAAWallet L K E cfg d flt nonce s u w k = (s', Inl e) \<Longrightarrow> s' = s \<or> db_failure e"
  by (auto simp: SetAAWallet_def Let_def split: if_splits option.splits)

lemma ClearAAWallet_clean: "ClearAAWallet flt s u = (s', Some e) \<Longrightarrow> s' = s"
  by (auto simp: ClearAAWallet_def split: if_splits)

lemma CreateGroup_clean [clean_errors]: "CreateGroup flt now s u n c = (s', Inl e) \<Longrightarrow> s' = s \<or> db_failure e"
  by (auto simp: CreateGroup_def Let_def GetGroup_def group_row_of_def find_append split: if_splits option.splits)

lemma UpdateGroup_clean [clean_errors]:
  assumes "UpdateGroup flt now s u g n c = (s', Inl e)"
  shows "s' = s \<or> db_failure e"
  using assms UpdateGroup_found [of u g "fleet_groups s" now n c]
  by (auto simp: UpdateGroup_def Let_def GetGroup_def group_row_of_def upd_none split: if_splits option.splits)

lemma DeleteGroup_clean [clean_errors]: "DeleteGroup flt s u g = (s', Inl e) \<Longrightarrow> s' = s \<or> db_failure e"
  by (auto simp: DeleteGroup_def split: if_splits option.splits)

lemma AddVehicles_clean [clean_errors]: "AddVehicles flt s u g toks = (s', Inl e) \<Longrightarrow> s' = s \<or> db_failure e"
  by (auto simp: AddVehicles_def split: if_splits sum.splits)

lemma RemoveVehicle_clean [clean_errors]: "RemoveVehicle flt s u g tok = (s', Inl e) \<Longrightarrow> s' = s \<or> db_failure e"
  by (auto simp: RemoveVehicle_def split: if_splits sum.splits)

lemma Assign_clean [clean_errors]: "Assign L flt now s u toks g a = (s', Inl e) \<Longrightarrow> s' = s \<or> db_failure e"
  by (auto simp: Assign_def split: if_splits option.splits sum.splits prod.splits)

lemma Revoke_clean [clean_errors]: "Revoke flt now s u tok = (s', Inl e) \<Longrightarrow> s' = s \<or> db_failure e"
  by (auto simp: Revoke_def Let_def upd_none split: if_splits)

lemma CreateMembership_clean [clean_errors]:
  "CreateMembership L flt i an now s u inp a = (s', Inl e) \<Longrightarrow> s' = s \<or> db_failure e"
  by (auto simp: CreateMembership_def Let_def split: if_splits option.splits sum.splits)

lemma MoveMembership_clean [clean_errors]:
  "MoveMembership L flt now s u mid tok a = (s', Inl e) \<Longrightarrow> s' = s \<or> db_failure e"
  by (auto simp: MoveMembership_def Let_def split: if_splits option.splits sum.splits)

lemma upd_unfound: "find P (upd P f rs) = None \<Longrightarrow> \<forall>r. P r \<longrightarrow> P (f r) \<Longrightarrow> upd P f rs = rs"
  by (induction rs) (auto split: if_splits)

lemma RenewMembership_clean [clean_errors]:
  assumes "RenewMembership L flt now s u mid term = (s', Inl e)"
  shows "s' = s \<or> db_failure e"
proof -
  let ?m = "\<lambda>r. vm_id r = mid \<and> vm_tenant r = u \<and> vm_canceled r = None"
  have "find ?m (upd ?m (renewed L now term) (vehicle_memberships s)) = None \<Longrightarrow>
      upd ?m (renewed L now term) (vehicle_memberships s) = vehicle_memberships s"
    by (rule upd_unfound) (simp_all add: renewed_def)
  with assms show ?thesis
    unfolding RenewMembership_def Let_def by (simp split: if_split_asm option.split_asm) auto
qed

lemma CancelMembership_clean [clean_errors]:
  "CancelMembership L flt now s u mid = (s', Inl e) \<Longrightarrow> s' = s \<or> db_failure e"
  by (auto simp: CancelMembership_def Let_def upd_none split: if_splits)

lemma dispatched_sent: "dispatched flt now s i sent \<noteq> (s', InviteFailed e)"
  by (auto simp: dispatched_def split: option.splits prod.splits)

lemma CreateInvitation_clean:
  "CreateInvitation L K cfg post flt i rnd now s u inp = (s', InviteFailed e) \<Longrightarrow> s' = s \<or> db_failure e"
  by (auto simp: CreateInvitation_def Let_def dispatched_sent split: if_splits option.splits prod.splits)

lemma RevokeInvitation_clean [clean_errors]:
  "RevokeInvitation L flt s u i = (s', Inl e) \<Longrightarrow> s' = s \<or> db_failure e"
  by (auto simp: RevokeInvitation_def split: if_splits)

lemma ResendInvitation_clean:
  "ResendInvitation L K cfg post flt rnd now s u i a loc = (s', InviteFailed e) \<Longrightarrow> s' = s \<or> db_failure e"
  by (auto simp: ResendInvitation_def Let_def dispatched_sent split: if_splits option.splits prod.splits)

lemma Accept_clean: "Accept L K authorize flt an now s inp = (s', Inl e) \<Longrightarrow> s' = s"
  by (auto simp: Accept_def Let_def split: if_splits option.splits prod.splits sum.splits)

lemma Provision_clean: "Provision V email flt now cache s u inp = (cache', s', accts, Inl e) \<Longrightarrow> s' = s"
  by (rule Provision_result) auto

text \<open>A status that blames the caller is not what a driver error is translated to.\<close>

definition client_error :: "nat \<Rightarrow> bool" where
  "client_error n \<longleftrightarrow> 400 \<le> n \<and> n < 500"

lemma db_failure_codes:
  assumes "db_failure e"
  shows "tenants_mapError e = 500" "groups_mapError e = 500" "memberships_fail e = 500" "provision_mapError e = 500"
    "isBadRequest e = False" "isInvitationBadRequest e = False"
proof -
  obtain m where m: "root_error e = DbError m" using assms by (auto simp: db_failure_def)
  show "tenants_mapError e = 500" "groups_mapError e = 500" "memberships_fail e = 500"
    using m by (simp_all add: tenants_mapError_def groups_mapError_def memberships_fail_def errors_is_root)
  show "isBadRequest e = False" "isInvitationBadRequest e = False"
    using m by (auto simp: isBadRequest_def isInvitationBadRequest_def)
  show "provision_mapError e = 500"
    using m by (auto simp: provision_mapError_def isProvisionBadRequest_def errors_is_root)
qed

lemma db_failure_is:
  "db_failure e \<Longrightarrow> (\<nexists>m e'. t = Wrapped m e') \<Longrightarrow> (\<nexists>m. t = DbError m) \<Longrightarrow> errors_is e t = False"
  by (auto simp: db_failure_def errors_is_root)

definition keeps :: "server \<Rightarrow> server \<Rightarrow> bool" where
  "keeps z z' \<longleftrightarrow> only_accounts (hs_db z) (hs_db z') \<and> jobs_of z' = jobs_of z"

lemma keeps_refl [simp]: "keeps z z"
  by (simp add: keeps_def)

lemma keeps_cache [simp]: "keeps z (hs_cache_update f z')  = keeps z z'" "keeps z (hs_accounts_update g z') = keeps z z'"
  "keeps z (hs_db_update h z) \<longleftrightarrow> only_accounts (hs_db z) (h (hs_db z))"
  by (simp_all add: keeps_def jobs_of_def)

lemma member_route_refuses:
  "member_route E x z caller q = (z', r) \<Longrightarrow> client_error (status r) \<Longrightarrow> keeps z z'"
  by (cases q; auto simp: member_handlers Let_def answer_def client_error_def db_failure_codes db_failure_is
      split: option.splits sum.splits prod.splits if_splits dest!: clean_errors Provision_clean)

lemma aa_code:
  "db_failure e \<Longrightarrow> (case root_error e of ErrAAWalletInvalid _ \<Rightarrow> 400 | ErrAANotCredentialHolder \<Rightarrow> 409 | ErrChainUnavailable _ \<Rightarrow> 503
     | _ \<Rightarrow> tenants_mapError e) = (500 :: nat)"
  by (auto simp: db_failure_codes(1) db_failure_def)

lemma tenant_route_refuses:
  "tenant_route E x z caller q = (z', r) \<Longrightarrow> client_error (status r) \<Longrightarrow> keeps z z'"
  by (cases q; auto simp: tenant_handlers tenant_reads Let_def answer_def client_error_def db_failure_codes db_failure_is aa_code
      split: option.splits sum.splits prod.splits if_splits dest!: clean_errors ClearAAWallet_clean)

lemma vehicle_route_refuses:
  "vehicle_route E x z caller q = (z', r) \<Longrightarrow> client_error (status r) \<Longrightarrow> keeps z z'"
  by (cases q; auto simp: vehicle_handlers vehicle_reads Let_def answer_def client_error_def db_failure_codes db_failure_is
      split: option.splits sum.splits prod.splits if_splits dest!: clean_errors)

lemma invitation_route_refuses:
  "invitation_route E x z caller q = (z', r) \<Longrightarrow> client_error (status r) \<Longrightarrow> keeps z z'"
  by (cases q; auto simp: invitation_handlers ListInvitationsHandler_def Let_def answer_def client_error_def db_failure_codes db_failure_is
      split: option.splits sum.splits prod.splits invite_result.splits if_splits
      dest!: clean_errors CreateInvitation_clean ResendInvitation_clean Accept_clean)

lemma group_route_refuses:
  "group_route E x z caller q = (z', r) \<Longrightarrow> client_error (status r) \<Longrightarrow> keeps z z'"
  by (cases q; auto simp: group_handlers group_reads Let_def answer_def client_error_def db_failure_codes db_failure_is
      split: option.splits sum.splits prod.splits if_splits dest!: clean_errors)

lemma enqueue_error: "enqueue x z j = (z', HttpError n) \<Longrightarrow> z' = z \<and> 500 \<le> n"
  by (auto simp: enqueue_def Enqueue_def Insert_def queue_status_def split: option.splits if_splits prod.splits)

lemma enqueue_reply: "enqueue x z j = (z', Reply n b) \<Longrightarrow> n = 202"
  by (auto simp: enqueue_def split: prod.splits sum.splits)

lemma enqueue_refuses: "enqueue x z j = (z', r) \<Longrightarrow> \<not> client_error (status r)"
  by (cases r) (auto simp: client_error_def dest: enqueue_error enqueue_reply)

lemma sharing_route_refuses:
  assumes "address_laws (he_lib E)" and "sharing_route E x z caller q = (z', r)" and "client_error (status r)"
  shows "keeps z z'"
proof -
  have au: "keeps z z'" if "authorize_share E x z u tok = (z', a)" for u tok z' a
    using authorize_share_keeps [OF assms(1) that] by (simp add: keeps_def jobs_of_def)
  have fs: "only_accounts (hs_db z) s" if "FilterSignable (he_env E) f sc n ca (hs_db z) u os = (c, s, r)" for f sc n ca u os c s r
    using FilterSignable_keeps [OF that] by blast
  from assms(2,3) show ?thesis
    by (cases q; auto simp: sharing_handlers sharing_reads Let_def client_error_def keeps_def jobs_of_def
        split: option.splits sum.splits prod.splits if_splits shared_op.splits
        dest!: au fs enqueue_refuses [unfolded client_error_def])
qed

text \<open>
  C6. A request refused with a client error (400 to 499) has changed nothing but what accounts-api
  answered on the way: the database is the one it met up to remembered signers, and no job was
  queued. This holds on every route and whichever statements fail.
\<close>

theorem v1_refusal_keeps:
  assumes "address_laws (he_lib E)" and "serve E keys gate x z key claim req = (z', r)" and "client_error (status r)"
  shows "only_accounts (hs_db z) (hs_db z') \<and> jobs_of z' = jobs_of z"
proof -
  have "keeps z z'"
  proof (cases "v1_gate keys gate (hs_db z) key claim")
    case (Inr c)
    then have route: "v1_route E x z (Some c) req = (z', r)" using assms(2) by (simp add: serve_def)
    show ?thesis
    proof (cases req)
      case (OnAuthz q)
      with route show ?thesis by (cases q) auto
    next
      case (OnSharing q)
      with route assms(1,3) show ?thesis using sharing_route_refuses by simp
    qed (use route assms(3) in \<open>auto dest: member_route_refuses tenant_route_refuses vehicle_route_refuses
          invitation_route_refuses group_route_refuses\<close>)
  qed (use assms(2) in \<open>simp add: serve_def\<close>)
  then show ?thesis by (simp add: keeps_def)
qed

lemma demo_refused:
  "status (snd (serve demo_http demo_callers no_faults demo_chance (demo_server demo_two_db) demo_key (Some ''0xlic'')
     (OnMembers (QPutMember ''cu'' ''0xCC'' (Some (demo_write\<lparr>mw_scope := None\<rparr>)))))) = 400"
proof -
  have m: "may_access demo_library demo_two_db (Some demo_op_caller) ''cu''" by code_simp
  have "checkScope demo_http demo_chance (demo_server demo_two_db) (Some demo_op_caller) ''cu'' = None"
    using m by (simp add: checkScope_def demo_http_lib demo_server_def demo_chance_def may_access_def)
  moreover have "snd (Upsert demo_library no_faults 0 demo_two_db ''cu'' ''0xCC'' (demo_write\<lparr>mw_scope := None\<rparr>)) = Inl (BadRequest scope_required)"
    by (simp add: Upsert_def upsertMemberTx_def Scope_def decodeScope_def demo_write_def scope_required_def)
  ultimately show ?thesis
    by (auto simp: serve_def demo_gate PutMember_def demo_server_def demo_http_lib demo_chance_def isBadRequest_def
        split: prod.splits)
qed

lemma v1_refusal_keeps_witness:
  "\<exists>z' r. serve demo_http demo_callers no_faults demo_chance (demo_server demo_two_db) demo_key (Some ''0xlic'')
       (OnMembers (QPutMember ''cu'' ''0xCC'' (Some (demo_write\<lparr>mw_scope := None\<rparr>)))) = (z', r) \<and> status r = 400 \<and>
     only_accounts demo_two_db (hs_db z') \<and> jobs_of z' = []"
proof -
  obtain z' r where s: "serve demo_http demo_callers no_faults demo_chance (demo_server demo_two_db) demo_key (Some ''0xlic'')
       (OnMembers (QPutMember ''cu'' ''0xCC'' (Some (demo_write\<lparr>mw_scope := None\<rparr>)))) = (z', r)" by fastforce
  then have r: "status r = 400" using demo_refused by simp
  then have "client_error (status r)" by (simp add: client_error_def)
  from v1_refusal_keeps [OF demo_http_laws s this] s r show ?thesis by (simp add: demo_server_def jobs_of_def)
qed

subsection \<open>Queueing a share\<close>

lemma authorize_share_sound:
  assumes "address_laws (he_lib E)" and "authorize_share E x z u tok = (z', Inr (owner, key, mode))"
  shows "may_act (he_share E) (hs_db z) u tok owner key mode"
proof -
  obtain c s where "AuthorizeShare (he_share E) (\<lambda>n. ch_flt x (n + 1)) (ch_sched x) (ch_now x) (hs_cache z) (hs_db z) u tok =
      (c, s, Inr (owner, key, mode))"
    using assms(2) by (auto simp: authorize_share_def split: prod.splits sum.splits)
  from AuthorizeShare_sound [OF assms(1) this] show ?thesis by blast
qed

lemma enqueue_job:
  "enqueue x z j = (z', Reply n b) \<Longrightarrow> \<exists>i. b = BJob i \<and> jobs_of z' = jobs_of z @ [new_row i j] \<and> hs_db z' = hs_db z"
  by (auto simp: enqueue_def Enqueue_def Insert_def jobs_of_def split: option.splits if_splits prod.splits)

lemma Authorize_no_faults: "Authorize L flt s u w = Inr a \<Longrightarrow> ar_perms a \<noteq> [] \<Longrightarrow> Authorize L no_faults s u w = Inr a"
  by (auto simp: Authorize_def Let_def split: if_splits option.splits)

lemma assertCapability_None:
  "assertCapability E x z u w = None \<Longrightarrow>
     \<exists>a. Authorize (he_lib E) no_faults (hs_db z) u w = Inr a \<and> HasCapability a CapManageVehicles"
  by (auto simp: assertCapability_def HasCapability_def list_ex_iff split: if_splits sum.splits
      intro!: Authorize_no_faults exI)

lemma ValidateGrantee_None:
  "ValidateGrantee L g owner = None \<Longrightarrow> IsHexAddress L g \<and> HexAddr L g \<noteq> zero_address L \<and>
     (owner \<noteq> zero_address L \<longrightarrow> HexAddr L g \<noteq> owner)"
  by (auto simp: ValidateGrantee_def Let_def split: if_splits)

text \<open>
  C11. A share is accepted only as one new job that asks for what the request did: the grantee is an
  address other than zero and the vehicle's owner, the duration is not negative, the caller may
  access the tenant, the acting wallet holds \<open>manage_vehicles\<close> there, and the tenant may act on
  the vehicle with a key of its effective credential, for the owner the chain names. Nothing else
  changes but remembered signers.
\<close>

theorem ShareVehicle_queued:
  assumes "address_laws (he_lib E)"
    and "ShareVehicle E x z caller t token (Some inp) = (z', Reply n b)"
  shows "n = 202 \<and> only_accounts (hs_db z) (hs_db z') \<and> may_access (he_lib E) (hs_db z) caller t \<and>
    (\<exists>tok i owner key mode a. ParseInt token = Some tok \<and> b = BJob i \<and>
       jobs_of z' = jobs_of z @ [new_row i (JShare \<lparr>sh_tenant = t, sh_token = tok,
         sh_grantee = HexAddr (he_lib E) (si_grantee inp), sh_days = si_days inp, sh_actor = si_wallet inp\<rparr>)] \<and>
       0 \<le> si_days inp \<and> HexAddr (he_lib E) (si_grantee inp) \<notin> {zero_address (he_lib E), owner} \<and>
       may_act (he_share E) (hs_db z) t tok owner key mode \<and>
       Authorize (he_lib E) no_faults (hs_db z) t (si_wallet inp) = Inr a \<and> HasCapability a CapManageVehicles)"
proof -
  let ?L = "he_lib E"
  from assms(2) obtain tok where tok: "ParseInt token = Some tok" by (auto simp: ShareVehicle_def split: option.splits)
  with assms(2) have sc: "assertScope E x z caller t = None" by (auto simp: ShareVehicle_def split: option.splits)
  with tok assms(2) have days: "0 \<le> si_days inp" and g: "ValidateGrantee ?L (si_grantee inp) (zero_address ?L) = None"
      and cap: "assertCapability E x z t (si_wallet inp) = None"
    by (auto simp: ShareVehicle_def split: option.splits if_splits)
  obtain z1 a where au: "authorize_share E x z t tok = (z1, a)" by fastforce
  obtain owner key mode where a: "a = Inr (owner, key, mode)"
    using assms(2) tok sc days g cap au by (cases a) (auto simp: ShareVehicle_def)
  define j where "j = JShare \<lparr>sh_tenant = t, sh_token = tok, sh_grantee = HexAddr ?L (si_grantee inp), sh_days = si_days inp,
    sh_actor = si_wallet inp\<rparr>"
  have g2: "ValidateGrantee ?L (si_grantee inp) owner = None" and q: "enqueue x z1 j = (z', Reply n b)"
    using assms(2) tok sc days g cap au a by (auto simp: ShareVehicle_def j_def split: if_splits)
  obtain i where i: "b = BJob i" "jobs_of z' = jobs_of z1 @ [new_row i j]" "hs_db z' = hs_db z1" using enqueue_job [OF q] by blast
  note kept = authorize_share_keeps [OF assms(1) au]
  have "HexAddr ?L (si_grantee inp) \<notin> {zero_address ?L, owner}"
    using ValidateGrantee_None [OF g] ValidateGrantee_None [OF g2] by auto
  then show ?thesis
    using enqueue_reply [OF q] kept i assertScope_None [OF sc] tok days authorize_share_sound [OF assms(1) au [unfolded a]]
      assertCapability_None [OF cap] by (fastforce simp: j_def jobs_of_def)
qed

definition demo_share_body :: share_input where
  "demo_share_body = \<lparr>si_grantee = ''0xFriend'', si_days = 30, si_wallet = ''0xaa''\<rparr>"

lemma demo_ShareVehicle:
  "\<exists>z'. ShareVehicle demo_http demo_chance (demo_server demo_keys_db) (Some demo_op_caller) ''cu'' ''7'' (Some demo_share_body) =
     (z', Reply 202 (BJob 1))"
proof -
  have tok: "ParseInt ''7'' = Some 7" by code_simp
  have m: "may_access demo_library demo_keys_db (Some demo_op_caller) ''cu''" by code_simp
  then have sc: "assertScope demo_http demo_chance (demo_server demo_keys_db) (Some demo_op_caller) ''cu'' = None"
    by (simp add: assertScope_def checkScope_def demo_http_lib demo_server_def demo_chance_def may_access_def)
  have g: "ValidateGrantee demo_library ''0xFriend'' (zero_address demo_library) = None" "ValidateGrantee demo_library ''0xFriend'' ''0xown'' = None"
    by code_simp+
  have "list_ex (\<lambda>p. p = CapManageVehicles) (case Authorize demo_library no_faults demo_keys_db ''cu'' ''0xaa'' of Inr a \<Rightarrow> ar_perms a | Inl _ \<Rightarrow> [])"
    by code_simp
  then have cap: "assertCapability demo_http demo_chance (demo_server demo_keys_db) ''cu'' ''0xaa'' = None"
    by (cases "Authorize demo_library no_faults demo_keys_db ''cu'' ''0xaa''")
      (simp_all add: assertCapability_def demo_http_lib demo_server_def demo_chance_def)
  obtain c s' where "AuthorizeShare demo_share_env (\<lambda>n. ch_flt demo_chance (n + 1)) one_at_a_time 0 Map.empty demo_keys_db ''cu'' 7 =
      (c, s', Inr (''0xown'', ''k'', False))"
    using demo_AuthorizeShare by (auto simp: demo_chance_def)
  then have "authorize_share demo_http demo_chance (demo_server demo_keys_db) ''cu'' 7 =
      (demo_server demo_keys_db\<lparr>hs_cache := c, hs_db := s'\<rparr>, Inr (''0xown'', ''k'', False))"
    by (simp add: authorize_share_def demo_http_def demo_chance_def demo_server_def)
  then show ?thesis using tok sc g cap
    by (simp add: ShareVehicle_def demo_share_body_def demo_http_lib enqueue_def Enqueue_def Insert_def demo_server_def demo_chance_def)
qed

lemma ShareVehicle_queued_witness:
  "\<exists>z' j. ShareVehicle demo_http demo_chance (demo_server demo_keys_db) (Some demo_op_caller) ''cu'' ''7'' (Some demo_share_body) =
       (z', Reply 202 (BJob 1)) \<and> jobs_of z' = [j]"
proof -
  obtain z' where s: "ShareVehicle demo_http demo_chance (demo_server demo_keys_db) (Some demo_op_caller) ''cu'' ''7'' (Some demo_share_body) =
      (z', Reply 202 (BJob 1))" using demo_ShareVehicle by blast
  from ShareVehicle_queued [OF demo_http_laws s] s show ?thesis by (auto simp: demo_server_def jobs_of_def)
qed

end
