(* ===== verification/Webhooks.thy ===== *)
theory Webhooks
  imports Http
begin

text \<open>
  The delivery webhook, the one surface reachable from the internet: \<open>app/webhook_app.go\<close> and
  \<open>controllers/webhooks.go\<close>. Whoever presents the webhook's secret can move the email status of
  invitations up and nothing else; everyone else is refused.
\<close>

subsection \<open>Model\<close>

text \<open>The payload: \<open>pe_Metadata\<close> is the JSON object's string map.\<close>

record postmark_event =
  pe_RecordType :: string
  pe_MessageID :: string
  pe_Metadata :: "string \<rightharpoonup> string"
  pe_DeliveredAt :: string
  pe_BouncedAt :: string
  pe_ReceivedAt :: string
  pe_Type :: string
  pe_Description :: string

text \<open>
  A request as the router hands it on: the path it matched, the \<open>Authorization\<close> header, and the body
  if \<open>BodyParser\<close> accepts it.
\<close>

record webhook_request =
  wr_authorization :: string
  wr_body :: "postmark_event option"

datatype webhook_route = WHealth | WPostmark webhook_request

definition authorized :: "crypto \<Rightarrow> string \<Rightarrow> string \<Rightarrow> bool" where
  "authorized K secret header =
     (if secret = [] then False
      else if take 6 header \<noteq> ''Basic '' then False
      else case b64dec K (drop 6 header) of
        None \<Rightarrow> False
      | Some decoded \<Rightarrow> (case cut (CHR '':'') decoded of (_, password, ok) \<Rightarrow> ok \<and> password = secret))"

text \<open>
  \<open>time.Parse(time.RFC3339, _)\<close> is the argument \<open>parse\<close>; \<open>None\<close> is the zero time the handler passes
  on a failure.
\<close>

definition parsePostmarkTime :: "(string \<Rightarrow> time option) \<Rightarrow> string \<Rightarrow> time option" where
  "parsePostmarkTime parse s = parse s"

text \<open>The switch on the record type: status, time and detail, \<open>None\<close> for a type that is not tracked.\<close>

definition tracked :: "(string \<Rightarrow> time option) \<Rightarrow> postmark_event \<Rightarrow> (string \<times> time option \<times> string) option" where
  "tracked parse ev =
     (if pe_RecordType ev = ''Delivery'' then Some (''delivered'', parsePostmarkTime parse (pe_DeliveredAt ev), [])
      else if pe_RecordType ev = ''Open'' then Some (''opened'', parsePostmarkTime parse (pe_ReceivedAt ev), [])
      else if pe_RecordType ev = ''Bounce'' then Some (''bounced'', parsePostmarkTime parse (pe_BouncedAt ev),
        TrimSpace (TrimSuffix '': '' (pe_Type ev @ '': '' @ pe_Description ev)))
      else None)"

definition HandlePostmark ::
  "library \<Rightarrow> crypto \<Rightarrow> (string \<Rightarrow> time option) \<Rightarrow> string \<Rightarrow> faults \<Rightarrow> time \<Rightarrow> db \<Rightarrow> webhook_request \<Rightarrow> db \<times> response" where
  "HandlePostmark L K parse configured flt appnow s req =
     (if \<not> authorized K (TrimSpace configured) (wr_authorization req) then (s, HttpError 403)
      else case wr_body req of
        None \<Rightarrow> (s, Reply 200 BNone)
      | Some ev \<Rightarrow>
        (case tracked parse ev of
           None \<Rightarrow> (s, Reply 200 BNone)
         | Some (st, occurredAt, detail) \<Rightarrow>
           (case ApplyEmailEvent L flt appnow s (null_str (pe_Metadata ev ''invitation_id'')) (pe_MessageID ev)
                   st occurredAt detail of
              (s', Inl e) \<Rightarrow> (s', HttpError 500)
            | (s', Inr _) \<Rightarrow> (s', Reply 200 BNone))))"

text \<open>The whole public listener: health and the webhook.\<close>

fun WebhookApp ::
  "library \<Rightarrow> crypto \<Rightarrow> (string \<Rightarrow> time option) \<Rightarrow> string \<Rightarrow> faults \<Rightarrow> time \<Rightarrow> db \<Rightarrow> webhook_route \<Rightarrow> db \<times> response" where
  "WebhookApp L K parse configured flt appnow s WHealth = (s, Reply 200 BNone)"
| "WebhookApp L K parse configured flt appnow s (WPostmark req) = HandlePostmark L K parse configured flt appnow s req"

subsection \<open>What the public can do\<close>

text \<open>An invitation but for its email columns, which may only climb.\<close>

definition email_later :: "invitation_row \<Rightarrow> invitation_row \<Rightarrow> bool" where
  "email_later i i' \<longleftrightarrow>
     i' = i\<lparr>i_email_status := i_email_status i', i_email_status_at := i_email_status_at i', i_email_detail := i_email_detail i'\<rparr> \<and>
     (i' = i \<or> email_rank (null_str (i_email_status i)) < email_rank (null_str (i_email_status i')))"

lemma email_later_refl [simp]: "email_later i i"
  by (simp add: email_later_def)

lemma email_later_apply: "email_later i (apply_event st at d i)"
  by (simp add: email_later_def apply_event_def null_str_def)

lemma apply_event_again: "apply_event st at' d' (apply_event st at d i) = apply_event st at d i"
  by (simp add: apply_event_def null_str_def)

lemma email_rows_refl: "\<exists>is'. s = s\<lparr>invitations := is'\<rparr> \<and> list_all2 email_later (invitations s) is'"
  by (intro exI [of _ "invitations s"]) (simp add: list.rel_refl)

lemma email_rows_upd:
  "\<exists>is'. s\<lparr>invitations := upd P (apply_event st at d) (invitations s)\<rparr> = s\<lparr>invitations := is'\<rparr> \<and>
     list_all2 email_later (invitations s) is'"
  by (intro exI [of _ "upd P (apply_event st at d) (invitations s)"])
    (simp add: upd_def list_all2_map2 email_later_apply list.rel_refl_strong)

lemma ApplyEmailEvent_result:
  "ApplyEmailEvent L flt appnow s iid mid st at d = (s', r) \<Longrightarrow>
     (\<exists>is'. s' = s\<lparr>invitations := is'\<rparr> \<and> list_all2 email_later (invitations s) is') \<and> (\<forall>e. r = Inl e \<longrightarrow> s' = s \<and> flt 0)"
  using email_rows_refl [of s] email_rows_upd [of _ st "case at of None \<Rightarrow> appnow | Some t \<Rightarrow> t" d s]
  by (auto simp: ApplyEmailEvent_def Let_def split: if_splits)

lemma cut_found: "cut c s = (before, after, True) \<Longrightarrow> s = before @ c # after \<and> c \<notin> set before"
  using takeWhile_dropWhile_id [of "\<lambda>x. x \<noteq> c" s] hd_dropWhile [of "\<lambda>x. x \<noteq> c" s]
  by (cases "dropWhile (\<lambda>x. x \<noteq> c) s") (auto simp: cut_def dropWhile_eq_Nil_conv dest: set_takeWhileD)

lemma authorized_password:
  assumes "authorized K secret header"
  shows "secret \<noteq> [] \<and> (\<exists>enc user. header = ''Basic '' @ enc \<and> CHR '':'' \<notin> set user \<and> b64dec K enc = Some (user @ CHR '':'' # secret))"
proof -
  obtain decoded user where a: "secret \<noteq> []" "take 6 header = ''Basic ''" "b64dec K (drop 6 header) = Some decoded"
      and c: "cut (CHR '':'') decoded = (user, secret, True)"
    using assms by (auto simp: authorized_def split: if_splits option.splits prod.splits)
  have "header = ''Basic '' @ drop 6 header" using a(2) by (metis append_take_drop_id)
  with a cut_found [OF c] show ?thesis by blast
qed

lemma ApplyEmailEvent_again:
  "ApplyEmailEvent L flt appnow s iid mid st at d = (s', Inr u) \<Longrightarrow>
     fst (ApplyEmailEvent L flt' appnow' s' iid mid st at' d') = s'"
  by (auto simp: ApplyEmailEvent_def Let_def upd_def apply_event_again split: if_splits)

lemma HandlePostmark_again:
  assumes "HandlePostmark L K parse configured flt appnow s req = (s', r)" and "status r = 200"
  shows "fst (HandlePostmark L K parse configured flt' appnow' s' req) = s'"
proof (cases "wr_body req")
  case (Some ev)
  let ?do = "\<lambda>flt appnow s st at d. ApplyEmailEvent L flt appnow s (null_str (pe_Metadata ev ''invitation_id'')) (pe_MessageID ev) st at d"
  show ?thesis
  proof (cases "tracked parse ev")
    case t: (Some p)
    obtain st at d where p: "p = (st, at, d)" by (metis prod_cases3)
    obtain s1 r1 where one: "?do flt appnow s st at d = (s1, r1)" by fastforce
    obtain s2 r2 where two: "?do flt' appnow' s' st at d = (s2, r2)" by fastforce
    from assms Some t p one obtain u where "s1 = s'" "r1 = Inr u"
      by (auto simp: HandlePostmark_def split: if_splits sum.splits)
    then have "s2 = s'" using ApplyEmailEvent_again [of L flt appnow s _ _ st at d s' u flt' appnow' at d] one two by (metis fst_conv)
    then show ?thesis using Some t p two by (simp add: HandlePostmark_def split: sum.split)
  qed (use assms Some in \<open>simp add: HandlePostmark_def split: if_splits\<close>)
qed (use assms in \<open>simp add: HandlePostmark_def split: if_splits\<close>)

text \<open>
  C19. The public listener changes nothing for a caller without the webhook's secret, which the
  \<open>Authorization\<close> header must carry as its password, and an empty or blank secret admits nobody.
  With it a request changes email columns of invitations only, and only to a status further along;
  it is answered 500 only when the statement failed, and then nothing changed. An event that was
  taken may be delivered again at any time: the repetition changes nothing.
\<close>

theorem WebhookApp_guarded:
  assumes "WebhookApp L K parse configured flt appnow s (WPostmark req) = (s', r)"
  shows "(\<exists>is'. s' = s\<lparr>invitations := is'\<rparr> \<and> list_all2 email_later (invitations s) is') \<and>
    (status r = 500 \<longrightarrow> s' = s \<and> flt 0) \<and> status r \<in> {200, 403, 500} \<and>
    (status r \<noteq> 403 \<or> s' \<noteq> s \<longrightarrow> TrimSpace configured \<noteq> [] \<and>
       (\<exists>enc user. wr_authorization req = ''Basic '' @ enc \<and> CHR '':'' \<notin> set user \<and>
          b64dec K enc = Some (user @ CHR '':'' # TrimSpace configured))) \<and>
    (status r = 200 \<longrightarrow> fst (WebhookApp L K parse configured flt' appnow' s' (WPostmark req)) = s')"
proof -
  note same = email_rows_refl [of s]
  have again: "status r = 200 \<longrightarrow> fst (HandlePostmark L K parse configured flt' appnow' s' req) = s'"
    using assms HandlePostmark_again by simp
  show ?thesis
  proof (cases "authorized K (TrimSpace configured) (wr_authorization req)")
    case True
    then have "TrimSpace configured \<noteq> [] \<and> (\<exists>enc user. wr_authorization req = ''Basic '' @ enc \<and> CHR '':'' \<notin> set user \<and>
        b64dec K enc = Some (user @ CHR '':'' # TrimSpace configured))"
      by (rule authorized_password)
    moreover have "(\<exists>is'. s' = s\<lparr>invitations := is'\<rparr> \<and> list_all2 email_later (invitations s) is') \<and>
        (status r = 500 \<longrightarrow> s' = s \<and> flt 0) \<and> status r \<in> {200, 403, 500}"
      using assms True same
      by (auto simp: HandlePostmark_def split: option.splits prod.splits sum.splits dest: ApplyEmailEvent_result)
    ultimately show ?thesis using again by simp
  next
    case False
    then have "s' = s" "r = HttpError 403" using assms by (simp_all add: HandlePostmark_def)
    then show ?thesis using same by simp
  qed
qed

definition demo_delivery :: webhook_request where
  "demo_delivery = \<lparr>wr_authorization = ''Basic x:pw'', wr_body = Some \<lparr>pe_RecordType = ''Delivery'', pe_MessageID = [],
     pe_Metadata = [''invitation_id'' \<mapsto> ''i1''], pe_DeliveredAt = [], pe_BouncedAt = [], pe_ReceivedAt = [], pe_Type = [],
     pe_Description = []\<rparr>\<rparr>"

lemma WebhookApp_guarded_witness:
  "\<exists>s'. WebhookApp demo_library demo_crypto (\<lambda>_. None) '' pw '' no_faults 5 demo_invite_db (WPostmark demo_delivery) = (s', Reply 200 BNone) \<and>
     map i_email_status (invitations s') = [Some ''delivered''] \<and> list_all2 email_later (invitations demo_invite_db) (invitations s')"
proof -
  have t: "TrimSpace '' pw '' = ''pw''" by code_simp
  have a: "authorized demo_crypto ''pw'' ''Basic x:pw''" by (simp add: authorized_def demo_crypto_def cut_def)
  obtain s' where w: "WebhookApp demo_library demo_crypto (\<lambda>_. None) '' pw '' no_faults 5 demo_invite_db (WPostmark demo_delivery) =
      (s', Reply 200 BNone)" and d: "map i_email_status (invitations s') = [Some ''delivered'']"
    using a by (simp add: HandlePostmark_def t demo_delivery_def tracked_def ApplyEmailEvent_def parsePostmarkTime_def null_str_def
        demo_invite_db_def demo_invite_row_def demo_library_def upd_def apply_event_def email_rank_def)
  obtain is' where "s' = demo_invite_db\<lparr>invitations := is'\<rparr>" "list_all2 email_later (invitations demo_invite_db) is'"
    using WebhookApp_guarded [OF w] by blast
  with w d show ?thesis by (intro exI [of _ s']) simp
qed

end
