(* ===== verification/Identity.thy ===== *)
theory Identity
  imports Roster Sharing
begin

text \<open>
  The identity-api client, \<open>gateway/identity_api.go\<close>: one GraphQL query per call, and the cursor loop
  over the vehicles a licence is privileged on. The roster sweep trusts its answers to be whole, so
  the loop returns everything or an error.
\<close>

subsection \<open>What comes over the wire\<close>

text \<open>A device node that is present has a token id, which may be zero.\<close>

record vehicle_node =
  nd_token :: token_id
  nd_owner :: string
  nd_minted :: "string option"
  nd_definition :: string
  nd_make :: string
  nd_model :: string
  nd_year :: int
  nd_synthetic :: "int option"
  nd_aftermarket :: "int option"

record vehicles_page =
  vp_nodes :: "vehicle_node list"
  vp_next :: bool
  vp_cursor :: string
  vp_errors :: "string list"

record vehicle_reply =
  vr_vehicle :: "vehicle_node option"
  vr_errors :: "string list"

text \<open>The request or the read of its body failed; the body is not the JSON asked for; or it is.\<close>

datatype 'a wire = NoReply | BadBody | Decoded 'a

text \<open>
  The service behind the endpoint: the redirect URIs of a licence, a vehicle's owner, one page of a
  licence's vehicles (page size and cursor, \<open>None\<close> the first), one vehicle. \<open>iw_time\<close> is
  \<open>time.Parse(time.RFC3339, _)\<close>.
\<close>

record identity_wire =
  iw_configured :: bool
  iw_license :: "string \<Rightarrow> string list wire"
  iw_owner :: "token_id \<Rightarrow> string option wire"
  iw_vehicles :: "string \<Rightarrow> nat \<Rightarrow> string option \<Rightarrow> vehicles_page wire"
  iw_vehicle :: "token_id \<Rightarrow> vehicle_reply wire"
  iw_time :: "string \<Rightarrow> time option"

subsection \<open>The client\<close>

definition not_configured :: svc_error where
  "not_configured = Remote ''IDENTITY_API_ENDPOINT is not configured''"

definition license_redirect :: "identity_wire \<Rightarrow> string \<Rightarrow> svc_error + string" where
  "license_redirect W clientID =
     (if \<not> iw_configured W then Inl not_configured
      else case iw_license W clientID of
        NoReply \<Rightarrow> Inl (Remote ''identity-api query'')
      | BadBody \<Rightarrow> Inl (Remote ''identity-api response'')
      | Decoded edges \<Rightarrow>
        (case edges of
           [] \<Rightarrow> Inl (Remote ''developer license has no registered redirect URI'')
         | uri # _ \<Rightarrow> if uri = [] then Inl (Remote ''developer license has no registered redirect URI'') else Inr uri))"

definition vehicle_owner :: "library \<Rightarrow> identity_wire \<Rightarrow> token_id \<Rightarrow> svc_error + string" where
  "vehicle_owner L W tokenID =
     (if \<not> iw_configured W then Inl not_configured
      else case iw_owner W tokenID of
        NoReply \<Rightarrow> Inl (Remote ''identity-api vehicle query'')
      | BadBody \<Rightarrow> Inl (Remote ''identity-api response'')
      | Decoded owner \<Rightarrow>
        (case owner of
           None \<Rightarrow> Inl ErrVehicleUnknown
         | Some own \<Rightarrow>
           if own = [] then Inl ErrVehicleUnknown
           else if \<not> IsHexAddress L own then Inl (Remote ''identity-api returned a malformed owner'')
           else Inr (HexAddr L own)))"

fun device_tokenID :: "int option \<Rightarrow> token_id option" where
  "device_tokenID None = None"
| "device_tokenID (Some i) = (if i \<le> 0 then None else Some i)"

text \<open>A malformed owner is left unset.\<close>

definition roster_of_node :: "library \<Rightarrow> identity_wire \<Rightarrow> vehicle_node \<Rightarrow> roster_vehicle" where
  "roster_of_node L W n = \<lparr>rv_id = nd_token n,
     rv_owner = (if IsHexAddress L (nd_owner n) then HexAddr L (nd_owner n) else []),
     rv_definition = nd_definition n, rv_make = nd_make n, rv_model = nd_model n, rv_year = nd_year n,
     rv_minted = (case nd_minted n of None \<Rightarrow> None | Some ts \<Rightarrow> if ts = [] then None else iw_time W ts),
     rv_synthetic = device_tokenID (nd_synthetic n), rv_aftermarket = device_tokenID (nd_aftermarket n)\<rparr>"

definition privilegedVehiclesPageSize :: nat where
  "privilegedVehiclesPageSize = 100"

definition privilegedVehiclesMaxPages :: nat where
  "privilegedVehiclesMaxPages = 200"

function pages_from ::
  "library \<Rightarrow> identity_wire \<Rightarrow> string \<Rightarrow> nat \<Rightarrow> string option \<Rightarrow> roster_vehicle list \<Rightarrow> svc_error + roster_vehicle list" where
  "pages_from L W clientID page after out =
     (if privilegedVehiclesMaxPages \<le> page then Inl (Remote ''privileged vehicles: too many pages, refusing to loop'')
      else case iw_vehicles W clientID privilegedVehiclesPageSize after of
        NoReply \<Rightarrow> Inl (Remote ''identity-api privileged vehicles'')
      | BadBody \<Rightarrow> Inl (Remote ''identity-api response'')
      | Decoded res \<Rightarrow>
        if vp_errors res \<noteq> [] then Inl (Remote (hd (vp_errors res)))
        else let out' = out @ map (roster_of_node L W) (vp_nodes res) in
        if \<not> vp_next res then Inr out'
        else if vp_cursor res = [] then Inl (Remote ''privileged vehicles: hasNextPage with no cursor'')
        else pages_from L W clientID (page + 1) (Some (vp_cursor res)) out')"
  by pat_completeness auto

termination pages_from
  by (relation "measure (\<lambda>(_, _, _, page, _, _). privilegedVehiclesMaxPages - page)") auto

declare pages_from.simps [simp del]

definition privileged_vehicles :: "library \<Rightarrow> identity_wire \<Rightarrow> string \<Rightarrow> svc_error + roster_vehicle list" where
  "privileged_vehicles L W clientID =
     (if \<not> iw_configured W then Inl not_configured
      else if clientID = [] then Inl (Remote ''client id is required'')
      else pages_from L W clientID 0 None [])"

definition vehicle_detail :: "library \<Rightarrow> identity_wire \<Rightarrow> token_id \<Rightarrow> svc_error + roster_vehicle" where
  "vehicle_detail L W tokenID =
     (if \<not> iw_configured W then Inl not_configured
      else case iw_vehicle W tokenID of
        NoReply \<Rightarrow> Inl (Remote ''identity-api vehicle detail'')
      | BadBody \<Rightarrow> Inl (Remote ''identity-api response'')
      | Decoded res \<Rightarrow>
        if vr_errors res \<noteq> [] then Inl (Remote (hd (vr_errors res)))
        else case vr_vehicle res of None \<Rightarrow> Inl ErrVehicleUnknown | Some n \<Rightarrow> Inr (roster_of_node L W n))"

subsection \<open>What its users see\<close>

text \<open>
  The roster asks through \<open>identity_api\<close>, sharing through \<open>owner_answer\<close>; both are this client with
  the error reduced to what the caller tells apart.
\<close>

definition answered :: "svc_error + 'a \<Rightarrow> 'a option" where
  "answered r = (case r of Inl _ \<Rightarrow> None | Inr v \<Rightarrow> Some v)"

definition roster_api :: "library \<Rightarrow> identity_wire \<Rightarrow> identity_api" where
  "roster_api L W = \<lparr>PrivilegedVehicles = (\<lambda>c. answered (privileged_vehicles L W c)),
     VehicleDetail = (\<lambda>i. answered (vehicle_detail L W i))\<rparr>"

definition owner_api :: "library \<Rightarrow> identity_wire \<Rightarrow> token_id \<Rightarrow> owner_answer" where
  "owner_api L W i =
     (case vehicle_owner L W i of
        Inl e \<Rightarrow> if e = ErrVehicleUnknown then OwnerUnknown else OwnerFailed
      | Inr own \<Rightarrow> OwnerFound own)"

text \<open>Asked for a token, the service answers about that token.\<close>

definition wire_law :: "identity_wire \<Rightarrow> bool" where
  "wire_law W \<longleftrightarrow> (\<forall>i r n. iw_vehicle W i = Decoded r \<and> vr_vehicle r = Some n \<longrightarrow> nd_token n = i)"

lemma roster_api_detail_law: "wire_law W \<Longrightarrow> detail_law (roster_api L W)"
  by (auto simp: wire_law_def detail_law_def roster_api_def answered_def vehicle_detail_def roster_of_node_def
      split: sum.splits if_splits wire.splits option.splits)

text \<open>A vehicle as the roster may trust it: its owner canonical or unset, its devices real.\<close>

definition trusted_vehicle :: "library \<Rightarrow> roster_vehicle \<Rightarrow> bool" where
  "trusted_vehicle L v \<longleftrightarrow> (rv_owner v = [] \<or> HexAddr L (rv_owner v) = rv_owner v) \<and>
     (\<forall>d. rv_synthetic v = Some d \<longrightarrow> 0 < d) \<and> (\<forall>d. rv_aftermarket v = Some d \<longrightarrow> 0 < d)"

lemma device_tokenID_pos: "device_tokenID n = Some d \<Longrightarrow> 0 < d"
  by (cases n) (auto split: if_splits)

lemma roster_of_node_trusted: "address_laws L \<Longrightarrow> trusted_vehicle L (roster_of_node L W n)"
  by (auto simp: trusted_vehicle_def roster_of_node_def HexAddr_idem device_tokenID_pos)

subsection \<open>The cursor loop\<close>

text \<open>The pages a server serves from a cursor on, each linked to the next, none with an error.\<close>

fun page_chain :: "identity_wire \<Rightarrow> string \<Rightarrow> string option \<Rightarrow> vehicles_page list \<Rightarrow> bool" where
  "page_chain W c after [] = False"
| "page_chain W c after (p # ps) \<longleftrightarrow>
     iw_vehicles W c privilegedVehiclesPageSize after = Decoded p \<and> vp_errors p = [] \<and>
     (if ps = [] then \<not> vp_next p else vp_next p \<and> vp_cursor p \<noteq> [] \<and> page_chain W c (Some (vp_cursor p)) ps)"

lemma pages_from_iff:
  "pages_from L W c page after out = Inr vs \<longleftrightarrow>
     (\<exists>ps. page_chain W c after ps \<and> page + length ps \<le> privilegedVehiclesMaxPages \<and>
        vs = out @ map (roster_of_node L W) (concat (map vp_nodes ps)))"
proof (induction L W c page after out rule: pages_from.induct)
  case (1 L W c page after out)
  show ?case
  proof (cases "iw_vehicles W c privilegedVehiclesPageSize after")
    case (Decoded res)
    let ?out = "out @ map (roster_of_node L W) (vp_nodes res)"
    have chain: "page_chain W c after ps \<longleftrightarrow> (\<exists>qs. ps = res # qs \<and> vp_errors res = [] \<and>
        (if qs = [] then \<not> vp_next res else vp_next res \<and> vp_cursor res \<noteq> [] \<and> page_chain W c (Some (vp_cursor res)) qs))" for ps
      using Decoded by (cases ps) auto
    show ?thesis
    proof (cases "page < privilegedVehiclesMaxPages \<and> vp_errors res = [] \<and> vp_next res \<and> vp_cursor res \<noteq> []")
      case True
      then have "pages_from L W c page after out = pages_from L W c (page + 1) (Some (vp_cursor res)) ?out"
        using Decoded by (subst pages_from.simps) (simp add: Let_def)
      moreover have "page_chain W c after ps \<longleftrightarrow> (\<exists>qs. ps = res # qs \<and> page_chain W c (Some (vp_cursor res)) qs)" for ps
        using True chain [of ps] by (cases ps) auto
      ultimately show ?thesis using "1.IH" [OF _ Decoded _ refl] True by auto
    next
      case False
      then show ?thesis unfolding pages_from.simps [of L W c page] using Decoded by (auto simp: Let_def chain)
    qed
  qed (subst pages_from.simps; auto elim: page_chain.elims)+
qed

text \<open>
  C28. The vehicles of a licence are returned whole or not at all: exactly when the service serves, from
  the first page on, a chain of at most 200 pages without an error that comes to an end, and then all
  of its vehicles in order. A GraphQL error, an unreadable reply, a missing cursor or an endless chain is
  an error, so the sweep never takes a part of a fleet for the fleet.
\<close>

theorem privileged_vehicles_whole:
  "privileged_vehicles L W clientID = Inr vs \<longleftrightarrow>
     iw_configured W \<and> clientID \<noteq> [] \<and>
     (\<exists>ps. page_chain W clientID None ps \<and> length ps \<le> privilegedVehiclesMaxPages \<and>
        vs = map (roster_of_node L W) (concat (map vp_nodes ps)))"
  using pages_from_iff [of L W clientID 0 None "[]" vs] by (simp add: privileged_vehicles_def)

end
