(* ===== verification/Commands.thy ===== *)
theory Commands
  imports FleetGroups Invitations
begin

text \<open>
  What the commands of \<open>src/cmd/fleet-tenancy-api\<close> share: how one ends, why one refuses, and the
  check that the tenants the source systems name are here. A command reads and verifies everything
  before it writes, and writes in one transaction.
\<close>

datatype exit_status = ExitSuccess | ExitFailure | ExitUsageError

text \<open>
  A statement or connection that failed; a constraint the write ran into; or what the verification
  found: one group under two tenants, one name on two groups, a membership of an unknown group or
  of another tenant's, tenants that are not here, one link claimed by two invitations, one licence
  by two tenants, a secret that does not open, a count that does not reconcile.
\<close>

datatype command_error =
    Fault string
  | Constraint string
  | ClaimsTwoTenants string
  | SameName string string
  | UnknownGroup string
  | WrongTenant string
  | MissingTenants "uuid list"
  | LinkClaimedTwice uuid uuid
  | SharedClientID string string
  | Undecryptable string

text \<open>\<open>checkTenantsExist\<close>: the tenants named by the sources, less those with a row here, sorted.\<close>

definition checkTenantsExist :: "faults \<Rightarrow> db \<Rightarrow> uuid list \<Rightarrow> command_error option" where
  "checkTenantsExist flt s named =
     (if flt 0 then Some (Fault ''read tenants'')
      else let want = filter (\<lambda>t. t \<notin> t_id ` set (tenants s)) (remdups named) in
      if want = [] then None else Some (MissingTenants (sort want)))"

lemma checkTenantsExist_None:
  "checkTenantsExist flt s named = None \<longleftrightarrow> \<not> flt 0 \<and> (\<forall>t\<in>set named. tenant_exists s t)"
  unfolding checkTenantsExist_def Let_def tenant_exists_def list_ex_iff by (auto simp: filter_empty_conv) (metis image_eqI)

lemma map_upd_key: "(\<And>r. k (f r) = k r) \<Longrightarrow> map k (upd P f rs) = map k rs"
  by (induction rs) auto

text \<open>How a command ends once its writes are known.\<close>

definition exit_with :: "db \<Rightarrow> db \<times> command_error option \<Rightarrow> db \<times> exit_status" where
  "exit_with s r = (case r of (s', None) \<Rightarrow> (s', ExitSuccess) | (_, Some e) \<Rightarrow> (s, ExitFailure))"

end
