(* ===== verification/BackfillGroups.thy ===== *)
theory BackfillGroups
  imports Commands "HOL-Library.AList"
begin

text \<open>
  The command \<open>backfill-groups\<close> (\<open>cmd/fleet-tenancy-api/backfill_groups.go\<close>): fleet groups and their
  vehicles from the two systems this service replaces, merged in memory, verified, and written in
  place of whatever groups are here. The write meets the triggers of the later migration
  \<open>20260821120000_group_reference_integrity.sql\<close>, as any deletion of groups now does.
\<close>

subsection \<open>The sources\<close>

record src_group =
  sg_id :: string
  sg_tenant :: uuid
  sg_name :: string
  sg_color :: string
  sg_created :: time
  sg_updated :: time
  sg_source :: string

record group_membership =
  gm_tenant :: uuid
  gm_token :: token_id
  gm_group :: string
  gm_created :: time

text \<open>What the queries on kaufmann-oracle and fleet-lite return.\<close>

record group_sources =
  kGroups :: "src_group list"
  fGroups :: "src_group list"
  kMembs :: "group_membership list"
  fMembs :: "group_membership list"

subsection \<open>The merge\<close>

text \<open>A Go map from ids is the list of its entries; every loop over one sorts the ids first.\<close>

record merged_group =
  mg_group :: src_group
  mg_sources :: nat

definition fold_in :: "src_group \<Rightarrow> merged_group \<Rightarrow> merged_group" where
  "fold_in g m =
     (let cur = mg_group m;
          newer = (if sg_updated cur < sg_updated g
                   then cur\<lparr>sg_name := sg_name g, sg_color := sg_color g, sg_updated := sg_updated g, sg_source := sg_source g\<rparr>
                   else cur)
      in \<lparr>mg_group = (if sg_created g < sg_created newer then newer\<lparr>sg_created := sg_created g\<rparr> else newer),
          mg_sources = mg_sources m + 1\<rparr>)"

fun mergeGroups :: "src_group list \<Rightarrow> merged_group list \<Rightarrow> command_error + merged_group list" where
  "mergeGroups [] merged = Inr merged"
| "mergeGroups (g # gs) merged =
     (case find (\<lambda>m. sg_id (mg_group m) = sg_id g) merged of
        None \<Rightarrow> mergeGroups gs (merged @ [\<lparr>mg_group = g, mg_sources = 1\<rparr>])
      | Some cur \<Rightarrow>
        if sg_tenant (mg_group cur) \<noteq> sg_tenant g then Inl (ClaimsTwoTenants (sg_id g))
        else mergeGroups gs (upd (\<lambda>m. sg_id (mg_group m) = sg_id g) (fold_in g) merged))"

text \<open>The groups in the order of their ids.\<close>

definition by_id :: "merged_group list \<Rightarrow> src_group list" where
  "by_id merged = sort_key sg_id (map mg_group merged)"

text \<open>
  The key of the scan joins tenant and name with a NUL byte, which no text of Postgres holds; a pair
  here.
\<close>

definition group_name :: "src_group \<Rightarrow> uuid \<times> string" where
  "group_name g = (sg_tenant g, sg_name g)"

fun collision :: "src_group list \<Rightarrow> ((uuid \<times> string) \<times> string) list \<Rightarrow> command_error option" where
  "collision [] seen = None"
| "collision (g # gs) seen =
     (case map_of seen (group_name g) of
        Some other \<Rightarrow> Some (SameName other (sg_id g))
      | None \<Rightarrow> collision gs ((group_name g, sg_id g) # seen))"

definition checkNameCollisions :: "merged_group list \<Rightarrow> command_error option" where
  "checkNameCollisions merged = collision (by_id merged) []"

type_synonym memb_key = "uuid \<times> token_id \<times> string"

definition memb_key :: "group_membership \<Rightarrow> memb_key" where
  "memb_key m = (gm_tenant m, gm_token m, gm_group m)"

fun mergeMemberships ::
  "group_membership list \<Rightarrow> merged_group list \<Rightarrow> (memb_key \<times> time) list \<Rightarrow> command_error + (memb_key \<times> time) list" where
  "mergeMemberships [] merged out = Inr out"
| "mergeMemberships (m # ms) merged out =
     (case find (\<lambda>g. sg_id (mg_group g) = gm_group m) merged of
        None \<Rightarrow> Inl (UnknownGroup (gm_group m))
      | Some g \<Rightarrow>
        if sg_tenant (mg_group g) \<noteq> gm_tenant m then Inl (WrongTenant (gm_group m))
        else mergeMemberships ms merged
          (case map_of out (memb_key m) of
             None \<Rightarrow> out @ [(memb_key m, gm_created m)]
           | Some cur \<Rightarrow> if gm_created m < cur then AList.update (memb_key m) (gm_created m) out else out))"

subsection \<open>Verification and write\<close>

text \<open>Statements 0 to 4, and the two connections before them.\<close>

definition verify_groups ::
  "faults \<Rightarrow> db \<Rightarrow> group_sources \<Rightarrow> command_error + merged_group list \<times> (memb_key \<times> time) list" where
  "verify_groups flt s src =
     (if flt 0 then Inl (Fault ''read kaufmann groups'')
      else if flt 1 then Inl (Fault ''read fleet-lite groups'')
      else case mergeGroups (kGroups src @ fGroups src) [] of
        Inl e \<Rightarrow> Inl e
      | Inr merged \<Rightarrow>
        (case checkNameCollisions merged of
           Some e \<Rightarrow> Inl e
         | None \<Rightarrow>
           if flt 2 then Inl (Fault ''read kaufmann memberships'')
           else if flt 3 then Inl (Fault ''read fleet-lite memberships'')
           else case mergeMemberships (kMembs src @ fMembs src) merged [] of
             Inl e \<Rightarrow> Inl e
           | Inr membs \<Rightarrow>
             (case checkTenantsExist (\<lambda>n. flt (n + 4)) s (map (sg_tenant \<circ> mg_group) merged) of
                Some e \<Rightarrow> Inl e
              | None \<Rightarrow> Inr (merged, membs))))"

text \<open>
  \<open>DELETE FROM fleet_groups\<close> with no condition. The triggers run after the statement, row by row: each
  strips its id from the scopes of its tenant, and the scope that remains is checked against a
  table that is empty by then. So the statement fails when a scope held a second group.
\<close>

definition strip_ok :: "db \<Rightarrow> group_row \<Rightarrow> bool" where
  "strip_ok s g \<longleftrightarrow>
     list_all (\<lambda>m. m_tenant m = g_tenant g \<and> in_scope (g_id g) (m_scope m) \<longrightarrow>
       scope_groups_exist s (m_tenant m) (strip_scope (g_id g) (m_scope m))) (memberships s) \<and>
     list_all (\<lambda>i. i_tenant i = g_tenant g \<and> in_scope (g_id g) (i_scope i) \<longrightarrow>
       scope_groups_exist s (i_tenant i) (strip_scope (g_id g) (i_scope i))) (invitations s)"

fun strip_all :: "group_row list \<Rightarrow> db \<Rightarrow> db option" where
  "strip_all [] s = Some s"
| "strip_all (g # gs) s = (if strip_ok s g then strip_all gs (drop_group g s) else None)"

definition clear_groups :: "db \<Rightarrow> db option" where
  "clear_groups s = strip_all (fleet_groups s) (s\<lparr>fleet_groups := [], group_vehicles := []\<rparr>)"

definition group_row_for :: "src_group \<Rightarrow> group_row" where
  "group_row_for g = \<lparr>g_id = sg_id g, g_tenant = sg_tenant g, g_name = sg_name g, g_color = sg_color g,
     g_created = sg_created g, g_updated = sg_updated g\<rparr>"

text \<open>The constraints of \<open>fleet_groups\<close>: primary key, one name per tenant, the tenant exists.\<close>

fun insert_groups :: "faults \<Rightarrow> src_group list \<Rightarrow> db \<Rightarrow> command_error + db" where
  "insert_groups flt [] s = Inr s"
| "insert_groups flt (g # gs) s =
     (if flt 0 then Inl (Fault ''insert group'')
      else if list_ex (\<lambda>x. g_id x = sg_id g \<or> (g_tenant x = sg_tenant g \<and> g_name x = sg_name g)) (fleet_groups s) \<or>
              \<not> tenant_exists s (sg_tenant g)
      then Inl (Constraint ''insert group'')
      else insert_groups (\<lambda>n. flt (n + 1)) gs (s\<lparr>fleet_groups := fleet_groups s @ [group_row_for g]\<rparr>))"

definition memb_row :: "memb_key \<Rightarrow> group_vehicle_row" where
  "memb_row k = \<lparr>gv_tenant = fst k, gv_token = fst (snd k), gv_group = snd (snd k)\<rparr>"

fun insert_membs :: "faults \<Rightarrow> memb_key list \<Rightarrow> db \<Rightarrow> command_error + db" where
  "insert_membs flt [] s = Inr s"
| "insert_membs flt (k # ks) s =
     (if flt 0 then Inl (Fault ''insert membership'')
      else if memb_row k \<in> set (group_vehicles s) \<or>
              \<not> list_ex (\<lambda>x. g_id x = snd (snd k) \<and> g_tenant x = fst k) (fleet_groups s)
      then Inl (Constraint ''insert membership'')
      else insert_membs (\<lambda>n. flt (n + 1)) ks (s\<lparr>group_vehicles := group_vehicles s @ [memb_row k]\<rparr>))"

text \<open>Memberships go in by group and token; groups are unique to a tenant, so the order is total.\<close>

definition memb_order :: "(memb_key \<times> time) list \<Rightarrow> memb_key list" where
  "memb_order membs = sort_key (\<lambda>k. snd (snd k)) (sort_key (\<lambda>k. fst (snd k)) (map fst membs))"

text \<open>One transaction: begin, the two deletions, the inserts, commit.\<close>

definition replace_groups ::
  "faults \<Rightarrow> db \<Rightarrow> merged_group list \<Rightarrow> (memb_key \<times> time) list \<Rightarrow> db \<times> command_error option" where
  "replace_groups flt s merged membs =
     (if flt 0 then (s, Some (Fault ''begin''))
      else if flt 1 then (s, Some (Fault ''clear memberships''))
      else if flt 2 then (s, Some (Fault ''clear groups''))
      else case clear_groups s of
        None \<Rightarrow> (s, Some (Constraint ''clear groups''))
      | Some s1 \<Rightarrow>
        (case insert_groups (\<lambda>n. flt (n + 3)) (by_id merged) s1 of
           Inl e \<Rightarrow> (s, Some e)
         | Inr s2 \<Rightarrow>
           (case insert_membs (\<lambda>n. flt (n + 3 + length merged)) (memb_order membs) s2 of
              Inl e \<Rightarrow> (s, Some e)
            | Inr s3 \<Rightarrow>
              if flt (3 + length merged + length membs) then (s, Some (Fault ''commit'')) else (s3, None))))"

definition BackfillGroups ::
  "string \<Rightarrow> string \<Rightarrow> faults \<Rightarrow> db \<Rightarrow> group_sources \<Rightarrow> bool \<Rightarrow> db \<times> exit_status" where
  "BackfillGroups kDSN fDSN flt s src dryRun =
     (if kDSN = [] \<or> fDSN = [] then (s, ExitUsageError)
      else if flt 0 \<or> flt 1 then (s, ExitFailure)
      else case verify_groups (\<lambda>n. flt (n + 2)) s src of
        Inl e \<Rightarrow> (s, ExitFailure)
      | Inr (merged, membs) \<Rightarrow>
        if dryRun then (s, ExitSuccess)
        else exit_with s (replace_groups (\<lambda>n. flt (n + 7)) s merged membs))"

subsection \<open>The merge\<close>

text \<open>
  What is kept of the copies \<open>xs\<close> of a group: the name and colour of one that was updated last, the
  earliest creation, the tenant all of them name.
\<close>

definition merged_from :: "src_group list \<Rightarrow> src_group \<Rightarrow> bool" where
  "merged_from xs g \<longleftrightarrow>
     (\<forall>c\<in>set xs. sg_id c = sg_id g \<longrightarrow> sg_tenant c = sg_tenant g \<and> sg_updated c \<le> sg_updated g \<and> sg_created g \<le> sg_created c) \<and>
     (\<exists>c\<in>set xs. sg_id c = sg_id g \<and> sg_name c = sg_name g \<and> sg_color c = sg_color g \<and> sg_updated c = sg_updated g) \<and>
     (\<exists>c\<in>set xs. sg_id c = sg_id g \<and> sg_created c = sg_created g)"

abbreviation mg_id :: "merged_group \<Rightarrow> string" where "mg_id m \<equiv> sg_id (mg_group m)"

definition summary :: "src_group list \<Rightarrow> merged_group list \<Rightarrow> bool" where
  "summary xs merged \<longleftrightarrow> distinct (map mg_id merged) \<and> mg_id ` set merged = sg_id ` set xs \<and>
     (\<forall>m\<in>set merged. merged_from xs (mg_group m))"

definition one_tenant :: "src_group list \<Rightarrow> bool" where
  "one_tenant xs \<longleftrightarrow> (\<forall>c\<in>set xs. \<forall>d\<in>set xs. sg_id c = sg_id d \<longrightarrow> sg_tenant c = sg_tenant d)"

lemma fold_in_id [simp]: "mg_id (fold_in g m) = mg_id m" "sg_tenant (mg_group (fold_in g m)) = sg_tenant (mg_group m)"
  by (simp_all add: fold_in_def Let_def)

lemma merged_from_other: "sg_id g \<noteq> sg_id x \<Longrightarrow> merged_from xs x \<Longrightarrow> merged_from (xs @ [g]) x"
  by (auto simp: merged_from_def)

lemma merged_from_fold_in:
  assumes "merged_from xs (mg_group m)" and "mg_id m = sg_id g" and "sg_tenant (mg_group m) = sg_tenant g"
  shows "merged_from (xs @ [g]) (mg_group (fold_in g m))"
  using assms by (auto simp: merged_from_def fold_in_def Let_def split: if_splits)

lemma summary_new:
  assumes "summary xs merged" and "find (\<lambda>m. mg_id m = sg_id g) merged = None"
  shows "summary (xs @ [g]) (merged @ [\<lparr>mg_group = g, mg_sources = 1\<rparr>])"
proof -
  have "sg_id g \<notin> mg_id ` set merged" using assms(2) by (auto simp: find_None)
  then have new: "sg_id g \<notin> sg_id ` set xs" using assms(1) by (simp add: summary_def)
  then have "\<forall>c\<in>set xs. sg_id c \<noteq> sg_id g" by (metis imageI)
  then have "merged_from (xs @ [g]) g" by (simp add: merged_from_def)
  moreover have "merged_from (xs @ [g]) (mg_group m)" if "m \<in> set merged" for m
    using that assms by (intro merged_from_other) (auto simp: summary_def find_None)
  ultimately show ?thesis using assms new by (auto simp: summary_def)
qed

lemma summary_fold:
  assumes "summary xs merged" and "find (\<lambda>m. mg_id m = sg_id g) merged = Some cur" and "sg_tenant (mg_group cur) = sg_tenant g"
  shows "summary (xs @ [g]) (upd (\<lambda>m. mg_id m = sg_id g) (fold_in g) merged)"
proof -
  have cur: "cur \<in> set merged" "mg_id cur = sg_id g" using find_SomeD [OF assms(2)] by auto
  have one: "m = cur" if "m \<in> set merged" "mg_id m = sg_id g" for m
    using assms(1) cur that by (auto simp: summary_def distinct_map inj_on_def)
  have ids: "map mg_id (upd (\<lambda>m. mg_id m = sg_id g) (fold_in g) merged) = map mg_id merged"
    by (rule map_upd_key) simp
  then have idset: "mg_id ` set (upd (\<lambda>m. mg_id m = sg_id g) (fold_in g) merged) = mg_id ` set merged"
    by (metis list.set_map)
  have "merged_from (xs @ [g]) (mg_group (fold_in g m))" if "m \<in> set merged" "mg_id m = sg_id g" for m
    using assms(1,3) one [OF that] that by (intro merged_from_fold_in) (simp_all add: summary_def)
  moreover have "merged_from (xs @ [g]) (mg_group m)" if "m \<in> set merged" "mg_id m \<noteq> sg_id g" for m
    using assms(1) that by (intro merged_from_other) (simp_all add: summary_def)
  ultimately have "\<forall>m\<in>set (upd (\<lambda>m. mg_id m = sg_id g) (fold_in g) merged). merged_from (xs @ [g]) (mg_group m)"
    unfolding ball_upd by simp
  moreover have "sg_id g \<in> sg_id ` set xs" using assms(1) cur by (metis imageI summary_def)
  ultimately show ?thesis using assms(1) ids idset by (simp add: summary_def insert_absorb)
qed

lemma mergeGroups_summary: "summary xs merged \<Longrightarrow> mergeGroups gs merged = Inr merged' \<Longrightarrow> summary (xs @ gs) merged'"
proof (induction gs merged arbitrary: xs rule: mergeGroups.induct)
  case (2 g gs merged)
  show ?case
  proof (cases "find (\<lambda>m. mg_id m = sg_id g) merged")
    case None
    with "2.IH"(1) [OF None, of "xs @ [g]"] "2.prems" summary_new [OF "2.prems"(1) None] show ?thesis by simp
  next
    case (Some cur)
    with "2.IH"(2) [OF Some, of "xs @ [g]"] "2.prems" summary_fold [OF "2.prems"(1) Some] show ?thesis by (simp split: if_splits)
  qed
qed simp

lemma mergeGroups_total:
  "summary xs merged \<Longrightarrow> one_tenant (xs @ gs) \<Longrightarrow> \<exists>merged'. mergeGroups gs merged = Inr merged'"
proof (induction gs merged arbitrary: xs rule: mergeGroups.induct)
  case (2 g gs merged)
  show ?case
  proof (cases "find (\<lambda>m. mg_id m = sg_id g) merged")
    case None
    with "2.IH"(1) [OF None, of "xs @ [g]"] "2.prems" summary_new [OF "2.prems"(1) None] show ?thesis by simp
  next
    case (Some cur)
    then have cur: "merged_from xs (mg_group cur)" "mg_id cur = sg_id g"
      using find_SomeD [OF Some] "2.prems"(1) by (auto simp: summary_def)
    then obtain c where "c \<in> set xs" "sg_id c = sg_id g" "sg_tenant c = sg_tenant (mg_group cur)"
      by (auto simp: merged_from_def)
    with "2.prems"(2) have t: "sg_tenant (mg_group cur) = sg_tenant g" unfolding one_tenant_def by (metis Un_iff list.set_intros(1) set_append)
    with "2.IH"(2) [OF Some, of "xs @ [g]"] "2.prems"(2) summary_fold [OF "2.prems"(1) Some] Some show ?thesis by simp
  qed
qed simp

lemma summary_one_tenant: "summary xs merged \<Longrightarrow> one_tenant xs"
  unfolding summary_def one_tenant_def merged_from_def by (metis (no_types, lifting) imageE imageI)

lemma mergeGroups_ok: "(\<exists>merged. mergeGroups gs [] = Inr merged) \<longleftrightarrow> one_tenant gs"
  using mergeGroups_summary [of "[]" "[]" gs] mergeGroups_total [of "[]" "[]" gs] summary_one_tenant
  by (fastforce simp: summary_def)

lemma collision_None:
  "collision gs seen = None \<longleftrightarrow> distinct (map group_name gs) \<and> (\<forall>g\<in>set gs. group_name g \<notin> fst ` set seen)"
proof (induction gs arbitrary: seen)
  case (Cons g gs)
  show ?case
  proof (cases "map_of seen (group_name g)")
    case None
    then have new: "group_name g \<notin> fst ` set seen" by (simp add: map_of_eq_None_iff)
    have "collision (g # gs) seen = None \<longleftrightarrow>
        distinct (map group_name gs) \<and> (\<forall>x\<in>set gs. group_name x \<notin> insert (group_name g) (fst ` set seen))"
      using None Cons.IH [of "(group_name g, sg_id g) # seen"] by simp
    with new show ?thesis by (auto simp del: collision.simps) (metis image_eqI)
  next
    case (Some other)
    then have "group_name g \<in> fst ` set seen" by (metis domI dom_map_of_conv_image_fst)
    with Some show ?thesis by simp
  qed
qed simp

lemma checkNameCollisions_None: "checkNameCollisions merged = None \<longleftrightarrow> distinct (map group_name (by_id merged))"
  by (simp add: checkNameCollisions_def collision_None)

lemma by_id_simps [simp]:
  "set (by_id merged) = mg_group ` set merged" "length (by_id merged) = length merged"
  by (simp_all add: by_id_def)

lemma distinct_by_id: "distinct (map sg_id (by_id merged)) \<longleftrightarrow> distinct (map mg_id merged)"
proof -
  have "mset (map sg_id (by_id merged)) = mset (map mg_id merged)"
    by (simp add: by_id_def multiset.map_comp comp_def)
  then show ?thesis by (rule mset_eq_imp_distinct_iff)
qed

text \<open>Every membership names a group the merge knows, under that group's tenant.\<close>

definition memb_known :: "merged_group list \<Rightarrow> group_membership \<Rightarrow> bool" where
  "memb_known merged m \<longleftrightarrow> (\<exists>g\<in>set merged. mg_id g = gm_group m \<and> sg_tenant (mg_group g) = gm_tenant m)"

lemma find_by_id:
  "distinct (map mg_id merged) \<Longrightarrow>
     find (\<lambda>g. mg_id g = i) merged = Some g \<longleftrightarrow> g \<in> set merged \<and> mg_id g = i"
  by (induction merged) auto

definition keep_earliest :: "group_membership \<Rightarrow> (memb_key \<times> time) list \<Rightarrow> (memb_key \<times> time) list" where
  "keep_earliest m out =
     (case map_of out (memb_key m) of
        None \<Rightarrow> out @ [(memb_key m, gm_created m)]
      | Some cur \<Rightarrow> if gm_created m < cur then AList.update (memb_key m) (gm_created m) out else out)"

lemma fst_update: "fst ` set (AList.update k t out) = insert k (fst ` set out)"
  by (simp add: dom_update)

lemma keep_earliest_keys: "fst ` set (keep_earliest m out) = insert (memb_key m) (fst ` set out)"
proof (cases "map_of out (memb_key m)")
  case (Some cur)
  then have "memb_key m \<in> fst ` set out" by (metis domI dom_map_of_conv_image_fst)
  with Some show ?thesis by (simp add: keep_earliest_def fst_update insert_absorb)
qed (simp add: keep_earliest_def)

lemma keep_earliest_distinct: "distinct (map fst out) \<Longrightarrow> distinct (map fst (keep_earliest m out))"
  by (auto simp: keep_earliest_def map_of_eq_None_iff distinct_update split: option.split)

lemma mergeMemberships_Cons:
  "mergeMemberships (m # ms) merged out = Inr out' \<longleftrightarrow>
     (\<exists>g. find (\<lambda>g. mg_id g = gm_group m) merged = Some g \<and> sg_tenant (mg_group g) = gm_tenant m) \<and>
     mergeMemberships ms merged (keep_earliest m out) = Inr out'"
  by (auto simp: keep_earliest_def split: option.split)

lemma mergeMemberships_Inr:
  assumes "mergeMemberships ms merged out = Inr out'" and "distinct (map fst out)"
  shows "(\<forall>m\<in>set ms. memb_known merged m) \<and> distinct (map fst out') \<and>
    fst ` set out' = fst ` set out \<union> memb_key ` set ms"
  using assms
proof (induction ms arbitrary: out)
  case (Cons m ms)
  then obtain g where g: "find (\<lambda>g. mg_id g = gm_group m) merged = Some g" "sg_tenant (mg_group g) = gm_tenant m"
      and rest: "mergeMemberships ms merged (keep_earliest m out) = Inr out'"
    unfolding mergeMemberships_Cons by blast
  have "memb_known merged m" using g find_SomeD [OF g(1)] by (auto simp: memb_known_def)
  then show ?case using Cons.IH [OF rest keep_earliest_distinct [OF Cons.prems(2)]] by (simp add: keep_earliest_keys)
qed simp

lemma mergeMemberships_total:
  assumes "distinct (map mg_id merged)" and "\<forall>m\<in>set ms. memb_known merged m"
  shows "\<exists>out'. mergeMemberships ms merged out = Inr out'"
  using assms(2)
proof (induction ms arbitrary: out)
  case (Cons m ms)
  then obtain g where "find (\<lambda>g. mg_id g = gm_group m) merged = Some g" "sg_tenant (mg_group g) = gm_tenant m"
    using find_by_id [OF assms(1)] by (auto simp: memb_known_def)
  moreover obtain out' where "mergeMemberships ms merged (keep_earliest m out) = Inr out'" using Cons by auto
  ultimately show ?case unfolding mergeMemberships_Cons by blast
qed simp

lemma set_memb_order [simp]: "set (memb_order membs) = fst ` set membs"
  by (simp add: memb_order_def)

lemma distinct_memb_order: "distinct (map fst membs) \<Longrightarrow> distinct (memb_order membs)"
  by (simp add: memb_order_def)

lemma length_memb_order [simp]: "length (memb_order membs) = length membs"
  by (simp add: memb_order_def)

subsection \<open>Clearing the table\<close>

text \<open>The scope a row is left with when the groups \<open>gs\<close> go at once.\<close>

definition hit :: "group_row list \<Rightarrow> uuid \<Rightarrow> scope \<Rightarrow> bool" where
  "hit gs t sc \<longleftrightarrow> (\<exists>g\<in>set gs. g_tenant g = t \<and> in_scope (g_id g) sc)"

definition emptied :: "group_row list \<Rightarrow> uuid \<Rightarrow> scope \<Rightarrow> scope" where
  "emptied gs t sc = (if hit gs t sc then Some [] else sc)"

text \<open>A scope that names one group only, however often.\<close>

definition single :: "scope \<Rightarrow> bool" where
  "single sc \<longleftrightarrow> (\<forall>gs. sc = Some gs \<longrightarrow> (\<forall>x\<in>set gs. \<forall>y\<in>set gs. x = y))"

definition rows_ok :: "db \<Rightarrow> (uuid \<Rightarrow> scope \<Rightarrow> bool) \<Rightarrow> bool" where
  "rows_ok s P \<longleftrightarrow> (\<forall>m\<in>set (memberships s). P (m_tenant m) (m_scope m)) \<and> (\<forall>i\<in>set (invitations s). P (i_tenant i) (i_scope i))"

lemma strip_ok_rows:
  assumes "fleet_groups s = []"
  shows "strip_ok s g \<longleftrightarrow> rows_ok s (\<lambda>t sc. hit [g] t sc \<longrightarrow> single sc)"
proof -
  have "scope_groups_exist s t (strip_scope (g_id g) sc) \<longleftrightarrow> single sc" if scoped: "in_scope (g_id g) sc" for t sc
  proof -
    obtain gs where gs: "sc = Some gs" "g_id g \<in> set gs" using scoped by (auto simp: in_scope_def split: option.splits)
    have "scope_groups_exist s t (strip_scope (g_id g) sc) \<longleftrightarrow> (\<forall>x\<in>set gs. x = g_id g)"
      unfolding scope_groups_exist_iff strip_scope_def gs(1) assms
      by (auto simp: removeAll_filter_not_eq filter_empty_conv)
    also have "\<dots> \<longleftrightarrow> single sc" using gs unfolding single_def by (metis option.inject)
    finally show ?thesis .
  qed
  then have key: "(t = g_tenant g \<and> in_scope (g_id g) sc \<longrightarrow> scope_groups_exist s t (strip_scope (g_id g) sc)) \<longleftrightarrow>
      (hit [g] t sc \<longrightarrow> single sc)" for t sc
    unfolding hit_def by auto
  then show ?thesis by (simp only: strip_ok_def rows_ok_def list_all_iff key)
qed

lemma removeAll_single: "x \<in> set gs \<Longrightarrow> \<forall>a\<in>set gs. \<forall>b\<in>set gs. a = b \<Longrightarrow> removeAll x gs = []"
  by (auto simp: removeAll_filter_not_eq filter_empty_conv)

lemma stripped_emptied:
  assumes "hit [g] t sc \<longrightarrow> single sc"
  shows "stripped g t sc = emptied [g] t sc"
proof (cases "hit [g] t sc")
  case True
  then obtain gs where gs: "sc = Some gs" "g_id g \<in> set gs" "t = g_tenant g"
    by (auto simp: hit_def in_scope_def split: option.splits)
  have "single sc" using True assms by simp
  then have "removeAll (g_id g) gs = []" using gs by (intro removeAll_single) (simp_all add: single_def)
  with True gs show ?thesis by (simp add: stripped_def strip_scope_def emptied_def)
next
  case False
  then show ?thesis by (auto simp: stripped_def emptied_def hit_def strip_scope_absent)
qed

lemma emptied_idem: "emptied gs t (Some []) = Some []" "single (Some [])" "\<not> hit gs t (Some [])"
  by (simp_all add: emptied_def single_def hit_def in_scope_def)

lemma hit_Cons: "hit (g # gs) t sc \<longleftrightarrow> hit [g] t sc \<or> hit gs t sc"
  by (auto simp: hit_def)

lemma emptied_Cons: "emptied (g # gs) t sc = emptied gs t (emptied [g] t sc)"
  unfolding emptied_def hit_Cons [of g gs] using emptied_idem(3) by auto

lemma drop_group_frame: "drop_group g s = s\<lparr>fleet_groups := fleet_groups (drop_group g s), group_vehicles := group_vehicles (drop_group g s),
    entitlements := entitlements (drop_group g s), memberships := memberships (drop_group g s), invitations := invitations (drop_group g s)\<rparr>"
  by (simp add: drop_group_def)

text \<open>The state the triggers leave, and when they do.\<close>

definition scopes_emptied :: "group_row list \<Rightarrow> db \<Rightarrow> db" where
  "scopes_emptied gs s = s\<lparr>entitlements := upd (\<lambda>e. \<exists>g\<in>set gs. e_source_group e = Some (g_id g)) (\<lambda>e. e\<lparr>e_source_group := None\<rparr>) (entitlements s),
     memberships := map (\<lambda>m. m\<lparr>m_scope := emptied gs (m_tenant m) (m_scope m)\<rparr>) (memberships s),
     invitations := map (\<lambda>i. i\<lparr>i_scope := emptied gs (i_tenant i) (i_scope i)\<rparr>) (invitations s)\<rparr>"

lemma drop_group_emptied:
  assumes "strip_ok s g" and "fleet_groups s = []" and "group_vehicles s = []"
  shows "drop_group g s = scopes_emptied [g] s"
proof -
  have r: "rows_ok s (\<lambda>t sc. hit [g] t sc \<longrightarrow> single sc)" using assms strip_ok_rows by blast
  then have "memberships (drop_group g s) = map (\<lambda>m. m\<lparr>m_scope := emptied [g] (m_tenant m) (m_scope m)\<rparr>) (memberships s)"
    unfolding drop_group_memberships by (auto simp: rows_ok_def stripped_emptied)
  moreover have "invitations (drop_group g s) = map (\<lambda>i. i\<lparr>i_scope := emptied [g] (i_tenant i) (i_scope i)\<rparr>) (invitations s)"
    using r unfolding drop_group_invitations by (auto simp: rows_ok_def stripped_emptied)
  ultimately show ?thesis using assms(2,3)
    by (subst drop_group_frame) (simp add: scopes_emptied_def drop_group_def)
qed

lemma scopes_emptied_Cons: "scopes_emptied (g # gs) s = scopes_emptied gs (scopes_emptied [g] s)"
proof -
  have "upd (\<lambda>e. e_source_group e = Some (g_id g) \<or> (\<exists>x\<in>set gs. e_source_group e = Some (g_id x))) (e_source_group_update (\<lambda>_. None)) es =
      upd (\<lambda>e. \<exists>x\<in>set gs. e_source_group e = Some (g_id x)) (e_source_group_update (\<lambda>_. None))
        (upd (\<lambda>e. e_source_group e = Some (g_id g)) (e_source_group_update (\<lambda>_. None)) es)" for es :: "entitlement_row list"
    by (induction es) auto
  then show ?thesis by (simp add: scopes_emptied_def comp_def emptied_Cons [of g gs])
qed

lemma rows_ok_emptied: "rows_ok (scopes_emptied [g] s) P \<longleftrightarrow> rows_ok s (\<lambda>t sc. P t (emptied [g] t sc))"
  by (simp add: rows_ok_def scopes_emptied_def)

lemma rows_ok_conj: "rows_ok s (\<lambda>t sc. P t sc \<and> Q t sc) \<longleftrightarrow> rows_ok s P \<and> rows_ok s Q"
  by (auto simp: rows_ok_def)

lemma strip_all_result:
  assumes "fleet_groups s = []" and "group_vehicles s = []"
  shows "strip_all gs s = (if rows_ok s (\<lambda>t sc. hit gs t sc \<longrightarrow> single sc) then Some (scopes_emptied gs s) else None)"
  using assms
proof (induction gs arbitrary: s)
  case Nil
  have "map (\<lambda>m. m) ms = ms" for ms :: "membership_row list" by simp
  then show ?case by (simp add: rows_ok_def hit_def scopes_emptied_def emptied_def upd_def)
next
  case (Cons g gs)
  let ?s = "scopes_emptied [g] s"
  have f: "fleet_groups ?s = []" "group_vehicles ?s = []" using Cons.prems by (simp_all add: scopes_emptied_def)
  have "(hit (g # gs) t sc \<longrightarrow> single sc) \<longleftrightarrow> (hit [g] t sc \<longrightarrow> single sc) \<and> (hit gs t (emptied [g] t sc) \<longrightarrow> single (emptied [g] t sc))" for t sc
    unfolding hit_Cons [of g gs] by (cases "hit [g] t sc") (auto simp: emptied_def emptied_idem)
  then have "rows_ok s (\<lambda>t sc. hit (g # gs) t sc \<longrightarrow> single sc) \<longleftrightarrow>
      strip_ok s g \<and> rows_ok ?s (\<lambda>t sc. hit gs t sc \<longrightarrow> single sc)"
    using Cons.prems by (simp add: strip_ok_rows rows_ok_emptied rows_ok_conj)
  then show ?case using Cons.IH [OF f] Cons.prems drop_group_emptied [of s g] by (simp add: scopes_emptied_Cons [of g gs])
qed

subsection \<open>The write\<close>

lemma insert_groups_Inr:
  "insert_groups flt gs s = Inr s' \<Longrightarrow> s' = s\<lparr>fleet_groups := fleet_groups s @ map group_row_for gs\<rparr>"
  by (induction flt gs s rule: insert_groups.induct) (auto split: if_splits)

lemma insert_groups_total:
  assumes "distinct (map sg_id gs)" and "distinct (map group_name gs)" and "\<forall>g\<in>set gs. tenant_exists s (sg_tenant g)"
    and "\<forall>g\<in>set gs. \<forall>x\<in>set (fleet_groups s). g_id x \<noteq> sg_id g \<and> (g_tenant x, g_name x) \<noteq> group_name g"
  shows "\<exists>s'. insert_groups no_faults gs s = Inr s'"
  using assms
proof (induction gs arbitrary: s)
  case (Cons g gs)
  let ?s = "s\<lparr>fleet_groups := fleet_groups s @ [group_row_for g]\<rparr>"
  have "\<exists>s'. insert_groups no_faults gs ?s = Inr s'"
    using Cons.prems by (intro Cons.IH) (auto simp: group_row_for_def group_name_def tenant_exists_def image_iff)
  moreover have "\<not> list_ex (\<lambda>x. g_id x = sg_id g \<or> (g_tenant x = sg_tenant g \<and> g_name x = sg_name g)) (fleet_groups s)"
    using Cons.prems(4) by (auto simp: list_ex_iff group_name_def)
  ultimately show ?case using Cons.prems(3) by simp
qed simp

lemma insert_membs_Inr:
  "insert_membs flt ks s = Inr s' \<Longrightarrow> s' = s\<lparr>group_vehicles := group_vehicles s @ map memb_row ks\<rparr>"
  by (induction flt ks s rule: insert_membs.induct) (auto split: if_splits)

lemma memb_row_inj: "memb_row k = memb_row k' \<longleftrightarrow> k = k'"
  by (cases k; cases k') (auto simp: memb_row_def)

lemma insert_membs_total:
  assumes "distinct ks" and "\<forall>k\<in>set ks. memb_row k \<notin> set (group_vehicles s)"
    and "\<forall>k\<in>set ks. \<exists>x\<in>set (fleet_groups s). g_id x = snd (snd k) \<and> g_tenant x = fst k"
  shows "\<exists>s'. insert_membs no_faults ks s = Inr s'"
  using assms
proof (induction ks arbitrary: s)
  case (Cons k ks)
  let ?s = "s\<lparr>group_vehicles := group_vehicles s @ [memb_row k]\<rparr>"
  have "\<exists>s'. insert_membs no_faults ks ?s = Inr s'"
    using Cons.prems by (intro Cons.IH) (auto simp: memb_row_inj)
  moreover have "list_ex (\<lambda>x. g_id x = snd (snd k) \<and> g_tenant x = fst k) (fleet_groups s)"
    using Cons.prems(3) by (simp add: list_ex_iff)
  ultimately show ?case using Cons.prems(2) by simp
qed simp

text \<open>What a passed verification guarantees.\<close>

lemma verify_groups_Inr:
  assumes "verify_groups flt s src = Inr (merged, membs)"
  shows "summary (kGroups src @ fGroups src) merged" and "distinct (map group_name (by_id merged))"
    and "\<forall>m\<in>set (kMembs src @ fMembs src). memb_known merged m" and "distinct (map fst membs)"
    and "fst ` set membs = memb_key ` set (kMembs src @ fMembs src)"
    and "\<forall>m\<in>set merged. tenant_exists s (sg_tenant (mg_group m))"
proof -
  from assms have m: "mergeGroups (kGroups src @ fGroups src) [] = Inr merged" and n: "checkNameCollisions merged = None"
      and b: "mergeMemberships (kMembs src @ fMembs src) merged [] = Inr membs"
      and t: "checkTenantsExist (\<lambda>n. flt (n + 4)) s (map (sg_tenant \<circ> mg_group) merged) = None"
    by (auto simp: verify_groups_def split: if_splits sum.splits option.splits)
  show "summary (kGroups src @ fGroups src) merged" using mergeGroups_summary [OF _ m, of "[]"] by (simp add: summary_def)
  show "distinct (map group_name (by_id merged))" using n by (simp add: checkNameCollisions_None)
  show "\<forall>m\<in>set (kMembs src @ fMembs src). memb_known merged m" and "distinct (map fst membs)"
    and "fst ` set membs = memb_key ` set (kMembs src @ fMembs src)"
    using mergeMemberships_Inr [OF b] by simp_all
  show "\<forall>m\<in>set merged. tenant_exists s (sg_tenant (mg_group m))" using t by (simp add: checkTenantsExist_None)
qed

lemma clear_groups_result:
  "clear_groups s = (if rows_ok s (\<lambda>t sc. hit (fleet_groups s) t sc \<longrightarrow> single sc)
     then Some (scopes_emptied (fleet_groups s) (s\<lparr>fleet_groups := [], group_vehicles := []\<rparr>)) else None)"
proof -
  have "rows_ok (s\<lparr>fleet_groups := [], group_vehicles := []\<rparr>) P = rows_ok s P" for P by (simp add: rows_ok_def)
  then show ?thesis by (simp add: clear_groups_def strip_all_result)
qed

lemma replace_groups_result:
  assumes "replace_groups flt s merged membs = (s', None)"
  shows "rows_ok s (\<lambda>t sc. hit (fleet_groups s) t sc \<longrightarrow> single sc)"
    and "s' = (scopes_emptied (fleet_groups s) s)\<lparr>fleet_groups := map group_row_for (by_id merged),
           group_vehicles := map memb_row (memb_order membs)\<rparr>"
proof -
  from assms obtain s1 s2 where c: "clear_groups s = Some s1" and g: "insert_groups (\<lambda>n. flt (n + 3)) (by_id merged) s1 = Inr s2"
      and m: "insert_membs (\<lambda>n. flt (n + 3 + length merged)) (memb_order membs) s2 = Inr s'"
    by (auto simp: replace_groups_def split: if_splits option.splits sum.splits)
  show "rows_ok s (\<lambda>t sc. hit (fleet_groups s) t sc \<longrightarrow> single sc)" using c by (simp add: clear_groups_result split: if_splits)
  have "s1 = (scopes_emptied (fleet_groups s) s)\<lparr>fleet_groups := [], group_vehicles := []\<rparr>"
    using c by (intro db.equality) (auto simp: clear_groups_result scopes_emptied_def split: if_splits)
  with insert_groups_Inr [OF g] insert_membs_Inr [OF m]
  show "s' = (scopes_emptied (fleet_groups s) s)\<lparr>fleet_groups := map group_row_for (by_id merged),
           group_vehicles := map memb_row (memb_order membs)\<rparr>" by simp
qed

lemma replace_groups_total:
  assumes v: "verify_groups flt s src = Inr (merged, membs)" and r: "rows_ok s (\<lambda>t sc. hit (fleet_groups s) t sc \<longrightarrow> single sc)"
  shows "\<exists>s'. replace_groups no_faults s merged membs = (s', None)"
proof -
  note ok = verify_groups_Inr [OF v]
  let ?s1 = "scopes_emptied (fleet_groups s) (s\<lparr>fleet_groups := [], group_vehicles := []\<rparr>)"
  have "\<exists>s2. insert_groups no_faults (by_id merged) ?s1 = Inr s2"
    using ok(1,2,6) by (intro insert_groups_total)
      (auto simp: distinct_by_id summary_def tenant_exists_def scopes_emptied_def)
  then obtain s2 where g: "insert_groups no_faults (by_id merged) ?s1 = Inr s2" by blast
  have s2: "fleet_groups s2 = map group_row_for (by_id merged)" "group_vehicles s2 = []"
    using insert_groups_Inr [OF g] by (simp_all add: scopes_emptied_def)
  have "\<exists>x\<in>set (fleet_groups s2). g_id x = snd (snd k) \<and> g_tenant x = fst k" if "k \<in> fst ` set membs" for k
    using that ok(3) unfolding ok(5) s2(1) by (fastforce simp: memb_known_def memb_key_def group_row_for_def)
  then have "\<exists>s3. insert_membs no_faults (memb_order membs) s2 = Inr s3"
    using ok(4) s2(2) by (intro insert_membs_total) (simp_all add: distinct_memb_order)
  with g r show ?thesis by (auto simp: replace_groups_def clear_groups_result)
qed

subsection \<open>Properties\<close>

definition demo_group_sources :: group_sources where
  "demo_group_sources = \<lparr>
     kGroups = [\<lparr>sg_id = ''cu_vans'', sg_tenant = ''cu'', sg_name = ''Vans'', sg_color = ''#00ff00'', sg_created = 3, sg_updated = 4, sg_source = ''kaufmann''\<rparr>],
     fGroups = [\<lparr>sg_id = ''cu_vans'', sg_tenant = ''cu'', sg_name = ''All vans'', sg_color = ''#00ff00'', sg_created = 2, sg_updated = 9, sg_source = ''fleet-lite''\<rparr>],
     kMembs = [\<lparr>gm_tenant = ''cu'', gm_token = 7, gm_group = ''cu_vans'', gm_created = 3\<rparr>], fMembs = []\<rparr>"

lemma demo_BackfillGroups: "snd (BackfillGroups ''k'' ''f'' no_faults demo_db demo_group_sources False) = ExitSuccess"
  by code_simp

lemma demo_verify_groups: "\<exists>v. verify_groups no_faults demo_db demo_group_sources = Inr v"
proof -
  have "case verify_groups no_faults demo_db demo_group_sources of Inr _ \<Rightarrow> True | Inl _ \<Rightarrow> False" by code_simp
  then show ?thesis by (simp split: sum.splits)
qed

text \<open>Under the constraints every group a scope names is in the table, so every scope is hit or empty.\<close>

lemma emptied_all:
  assumes "scope_groups_exist s t sc"
  shows "emptied (fleet_groups s) t sc = map_option (\<lambda>_. []) sc"
proof (cases "\<exists>x xs. sc = Some (x # xs)")
  case True
  then obtain x xs where sc: "sc = Some (x # xs)" by blast
  with assms obtain fg where "fg \<in> set (fleet_groups s)" "g_id fg = x" "g_tenant fg = t" by (auto simp: scope_groups_exist_iff)
  then have "hit (fleet_groups s) t sc" using sc by (auto simp: hit_def in_scope_def)
  with sc show ?thesis by (simp add: emptied_def)
next
  case False
  then have "sc = None \<or> sc = Some []" by (metis list.exhaust option.exhaust)
  then show ?thesis by (auto simp: emptied_def hit_def in_scope_def)
qed

lemma scopes_after:
  assumes "group_inv s"
  shows "rows_ok (scopes_emptied (fleet_groups s) s) (\<lambda>_ sc. sc = None \<or> sc = Some [])"
    and "rows_ok s (\<lambda>t sc. hit (fleet_groups s) t sc \<longrightarrow> single sc) \<longleftrightarrow> rows_ok s (\<lambda>_ sc. single sc)"
proof -
  have refs: "rows_ok s (\<lambda>t sc. scope_groups_exist s t sc)" using assms by (auto simp: group_inv_def scope_refs_def rows_ok_def)
  then show "rows_ok (scopes_emptied (fleet_groups s) s) (\<lambda>_ sc. sc = None \<or> sc = Some [])"
    by (auto simp: rows_ok_def scopes_emptied_def emptied_all)
  have "single sc" if "scope_groups_exist s t sc" "hit (fleet_groups s) t sc \<longrightarrow> single sc" for t sc
    using emptied_all [OF that(1)] that(2)
    by (cases sc; cases "hit (fleet_groups s) t sc") (auto simp: emptied_def single_def)
  with refs show "rows_ok s (\<lambda>t sc. hit (fleet_groups s) t sc \<longrightarrow> single sc) \<longleftrightarrow> rows_ok s (\<lambda>_ sc. single sc)"
    unfolding rows_ok_def by blast
qed

lemma BackfillGroups_result:
  assumes "BackfillGroups k f flt s src False = (s', st)"
  shows "st \<noteq> ExitSuccess \<and> s' = s \<or>
    (\<exists>merged membs. st = ExitSuccess \<and> verify_groups (\<lambda>n. flt (n + 2)) s src = Inr (merged, membs) \<and>
       replace_groups (\<lambda>n. flt (n + 7)) s merged membs = (s', None))"
  using assms
  by (auto simp: BackfillGroups_def exit_with_def split: if_splits sum.splits prod.splits option.splits)

lemma unique_on_all: "unique_on (\<lambda>_. True) k rs \<longleftrightarrow> distinct (map k rs)"
  by (simp add: unique_on_def)

lemma replaced_inv:
  assumes "group_inv s" and v: "verify_groups flt s src = Inr (merged, membs)"
    and s': "s' = (scopes_emptied (fleet_groups s) s)\<lparr>fleet_groups := map group_row_for (by_id merged),
           group_vehicles := map memb_row (memb_order membs)\<rparr>"
  shows "group_inv s'"
proof -
  note ok = verify_groups_Inr [OF v]
  have ids: "map g_id (fleet_groups s') = map sg_id (by_id merged)" "map (\<lambda>g. (g_tenant g, g_name g)) (fleet_groups s') = map group_name (by_id merged)"
    by (simp_all add: s' group_row_for_def group_name_def)
  have "\<exists>g\<in>set (fleet_groups s'). g_id g = gv_group x \<and> g_tenant g = gv_tenant x" if "x \<in> set (group_vehicles s')" for x
  proof -
    from that obtain m where m: "m \<in> set (kMembs src @ fMembs src)" "x = memb_row (memb_key m)"
      using s' ok(5) by (auto simp del: set_append)
    with ok(3) obtain g where g: "g \<in> set merged" "mg_id g = gm_group m" "sg_tenant (mg_group g) = gm_tenant m"
      unfolding memb_known_def by blast
    have "group_row_for (mg_group g) \<in> set (fleet_groups s')" using g(1) by (simp add: s')
    then show ?thesis using m(2) g(2,3)
      by (intro bexI [of _ "group_row_for (mg_group g)"]) (simp_all add: memb_row_def memb_key_def group_row_for_def)
  qed
  moreover have "distinct (group_vehicles s')"
    using ok(4) by (simp add: s' distinct_map distinct_memb_order inj_on_def memb_row_inj)
  moreover have "\<forall>e\<in>set (entitlements s'). e_source_group e = None"
  proof
    fix e assume "e \<in> set (entitlements s')"
    then have "e \<in> (\<lambda>e. if \<exists>g\<in>set (fleet_groups s). e_source_group e = Some (g_id g) then e\<lparr>e_source_group := None\<rparr> else e) `
        set (entitlements s)" by (simp add: s' scopes_emptied_def upd_def)
    then obtain e0 where e0: "e0 \<in> set (entitlements s)"
        "e = (if \<exists>g\<in>set (fleet_groups s). e_source_group e0 = Some (g_id g) then e0\<lparr>e_source_group := None\<rparr> else e0)" by (rule imageE)
    have "\<exists>g\<in>set (fleet_groups s). g_id g = gid" if "e_source_group e0 = Some gid" for gid
      using assms(1) e0(1) that by (simp add: group_inv_def)
    with e0(2) show "e_source_group e = None" by (cases "e_source_group e0") fastforce+
  qed
  moreover have "scope_refs s'"
    using scopes_after(1) [OF assms(1)] by (auto simp: s' scope_refs_def rows_ok_def scope_groups_exist_iff scopes_emptied_def)
  ultimately show ?thesis using ok(1,2) ids
    by (simp add: group_inv_def unique_on_all distinct_by_id summary_def)
qed

text \<open>
  A run that does not succeed has written nothing. One that succeeds, whatever faults occurred, leaves
  exactly what the sources say: every group of either system once, with its tenant, the name and colour of
  the copy updated last and the earliest creation, and the vehicles either system puts in it, so running it
  again converges; the constraints on groups and what refers to them hold.
\<close>

theorem BackfillGroups_converges:
  assumes "group_inv s" and "BackfillGroups k f flt s src False = (s', st)"
  shows "(st \<noteq> ExitSuccess \<longrightarrow> s' = s) \<and>
    (st = ExitSuccess \<longrightarrow> group_inv s' \<and> g_id ` set (fleet_groups s') = sg_id ` set (kGroups src @ fGroups src) \<and>
       (\<forall>g\<in>set (fleet_groups s'). \<exists>x. g = group_row_for x \<and> merged_from (kGroups src @ fGroups src) x) \<and>
       set (group_vehicles s') = (\<lambda>m. \<lparr>gv_tenant = gm_tenant m, gv_token = gm_token m, gv_group = gm_group m\<rparr>) `
         set (kMembs src @ fMembs src))"
proof (cases "st = ExitSuccess")
  case True
  with BackfillGroups_result [OF assms(2)] obtain merged membs where v: "verify_groups (\<lambda>n. flt (n + 2)) s src = Inr (merged, membs)"
      and w: "replace_groups (\<lambda>n. flt (n + 7)) s merged membs = (s', None)" by auto
  note ok = verify_groups_Inr [OF v] and s' = replace_groups_result(2) [OF w]
  have "group_inv s'" by (rule replaced_inv [OF assms(1) v s'])
  moreover have "g_id ` set (fleet_groups s') = mg_id ` set merged" by (simp add: s' image_image group_row_for_def)
  moreover have "\<forall>g\<in>set (fleet_groups s'). \<exists>x. g = group_row_for x \<and> merged_from (kGroups src @ fGroups src) x"
    using ok(1) by (auto simp: s' summary_def)
  moreover have "set (group_vehicles s') = (\<lambda>m. memb_row (memb_key m)) ` set (kMembs src @ fMembs src)"
    by (simp add: s' ok(5) image_image)
  ultimately show ?thesis using True ok(1) by (simp add: summary_def memb_row_def memb_key_def)
qed (use BackfillGroups_result [OF assms(2)] in auto)

lemma BackfillGroups_converges_witness:
  "\<exists>s' g. BackfillGroups ''k'' ''f'' no_faults demo_db demo_group_sources False = (s', ExitSuccess) \<and> group_inv s' \<and>
     g \<in> set (fleet_groups s') \<and> g_name g = ''All vans'' \<and> g_created g = 2"
proof -
  obtain s' where r: "BackfillGroups ''k'' ''f'' no_faults demo_db demo_group_sources False = (s', ExitSuccess)"
    using demo_BackfillGroups by (metis prod.collapse)
  note c = BackfillGroups_converges [OF demo_group_inv r]
  then have "''cu_vans'' \<in> g_id ` set (fleet_groups s')" by (simp add: demo_group_sources_def)
  then obtain g where g: "g \<in> set (fleet_groups s')" "g_id g = ''cu_vans''" by (elim imageE) auto
  with c obtain x where "g = group_row_for x" "merged_from (kGroups demo_group_sources @ fGroups demo_group_sources) x" by blast
  with g(2) have "g_name g = ''All vans''" "g_created g = 2"
    by (auto simp: merged_from_def demo_group_sources_def group_row_for_def)
  with r c g(1) show ?thesis by blast
qed

text \<open>
  C38. What the write does to the people who are here. On a database that meets its constraints, with sources
  that verify and no fault, the run succeeds if and only if no membership or invitation is scoped to two
  groups; and then every scope that named a group is the empty one, which sees nothing, although the same
  groups are there again afterwards.
\<close>

theorem BackfillGroups_scopes:
  assumes "group_inv s" and "k \<noteq> []" and "f \<noteq> []" and "verify_groups no_faults s src = Inr v"
    and "BackfillGroups k f no_faults s src False = (s', st)"
  shows "(st = ExitSuccess \<longleftrightarrow> (\<forall>m\<in>set (memberships s). single (m_scope m)) \<and> (\<forall>i\<in>set (invitations s). single (i_scope i))) \<and>
    (st = ExitSuccess \<longrightarrow>
       memberships s' = map (\<lambda>m. m\<lparr>m_scope := map_option (\<lambda>_. []) (m_scope m)\<rparr>) (memberships s) \<and>
       invitations s' = map (\<lambda>i. i\<lparr>i_scope := map_option (\<lambda>_. []) (i_scope i)\<rparr>) (invitations s))"
proof -
  obtain merged membs where v: "verify_groups no_faults s src = Inr (merged, membs)" using assms(4) by (cases v) auto
  have run: "BackfillGroups k f no_faults s src False = exit_with s (replace_groups no_faults s merged membs)"
    using assms(2,3) v by (simp add: BackfillGroups_def)
  let ?ok = "rows_ok s (\<lambda>_ sc. single sc)"
  have "st = ExitSuccess" if "?ok"
    using replace_groups_total [OF v] scopes_after(2) [OF assms(1)] that run assms(5) by (auto simp: exit_with_def)
  moreover have "?ok \<and> memberships s' = map (\<lambda>m. m\<lparr>m_scope := map_option (\<lambda>_. []) (m_scope m)\<rparr>) (memberships s) \<and>
       invitations s' = map (\<lambda>i. i\<lparr>i_scope := map_option (\<lambda>_. []) (i_scope i)\<rparr>) (invitations s)" if "st = ExitSuccess"
  proof -
    have w: "replace_groups no_faults s merged membs = (s', None)"
      using that run assms(5) by (auto simp: exit_with_def split: prod.splits option.splits)
    note r = replace_groups_result [OF w]
    have "rows_ok s (\<lambda>t sc. emptied (fleet_groups s) t sc = map_option (\<lambda>_. []) sc)"
      using assms(1) emptied_all by (auto simp: group_inv_def scope_refs_def rows_ok_def)
    then show ?thesis using r(1) scopes_after(2) [OF assms(1)]
      by (auto simp: r(2) rows_ok_def scopes_emptied_def)
  qed
  ultimately show ?thesis by (auto simp: rows_ok_def)
qed

lemma BackfillGroups_scopes_witness:
  "\<exists>s'. BackfillGroups ''k'' ''f'' no_faults demo_db demo_group_sources False = (s', ExitSuccess) \<and>
     map m_scope (memberships demo_db) = [None, Some [''cu_vans''], None] \<and> map m_scope (memberships s') = [None, Some [], None]"
proof -
  obtain s' where r: "BackfillGroups ''k'' ''f'' no_faults demo_db demo_group_sources False = (s', ExitSuccess)"
    using demo_BackfillGroups by (metis prod.collapse)
  obtain v where v: "verify_groups no_faults demo_db demo_group_sources = Inr v" using demo_verify_groups by blast
  have d: "map m_scope (memberships demo_db) = [None, Some [''cu_vans''], None]" by (simp add: demo_defs)
  have "memberships s' = map (\<lambda>m. m\<lparr>m_scope := map_option (\<lambda>_. []) (m_scope m)\<rparr>) (memberships demo_db)"
    using BackfillGroups_scopes [OF demo_group_inv _ _ v r] by simp
  then have "map m_scope (memberships s') = map (map_option (\<lambda>_. [])) (map m_scope (memberships demo_db))" by simp
  also have "\<dots> = [None, Some [], None]" unfolding d by simp
  finally have "map m_scope (memberships s') = [None, Some [], None]" .
  then show ?thesis using r d by (intro exI [of _ s'] conjI)
qed

end
