(* ===== verification/BackfillInvitations.thy ===== *)
theory BackfillInvitations
  imports Commands
begin

text \<open>
  The command \<open>backfill-invitations\<close> (\<open>cmd/fleet-tenancy-api/backfill_invitations.go\<close>): fleet-lite's
  invitations upserted under their own ids. What it promises is fidelity: a link in somebody's inbox
  goes on working here, with the scope and the expiry it was sent with.
\<close>

subsection \<open>Model\<close>

record src_invitation =
  si_id :: uuid
  si_tenant :: uuid
  si_email :: string
  si_role :: string
  si_hash :: string
  si_status :: string
  si_invited_by :: string
  si_invitee :: "string option"
  si_scope :: scope
  si_message_id :: "string option"
  si_email_status :: "string option"
  si_email_status_at :: "time option"
  si_email_detail :: "string option"
  si_created :: time
  si_expires :: time
  si_accepted :: "time option"

definition checksumWallet :: "library \<Rightarrow> string \<Rightarrow> string" where
  "checksumWallet L w = (if w = [] then [] else HexAddr L w)"

definition checksumNullWallet :: "library \<Rightarrow> string option \<Rightarrow> string option" where
  "checksumNullWallet L w = (case w of None \<Rightarrow> None | Some v \<Rightarrow> if v = [] then None else Some (HexAddr L v))"

text \<open>The row of the \<open>INSERT\<close>: no inviting tenant, which its column list leaves out.\<close>

definition copied_row :: "library \<Rightarrow> src_invitation \<Rightarrow> invitation_row" where
  "copied_row L v = \<lparr>i_id = si_id v, i_tenant = si_tenant v, i_email = si_email v, i_role = si_role v,
     i_token_hash = si_hash v, i_status = si_status v, i_invited_by = checksumWallet L (si_invited_by v),
     i_invitee = checksumNullWallet L (si_invitee v), i_created_by_tenant = None, i_scope = si_scope v,
     i_message_id = si_message_id v, i_email_status = si_email_status v, i_email_status_at = si_email_status_at v,
     i_email_detail = si_email_detail v, i_created = si_created v, i_expires = si_expires v, i_accepted = si_accepted v\<rparr>"

text \<open>\<open>DO UPDATE SET ..\<close>: everything but the id, the tenant, the inviting tenant and the creation.\<close>

definition overwrite :: "invitation_row \<Rightarrow> invitation_row \<Rightarrow> invitation_row" where
  "overwrite new old = new\<lparr>i_id := i_id old, i_tenant := i_tenant old, i_created_by_tenant := i_created_by_tenant old,
     i_created := i_created old\<rparr>"

text \<open>
  One upsert with what the database checks: the scope trigger on the row proposed, and then either
  the tenant and the link of the new row, or the link and the scope of the row it became.
\<close>

definition put_invitation :: "library \<Rightarrow> db \<Rightarrow> src_invitation \<Rightarrow> db option" where
  "put_invitation L s v =
     (let new = copied_row L v;
          taken = list_ex (\<lambda>i. i_id i \<noteq> si_id v \<and> i_token_hash i = si_hash v) (invitations s) in
      if \<not> scope_groups_exist s (si_tenant v) (si_scope v) then None
      else case find (\<lambda>i. i_id i = si_id v) (invitations s) of
        None \<Rightarrow> if taken \<or> \<not> tenant_exists s (si_tenant v) then None
                else Some (s\<lparr>invitations := invitations s @ [new]\<rparr>)
      | Some old \<Rightarrow> if taken \<or> \<not> scope_groups_exist s (i_tenant old) (si_scope v) then None
                else Some (s\<lparr>invitations := upd (\<lambda>i. i_id i = si_id v) (overwrite new) (invitations s)\<rparr>))"

fun writeInvitations :: "library \<Rightarrow> faults \<Rightarrow> db \<Rightarrow> src_invitation list \<Rightarrow> nat \<Rightarrow> command_error + db \<times> nat" where
  "writeInvitations L flt s [] written = Inr (s, written)"
| "writeInvitations L flt s (v # vs) written =
     (if flt 0 then Inl (Fault (si_id v))
      else case put_invitation L s v of
        None \<Rightarrow> Inl (Constraint (si_id v))
      | Some s' \<Rightarrow> writeInvitations L (\<lambda>n. flt (n + 1)) s' vs (written + 1))"

text \<open>A Go map from hashes to ids: of two entries the later one stays.\<close>

definition checkTokenHashConflicts :: "faults \<Rightarrow> db \<Rightarrow> src_invitation list \<Rightarrow> command_error option" where
  "checkTokenHashConflicts flt s src =
     (if flt 0 then Some (Fault ''read invitations'')
      else let byHash = map_of (rev (map (\<lambda>v. (si_hash v, si_id v)) src)) in
      case find (\<lambda>i. \<exists>srcID\<in>set_option (byHash (i_token_hash i)). srcID \<noteq> i_id i) (invitations s) of
        None \<Rightarrow> None
      | Some i \<Rightarrow> Some (LinkClaimedTwice (i_id i) (null_str (byHash (i_token_hash i)))))"

definition reportLocalOnly :: "faults \<Rightarrow> db \<Rightarrow> src_invitation list \<Rightarrow> command_error + nat" where
  "reportLocalOnly flt s src =
     (if flt 0 then Inl (Fault ''read invitations'')
      else Inr (length (filter (\<lambda>i. i_id i \<notin> si_id ` set src) (invitations s))))"

text \<open>
  Statement 0 is the connection, 1 the read of the source, 2 to 4 the checks, 5 the begin; then one
  statement per invitation, and the commit.
\<close>

definition BackfillInvitations ::
  "library \<Rightarrow> string \<Rightarrow> faults \<Rightarrow> db \<Rightarrow> src_invitation list \<Rightarrow> bool \<Rightarrow> db \<times> exit_status" where
  "BackfillInvitations L fDSN flt s src dryRun =
     (if fDSN = [] then (s, ExitUsageError)
      else if flt 0 \<or> flt 1 then (s, ExitFailure)
      else if checkTenantsExist (\<lambda>n. flt (n + 2)) s (map si_tenant src) \<noteq> None then (s, ExitFailure)
      else if checkTokenHashConflicts (\<lambda>n. flt (n + 3)) s src \<noteq> None then (s, ExitFailure)
      else case reportLocalOnly (\<lambda>n. flt (n + 4)) s src of
        Inl e \<Rightarrow> (s, ExitFailure)
      | Inr extra \<Rightarrow>
        if dryRun then (s, ExitSuccess)
        else if flt 5 then (s, ExitFailure)
        else case writeInvitations L (\<lambda>n. flt (n + 6)) s src 0 of
          Inl e \<Rightarrow> (s, ExitFailure)
        | Inr (s', written) \<Rightarrow>
          if flt (6 + length src) then (s, ExitFailure)
          else if written \<noteq> length src then (s', ExitFailure)
          else (s', ExitSuccess))"

subsection \<open>What a write leaves\<close>

text \<open>The row of a source invitation: everything of the source, wallets checksummed.\<close>

definition copy_of :: "library \<Rightarrow> src_invitation \<Rightarrow> invitation_row \<Rightarrow> bool" where
  "copy_of L v i \<longleftrightarrow> (\<exists>t c n. i = (copied_row L v)\<lparr>i_tenant := t, i_created_by_tenant := c, i_created := n\<rparr>)"

lemma copy_of_new: "copy_of L v (copied_row L v)"
  unfolding copy_of_def
  by (intro exI [of _ "si_tenant v"] exI [of _ "None :: uuid option"] exI [of _ "si_created v"]) (simp add: copied_row_def)

lemma copy_of_overwrite: "i_id old = si_id v \<Longrightarrow> copy_of L v (overwrite (copied_row L v) old)"
  unfolding copy_of_def
  by (intro exI [of _ "i_tenant old"] exI [of _ "i_created_by_tenant old"] exI [of _ "i_created old"])
    (simp add: copied_row_def overwrite_def)

lemma copy_of_fields:
  assumes "copy_of L v i"
  shows "i_id i = si_id v" "i_token_hash i = si_hash v" "i_status i = si_status v" "i_scope i = si_scope v"
    "i_expires i = si_expires v" "i_message_id i = si_message_id v" "i_role i = si_role v"
  using assms by (auto simp: copy_of_def copied_row_def)

text \<open>The keys and references of the table, which the database keeps.\<close>

definition invite_keys :: "db \<Rightarrow> bool" where
  "invite_keys s \<longleftrightarrow> unique_on (\<lambda>_. True) i_id (invitations s) \<and> unique_on (\<lambda>_. True) i_token_hash (invitations s) \<and>
     (\<forall>i\<in>set (invitations s). tenant_exists s (i_tenant i) \<and> tenant_ref_ok s (i_created_by_tenant i) \<and>
        scope_groups_exist s (i_tenant i) (i_scope i))"

lemma no_ref: "tenant_ref_ok s None"
  by (simp add: tenant_ref_ok_def)

lemma invitations_again: "b = a\<lparr>invitations := x\<rparr> \<Longrightarrow> c = b\<lparr>invitations := y\<rparr> \<Longrightarrow> c = a\<lparr>invitations := y\<rparr>"
  by simp

lemma tenant_exists_frame: "tenant_exists (s\<lparr>invitations := x\<rparr>) t = tenant_exists s t"
  by (simp add: tenant_exists_def)

lemma put_invitation_result:
  assumes "put_invitation L s v = Some s'" and "invite_keys s"
  shows "invite_keys s'" and "s' = s\<lparr>invitations := invitations s'\<rparr>"
    and "\<exists>i\<in>set (invitations s'). copy_of L v i"
    and "filter (\<lambda>i. i_id i \<noteq> si_id v) (invitations s') = filter (\<lambda>i. i_id i \<noteq> si_id v) (invitations s)"
    and "i_id ` set (invitations s') = insert (si_id v) (i_id ` set (invitations s))"
proof -
  let ?new = "copied_row L v"
  have new: "i_id ?new = si_id v" "i_token_hash ?new = si_hash v" "i_tenant ?new = si_tenant v" "i_scope ?new = si_scope v"
      "i_created_by_tenant ?new = None" by (simp_all add: copied_row_def)
  have over: "i_id (overwrite ?new o') = i_id o'" "i_token_hash (overwrite ?new o') = si_hash v"
      "i_tenant (overwrite ?new o') = i_tenant o'" "i_scope (overwrite ?new o') = si_scope v"
      "i_created_by_tenant (overwrite ?new o') = i_created_by_tenant o'" for o'
    by (simp_all add: overwrite_def copied_row_def)
  show "s' = s\<lparr>invitations := invitations s'\<rparr>"
    using assms(1) by (auto simp: put_invitation_def Let_def split: if_splits option.splits)
  have sc: "scope_groups_exist s (si_tenant v) (si_scope v)" using assms(1) by (simp add: put_invitation_def Let_def split: if_splits)
  have free: "\<forall>i\<in>set (invitations s). i_id i \<noteq> si_id v \<longrightarrow> i_token_hash i \<noteq> si_hash v"
    using assms(1) by (auto simp: put_invitation_def Let_def list_ex_iff split: if_splits option.splits)
  have "invite_keys s' \<and> (\<exists>i\<in>set (invitations s'). copy_of L v i) \<and>
      filter (\<lambda>i. i_id i \<noteq> si_id v) (invitations s') = filter (\<lambda>i. i_id i \<noteq> si_id v) (invitations s) \<and>
      i_id ` set (invitations s') = insert (si_id v) (i_id ` set (invitations s))"
  proof (cases "find (\<lambda>i. i_id i = si_id v) (invitations s)")
    case None
    then have s': "s' = s\<lparr>invitations := invitations s @ [?new]\<rparr>" and t: "tenant_exists s (si_tenant v)"
      using assms(1) by (auto simp: put_invitation_def Let_def split: if_splits)
    show ?thesis
      using assms(2) free None sc t copy_of_new [of L v]
      by (auto simp: s' invite_keys_def new find_None tenant_exists_frame invitations_frame no_ref)
  next
    case (Some old)
    let ?P = "\<lambda>i. i_id i = si_id v"
    have old: "old \<in> set (invitations s)" "i_id old = si_id v" using find_SomeD [OF Some] by auto
    from Some assms(1) have s': "s' = s\<lparr>invitations := upd ?P (overwrite ?new) (invitations s)\<rparr>"
      and sc': "scope_groups_exist s (i_tenant old) (si_scope v)"
      by (auto simp: put_invitation_def Let_def split: if_splits)
    have u: "unique_on (\<lambda>_. True) i_id (invitations s)" "unique_on (\<lambda>_. True) i_token_hash (invitations s)"
      using assms(2) by (simp_all add: invite_keys_def)
    have one: "i = old" if "i \<in> set (invitations s)" "i_id i = si_id v" for i
      using unique_on_inj [OF u(1) that(1) old(1)] that old by simp
    have "unique_on (\<lambda>_. True) i_id (upd ?P (overwrite ?new) (invitations s))"
      using u(1) by (intro unique_on_upd) (simp_all add: over)
    moreover have "unique_on (\<lambda>_. True) i_token_hash (upd ?P (overwrite ?new) (invitations s))"
    proof (rule unique_on_upd_one [OF u(2)])
      show "distinct (invitations s)" using u(1) by (simp add: unique_on_def distinct_map)
      show "r = r'" if "r \<in> set (invitations s)" "r' \<in> set (invitations s)" "i_id r = si_id v" "i_id r' = si_id v" for r r'
        using one [OF that(1,3)] one [OF that(2,4)] by simp
      show "i_token_hash x \<noteq> i_token_hash (overwrite ?new r)"
        if "x \<in> set (invitations s)" "\<not> i_id x = si_id v" for r x using free that over by simp
    qed
    moreover have "\<forall>i\<in>set (upd ?P (overwrite ?new) (invitations s)). tenant_exists s (i_tenant i) \<and>
        tenant_ref_ok s (i_created_by_tenant i) \<and> scope_groups_exist s (i_tenant i) (i_scope i)"
      unfolding ball_upd using assms(2) one sc' by (auto simp: over invite_keys_def)
    moreover have "i_id ` set (upd ?P (overwrite ?new) (invitations s)) = i_id ` set (invitations s)"
      using map_upd_key [of i_id "overwrite ?new", OF over(1), of ?P "invitations s"] by (metis list.set_map)
    moreover have "overwrite ?new old \<in> set (upd ?P (overwrite ?new) (invitations s))"
      using old by (auto simp: set_upd)
    moreover have "filter (\<lambda>i. i_id i \<noteq> si_id v) (upd ?P (overwrite ?new) (invitations s)) = filter (\<lambda>i. i_id i \<noteq> si_id v) (invitations s)"
      by (rule filter_upd_other) (simp add: over)
    moreover have "si_id v \<in> i_id ` set (invitations s)" using old by (metis imageI)
    ultimately show ?thesis
      using copy_of_overwrite [OF old(2), of L]
      by (auto simp: s' invite_keys_def tenant_exists_frame invitations_frame insert_absorb)
  qed
  then show "invite_keys s'" and "\<exists>i\<in>set (invitations s'). copy_of L v i"
    and "filter (\<lambda>i. i_id i \<noteq> si_id v) (invitations s') = filter (\<lambda>i. i_id i \<noteq> si_id v) (invitations s)"
    and "i_id ` set (invitations s') = insert (si_id v) (i_id ` set (invitations s))" by blast+
qed

lemma writeInvitations_result:
  assumes "writeInvitations L flt s src n = Inr (s', m)" and "invite_keys s" and "distinct (map si_id src)"
  shows "invite_keys s' \<and> s' = s\<lparr>invitations := invitations s'\<rparr> \<and> m = n + length src \<and>
    (\<forall>v\<in>set src. \<exists>i\<in>set (invitations s'). copy_of L v i) \<and>
    filter (\<lambda>i. i_id i \<notin> si_id ` set src) (invitations s') = filter (\<lambda>i. i_id i \<notin> si_id ` set src) (invitations s) \<and>
    i_id ` set (invitations s') = si_id ` set src \<union> i_id ` set (invitations s)"
  using assms
proof (induction L flt s src n rule: writeInvitations.induct)
  case (2 L flt s v vs n)
  let ?F = "\<lambda>vs. filter (\<lambda>i. i_id i \<notin> si_id ` set vs)"
  from 2 obtain s1 where p: "put_invitation L s v = Some s1"
      and w: "writeInvitations L (\<lambda>n. flt (n + 1)) s1 vs (n + 1) = Inr (s', m)"
    by (auto split: if_splits option.splits)
  note one = put_invitation_result [OF p "2.prems"(2)]
  have "\<not> flt 0" using "2.prems"(1) by (simp split: if_splits)
  with "2.IH" [OF _ p w one(1)] "2.prems"(3) have rest: "invite_keys s'" "s' = s1\<lparr>invitations := invitations s'\<rparr>" "m = n + 1 + length vs"
      "\<forall>v\<in>set vs. \<exists>i\<in>set (invitations s'). copy_of L v i"
      "filter (\<lambda>i. i_id i \<notin> si_id ` set vs) (invitations s') = filter (\<lambda>i. i_id i \<notin> si_id ` set vs) (invitations s1)"
      "i_id ` set (invitations s') = si_id ` set vs \<union> i_id ` set (invitations s1)" by simp_all
  obtain i where i: "i \<in> set (invitations s1)" "copy_of L v i" using one(3) by blast
  then have "i \<in> set (filter (\<lambda>i. i_id i \<notin> si_id ` set vs) (invitations s1))"
    using "2.prems"(3) by (simp add: copy_of_fields(1))
  then have "i \<in> set (invitations s')" unfolding rest(5) [symmetric] by simp
  moreover have "?F (v # vs) (invitations s') = ?F (v # vs) (invitations s)"
  proof -
    have outer: "?F (v # vs) is' = filter (\<lambda>i. i_id i \<noteq> si_id v) (?F vs is')"
      and inner: "?F (v # vs) is' = ?F vs (filter (\<lambda>i. i_id i \<noteq> si_id v) is')" for is'
      by (simp_all add: conj_commute)
    show ?thesis unfolding outer [of "invitations s'"] rest(5) unfolding outer [symmetric] unfolding inner one(4) ..
  qed
  moreover have "s' = s\<lparr>invitations := invitations s'\<rparr>" by (rule invitations_again [OF one(2) rest(2)])
  ultimately show ?case using rest(1,3,4,6) i(2) one(5) by auto
qed simp

lemma backfilled:
  assumes "invite_keys s" and "distinct (map si_id src)"
    and "BackfillInvitations L fDSN flt s src False = (s', st)"
  shows "(st \<noteq> ExitSuccess \<longrightarrow> s' = s) \<and>
    (st = ExitSuccess \<longrightarrow> s' = s\<lparr>invitations := invitations s'\<rparr> \<and> invite_keys s' \<and>
       (\<forall>v\<in>set src. \<exists>i\<in>set (invitations s'). copy_of L v i) \<and>
       filter (\<lambda>i. i_id i \<notin> si_id ` set src) (invitations s') = filter (\<lambda>i. i_id i \<notin> si_id ` set src) (invitations s) \<and>
       i_id ` set (invitations s') = si_id ` set src \<union> i_id ` set (invitations s))"
proof -
  have "st \<noteq> ExitSuccess \<and> s' = s \<or>
      (\<exists>n flt'. writeInvitations L flt' s src 0 = Inr (s', n) \<and> (st = ExitSuccess \<longleftrightarrow> n = length src))"
    using assms(3) by (auto simp: BackfillInvitations_def split: if_splits sum.splits prod.splits)
  then show ?thesis
  proof
    assume "\<exists>n flt'. writeInvitations L flt' s src 0 = Inr (s', n) \<and> (st = ExitSuccess \<longleftrightarrow> n = length src)"
    then obtain n flt' where w: "writeInvitations L flt' s src 0 = Inr (s', n)" "st = ExitSuccess \<longleftrightarrow> n = length src" by blast
    from writeInvitations_result [OF w(1) assms(1,2)] w(2) show ?thesis by auto
  qed auto
qed

lemma member_inv_frame: "member_inv L (s\<lparr>invitations := x\<rparr>) = member_inv L s"
  by (simp add: member_inv_def)

text \<open>
  A run that fails leaves the database as it was. One that succeeds, with any faults, has every
  invitation of the source here under its id, with the same link, status, scope, expiry, role and
  message id; no invitation is gone, those the source does not have are untouched, and nothing else
  changed.
\<close>

theorem BackfillInvitations_faithful:
  assumes "invite_keys s" and "distinct (map si_id src)"
    and "BackfillInvitations L fDSN flt s src False = (s', st)"
  shows "(st \<noteq> ExitSuccess \<longrightarrow> s' = s) \<and>
    (st = ExitSuccess \<longrightarrow> s' = s\<lparr>invitations := invitations s'\<rparr> \<and> invite_keys s' \<and>
       (\<forall>v\<in>set src. \<exists>i\<in>set (invitations s'). copy_of L v i) \<and>
       filter (\<lambda>i. i_id i \<notin> si_id ` set src) (invitations s') = filter (\<lambda>i. i_id i \<notin> si_id ` set src) (invitations s) \<and>
       i_id ` set (invitations s') = si_id ` set src \<union> i_id ` set (invitations s))"
  by (rule backfilled [OF assms])

definition demo_src_invitation :: src_invitation where
  "demo_src_invitation = \<lparr>si_id = ''i1'', si_tenant = ''cu'', si_email = ''d@x'', si_role = ''member'',
     si_hash = hashInviteToken demo_crypto ''tok'', si_status = InviteStatusPending, si_invited_by = ''0xAA'', si_invitee = None,
     si_scope = Some [''cu_vans''], si_message_id = None, si_email_status = None, si_email_status_at = None,
     si_email_detail = None, si_created = 0, si_expires = 100 * second, si_accepted = None\<rparr>"

lemma demo_invite_keys: "invite_keys demo_db"
  by (simp add: invite_keys_def demo_defs)

lemma demo_BackfillInvitations:
  "\<exists>s'. BackfillInvitations demo_library ''f'' no_faults demo_db [demo_src_invitation] False = (s', ExitSuccess)"
proof -
  have "snd (BackfillInvitations demo_library ''f'' no_faults demo_db [demo_src_invitation] False) = ExitSuccess" by code_simp
  then show ?thesis by (metis prod.collapse)
qed

lemma BackfillInvitations_faithful_witness:
  "\<exists>s' i. BackfillInvitations demo_library ''f'' no_faults demo_db [demo_src_invitation] False = (s', ExitSuccess) \<and>
     i \<in> set (invitations s') \<and> copy_of demo_library demo_src_invitation i"
proof -
  obtain s' where r: "BackfillInvitations demo_library ''f'' no_faults demo_db [demo_src_invitation] False = (s', ExitSuccess)"
    using demo_BackfillInvitations by blast
  have "\<exists>i\<in>set (invitations s'). copy_of demo_library demo_src_invitation i"
    using BackfillInvitations_faithful [OF demo_invite_keys _ r] by simp
  with r show ?thesis by blast
qed

subsection \<open>Links already sent\<close>

text \<open>An invitation with the reader's link, pending and in time, is accepted whatever else is in the database.\<close>

lemma Accept_live:
  assumes "address_laws L" and "member_inv L s" and "invite_keys s" and "i \<in> set (invitations s)"
    and "i_token_hash i = hashInviteToken K token" "i_status i = InviteStatusPending" "auth (i_tenant i) = None"
    and "token \<noteq> []" "w \<noteq> []" "appnow \<le> parseWireTime (wireTime (i_expires i))"
  shows "\<exists>s' m. Accept L K auth no_faults appnow now s \<lparr>ia_token = token, ia_wallet = w, ia_email = e\<rparr> =
      (s', Inr (scanInvitation (accepted_row (HexAddr L w) now i))) \<and>
    membership_of s' (i_tenant i) (HexAddr L w) = Some m \<and> m_scope m = i_scope i"
proof -
  let ?w = "HexAddr L w" and ?t = "i_tenant i"
  have k: "unique_on (\<lambda>_. True) i_token_hash (invitations s)" "tenant_exists s ?t" "tenant_ref_ok s (i_created_by_tenant i)"
      "scope_groups_exist s ?t (i_scope i)" using assms(3,4) by (auto simp: invite_keys_def)
  obtain j where j: "find (\<lambda>j. i_token_hash j = hashInviteToken K token) (invitations s) = Some j"
    using assms(4,5) by (metis (mono_tags, lifting) find_None not_Some_eq)
  have "j = i" using unique_on_inj [OF k(1), of j i] find_SomeD [OF j] assms(4,5) by simp
  note find = j [unfolded this]
  let ?wr = "accept_write (scanInvitation i) e (membership_of s ?t ?w)"
  have "mw_granted_by_tenant ?wr = null_str (i_created_by_tenant i)"
    by (simp add: accept_write_def Let_def scanInvitation_def split: option.split)
  moreover have "tenant_ref_ok s (nullif (null_str t))" if "tenant_ref_ok s t" for t
    using that by (cases t) (simp_all add: tenant_ref_ok_def null_str_def nullif_def)
  ultimately have ref: "tenant_ref_ok s (nullif (mw_granted_by_tenant ?wr))" using k(3) by simp
  have scope: "snd (snd (Scope ?wr))" by (simp add: Scope_def decode_scopeJSON)
  have row: "m_scope (member_row_for L now ?t ?w ?wr) = i_scope i" by simp
  have "tenant_by_id ?t s \<noteq> None"
    using k(2) by (auto simp: tenant_exists_def tenant_by_id_def list_ex_iff find_None)
  from upsertMemberTx_succeeds [OF scope this _ ref, of L now ?w] k(4) row obtain s1 where
    up: "upsertMemberTx L no_faults now s ?t ?w ?wr = (s1, Inr (HexAddr L ?w))" by auto
  from upsertMemberTx_lookup(2) [OF assms(1,2) up] row HexAddr_idem [OF assms(1)] obtain m where
    m: "membership_of s1 ?t ?w = Some m" "m_scope m = i_scope i" by auto
  have sel: "wi_tenant (scanInvitation i) = ?t" "wi_status (scanInvitation i) = InviteStatusPending"
    "wi_expires (scanInvitation i) = wireTime (i_expires i)" "wi_id (scanInvitation i) = i_id i"
    using assms(6) by (simp_all add: scanInvitation_def)
  have "Accept L K auth no_faults appnow now s \<lparr>ia_token = token, ia_wallet = w, ia_email = e\<rparr> =
      (s1\<lparr>invitations := upd (\<lambda>j. i_id j = i_id i) (accepted_row ?w now) (invitations s1)\<rparr>, Inr (scanInvitation (accepted_row ?w now i)))"
    using assms(7-10) find up by (simp add: Accept_def Let_def sel accepted_row_def [abs_def])
  moreover have "membership_of (s1\<lparr>invitations := x\<rparr>) ?t ?w = Some m" for x using m(1) by (simp add: membership_of_def)
  ultimately show ?thesis using m(2) by simp
qed

text \<open>
  C24. Outstanding links survive the move: after a run that succeeded, whoever holds the token of an
  invitation that was pending at the source can accept it here until the second it expires there, as
  any wallet the caller may act for, and gets exactly the scope the invitation had at the source.
\<close>

theorem outstanding_links_work:
  assumes "address_laws L" and "member_inv L s" and "invite_keys s" and "distinct (map si_id src)"
    and "BackfillInvitations L fDSN flt s src False = (s', ExitSuccess)"
    and "v \<in> set src" and "si_hash v = hashInviteToken K token" and "si_status v = InviteStatusPending"
    and "token \<noteq> []" "w \<noteq> []" "\<forall>t. auth t = None" "appnow \<le> parseWireTime (wireTime (si_expires v))"
  shows "\<exists>s'' a m. Accept L K auth no_faults appnow now s' \<lparr>ia_token = token, ia_wallet = w, ia_email = e\<rparr> = (s'', Inr a) \<and>
    wi_id a = si_id v \<and> membership_of s'' (wi_tenant a) (HexAddr L w) = Some m \<and> m_scope m = si_scope v"
proof -
  have run: "BackfillInvitations L fDSN flt s src False = (s', ExitSuccess)" by fact
  have b: "s' = s\<lparr>invitations := invitations s'\<rparr>" "invite_keys s'" "\<forall>v\<in>set src. \<exists>i\<in>set (invitations s'). copy_of L v i"
    using backfilled [OF assms(3,4) run] by auto
  then obtain i where i: "i \<in> set (invitations s')" "copy_of L v i" using assms(6) by blast
  note f = copy_of_fields [OF i(2)]
  have "member_inv L s'" using assms(2) b(1) by (metis member_inv_frame)
  from Accept_live [OF assms(1) this b(2) i(1)] f assms(7-12) obtain s'' m where
    "Accept L K auth no_faults appnow now s' \<lparr>ia_token = token, ia_wallet = w, ia_email = e\<rparr> =
      (s'', Inr (scanInvitation (accepted_row (HexAddr L w) now i)))"
    "membership_of s'' (i_tenant i) (HexAddr L w) = Some m" "m_scope m = si_scope v" by metis
  then show ?thesis using f(1) by (auto simp: scanInvitation_def accepted_row_def)
qed

lemma outstanding_links_work_witness:
  "\<exists>s' s'' a m. BackfillInvitations demo_library ''f'' no_faults demo_db [demo_src_invitation] False = (s', ExitSuccess) \<and>
     Accept demo_library demo_crypto (\<lambda>_. None) no_faults 50 60 s' \<lparr>ia_token = ''tok'', ia_wallet = ''0xEE'', ia_email = []\<rparr> = (s'', Inr a) \<and>
     membership_of s'' (wi_tenant a) (HexAddr demo_library ''0xEE'') = Some m \<and> m_scope m = Some [''cu_vans'']"
proof -
  obtain s' where r: "BackfillInvitations demo_library ''f'' no_faults demo_db [demo_src_invitation] False = (s', ExitSuccess)"
    using demo_BackfillInvitations by blast
  have v: "demo_src_invitation \<in> set [demo_src_invitation]" "distinct (map si_id [demo_src_invitation])"
    "si_hash demo_src_invitation = hashInviteToken demo_crypto ''tok''" "si_status demo_src_invitation = InviteStatusPending"
    "50 \<le> parseWireTime (wireTime (si_expires demo_src_invitation))" "si_scope demo_src_invitation = Some [''cu_vans'']"
    by (simp_all add: demo_src_invitation_def parseWireTime_def wireTime_def second_def)
  obtain s'' a m where "Accept demo_library demo_crypto (\<lambda>_. None) no_faults 50 60 s' \<lparr>ia_token = ''tok'', ia_wallet = ''0xEE'', ia_email = []\<rparr> = (s'', Inr a)"
      "membership_of s'' (wi_tenant a) (HexAddr demo_library ''0xEE'') = Some m" "m_scope m = si_scope demo_src_invitation"
    using outstanding_links_work [OF demo_address_laws demo_member_inv demo_invite_keys v(2) r v(1,3,4), of "''0xEE''" "\<lambda>_. None" 50 60 "[]"] v(5)
    by auto
  with r v(6) show ?thesis by metis
qed

end
