(* ===== verification/Backfill.thy ===== *)
theory Backfill
  imports BackfillGroups
begin

text \<open>
  The command \<open>backfill\<close> (\<open>cmd/fleet-tenancy-api/backfill.go\<close>): tenants with their licences, users and
  memberships from the two systems this service replaces. Everything is read, re-encrypted and
  checked first; the members of both systems are merged in memory by tenant and wallet, so that
  migrating takes no access away; then one transaction writes all of it.
\<close>

subsection \<open>The sources\<close>

record src_tenant =
  st_id :: uuid
  st_name :: string
  st_client :: "string option"
  st_secret :: "string option"
  st_signer :: "string option"
  st_signer_key :: "string option"

record fleet_tenant =
  ft_id :: uuid
  ft_name :: string
  ft_client :: "string option"
  ft_secret :: "string option"

text \<open>A row of kaufmann's \<open>access_tenants\<close> with the groups its subquery collects, and one of \<open>tenant_users\<close>.\<close>

record kaufmann_member =
  km_tenant :: uuid
  km_wallet :: string
  km_perms :: json
  km_admin :: bool
  km_email :: "string option"
  km_groups :: "string list"

record fleet_member =
  fm_tenant :: uuid
  fm_wallet :: string
  fm_role :: string
  fm_email :: "string option"
  fm_groups :: scope
  fm_login :: "time option"

record backfill_sources =
  bk_tenants :: "src_tenant list"
  bf_tenants :: "fleet_tenant list"
  bk_members :: "kaufmann_member list"
  bf_members :: "fleet_member list"

subsection \<open>Secrets\<close>

text \<open>A nonce of \<open>EncryptSecret\<close> is what the random source gave it, if it gave one.\<close>

definition recrypt :: "crypto \<Rightarrow> string option \<Rightarrow> string \<Rightarrow> string \<Rightarrow> string option \<Rightarrow> command_error + string" where
  "recrypt K nonce srcKey dstKey v =
     (case v of None \<Rightarrow> Inr []
      | Some enc \<Rightarrow>
        if enc = [] then Inr []
        else case DecryptSecret K srcKey enc of
          None \<Rightarrow> Inl (Undecryptable enc)
        | Some plain \<Rightarrow>
          (case nonce of None \<Rightarrow> Inl (Fault ''nonce'') | Some n \<Rightarrow> Inr (EncryptSecret K n dstKey plain)))"

record re_keyed =
  rk_tenant :: src_tenant
  rk_api :: string
  rk_signer :: string

text \<open>
  The loops over kaufmann's tenants and over the self-serve ones, whose signer columns are absent;
  \<open>rnd\<close> numbers the encryptions.
\<close>

fun prepare :: "crypto \<Rightarrow> (nat \<Rightarrow> string option) \<Rightarrow> string \<Rightarrow> string \<Rightarrow> src_tenant list \<Rightarrow> command_error + re_keyed list" where
  "prepare K rnd srcKey dstKey [] = Inr []"
| "prepare K rnd srcKey dstKey (t # ts) =
     (case recrypt K (rnd 0) srcKey dstKey (st_secret t) of
        Inl e \<Rightarrow> Inl e
      | Inr api \<Rightarrow>
        (case recrypt K (rnd 1) srcKey dstKey (st_signer_key t) of
           Inl e \<Rightarrow> Inl e
         | Inr signerEnc \<Rightarrow>
           (case prepare K (\<lambda>n. rnd (n + 2)) srcKey dstKey ts of
              Inl e \<Rightarrow> Inl e
            | Inr rs \<Rightarrow> Inr (\<lparr>rk_tenant = t, rk_api = api, rk_signer = signerEnc\<rparr> # rs))))"

definition strandedFleetLiteTenants :: "fleet_tenant list \<Rightarrow> src_tenant list \<Rightarrow> fleet_tenant list" where
  "strandedFleetLiteTenants ft kt = filter (\<lambda>t. ft_id t \<notin> st_id ` set kt) ft"

definition self_serve :: "fleet_tenant \<Rightarrow> src_tenant" where
  "self_serve t = \<lparr>st_id = ft_id t, st_name = ft_name t, st_client = ft_client t, st_secret = ft_secret t,
     st_signer = None, st_signer_key = None\<rparr>"

definition rk_client :: "re_keyed \<Rightarrow> string" where
  "rk_client r = null_str (st_client (rk_tenant r))"

fun shared_client :: "re_keyed list \<Rightarrow> (string \<times> string) list \<Rightarrow> command_error option" where
  "shared_client [] seen = None"
| "shared_client (r # rs) seen =
     (if rk_client r = [] then shared_client rs seen
      else case map_of seen (lower (rk_client r)) of
        Some other \<Rightarrow> Some (SharedClientID (st_name (rk_tenant r)) other)
      | None \<Rightarrow> shared_client rs ((lower (rk_client r), st_name (rk_tenant r)) # seen))"

subsection \<open>Writing tenants\<close>

text \<open>\<open>ON CONFLICT (id) DO UPDATE SET name\<close>, and what \<open>idx_tenants_name_per_parent\<close> makes of it.\<close>

definition put_tenant :: "time \<Rightarrow> tenant_kind \<Rightarrow> uuid \<Rightarrow> string \<Rightarrow> tenant_row list \<Rightarrow> tenant_row list" where
  "put_tenant now kind i n = upsert_row t_id
     \<lparr>t_id = i, t_name = n, t_kind = kind, t_parent = None, t_status = StatusActive, t_managed = False,
      t_mode = EntitlementImplicit, t_fleet_lite = True, t_enforced = False, t_external_ref = None, t_created = now\<rparr>
     (\<lambda>t. t\<lparr>t_name := n\<rparr>)"

definition name_clash :: "db \<Rightarrow> uuid \<Rightarrow> string \<Rightarrow> bool" where
  "name_clash s i n \<longleftrightarrow> list_ex (\<lambda>t. t_id t = i \<and> t_parent t \<noteq> None \<and>
     list_ex (\<lambda>t'. t_id t' \<noteq> i \<and> t_parent t' = t_parent t \<and> lower (t_name t') = lower n) (tenants s)) (tenants s)"

text \<open>The upsert of an operator's credential sets the signer too; a self-serve one's leaves it.\<close>

definition licence_row :: "bool \<Rightarrow> re_keyed \<Rightarrow> credential_row" where
  "licence_row operator r =
     \<lparr>c_tenant = st_id (rk_tenant r), c_client_id = nullif (rk_client r), c_api_key_enc = nullif (rk_api r),
      c_signer_address = (if operator then nullif (null_str (st_signer (rk_tenant r))) else None),
      c_signer_key_enc = (if operator then nullif (rk_signer r) else None),
      c_is_service = False, c_aa_address = None, c_aa_key_enc = None\<rparr>"

definition relicensed :: "bool \<Rightarrow> re_keyed \<Rightarrow> credential_row \<Rightarrow> credential_row" where
  "relicensed operator r c =
     (let c' = c\<lparr>c_client_id := nullif (rk_client r), c_api_key_enc := nullif (rk_api r)\<rparr> in
      if operator then c'\<lparr>c_signer_address := nullif (null_str (st_signer (rk_tenant r))), c_signer_key_enc := nullif (rk_signer r)\<rparr>
      else c')"

definition put_licence :: "bool \<Rightarrow> re_keyed \<Rightarrow> credential_row list \<Rightarrow> credential_row list" where
  "put_licence operator r = upsert_row c_tenant (licence_row operator r) (relicensed operator r)"

definition licence_clash :: "db \<Rightarrow> re_keyed \<Rightarrow> bool" where
  "licence_clash s r \<longleftrightarrow> rk_client r \<noteq> [] \<and>
     list_ex (\<lambda>c. c_tenant c \<noteq> st_id (rk_tenant r) \<and> map_option lower (c_client_id c) = Some (lower (rk_client r))) (credentials s)"

text \<open>One iteration of either loop: the tenant, then its credential.\<close>

fun write_tenants :: "time \<Rightarrow> bool \<Rightarrow> faults \<Rightarrow> re_keyed list \<Rightarrow> db \<Rightarrow> command_error + db" where
  "write_tenants now operator flt [] s = Inr s"
| "write_tenants now operator flt (r # rs) s =
     (let i = st_id (rk_tenant r); n = st_name (rk_tenant r) in
      if flt 0 then Inl (Fault ''upsert tenant'')
      else if name_clash s i n then Inl (Constraint ''upsert tenant'')
      else let s1 = s\<lparr>tenants := put_tenant now (if operator then KindOperator else KindCustomer) i n (tenants s)\<rparr> in
      if flt 1 then Inl (Fault ''upsert credentials'')
      else if licence_clash s1 r then Inl (Constraint ''upsert credentials'')
      else write_tenants now operator (\<lambda>n. flt (n + 2)) rs (s1\<lparr>credentials := put_licence operator r (credentials s1)\<rparr>))"

subsection \<open>Merging members\<close>

fun caps_loop :: "string list \<Rightarrow> string list \<Rightarrow> string list" where
  "caps_loop [] out = out"
| "caps_loop (p # ps) out =
     (if p = ''view_all_fleets'' then caps_loop ps out
      else let q = (if p = ''manage_admin_users'' then CapManageMembers else p) in
      caps_loop ps (if q \<in> set out then out else out @ [q]))"

definition mapKaufmannCapabilities :: "string list \<Rightarrow> string list" where
  "mapKaufmannCapabilities ps = caps_loop ps []"

definition roleRank :: "string \<Rightarrow> nat" where
  "roleRank r = (if r = ''owner'' then 3 else if r = ''admin'' then 2 else 1)"

text \<open>Its two Go maps are sets.\<close>

record member_access =
  ma_role :: string
  ma_perms :: "string set"
  ma_unrestricted :: bool
  ma_groups :: "string set"
  ma_email :: "string option"
  ma_login :: "time option"

definition no_access :: member_access where
  "no_access = \<lparr>ma_role = [], ma_perms = {}, ma_unrestricted = False, ma_groups = {}, ma_email = None, ma_login = None\<rparr>"

definition merge_access ::
  "string \<Rightarrow> string list \<Rightarrow> bool \<Rightarrow> string list \<Rightarrow> string option \<Rightarrow> time option \<Rightarrow> member_access \<Rightarrow> member_access" where
  "merge_access role perms unrestricted groups email login a =
     \<lparr>ma_role = (if ma_role a = [] \<or> roleRank (ma_role a) < roleRank role then role else ma_role a),
      ma_perms = ma_perms a \<union> set perms,
      ma_unrestricted = (ma_unrestricted a \<or> unrestricted),
      ma_groups = ma_groups a \<union> set groups,
      ma_email = (case ma_email a of None \<Rightarrow> email | Some e \<Rightarrow> Some e),
      ma_login = (case login of None \<Rightarrow> ma_login a
                  | Some t \<Rightarrow> (case ma_login a of None \<Rightarrow> Some t | Some u \<Rightarrow> if u < t then Some t else Some u))\<rparr>"

definition permissionsJSON :: "member_access \<Rightarrow> json" where
  "permissionsJSON a = marshal_strings (sorted_list_of_set (ma_perms a))"

definition scopeArg :: "member_access \<Rightarrow> scope" where
  "scopeArg a = (if ma_unrestricted a then None else Some (sorted_list_of_set (ma_groups a)))"

text \<open>A Go map from tenant and checksummed wallet.\<close>

type_synonym member_id = "uuid \<times> string"
type_synonym accesses = "(member_id \<times> member_access) list"

definition at_member :: "member_id \<Rightarrow> (member_access \<Rightarrow> member_access) \<Rightarrow> accesses \<Rightarrow> accesses" where
  "at_member k f acc = (case map_of acc k of None \<Rightarrow> acc @ [(k, f no_access)] | Some a \<Rightarrow> AList.update k (f a) acc)"

definition kaufmann_access :: "library \<Rightarrow> kaufmann_member \<Rightarrow> accesses \<Rightarrow> accesses" where
  "kaufmann_access L m =
     (let srcPerms = parsePermissions (km_perms m) in
      at_member (km_tenant m, HexAddr L (km_wallet m))
        (merge_access (if km_admin m then ''admin'' else ''member'') (mapKaufmannCapabilities srcPerms)
           (''view_all_fleets'' \<in> set srcPerms) (km_groups m) (km_email m) None))"

definition readKaufmannMembers :: "library \<Rightarrow> kaufmann_member list \<Rightarrow> accesses \<Rightarrow> accesses" where
  "readKaufmannMembers L = fold (kaufmann_access L)"

definition fleet_access :: "library \<Rightarrow> fleet_member \<Rightarrow> accesses \<Rightarrow> accesses" where
  "fleet_access L m =
     at_member (fm_tenant m, HexAddr L (fm_wallet m))
       (merge_access (fm_role m) (if fm_role m = ''owner'' then [CapManageMembers, CapManageSettings] else [])
          (fm_groups m = None) (case fm_groups m of None \<Rightarrow> [] | Some gs \<Rightarrow> gs) (fm_email m) (fm_login m))"

definition readFleetLiteMembers :: "library \<Rightarrow> fleet_member list \<Rightarrow> accesses \<Rightarrow> accesses" where
  "readFleetLiteMembers L = fold (fleet_access L)"

subsection \<open>Writing members\<close>

definition greatest :: "time option \<Rightarrow> time option \<Rightarrow> time option" where
  "greatest a b = (case a of None \<Rightarrow> b | Some x \<Rightarrow> (case b of None \<Rightarrow> Some x | Some y \<Rightarrow> Some (max x y)))"

definition copied_member :: "time \<Rightarrow> member_id \<Rightarrow> member_access \<Rightarrow> membership_row" where
  "copied_member now k a = \<lparr>m_tenant = fst k, m_wallet = snd k, m_role = ma_role a, m_perms = permissionsJSON a,
     m_scope = scopeArg a, m_granted_by_tenant = None, m_granted_by_wallet = None, m_last_login = ma_login a, m_created = now\<rparr>"

definition replaced_member :: "membership_row \<Rightarrow> membership_row \<Rightarrow> membership_row" where
  "replaced_member new old = old\<lparr>m_role := m_role new, m_perms := m_perms new, m_scope := m_scope new,
     m_last_login := greatest (m_last_login old) (m_last_login new)\<rparr>"

definition put_copied :: "membership_row \<Rightarrow> membership_row list \<Rightarrow> membership_row list" where
  "put_copied new = upsert_row member_key new (replaced_member new)"

text \<open>In the order of tenant, then wallet; \<open>seen\<close> are the wallets whose user row is written. The count of statements goes along.\<close>

fun writeMembers ::
  "library \<Rightarrow> time \<Rightarrow> faults \<Rightarrow> accesses \<Rightarrow> string list \<Rightarrow> db \<Rightarrow> nat \<Rightarrow> command_error + db \<times> nat" where
  "writeMembers L now flt [] seen s n = Inr (s, n)"
| "writeMembers L now flt ((k, a) # acc) seen s n =
     (let fresh = snd k \<notin> set seen;
          s1 = (if fresh then s\<lparr>users := put_user (HexAddr L (snd k)) (null_str (ma_email a)) (users s)\<rparr> else s);
          n1 = (if fresh then n + 1 else n) in
      if fresh \<and> flt n then Inl (Fault ''upsert user'')
      else if flt n1 then Inl (Fault ''upsert membership'')
      else if \<not> scope_groups_exist s1 (fst k) (scopeArg a) \<or> \<not> tenant_exists s1 (fst k) then Inl (Constraint ''upsert membership'')
      else writeMembers L now flt acc (snd k # seen) (s1\<lparr>memberships := put_copied (copied_member now k a) (memberships s1)\<rparr>) (n1 + 1))"

definition in_key_order :: "accesses \<Rightarrow> accesses" where
  "in_key_order acc = sort_key (\<lambda>p. fst (fst p)) (sort_key (\<lambda>p. snd (fst p)) acc)"

subsection \<open>The command\<close>

text \<open>Pass 1: statements 2 and 3 read the tenants.\<close>

definition verify_backfill ::
  "crypto \<Rightarrow> (nat \<Rightarrow> string option) \<Rightarrow> string \<Rightarrow> string \<Rightarrow> string \<Rightarrow> faults \<Rightarrow> backfill_sources \<Rightarrow> command_error + re_keyed list \<times> re_keyed list" where
  "verify_backfill K rnd kKey fKey dstKey flt src =
     (if flt 2 then Inl (Fault ''read kaufmann tenants'')
      else case prepare K rnd kKey dstKey (bk_tenants src) of
        Inl e \<Rightarrow> Inl e
      | Inr prepared \<Rightarrow>
        if flt 3 then Inl (Fault ''check fleet-lite tenants'')
        else case prepare K (\<lambda>n. rnd (n + 2 * length prepared)) fKey dstKey
                    (map self_serve (strandedFleetLiteTenants (bf_tenants src) (bk_tenants src))) of
          Inl e \<Rightarrow> Inl e
        | Inr preparedSelfServe \<Rightarrow>
          (case shared_client (prepared @ preparedSelfServe) [] of
             Some e \<Rightarrow> Inl e
           | None \<Rightarrow> Inr (prepared, preparedSelfServe)))"

text \<open>Pass 2: from the begin, statement 4, to the commit.\<close>

definition write_backfill ::
  "library \<Rightarrow> time \<Rightarrow> faults \<Rightarrow> db \<Rightarrow> backfill_sources \<Rightarrow> re_keyed list \<Rightarrow> re_keyed list \<Rightarrow> db \<times> command_error option" where
  "write_backfill L now flt s src prepared selfServe =
     (if flt 4 then (s, Some (Fault ''begin''))
      else case write_tenants now True (\<lambda>n. flt (n + 5)) prepared s of
        Inl e \<Rightarrow> (s, Some e)
      | Inr s1 \<Rightarrow>
        (case write_tenants now False (\<lambda>n. flt (n + 5 + 2 * length prepared)) selfServe s1 of
           Inl e \<Rightarrow> (s, Some e)
         | Inr s2 \<Rightarrow>
           let n = 5 + 2 * length prepared + 2 * length selfServe in
           if flt n then (s, Some (Fault ''read kaufmann members''))
           else if flt (n + 1) then (s, Some (Fault ''read fleet-lite members''))
           else let acc = readFleetLiteMembers L (bf_members src) (readKaufmannMembers L (bk_members src) []) in
           (case writeMembers L now flt (in_key_order acc) [] s2 (n + 2) of
              Inl e \<Rightarrow> (s, Some e)
            | Inr (s3, n') \<Rightarrow> if flt n' then (s, Some (Fault ''commit'')) else (s3, None))))"

definition Backfill ::
  "library \<Rightarrow> crypto \<Rightarrow> (nat \<Rightarrow> string option) \<Rightarrow> string \<Rightarrow> string \<Rightarrow> string \<Rightarrow> string \<Rightarrow> string \<Rightarrow> time \<Rightarrow> faults \<Rightarrow> db \<Rightarrow>
   backfill_sources \<Rightarrow> bool \<Rightarrow> db \<times> exit_status" where
  "Backfill L K rnd kDSN kKey fDSN fKey dstKey now flt s src dryRun =
     (if kDSN = [] \<or> fDSN = [] then (s, ExitUsageError)
      else if dstKey = [] then (s, ExitFailure)
      else if flt 0 \<or> flt 1 then (s, ExitFailure)
      else case verify_backfill K rnd kKey fKey dstKey flt src of
        Inl e \<Rightarrow> (s, ExitFailure)
      | Inr (prepared, selfServe) \<Rightarrow>
        if dryRun then (s, ExitSuccess)
        else exit_with s (write_backfill L now flt s src prepared selfServe))"

subsection \<open>What each source claims\<close>

text \<open>A row of either source as the membership it speaks of and what it says of it.\<close>

record claim =
  cl_key :: member_id
  cl_role :: string
  cl_perms :: "string list"
  cl_all :: bool
  cl_groups :: "string list"
  cl_email :: "string option"
  cl_login :: "time option"

definition kaufmann_claim :: "library \<Rightarrow> kaufmann_member \<Rightarrow> claim" where
  "kaufmann_claim L m = \<lparr>cl_key = (km_tenant m, HexAddr L (km_wallet m)), cl_role = (if km_admin m then ''admin'' else ''member''),
     cl_perms = mapKaufmannCapabilities (parsePermissions (km_perms m)),
     cl_all = (''view_all_fleets'' \<in> set (parsePermissions (km_perms m))), cl_groups = km_groups m,
     cl_email = km_email m, cl_login = None\<rparr>"

definition fleet_claim :: "library \<Rightarrow> fleet_member \<Rightarrow> claim" where
  "fleet_claim L m = \<lparr>cl_key = (fm_tenant m, HexAddr L (fm_wallet m)), cl_role = fm_role m,
     cl_perms = (if fm_role m = ''owner'' then [CapManageMembers, CapManageSettings] else []),
     cl_all = (fm_groups m = None), cl_groups = (case fm_groups m of None \<Rightarrow> [] | Some gs \<Rightarrow> gs),
     cl_email = fm_email m, cl_login = fm_login m\<rparr>"

definition claims :: "library \<Rightarrow> backfill_sources \<Rightarrow> claim list" where
  "claims L src = map (kaufmann_claim L) (bk_members src) @ map (fleet_claim L) (bf_members src)"

definition claims_of :: "library \<Rightarrow> backfill_sources \<Rightarrow> member_id \<Rightarrow> claim set" where
  "claims_of L src k = {c \<in> set (claims L src). cl_key c = k}"

definition merge_claim :: "claim \<Rightarrow> member_access \<Rightarrow> member_access" where
  "merge_claim c = merge_access (cl_role c) (cl_perms c) (cl_all c) (cl_groups c) (cl_email c) (cl_login c)"

definition take_claim :: "claim \<Rightarrow> accesses \<Rightarrow> accesses" where
  "take_claim c = at_member (cl_key c) (merge_claim c)"

lemma access_is_claim:
  "kaufmann_access L m = take_claim (kaufmann_claim L m)"
  "fleet_access L m' = take_claim (fleet_claim L m')"
  by (simp_all add: fun_eq_iff kaufmann_access_def fleet_access_def take_claim_def merge_claim_def kaufmann_claim_def
      fleet_claim_def Let_def)

lemma sources_merged:
  "readFleetLiteMembers L (bf_members src) (readKaufmannMembers L (bk_members src) []) = fold take_claim (claims L src) []"
  by (simp add: readFleetLiteMembers_def readKaufmannMembers_def claims_def fold_map access_is_claim [abs_def] comp_def)

subsection \<open>The merge, per membership\<close>

lemma map_of_at_key:
  "map_of (at_member k f acc) k' = (if k' = k then Some (f (case map_of acc k of None \<Rightarrow> no_access | Some a \<Rightarrow> a)) else map_of acc k')"
  by (auto simp: at_member_def update_conv' map_add_def split: option.splits)

lemma at_key_distinct: "distinct (map fst acc) \<Longrightarrow> distinct (map fst (at_member k f acc))"
  by (auto simp: at_member_def distinct_update split: option.splits dest: map_of_eq_None_iff [THEN iffD1])

lemma keys_at_key: "fst ` set (at_member k f acc) = insert k (fst ` set acc)"
proof -
  have "fst ` set xs = dom (map_of xs)" for xs :: accesses by (simp add: dom_map_of_conv_image_fst)
  then show ?thesis by (auto simp: map_of_at_key split: if_splits)
qed

lemma folded_keys:
  "distinct (map fst acc) \<Longrightarrow> distinct (map fst (fold take_claim cs acc))"
  "fst ` set (fold take_claim cs acc) = cl_key ` set cs \<union> fst ` set acc"
  by (induction cs arbitrary: acc) (auto simp: take_claim_def at_key_distinct keys_at_key)

lemma map_of_folded:
  "map_of (fold take_claim cs acc) k =
     (let mine = filter (\<lambda>c. cl_key c = k) cs in
      if mine = [] then map_of acc k
      else Some (fold merge_claim mine (case map_of acc k of None \<Rightarrow> no_access | Some a \<Rightarrow> a)))"
  by (induction cs arbitrary: acc) (auto simp: take_claim_def map_of_at_key Let_def split: option.splits)

lemma folded_access:
  "ma_perms (fold merge_claim cs a) = ma_perms a \<union> (\<Union>c\<in>set cs. set (cl_perms c))"
  "ma_unrestricted (fold merge_claim cs a) \<longleftrightarrow> ma_unrestricted a \<or> (\<exists>c\<in>set cs. cl_all c)"
  "ma_groups (fold merge_claim cs a) = ma_groups a \<union> (\<Union>c\<in>set cs. set (cl_groups c))"
  by (induction cs arbitrary: a) (auto simp: merge_claim_def merge_access_def)

lemma roleRank_pos: "roleRank [] \<le> roleRank r"
  by (simp add: roleRank_def)

lemma folded_role:
  "ma_role (fold merge_claim cs a) \<in> insert (ma_role a) (cl_role ` set cs) \<and>
   roleRank (ma_role a) \<le> roleRank (ma_role (fold merge_claim cs a)) \<and>
   (\<forall>c\<in>set cs. roleRank (cl_role c) \<le> roleRank (ma_role (fold merge_claim cs a)))"
proof (induction cs arbitrary: a)
  case (Cons c cs)
  have "ma_role (merge_claim c a) \<in> {ma_role a, cl_role c}"
    "roleRank (ma_role a) \<le> roleRank (ma_role (merge_claim c a))"
    "roleRank (cl_role c) \<le> roleRank (ma_role (merge_claim c a))"
    by (auto simp: merge_claim_def merge_access_def roleRank_pos)
  with Cons.IH [of "merge_claim c a"] show ?case by (auto intro: order_trans)
qed simp

text \<open>The first row fills the empty role, so the merged one is always a role of some row.\<close>

lemma folded_role_named:
  assumes "cs \<noteq> []"
  shows "ma_role (fold merge_claim cs no_access) \<in> cl_role ` set cs"
proof -
  obtain c cs' where cs: "cs = c # cs'" using assms by (cases cs) auto
  have "ma_role (merge_claim c no_access) = cl_role c" by (simp add: merge_claim_def merge_access_def no_access_def)
  with folded_role [of cs' "merge_claim c no_access"] show ?thesis by (auto simp: cs)
qed

lemma finite_access: "finite (ma_perms (fold merge_claim cs no_access))" "finite (ma_groups (fold merge_claim cs no_access))"
  by (simp_all add: folded_access no_access_def)

subsection \<open>The write, per membership\<close>

lemma replaced_member_key [simp]: "member_key (replaced_member new old) = member_key old"
  by (simp add: replaced_member_def member_key_def)

lemma copied_member_simps [simp]:
  "member_key (copied_member now k a) = k" "m_wallet (copied_member now k a) = snd k"
  by (simp_all add: copied_member_def member_key_def)

lemma greatest_idem: "greatest (greatest a b) b = greatest a b" "greatest a a = a"
  by (simp_all add: greatest_def split: option.splits)

lemma find_put_copied:
  "find (\<lambda>m. member_key m = k) (put_copied new ms) =
     (if k = member_key new
      then Some (case find (\<lambda>m. member_key m = k) ms of None \<Rightarrow> new | Some old \<Rightarrow> replaced_member new old)
      else find (\<lambda>m. member_key m = k) ms)"
  unfolding put_copied_def by (rule find_upsert_row) simp

interpretation copied_table: upsert_table
  "\<lambda>k. find (\<lambda>m. member_key m = k)" put_copied "\<lambda>k. del (\<lambda>m. member_key m = k)" member_key replaced_member
proof unfold_locales
  fix new and t :: "membership_row list"
  show "find (\<lambda>m. member_key m = member_key new) (put_copied new t) =
      Some (case find (\<lambda>m. member_key m = member_key new) t of None \<Rightarrow> new | Some old \<Rightarrow> replaced_member new old)"
    by (simp add: find_put_copied)
qed (auto simp: find_put_copied find_del_same find_del_other replaced_member_def greatest_idem)

lemma put_copied_inv:
  assumes "unique_on (\<lambda>_. True) member_key ms" and "\<forall>m\<in>set ms. HexAddr L (m_wallet m) = m_wallet m"
    and "HexAddr L (m_wallet new) = m_wallet new"
  shows "unique_on (\<lambda>_. True) member_key (put_copied new ms)" "\<forall>m\<in>set (put_copied new ms). HexAddr L (m_wallet m) = m_wallet m"
proof -
  show "unique_on (\<lambda>_. True) member_key (put_copied new ms)"
    unfolding put_copied_def using assms(1) by (rule unique_on_upsert_row) simp
qed (use assms in \<open>auto simp: put_copied_def set_upsert_row replaced_member_def\<close>)

text \<open>What a membership becomes when its merged access is \<open>a\<close>.\<close>

definition merged_row :: "time \<Rightarrow> member_id \<Rightarrow> member_access \<Rightarrow> membership_row option \<Rightarrow> membership_row" where
  "merged_row now k a old =
     (case old of None \<Rightarrow> copied_member now k a | Some m \<Rightarrow> replaced_member (copied_member now k a) m)"

lemma writeMembers_step:
  assumes "writeMembers L now flt ((k, a) # acc) seen s n = Inr (s', n')"
  obtains us seen' n1 where
    "writeMembers L now flt acc seen' (s\<lparr>users := us, memberships := put_copied (copied_member now k a) (memberships s)\<rparr>) n1 = Inr (s', n')"
    and "us = users s \<or> us = put_user (HexAddr L (snd k)) (null_str (ma_email a)) (users s)"
    and "tenant_exists s (fst k)" and "scope_groups_exist s (fst k) (scopeArg a)"
proof (cases "snd k \<in> set seen")
  case True
  with assms that [of "snd k # seen" "users s" "n + 1"] show thesis by (auto simp: Let_def split: if_splits)
next
  case False
  with assms that [of "snd k # seen" "put_user (HexAddr L (snd k)) (null_str (ma_email a)) (users s)" "n + 2"] show thesis
    by (auto simp: Let_def tenant_exists_def split: if_splits)
qed

lemma writeMembers_result:
  assumes "writeMembers L now flt acc seen s n = Inr (s', n')" and "distinct (map fst acc)"
  shows "s' = s\<lparr>users := users s', memberships := memberships s'\<rparr> \<and>
    (\<forall>k. find (\<lambda>m. member_key m = k) (memberships s') =
       (case map_of acc k of None \<Rightarrow> find (\<lambda>m. member_key m = k) (memberships s)
        | Some a \<Rightarrow> Some (merged_row now k a (find (\<lambda>m. member_key m = k) (memberships s))))) \<and>
    (\<forall>(k, a)\<in>set acc. tenant_exists s (fst k) \<and> scope_groups_exist s (fst k) (scopeArg a))"
  using assms
proof (induction acc arbitrary: seen s n)
  case (Cons p acc)
  obtain k a where p: "p = (k, a)" by (cases p)
  from writeMembers_step [OF Cons.prems(1) [unfolded p]] obtain us seen' n1 where
      run: "writeMembers L now flt acc seen' (s\<lparr>users := us, memberships := put_copied (copied_member now k a) (memberships s)\<rparr>) n1
        = Inr (s', n')"
      and ok: "tenant_exists s (fst k)" "scope_groups_exist s (fst k) (scopeArg a)" by blast
  have frame: "tenant_exists (s\<lparr>users := x, memberships := y\<rparr>) t = tenant_exists s t"
    "scope_groups_exist (s\<lparr>users := x, memberships := y\<rparr>) t sc = scope_groups_exist s t sc" for x y t sc
    by (simp_all add: tenant_exists_def scope_groups_exist_def split: option.splits)
  have d: "k \<notin> fst ` set acc" "distinct (map fst acc)" using Cons.prems(2) by (auto simp: p)
  note IH = Cons.IH [OF run d(2), unfolded frame]
  have "s' = s\<lparr>users := users s', memberships := memberships s'\<rparr>"
    by (rule trans [OF IH [THEN conjunct1]]) simp
  moreover have "map_of acc k = None" using d(1) by (simp add: map_of_eq_None_iff)
  have "find (\<lambda>m. member_key m = k') (memberships s') =
      (case map_of (p # acc) k' of None \<Rightarrow> find (\<lambda>m. member_key m = k') (memberships s)
       | Some b \<Rightarrow> Some (merged_row now k' b (find (\<lambda>m. member_key m = k') (memberships s))))" for k'
  proof (cases "k' = k")
    case True
    with \<open>map_of acc k = None\<close> IH [THEN conjunct2, THEN conjunct1, rule_format, of k] show ?thesis
      by (simp add: p find_put_copied merged_row_def)
  next
    case False
    with IH [THEN conjunct2, THEN conjunct1, rule_format, of k'] show ?thesis
      by (simp add: p find_put_copied split: option.split_asm option.split)
  qed
  moreover have "\<forall>(k, a)\<in>set (p # acc). tenant_exists s (fst k) \<and> scope_groups_exist s (fst k) (scopeArg a)"
    using IH [THEN conjunct2, THEN conjunct2] ok by (simp add: p)
  ultimately show ?case by blast
qed simp

subsection \<open>The write, per tenant\<close>

abbreviation rk_id :: "re_keyed \<Rightarrow> uuid" where "rk_id r \<equiv> st_id (rk_tenant r)"

definition credential_of :: "db \<Rightarrow> uuid \<Rightarrow> credential_row option" where
  "credential_of s i = find (\<lambda>c. c_tenant c = i) (credentials s)"

lemma relicensed_tenant [simp]: "c_tenant (relicensed b r c) = c_tenant c" "c_tenant (licence_row b r) = rk_id r"
  by (simp_all add: relicensed_def licence_row_def Let_def)

lemma find_put_licence:
  "find (\<lambda>c. c_tenant c = i) (put_licence b r cs) =
     (if i = rk_id r then Some (case find (\<lambda>c. c_tenant c = i) cs of None \<Rightarrow> licence_row b r | Some c \<Rightarrow> relicensed b r c)
      else find (\<lambda>c. c_tenant c = i) cs)"
  unfolding put_licence_def using find_upsert_row [of c_tenant "licence_row b r" "relicensed b r" i cs] by simp

lemma write_tenants_step:
  assumes "write_tenants now b flt (r # rs) s = Inr s'"
  obtains ts flt' where "write_tenants now b flt' rs (s\<lparr>tenants := ts, credentials := put_licence b r (credentials s)\<rparr>) = Inr s'"
    and "ts = put_tenant now (if b then KindOperator else KindCustomer) (rk_id r) (st_name (rk_tenant r)) (tenants s)"
  using assms that by (fastforce simp: Let_def split: if_splits)

lemma write_tenants_frame:
  "write_tenants now b flt rs s = Inr s' \<Longrightarrow> s' = s\<lparr>tenants := tenants s', credentials := credentials s'\<rparr>"
proof (induction rs arbitrary: flt s)
  case (Cons r rs)
  from write_tenants_step [OF Cons.prems] obtain ts flt' where
    "write_tenants now b flt' rs (s\<lparr>tenants := ts, credentials := put_licence b r (credentials s)\<rparr>) = Inr s'" by blast
  from Cons.IH [OF this] show ?case by (rule trans) simp
qed simp

lemma credential_of_licensed:
  "credential_of (s\<lparr>tenants := ts, credentials := put_licence b r (credentials s)\<rparr>) j =
     (if j = rk_id r then Some (case credential_of s j of None \<Rightarrow> licence_row b r | Some c \<Rightarrow> relicensed b r c)
      else credential_of s j)"
  by (simp add: credential_of_def find_put_licence)

lemma write_tenants_other:
  "write_tenants now b flt rs s = Inr s' \<Longrightarrow> i \<notin> rk_id ` set rs \<Longrightarrow> credential_of s' i = credential_of s i"
proof (induction rs arbitrary: flt s)
  case (Cons r rs)
  from write_tenants_step [OF Cons.prems(1)] obtain ts flt' where
    "write_tenants now b flt' rs (s\<lparr>tenants := ts, credentials := put_licence b r (credentials s)\<rparr>) = Inr s'" by blast
  from Cons.IH [OF this] Cons.prems(2) show ?case by (simp add: credential_of_licensed)
qed simp

lemma write_tenants_credentials:
  "write_tenants now b flt rs s = Inr s' \<Longrightarrow> distinct (map rk_id rs) \<Longrightarrow> r \<in> set rs \<Longrightarrow>
   credential_of s' (rk_id r) = Some (case credential_of s (rk_id r) of None \<Rightarrow> licence_row b r | Some c \<Rightarrow> relicensed b r c)"
proof (induction rs arbitrary: flt s)
  case (Cons x rs)
  from write_tenants_step [OF Cons.prems(1)] obtain ts flt' where
    run: "write_tenants now b flt' rs (s\<lparr>tenants := ts, credentials := put_licence b x (credentials s)\<rparr>) = Inr s'" by blast
  show ?case
  proof (cases "r \<in> set rs")
    case True
    then have "rk_id r \<in> rk_id ` set rs" by (rule imageI)
    with Cons.prems(2) have "rk_id r \<noteq> rk_id x" by auto
    with Cons.IH [OF run _ True] Cons.prems(2) show ?thesis by (simp add: credential_of_licensed)
  next
    case False
    with Cons.prems(3) have "r = x" by simp
    moreover have "rk_id x \<notin> rk_id ` set rs" using Cons.prems(2) by simp
    ultimately show ?thesis using write_tenants_other [OF run, of "rk_id x"] unfolding \<open>r = x\<close> by (simp add: credential_of_licensed)
  qed
qed simp

lemma ids_put_tenant:
  "t_id ` set (put_tenant now kind i n ts) = insert i (t_id ` set ts)"
  "unique_on (\<lambda>_. True) t_id ts \<Longrightarrow> unique_on (\<lambda>_. True) t_id (put_tenant now kind i n ts)"
proof -
  have "t_id ` set (upd P (\<lambda>t. t\<lparr>t_name := n\<rparr>) ts) = t_id ` set ts" for P
    using arg_cong [OF map_upd_key [of t_id "\<lambda>t. t\<lparr>t_name := n\<rparr>" P ts], of set] by simp
  then show "t_id ` set (put_tenant now kind i n ts) = insert i (t_id ` set ts)"
    by (auto simp: put_tenant_def upsert_row_def)
  show "unique_on (\<lambda>_. True) t_id ts \<Longrightarrow> unique_on (\<lambda>_. True) t_id (put_tenant now kind i n ts)"
    unfolding put_tenant_def by (rule unique_on_upsert_row) simp_all
qed

lemma write_tenants_ids:
  "write_tenants now b flt rs s = Inr s' \<Longrightarrow>
   t_id ` set (tenants s') = t_id ` set (tenants s) \<union> rk_id ` set rs \<and>
   (unique_on (\<lambda>_. True) t_id (tenants s) \<longrightarrow> unique_on (\<lambda>_. True) t_id (tenants s'))"
proof (induction rs arbitrary: flt s)
  case (Cons r rs)
  from write_tenants_step [OF Cons.prems] obtain ts flt' where
    run: "write_tenants now b flt' rs (s\<lparr>tenants := ts, credentials := put_licence b r (credentials s)\<rparr>) = Inr s'"
    and ts: "ts = put_tenant now (if b then KindOperator else KindCustomer) (rk_id r) (st_name (rk_tenant r)) (tenants s)" by blast
  from Cons.IH [OF run] show ?case by (auto simp: ts ids_put_tenant)
qed simp

subsection \<open>Re-encryption\<close>

text \<open>A secret moved from one key to another: absent stays absent, what opened to a plaintext opens to it again.\<close>

definition moved :: "crypto \<Rightarrow> string \<Rightarrow> string option \<Rightarrow> string \<Rightarrow> string option \<Rightarrow> bool" where
  "moved K srcKey v dstKey v' \<longleftrightarrow>
     (if null_str v = [] then v' = None
      else \<exists>enc plain. v' = Some enc \<and> enc \<noteq> [] \<and> DecryptSecret K srcKey (null_str v) = Some plain \<and> DecryptSecret K dstKey enc = Some plain)"

definition good_nonces :: "(nat \<Rightarrow> string option) \<Rightarrow> bool" where
  "good_nonces rnd \<longleftrightarrow> (\<forall>n x. rnd n = Some x \<longrightarrow> length x = NonceSize)"

lemma recrypt_moved:
  assumes "crypto_laws K" and "good_nonces rnd" and "recrypt K (rnd n) srcKey dstKey v = Inr x"
  shows "moved K srcKey v dstKey (nullif x)"
proof (cases "null_str v = []")
  case True
  with assms(3) show ?thesis by (cases v) (auto simp: recrypt_def moved_def null_str_def)
next
  case False
  then obtain enc where v: "v = Some enc" "enc \<noteq> []" by (cases v) (auto simp: null_str_def)
  with assms(3) obtain plain nonce where p: "DecryptSecret K srcKey enc = Some plain" and n: "rnd n = Some nonce"
      and x: "x = EncryptSecret K nonce dstKey plain"
    by (auto simp: recrypt_def split: option.splits)
  from assms(2) n have len: "length nonce = NonceSize" unfolding good_nonces_def by blast
  then have "nonce @ gcmSeal K (sha256 K dstKey) nonce plain \<noteq> []" by (auto simp: NonceSize_def)
  then have "x \<noteq> []" using assms(1) unfolding x EncryptSecret_def crypto_laws_def by blast
  moreover from secret_round_trip [OF assms(1) len] have "DecryptSecret K dstKey x = Some plain" by (simp add: x)
  ultimately show ?thesis using v p by (simp add: moved_def null_str_def nullif_def)
qed

lemma good_nonces_shift: "good_nonces rnd \<Longrightarrow> good_nonces (\<lambda>n. rnd (n + m))"
  by (simp add: good_nonces_def)

lemma prepare_result:
  assumes "crypto_laws K" and "good_nonces rnd" and "prepare K rnd srcKey dstKey ts = Inr rs"
  shows "map rk_tenant rs = ts \<and>
    (\<forall>r\<in>set rs. moved K srcKey (st_secret (rk_tenant r)) dstKey (nullif (rk_api r)) \<and>
       moved K srcKey (st_signer_key (rk_tenant r)) dstKey (nullif (rk_signer r)))"
  using assms(2,3)
proof (induction ts arbitrary: rnd rs)
  case (Cons t ts)
  from Cons.prems(2) obtain api sk rs' where p: "recrypt K (rnd 0) srcKey dstKey (st_secret t) = Inr api"
      "recrypt K (rnd 1) srcKey dstKey (st_signer_key t) = Inr sk"
      "prepare K (\<lambda>n. rnd (n + 2)) srcKey dstKey ts = Inr rs'" "rs = \<lparr>rk_tenant = t, rk_api = api, rk_signer = sk\<rparr> # rs'"
    by (auto split: sum.splits)
  from Cons.IH [OF good_nonces_shift [OF Cons.prems(1)] p(3)] recrypt_moved [OF assms(1) Cons.prems(1) p(1)]
    recrypt_moved [OF assms(1) Cons.prems(1) p(2)]
  show ?case by (simp add: p(4))
qed simp

lemma prepare_tenants: "prepare K rnd srcKey dstKey ts = Inr rs \<Longrightarrow> map rk_tenant rs = ts"
  by (induction ts arbitrary: rnd rs) (auto split: sum.splits)

subsection \<open>A run that succeeds\<close>

lemma Backfill_runs:
  assumes "Backfill L K rnd kDSN kKey fDSN fKey dstKey now flt s src False = (s', st)"
  shows "st \<noteq> ExitSuccess \<and> s' = s \<or>
    st = ExitSuccess \<and> (\<exists>prepared selfServe f1 f2 s1 s2 n n'.
      prepare K rnd kKey dstKey (bk_tenants src) = Inr prepared \<and>
      prepare K (\<lambda>n. rnd (n + 2 * length prepared)) fKey dstKey
        (map self_serve (strandedFleetLiteTenants (bf_tenants src) (bk_tenants src))) = Inr selfServe \<and>
      write_tenants now True f1 prepared s = Inr s1 \<and> write_tenants now False f2 selfServe s1 = Inr s2 \<and>
      writeMembers L now flt (in_key_order (fold take_claim (claims L src) [])) [] s2 n = Inr (s', n'))"
proof (cases "st = ExitSuccess")
  case True
  with assms obtain prepared selfServe where v: "verify_backfill K rnd kKey fKey dstKey flt src = Inr (prepared, selfServe)"
      and w: "write_backfill L now flt s src prepared selfServe = (s', None)"
    by (auto simp: Backfill_def exit_with_def split: if_splits sum.splits prod.splits option.splits)
  from v have "prepare K rnd kKey dstKey (bk_tenants src) = Inr prepared"
    "prepare K (\<lambda>n. rnd (n + 2 * length prepared)) fKey dstKey
        (map self_serve (strandedFleetLiteTenants (bf_tenants src) (bk_tenants src))) = Inr selfServe"
    by (auto simp: verify_backfill_def split: if_splits sum.splits option.splits)
  moreover from w obtain s1 s2 n n' where "write_tenants now True (\<lambda>n. flt (n + 5)) prepared s = Inr s1"
    "write_tenants now False (\<lambda>n. flt (n + 5 + 2 * length prepared)) selfServe s1 = Inr s2"
    "writeMembers L now flt (in_key_order (fold take_claim (claims L src) [])) [] s2 n = Inr (s', n')"
    by (auto simp: write_backfill_def Let_def sources_merged split: if_splits sum.splits prod.splits)
  ultimately show ?thesis using True by blast
next
  case False
  with assms have "s' = s"
    by (auto simp: Backfill_def exit_with_def split: if_splits sum.splits prod.splits option.splits)
  with False show ?thesis by simp
qed

lemma writeMembers_inv:
  assumes "writeMembers L now flt acc seen s n = Inr (s', n')" and "member_inv L s"
    and "\<forall>p\<in>set acc. HexAddr L (snd (fst p)) = snd (fst p)"
  shows "member_inv L s'"
  using assms
proof (induction acc arbitrary: seen s n)
  case (Cons p acc)
  obtain k a where p: "p = (k, a)" by (cases p)
  from writeMembers_step [OF Cons.prems(1) [unfolded p]] obtain us seen' n1 where
    run: "writeMembers L now flt acc seen' (s\<lparr>users := us, memberships := put_copied (copied_member now k a) (memberships s)\<rparr>) n1
        = Inr (s', n')"
    and us: "us = users s \<or> us = put_user (HexAddr L (snd k)) (null_str (ma_email a)) (users s)" by blast
  have "member_inv L (s\<lparr>users := us, memberships := put_copied (copied_member now k a) (memberships s)\<rparr>)"
    using us Cons.prems(2,3) put_copied_inv [of "memberships s" L "copied_member now k a"]
    by (auto simp: p member_inv_def put_user_unique)
  with Cons.IH [OF run] Cons.prems(3) show ?case by simp
qed simp

lemma map_of_key_order: "distinct (map fst acc) \<Longrightarrow> map_of (in_key_order acc) = map_of acc"
  unfolding in_key_order_def by (subst map_of_inject_set) (simp_all add: distinct_map distinct_sort inj_on_def)

lemma distinct_key_order: "distinct (map fst (in_key_order acc)) = distinct (map fst acc)"
proof -
  have "mset (map fst (in_key_order acc)) = mset (map fst acc)" by (simp add: in_key_order_def)
  then show ?thesis by (rule mset_eq_imp_distinct_iff)
qed

lemma claims_of_filter: "set (filter (\<lambda>c. cl_key c = k) (claims L src)) = claims_of L src k"
  by (auto simp: claims_of_def)

text \<open>Every membership after a run: what its claims merge to, or what it was when there is none.\<close>

definition merged_access :: "library \<Rightarrow> backfill_sources \<Rightarrow> member_id \<Rightarrow> member_access" where
  "merged_access L src k = fold merge_claim (filter (\<lambda>c. cl_key c = k) (claims L src)) no_access"

lemma Backfill_rows:
  assumes "address_laws L" and "member_inv L s"
    and "Backfill L K rnd kDSN kKey fDSN fKey dstKey now flt s src False = (s', ExitSuccess)"
  shows "member_inv L s' \<and>
    membership_of s' t (HexAddr L w) =
       (if claims_of L src (t, HexAddr L w) = {} then membership_of s t (HexAddr L w)
        else Some (merged_row now (t, HexAddr L w) (merged_access L src (t, HexAddr L w)) (membership_of s t (HexAddr L w))))"
proof -
  let ?acc = "fold take_claim (claims L src) []"
  from Backfill_runs [OF assms(3)] obtain prepared selfServe f1 f2 s1 s2 n n' where
      t1: "write_tenants now True f1 prepared s = Inr s1" and t2: "write_tenants now False f2 selfServe s1 = Inr s2"
      and m: "writeMembers L now flt (in_key_order ?acc) [] s2 n = Inr (s', n')" by auto
  have same: "memberships s2 = memberships s" "users s2 = users s"
    using arg_cong [OF write_tenants_frame [OF t1], of memberships] arg_cong [OF write_tenants_frame [OF t2], of memberships]
      arg_cong [OF write_tenants_frame [OF t1], of users] arg_cong [OF write_tenants_frame [OF t2], of users] by simp_all
  have d: "distinct (map fst ?acc)" by (rule folded_keys) simp
  have keys: "fst ` set ?acc = cl_key ` set (claims L src)" by (simp add: folded_keys)
  have "HexAddr L (snd (fst p)) = snd (fst p)" if "p \<in> set (in_key_order ?acc)" for p
  proof -
    from that have "fst p \<in> cl_key ` set (claims L src)" unfolding keys [symmetric] by (simp add: in_key_order_def)
    then show ?thesis using assms(1) by (auto simp: claims_def kaufmann_claim_def fleet_claim_def HexAddr_idem)
  qed
  moreover have "member_inv L s2" using assms(2) by (simp add: member_inv_def same)
  ultimately have inv: "member_inv L s'" using writeMembers_inv [OF m] by blast
  have find: "find (\<lambda>m. member_key m = k) (memberships s') =
       (case map_of ?acc k of None \<Rightarrow> find (\<lambda>m. member_key m = k) (memberships s)
        | Some a \<Rightarrow> Some (merged_row now k a (find (\<lambda>m. member_key m = k) (memberships s))))" for k
    by (rule writeMembers_result [OF m, unfolded distinct_key_order map_of_key_order [OF d] same,
        OF d, THEN conjunct2, THEN conjunct1, rule_format])
  have "filter (\<lambda>c. cl_key c = k) (claims L src) = [] \<longleftrightarrow> claims_of L src k = {}" for k
    by (auto simp: claims_of_def filter_empty_conv)
  then have "map_of ?acc k = (if claims_of L src k = {} then None else Some (merged_access L src k))" for k
    by (simp add: map_of_folded merged_access_def)
  with inv show ?thesis by (simp add: membership_of_by_key [OF assms(1)] assms(2) find)
qed

lemma merged_access_fields:
  "ma_perms (merged_access L src k) = (\<Union>c\<in>claims_of L src k. set (cl_perms c))"
  "ma_unrestricted (merged_access L src k) \<longleftrightarrow> (\<exists>c\<in>claims_of L src k. cl_all c)"
  "ma_groups (merged_access L src k) = (\<Union>c\<in>claims_of L src k. set (cl_groups c))"
  unfolding merged_access_def claims_of_filter [symmetric] by (simp_all add: folded_access no_access_def)

lemma merged_access_role:
  "c \<in> claims_of L src k \<Longrightarrow> roleRank (cl_role c) \<le> roleRank (ma_role (merged_access L src k))"
  "claims_of L src k \<noteq> {} \<Longrightarrow> ma_role (merged_access L src k) \<in> cl_role ` claims_of L src k"
proof -
  show "c \<in> claims_of L src k \<Longrightarrow> roleRank (cl_role c) \<le> roleRank (ma_role (merged_access L src k))"
    unfolding merged_access_def claims_of_filter [symmetric] using folded_role by blast
  assume "claims_of L src k \<noteq> {}"
  then have "filter (\<lambda>c. cl_key c = k) (claims L src) \<noteq> []" by (auto simp: claims_of_def filter_empty_conv)
  then show "ma_role (merged_access L src k) \<in> cl_role ` claims_of L src k"
    unfolding merged_access_def claims_of_filter [symmetric] by (rule folded_role_named)
qed

lemma merged_access_finite: "finite (ma_perms (merged_access L src k))" "finite (ma_groups (merged_access L src k))"
  by (simp_all add: merged_access_fields claims_of_def)

text \<open>
  C29. Migrating takes no access away. A run that does not succeed has written nothing. After one that
  succeeds, whatever faults occurred, whoever either system names as a member of an active tenant
  is authorized here with the union of the capabilities its rows give, sees every vehicle if any
  row says so and otherwise the groups all of them name together, and holds the highest role among
  them; nobody else's membership has changed. The order of the sources plays no part.
\<close>

theorem Backfill_members:
  assumes "address_laws L" and "member_inv L s"
    and "Backfill L K rnd kDSN kKey fDSN fKey dstKey now flt s src False = (s', st)"
  shows "(st \<noteq> ExitSuccess \<longrightarrow> s' = s) \<and>
    (st = ExitSuccess \<and> tenant_by_id t s' = Some row \<and> t_status row = StatusActive \<and> t \<noteq> [] \<and> w \<noteq> [] \<longrightarrow>
      (let claimed = claims_of L src (t, HexAddr L w) in
       if claimed = {} then membership_of s' t (HexAddr L w) = membership_of s t (HexAddr L w)
       else \<exists>a. Authorize L no_faults s' t w = Inr a \<and> ar_via a = ViaDirect \<and>
         set (ar_perms a) = (\<Union>c\<in>claimed. set (cl_perms c)) \<and>
         (ar_scope a = None \<longleftrightarrow> (\<exists>c\<in>claimed. cl_all c)) \<and>
         (\<forall>gs. ar_scope a = Some gs \<longrightarrow> set gs = (\<Union>c\<in>claimed. set (cl_groups c))) \<and>
         ar_role a \<in> cl_role ` claimed \<and> (\<forall>c\<in>claimed. roleRank (cl_role c) \<le> roleRank (ar_role a))))"
proof (cases "st = ExitSuccess \<and> claims_of L src (t, HexAddr L w) \<noteq> {}")
  case True
  let ?k = "(t, HexAddr L w)"
  have "membership_of s' t (HexAddr L w) =
      Some (merged_row now ?k (merged_access L src ?k) (membership_of s t (HexAddr L w)))" (is "_ = Some ?m")
    using Backfill_rows [OF assms(1,2), of K rnd kDSN kKey fDSN fKey dstKey now flt src s' t w] assms(3) True by simp
  moreover have "m_role ?m = ma_role (merged_access L src ?k)" "m_perms ?m = permissionsJSON (merged_access L src ?k)"
    "m_scope ?m = scopeArg (merged_access L src ?k)"
    by (simp_all add: merged_row_def copied_member_def replaced_member_def split: option.splits)
  ultimately show ?thesis using True merged_access_finite [of L src ?k] merged_access_fields [of L src ?k] merged_access_role [where L = L and src = src and k = ?k]
    by (auto simp: Authorize_def Let_def permissionsJSON_def scopeArg_def)
next
  case False
  with Backfill_rows [OF assms(1,2), of K rnd kDSN kKey fDSN fKey dstKey now flt src s' t w] Backfill_runs [OF assms(3)] assms(3)
  show ?thesis by (auto simp: Let_def)
qed

definition demo_sealed :: string where
  "demo_sealed = EncryptSecret demo_crypto ''012345678901'' ''kk'' ''api''"

definition demo_sources :: backfill_sources where
  "demo_sources = \<lparr>
     bk_tenants = [\<lparr>st_id = ''op'', st_name = ''Acme'', st_client = Some ''0xLIC'', st_secret = Some demo_sealed,
                    st_signer = None, st_signer_key = None\<rparr>],
     bf_tenants = [\<lparr>ft_id = ''ss'', ft_name = ''Solo'', ft_client = None, ft_secret = None\<rparr>],
     bk_members = [\<lparr>km_tenant = ''op'', km_wallet = ''0xCC'', km_perms = marshal_strings [''manage_admin_users''], km_admin = True,
                    km_email = None, km_groups = []\<rparr>],
     bf_members = [\<lparr>fm_tenant = ''op'', fm_wallet = ''0xcc'', fm_role = ''owner'', fm_email = None, fm_groups = None, fm_login = None\<rparr>,
                   \<lparr>fm_tenant = ''cu'', fm_wallet = ''0xCC'', fm_role = ''member'', fm_email = Some ''c@x'',
                    fm_groups = Some [''cu_vans''], fm_login = None\<rparr>]\<rparr>"

definition demo_seed :: "db \<times> exit_status" where
  "demo_seed = Backfill demo_library demo_crypto (\<lambda>_. Some ''012345678901'') ''k'' ''kk'' ''f'' ''fk'' ''dk'' 9 no_faults demo_db demo_sources False"

lemma demo_seed_ok: "snd demo_seed = ExitSuccess"
  by code_simp

lemma demo_seed_tenant: "\<exists>row. tenant_by_id ''op'' (fst demo_seed) = Some row \<and> t_status row = StatusActive"
proof -
  have "(case tenant_by_id ''op'' (fst demo_seed) of Some row \<Rightarrow> t_status row = StatusActive | None \<Rightarrow> False)" by code_simp
  then show ?thesis by (simp split: option.splits)
qed

lemma demo_seed_claims:
  "claims_of demo_library demo_sources (''op'', HexAddr demo_library ''0xCC'') =
     {kaufmann_claim demo_library (bk_members demo_sources ! 0), fleet_claim demo_library (bf_members demo_sources ! 0)}"
  by (auto simp: claims_of_def claims_def demo_sources_def kaufmann_claim_def fleet_claim_def demo_library_def text_eval)

lemma Backfill_members_witness:
  "\<exists>a. Authorize demo_library no_faults (fst demo_seed) ''op'' ''0xCC'' = Inr a \<and>
     set (ar_perms a) = {CapManageMembers, CapManageSettings} \<and> ar_scope a = None \<and> ar_role a = ''owner''"
proof -
  obtain row where row: "tenant_by_id ''op'' (fst demo_seed) = Some row" "t_status row = StatusActive"
    using demo_seed_tenant by blast
  have run: "Backfill demo_library demo_crypto (\<lambda>_. Some ''012345678901'') ''k'' ''kk'' ''f'' ''fk'' ''dk'' 9 no_faults demo_db demo_sources False
      = (fst demo_seed, ExitSuccess)"
    using demo_seed_ok by (metis demo_seed_def prod.collapse)
  let ?k = "kaufmann_claim demo_library (bk_members demo_sources ! 0)" and ?f = "fleet_claim demo_library (bf_members demo_sources ! 0)"
  have c: "cl_perms ?k = [CapManageMembers]" "cl_perms ?f = [CapManageMembers, CapManageSettings]" "cl_all ?f" "cl_role ?k = ''admin''"
    "cl_role ?f = ''owner''"
    by (simp_all add: kaufmann_claim_def fleet_claim_def demo_sources_def mapKaufmannCapabilities_def)
  have "\<exists>a. Authorize demo_library no_faults (fst demo_seed) ''op'' ''0xCC'' = Inr a \<and> ar_via a = ViaDirect \<and>
     set (ar_perms a) = (\<Union>c\<in>{?k, ?f}. set (cl_perms c)) \<and> (ar_scope a = None \<longleftrightarrow> (\<exists>c\<in>{?k, ?f}. cl_all c)) \<and>
     (\<forall>gs. ar_scope a = Some gs \<longrightarrow> set gs = (\<Union>c\<in>{?k, ?f}. set (cl_groups c))) \<and>
     ar_role a \<in> cl_role ` {?k, ?f} \<and> (\<forall>c\<in>{?k, ?f}. roleRank (cl_role c) \<le> roleRank (ar_role a))"
    using Backfill_members [OF demo_address_laws demo_member_inv run, of "''op''" row "''0xCC''", unfolded demo_seed_claims Let_def] row
    by (simp only: insert_not_empty if_False) simp
  then obtain a where "Authorize demo_library no_faults (fst demo_seed) ''op'' ''0xCC'' = Inr a"
      and p: "set (ar_perms a) = (\<Union>c\<in>{?k, ?f}. set (cl_perms c))" and sc: "ar_scope a = None \<longleftrightarrow> (\<exists>c\<in>{?k, ?f}. cl_all c)"
      and r: "ar_role a \<in> cl_role ` {?k, ?f}" "\<forall>c\<in>{?k, ?f}. roleRank (cl_role c) \<le> roleRank (ar_role a)"
    by (elim exE conjE) (rule that)
  moreover have "set (ar_perms a) = {CapManageMembers, CapManageSettings}" unfolding p by (simp add: c insert_commute)
  moreover have "ar_scope a = None" using sc c(3) by blast
  moreover have "ar_role a = ''owner''" using r by (auto simp: c roleRank_def)
  ultimately show ?thesis by (intro exI conjI)
qed

text \<open>The credential rows after a run, for the re-encrypted tenants of either kind.\<close>

lemma Backfill_credential_rows:
  assumes "crypto_laws K" and "good_nonces rnd" and "distinct (map st_id (bk_tenants src))" and "distinct (map ft_id (bf_tenants src))"
    and "Backfill L K rnd kDSN kKey fDSN fKey dstKey now flt s src False = (s', ExitSuccess)"
  obtains prepared selfServe where
    "map rk_tenant prepared = bk_tenants src"
    "map rk_tenant selfServe = map self_serve (strandedFleetLiteTenants (bf_tenants src) (bk_tenants src))"
    "\<And>r. r \<in> set prepared \<Longrightarrow> moved K kKey (st_secret (rk_tenant r)) dstKey (nullif (rk_api r)) \<and>
       moved K kKey (st_signer_key (rk_tenant r)) dstKey (nullif (rk_signer r))"
    "\<And>r. r \<in> set selfServe \<Longrightarrow> moved K fKey (st_secret (rk_tenant r)) dstKey (nullif (rk_api r))"
    "\<And>r. r \<in> set prepared \<Longrightarrow> credential_of s' (rk_id r) =
       Some (case credential_of s (rk_id r) of None \<Rightarrow> licence_row True r | Some c \<Rightarrow> relicensed True r c)"
    "\<And>r. r \<in> set selfServe \<Longrightarrow> credential_of s' (rk_id r) =
       Some (case credential_of s (rk_id r) of None \<Rightarrow> licence_row False r | Some c \<Rightarrow> relicensed False r c)"
    "\<And>i. i \<notin> st_id ` set (bk_tenants src) \<union> ft_id ` set (bf_tenants src) \<Longrightarrow> credential_of s' i = credential_of s i"
proof -
  let ?ft = "strandedFleetLiteTenants (bf_tenants src) (bk_tenants src)"
  from Backfill_runs [OF assms(5)] obtain prepared selfServe f1 f2 s1 s2 n n' where
      p1: "prepare K rnd kKey dstKey (bk_tenants src) = Inr prepared"
      and p2: "prepare K (\<lambda>n. rnd (n + 2 * length prepared)) fKey dstKey (map self_serve ?ft) = Inr selfServe"
      and t1: "write_tenants now True f1 prepared s = Inr s1" and t2: "write_tenants now False f2 selfServe s1 = Inr s2"
      and m: "writeMembers L now flt (in_key_order (fold take_claim (claims L src) [])) [] s2 n = Inr (s', n')" by auto
  note r1 = prepare_result [OF assms(1,2) p1] and r2 = prepare_result [OF assms(1) good_nonces_shift [OF assms(2)] p2]
  have ids: "map rk_id prepared = map st_id (bk_tenants src)" "map rk_id selfServe = map ft_id ?ft"
    using arg_cong [OF r1 [THEN conjunct1], of "map st_id"] arg_cong [OF r2 [THEN conjunct1], of "map st_id"]
    by (simp_all add: comp_def self_serve_def)
  have sets: "rk_id ` set prepared = st_id ` set (bk_tenants src)" "rk_id ` set selfServe = ft_id ` set ?ft"
    using arg_cong [OF ids(1), of set] arg_cong [OF ids(2), of set] by simp_all
  have d: "distinct (map rk_id prepared)" "distinct (map rk_id selfServe)"
    unfolding ids using assms(3,4) by (simp_all add: strandedFleetLiteTenants_def distinct_map_filter)
  have apart: "rk_id ` set prepared \<inter> rk_id ` set selfServe = {}" unfolding sets by (auto simp: strandedFleetLiteTenants_def) (metis imageI)
  have "distinct (map fst (fold take_claim (claims L src) []))" by (rule folded_keys) simp
  from arg_cong [OF writeMembers_result [OF m, unfolded distinct_key_order, OF this, THEN conjunct1], of credentials]
  have "credentials s' = credentials s2" by simp
  then have last: "credential_of s' i = credential_of s2 i" for i by (simp add: credential_of_def)
  show thesis
  proof (rule that [of prepared selfServe])
    fix r assume r: "r \<in> set prepared"
    then have "rk_id r \<in> rk_id ` set prepared" by (rule imageI)
    then have "rk_id r \<notin> rk_id ` set selfServe" using apart by blast
    then show "credential_of s' (rk_id r) =
       Some (case credential_of s (rk_id r) of None \<Rightarrow> licence_row True r | Some c \<Rightarrow> relicensed True r c)"
      using write_tenants_other [OF t2] write_tenants_credentials [OF t1 d(1) r] by (simp add: last)
  next
    fix r assume r: "r \<in> set selfServe"
    then have "rk_id r \<in> rk_id ` set selfServe" by (rule imageI)
    then have "rk_id r \<notin> rk_id ` set prepared" using apart by blast
    then show "credential_of s' (rk_id r) =
       Some (case credential_of s (rk_id r) of None \<Rightarrow> licence_row False r | Some c \<Rightarrow> relicensed False r c)"
      using write_tenants_other [OF t1] write_tenants_credentials [OF t2 d(2) r] by (simp add: last)
  next
    fix i assume "i \<notin> st_id ` set (bk_tenants src) \<union> ft_id ` set (bf_tenants src)"
    then have "i \<notin> rk_id ` set prepared" "i \<notin> rk_id ` set selfServe" by (auto simp: sets strandedFleetLiteTenants_def)
    then show "credential_of s' i = credential_of s i" using write_tenants_other [OF t1] write_tenants_other [OF t2] by (simp add: last)
  qed (use r1 r2 in blast)+
qed

lemma from_map: "map f xs = ys \<Longrightarrow> y \<in> set ys \<Longrightarrow> \<exists>x\<in>set xs. f x = y"
  by auto

text \<open>
  C30. What a run leaves of the credentials, whatever was stored here before. Every tenant of kaufmann
  holds its licence and API key, readable under this service's key as they were under the source's,
  and the source's signer, or none when the source has none: a signer that was provisioned here is
  gone. A self-serve tenant gets its licence and key and keeps its signer; nobody else's row changes.
\<close>

theorem Backfill_credentials:
  assumes "crypto_laws K" and "good_nonces rnd" and "distinct (map st_id (bk_tenants src))" and "distinct (map ft_id (bf_tenants src))"
    and "Backfill L K rnd kDSN kKey fDSN fKey dstKey now flt s src False = (s', ExitSuccess)"
  shows "(\<forall>t\<in>set (bk_tenants src). \<exists>c. credential_of s' (st_id t) = Some c \<and>
       c_client_id c = nullif (null_str (st_client t)) \<and> moved K kKey (st_secret t) dstKey (c_api_key_enc c) \<and>
       c_signer_address c = nullif (null_str (st_signer t)) \<and> moved K kKey (st_signer_key t) dstKey (c_signer_key_enc c)) \<and>
    (\<forall>t\<in>set (bf_tenants src). ft_id t \<notin> st_id ` set (bk_tenants src) \<longrightarrow> (\<exists>c. credential_of s' (ft_id t) = Some c \<and>
       c_client_id c = nullif (null_str (ft_client t)) \<and> moved K fKey (ft_secret t) dstKey (c_api_key_enc c) \<and>
       c_signer_key_enc c = (case credential_of s (ft_id t) of None \<Rightarrow> None | Some c \<Rightarrow> c_signer_key_enc c))) \<and>
    (\<forall>i. i \<notin> st_id ` set (bk_tenants src) \<union> ft_id ` set (bf_tenants src) \<longrightarrow> credential_of s' i = credential_of s i)"
proof (rule Backfill_credential_rows [OF assms], intro conjI ballI allI impI)
  fix prepared selfServe t
  assume r: "map rk_tenant prepared = bk_tenants src"
    "\<And>r. r \<in> set prepared \<Longrightarrow> moved K kKey (st_secret (rk_tenant r)) dstKey (nullif (rk_api r)) \<and>
       moved K kKey (st_signer_key (rk_tenant r)) dstKey (nullif (rk_signer r))"
    "\<And>r. r \<in> set prepared \<Longrightarrow> credential_of s' (rk_id r) =
       Some (case credential_of s (rk_id r) of None \<Rightarrow> licence_row True r | Some c \<Rightarrow> relicensed True r c)"
    and "t \<in> set (bk_tenants src)"
  from from_map [OF r(1) this(4)] obtain x where "x \<in> set prepared" "rk_tenant x = t" by blast
  with r(2,3) [of x] show "\<exists>c. credential_of s' (st_id t) = Some c \<and> c_client_id c = nullif (null_str (st_client t)) \<and>
       moved K kKey (st_secret t) dstKey (c_api_key_enc c) \<and>
       c_signer_address c = nullif (null_str (st_signer t)) \<and> moved K kKey (st_signer_key t) dstKey (c_signer_key_enc c)"
    by (auto simp: licence_row_def relicensed_def rk_client_def Let_def split: option.splits)
next
  fix prepared selfServe t
  assume r: "map rk_tenant selfServe = map self_serve (strandedFleetLiteTenants (bf_tenants src) (bk_tenants src))"
    "\<And>r. r \<in> set selfServe \<Longrightarrow> moved K fKey (st_secret (rk_tenant r)) dstKey (nullif (rk_api r))"
    "\<And>r. r \<in> set selfServe \<Longrightarrow> credential_of s' (rk_id r) =
       Some (case credential_of s (rk_id r) of None \<Rightarrow> licence_row False r | Some c \<Rightarrow> relicensed False r c)"
    and t: "t \<in> set (bf_tenants src)" "ft_id t \<notin> st_id ` set (bk_tenants src)"
  have "self_serve t \<in> set (map self_serve (strandedFleetLiteTenants (bf_tenants src) (bk_tenants src)))"
    using t by (simp add: strandedFleetLiteTenants_def)
  from from_map [OF r(1) this] obtain x where "x \<in> set selfServe" "rk_tenant x = self_serve t" by blast
  with r(2,3) [of x] show "\<exists>c. credential_of s' (ft_id t) = Some c \<and> c_client_id c = nullif (null_str (ft_client t)) \<and>
       moved K fKey (ft_secret t) dstKey (c_api_key_enc c) \<and>
       c_signer_key_enc c = (case credential_of s (ft_id t) of None \<Rightarrow> None | Some c \<Rightarrow> c_signer_key_enc c)"
    by (auto simp: licence_row_def relicensed_def rk_client_def self_serve_def Let_def split: option.splits)
qed blast

lemma Backfill_credentials_witness:
  "credential_of demo_db ''op'' \<noteq> None \<and> (\<exists>c enc. credential_of (fst demo_seed) ''op'' = Some c \<and> c_client_id c = Some ''0xLIC'' \<and>
     c_api_key_enc c = Some enc \<and> DecryptSecret demo_crypto ''dk'' enc = Some ''api'' \<and> c_signer_address c = None)"
proof -
  have run: "Backfill demo_library demo_crypto (\<lambda>_. Some ''012345678901'') ''k'' ''kk'' ''f'' ''fk'' ''dk'' 9 no_faults demo_db demo_sources False
      = (fst demo_seed, ExitSuccess)"
    using demo_seed_ok by (metis demo_seed_def prod.collapse)
  have K: "crypto_laws demo_crypto" by (simp add: crypto_laws_def demo_crypto_def)
  have n: "good_nonces (\<lambda>_. Some ''012345678901'')" by (simp add: good_nonces_def NonceSize_def)
  have "DecryptSecret demo_crypto ''kk'' demo_sealed = Some ''api''" "demo_sealed \<noteq> []"
    using secret_round_trip [OF K, of "''012345678901''" "''kk''"]
    by (simp_all add: demo_sealed_def NonceSize_def EncryptSecret_def demo_crypto_def)
  moreover have "bk_tenants demo_sources = [\<lparr>st_id = ''op'', st_name = ''Acme'', st_client = Some ''0xLIC'', st_secret = Some demo_sealed,
                    st_signer = None, st_signer_key = None\<rparr>]" "distinct (map ft_id (bf_tenants demo_sources))"
    by (simp_all add: demo_sources_def)
  moreover have "credential_of demo_db ''op'' \<noteq> None" by (simp add: credential_of_def demo_defs)
  ultimately show ?thesis using Backfill_credentials [OF K n _ _ run]
    by (auto simp: moved_def null_str_def nullif_def)
qed

text \<open>
  A user row is written with the first of the person's memberships only: an email that a later one
  alone carries is not copied.
\<close>

lemma later_email_lost:
  "map u_email (filter (\<lambda>u. u_wallet u = ''0xcc'') (users (fst (Backfill demo_library demo_crypto (\<lambda>_. Some ''012345678901'')
     ''k'' ''kk'' ''f'' ''fk'' ''dk'' 9 no_faults demo_db
     (demo_sources\<lparr>bf_members := map (\<lambda>m. m\<lparr>fm_email := if fm_tenant m = ''op'' then Some ''c@x'' else None\<rparr>) (bf_members demo_sources)\<rparr>)
     False)))) = [None]"
  by code_simp

subsection \<open>A new environment\<close>

text \<open>The two commands that fill a database, each with its faults, dry or not.\<close>

datatype seed_run = SeedTenants "nat \<Rightarrow> string option" time faults bool | SeedGroups faults bool

fun seed_dry :: "seed_run \<Rightarrow> bool" where
  "seed_dry (SeedTenants rnd now flt dry) = dry"
| "seed_dry (SeedGroups flt dry) = dry"

record seed_env =
  se_lib :: library
  se_cry :: crypto
  se_kDSN :: string
  se_kKey :: string
  se_fDSN :: string
  se_fKey :: string
  se_dstKey :: string
  se_members :: backfill_sources
  se_groups :: group_sources

fun seed_step :: "seed_env \<Rightarrow> seed_run \<Rightarrow> db \<Rightarrow> db \<times> exit_status" where
  "seed_step E (SeedTenants rnd now flt dry) s =
     Backfill (se_lib E) (se_cry E) rnd (se_kDSN E) (se_kKey E) (se_fDSN E) (se_fKey E) (se_dstKey E) now flt s (se_members E) dry"
| "seed_step E (SeedGroups flt dry) s = BackfillGroups (se_kDSN E) (se_fDSN E) flt s (se_groups E) dry"

text \<open>Some membership of the sources is confined to groups.\<close>

definition names_groups :: "library \<Rightarrow> backfill_sources \<Rightarrow> bool" where
  "names_groups L src \<longleftrightarrow> (\<exists>k. claims_of L src k \<noteq> {} \<and> (\<forall>c\<in>claims_of L src k. \<not> cl_all c) \<and> (\<exists>c\<in>claims_of L src k. cl_groups c \<noteq> []))"

lemma dry_runs:
  "fst (Backfill L K rnd kDSN kKey fDSN fKey dstKey now flt s src True) = s"
  "fst (BackfillGroups k f flt s gsrc True) = s"
  by (auto simp: Backfill_def BackfillGroups_def split: if_splits sum.splits prod.splits)

lemma Backfill_needs_groups:
  assumes "fleet_groups s = []" and "names_groups L src"
  shows "snd (Backfill L K rnd kDSN kKey fDSN fKey dstKey now flt s src False) \<noteq> ExitSuccess"
proof
  assume "snd (Backfill L K rnd kDSN kKey fDSN fKey dstKey now flt s src False) = ExitSuccess"
  then obtain s' where "Backfill L K rnd kDSN kKey fDSN fKey dstKey now flt s src False = (s', ExitSuccess)" by (metis prod.collapse)
  from Backfill_runs [OF this] obtain prepared selfServe f1 f2 s1 s2 n n' where
      t1: "write_tenants now True f1 prepared s = Inr s1" and t2: "write_tenants now False f2 selfServe s1 = Inr s2"
      and m: "writeMembers L now flt (in_key_order (fold take_claim (claims L src) [])) [] s2 n = Inr (s', n')" by auto
  have none: "fleet_groups s2 = []"
    using arg_cong [OF write_tenants_frame [OF t1], of fleet_groups] arg_cong [OF write_tenants_frame [OF t2], of fleet_groups] assms(1) by simp
  from assms(2) obtain k c where k: "claims_of L src k \<noteq> {}" "\<forall>c\<in>claims_of L src k. \<not> cl_all c" "c \<in> claims_of L src k" "cl_groups c \<noteq> []"
    unfolding names_groups_def by blast
  have d: "distinct (map fst (fold take_claim (claims L src) []))" by (rule folded_keys) simp
  have "filter (\<lambda>c. cl_key c = k) (claims L src) \<noteq> []" using k(1) by (auto simp: claims_of_def filter_empty_conv)
  then have "map_of (fold take_claim (claims L src) []) k = Some (merged_access L src k)"
    by (simp add: map_of_folded merged_access_def)
  then have "(k, merged_access L src k) \<in> set (in_key_order (fold take_claim (claims L src) []))"
    by (auto simp: in_key_order_def dest: map_of_SomeD)
  with writeMembers_result [OF m, unfolded distinct_key_order, OF d]
  have "scope_groups_exist s2 (fst k) (scopeArg (merged_access L src k))" by blast
  moreover obtain g where "g \<in> set (cl_groups c)" using k(4) by (cases "cl_groups c") auto
  then have "g \<in> ma_groups (merged_access L src k)" using k(3) by (auto simp: merged_access_fields)
  then have "g \<in> set (sorted_list_of_set (ma_groups (merged_access L src k)))" by (simp add: merged_access_finite)
  moreover have "scopeArg (merged_access L src k) = Some (sorted_list_of_set (ma_groups (merged_access L src k)))"
    using k(2) by (simp add: scopeArg_def merged_access_fields)
  ultimately show False using none by (simp add: scope_groups_exist_iff)
qed

lemma BackfillGroups_needs_tenants:
  assumes "tenants s = []" and "kGroups src @ fGroups src \<noteq> []"
  shows "snd (BackfillGroups k f flt s src False) \<noteq> ExitSuccess"
proof
  assume "snd (BackfillGroups k f flt s src False) = ExitSuccess"
  with BackfillGroups_result [of k f flt s src "fst (BackfillGroups k f flt s src False)" ExitSuccess]
  obtain merged membs where v: "verify_groups (\<lambda>n. flt (n + 2)) s src = Inr (merged, membs)" by (metis prod.collapse)
  have "mg_id ` set merged = sg_id ` set (kGroups src @ fGroups src)" using verify_groups_Inr(1) [OF v] by (simp add: summary_def)
  with assms(2) have "merged \<noteq> []" by auto
  then obtain m where "m \<in> set merged" by (cases merged) auto
  with verify_groups_Inr(6) [OF v] assms(1) show False by (auto simp: tenant_exists_def)
qed

text \<open>
  C33. A new environment cannot be seeded. On a database with no tenants and no groups, when the source
  systems have a group and a member confined to groups, no sequence of the two commands in any order
  and with any faults writes anything, and none of them but a dry run succeeds: the tenants wait for
  the groups, whose ids the scopes name, and the groups wait for the tenants.
\<close>

theorem fresh_database_stuck:
  assumes "tenants s = []" and "fleet_groups s = []" and "names_groups (se_lib E) (se_members E)"
    and "kGroups (se_groups E) @ fGroups (se_groups E) \<noteq> []"
  shows "fold (\<lambda>r s. fst (seed_step E r s)) rs s = s \<and> (snd (seed_step E r s) = ExitSuccess \<longrightarrow> seed_dry r)"
proof -
  have step: "fst (seed_step E r s) = s \<and> (snd (seed_step E r s) = ExitSuccess \<longrightarrow> seed_dry r)" for r
  proof (cases r)
    case (SeedTenants rnd now flt dry)
    show ?thesis
    proof (cases dry)
      case False
      with Backfill_needs_groups [OF assms(2,3)] Backfill_runs [OF prod.collapse [symmetric]] SeedTenants show ?thesis by fastforce
    qed (simp add: SeedTenants dry_runs)
  next
    case (SeedGroups flt dry)
    show ?thesis
    proof (cases dry)
      case False
      with BackfillGroups_needs_tenants [OF assms(1,4)] BackfillGroups_result [OF prod.collapse [symmetric]] SeedGroups show ?thesis by fastforce
    qed (simp add: SeedGroups dry_runs)
  qed
  then have "fold (\<lambda>r s. fst (seed_step E r s)) rs s = s" by (induction rs) simp_all
  with step show ?thesis by blast
qed

definition demo_seed_env :: seed_env where
  "demo_seed_env = \<lparr>se_lib = demo_library, se_cry = demo_crypto, se_kDSN = ''k'', se_kKey = ''kk'', se_fDSN = ''f'', se_fKey = ''fk'',
     se_dstKey = ''dk'', se_members = demo_sources, se_groups = demo_group_sources\<rparr>"

lemma fresh_database_stuck_witness:
  "fold (\<lambda>r s. fst (seed_step demo_seed_env r s))
     [SeedTenants (\<lambda>_. Some ''012345678901'') 9 no_faults False, SeedGroups no_faults False, SeedTenants (\<lambda>_. None) 10 no_faults False]
     empty_db = empty_db \<and> snd (seed_step demo_seed_env (SeedGroups no_faults False) empty_db) \<noteq> ExitSuccess"
proof -
  have c: "claims_of demo_library demo_sources (''cu'', HexAddr demo_library ''0xCC'') = {fleet_claim demo_library (bf_members demo_sources ! 1)}"
    by (auto simp: claims_of_def claims_def demo_sources_def kaufmann_claim_def fleet_claim_def)
  have "names_groups demo_library demo_sources"
    unfolding names_groups_def by (rule exI [of _ "(''cu'', HexAddr demo_library ''0xCC'')"])
      (simp add: c, simp add: fleet_claim_def demo_sources_def)
  then have n: "names_groups (se_lib demo_seed_env) (se_members demo_seed_env)" by (simp add: demo_seed_env_def)
  have "tenants empty_db = []" "fleet_groups empty_db = []" "kGroups (se_groups demo_seed_env) @ fGroups (se_groups demo_seed_env) \<noteq> []"
    by (simp_all add: empty_db_def demo_seed_env_def demo_group_sources_def)
  from fresh_database_stuck [OF this(1,2) n this(3), where r = "SeedGroups no_faults False"]
  show ?thesis by (metis seed_dry.simps(2))
qed

end
