(* ===== verification/SignerDiff.thy ===== *)
theory SignerDiff
  imports Backfill Minting
begin

text \<open>
  The command \<open>signer-diff\<close> (\<open>cmd/fleet-tenancy-api/signer_diff.go\<close>): whether this service's copy of
  each tenant's signer key and kaufmann's copy are one key. Both are opened under their own master
  keys and only the addresses they derive are compared; every tenant on either side is looked at.
\<close>

subsection \<open>One side\<close>

text \<open>The derived address is empty until a key was parsed.\<close>

record signer_side =
  ss_name :: string
  ss_hasKey :: bool
  ss_derived :: string
  ss_stored :: string
  ss_prefixed :: bool
  ss_decryptErr :: bool

definition deriveSide :: "crypto \<Rightarrow> eth \<Rightarrow> string \<Rightarrow> string \<Rightarrow> string \<Rightarrow> string \<Rightarrow> signer_side \<times> bool" where
  "deriveSide K E passphrase name stored keyEnc =
     (let sd = \<lparr>ss_name = name, ss_hasKey = False, ss_derived = [], ss_stored = stored, ss_prefixed = False, ss_decryptErr = False\<rparr> in
      if keyEnc = [] then (sd, False)
      else case DecryptSecret K passphrase keyEnc of
        None \<Rightarrow> (sd, True)
      | Some plain \<Rightarrow>
        let sd = sd\<lparr>ss_prefixed := (take 2 plain = ''0x'')\<rparr> in
        (case HexToECDSA E (TrimPrefix ''0x'' plain) of
           None \<Rightarrow> (sd, True)
         | Some pk \<Rightarrow> (sd\<lparr>ss_hasKey := True, ss_derived := PubkeyToAddress E pk\<rparr>, False)))"

text \<open>What both readers make of a row: a failure is recorded on the side, and the walk goes on.\<close>

definition read_side :: "crypto \<Rightarrow> eth \<Rightarrow> string \<Rightarrow> string \<Rightarrow> string option \<Rightarrow> string option \<Rightarrow> signer_side" where
  "read_side K E passphrase name stored keyEnc =
     (case deriveSide K E passphrase name (null_str stored) (null_str keyEnc) of
        (sd, failed) \<Rightarrow> if failed then sd\<lparr>ss_decryptErr := True\<rparr> else sd)"

type_synonym sides = "(uuid \<times> signer_side) list"

text \<open>A row of \<open>tenants LEFT JOIN tenant_credentials\<close>.\<close>

definition local_row :: "crypto \<Rightarrow> eth \<Rightarrow> string \<Rightarrow> db \<Rightarrow> tenant_row \<Rightarrow> signer_side" where
  "local_row K E passphrase s t =
     (case credential_of s (t_id t) of
        None \<Rightarrow> read_side K E passphrase (t_name t) None None
      | Some c \<Rightarrow> read_side K E passphrase (t_name t) (c_signer_address c) (c_signer_key_enc c))"

definition readLocal :: "crypto \<Rightarrow> eth \<Rightarrow> string \<Rightarrow> db \<Rightarrow> sides" where
  "readLocal K E passphrase s = map (\<lambda>t. (t_id t, local_row K E passphrase s t)) (tenants s)"

definition readKaufmann :: "crypto \<Rightarrow> eth \<Rightarrow> string \<Rightarrow> src_tenant list \<Rightarrow> sides" where
  "readKaufmann K E kKey ts = map (\<lambda>t. (st_id t, read_side K E kKey (st_name t) (st_signer t) (st_signer_key t))) ts"

definition unionKeys :: "sides \<Rightarrow> sides \<Rightarrow> uuid list" where
  "unionKeys a b = sort (remdups (map fst a @ map fst b))"

subsection \<open>The comparison\<close>

record signer_counts =
  sc_agree :: nat
  sc_differ :: nat
  sc_missingLocal :: nat
  sc_missingRemote :: nat
  sc_noSigner :: nat
  sc_drift :: nat
  sc_decryptFailed :: nat

definition no_counts :: signer_counts where
  "no_counts = \<lparr>sc_agree = 0, sc_differ = 0, sc_missingLocal = 0, sc_missingRemote = 0, sc_noSigner = 0, sc_drift = 0, sc_decryptFailed = 0\<rparr>"

definition checkStored :: "signer_side \<Rightarrow> nat" where
  "checkStored sd = (if ss_stored sd = [] then 0 else if lower (ss_stored sd) = lower (ss_derived sd) then 0 else 1)"

definition has_key :: "signer_side option \<Rightarrow> bool" where
  "has_key side = (case side of None \<Rightarrow> False | Some sd \<Rightarrow> ss_hasKey sd)"

definition broken :: "signer_side option \<Rightarrow> bool" where
  "broken side = (case side of None \<Rightarrow> False | Some sd \<Rightarrow> ss_decryptErr sd)"

text \<open>The body of the loop; a side that is absent is \<open>None\<close>.\<close>

definition diff_step :: "signer_side option \<Rightarrow> signer_side option \<Rightarrow> signer_counts \<Rightarrow> signer_counts" where
  "diff_step l r n =
     (if broken l \<or> broken r then n\<lparr>sc_decryptFailed := sc_decryptFailed n + 1\<rparr>
      else if \<not> has_key l \<and> \<not> has_key r then n\<lparr>sc_noSigner := sc_noSigner n + 1\<rparr>
      else case l of
        None \<Rightarrow> n\<lparr>sc_missingLocal := sc_missingLocal n + 1\<rparr>
      | Some lside \<Rightarrow>
        if \<not> ss_hasKey lside then n\<lparr>sc_missingLocal := sc_missingLocal n + 1\<rparr>
        else case r of
          None \<Rightarrow> n\<lparr>sc_missingRemote := sc_missingRemote n + 1\<rparr>
        | Some rside \<Rightarrow>
          if \<not> ss_hasKey rside then n\<lparr>sc_missingRemote := sc_missingRemote n + 1\<rparr>
          else if ss_derived lside \<noteq> ss_derived rside then n\<lparr>sc_differ := sc_differ n + 1\<rparr>
          else n\<lparr>sc_agree := sc_agree n + 1, sc_drift := sc_drift n + checkStored lside + checkStored rside\<rparr>)"

text \<open>A Go map filled row by row keeps the last of two rows with one id.\<close>

definition diff_counts :: "sides \<Rightarrow> sides \<Rightarrow> signer_counts" where
  "diff_counts local remote =
     fold (\<lambda>i. diff_step (map_of (rev local) i) (map_of (rev remote) i)) (unionKeys local remote) no_counts"

definition SignerDiff ::
  "crypto \<Rightarrow> eth \<Rightarrow> string \<Rightarrow> string \<Rightarrow> string \<Rightarrow> faults \<Rightarrow> db \<Rightarrow> src_tenant list \<Rightarrow> signer_counts option \<times> exit_status" where
  "SignerDiff K E kDSN kKey encKey flt s kt =
     (if kDSN = [] \<or> kKey = [] then (None, ExitUsageError)
      else if encKey = [] then (None, ExitFailure)
      else if flt 0 \<or> flt 1 \<or> flt 2 then (None, ExitFailure)
      else let n = diff_counts (readLocal K E encKey s) (readKaufmann K E kKey kt) in
      (Some n, if 0 < sc_differ n \<or> 0 < sc_decryptFailed n then ExitFailure else ExitSuccess))"

subsection \<open>What the counters count\<close>

definition differs :: "signer_side option \<Rightarrow> signer_side option \<Rightarrow> bool" where
  "differs l r \<longleftrightarrow> \<not> broken l \<and> \<not> broken r \<and> has_key l \<and> has_key r \<and> map_option ss_derived l \<noteq> map_option ss_derived r"

definition looked_at :: "signer_counts \<Rightarrow> nat" where
  "looked_at n = sc_agree n + sc_differ n + sc_missingLocal n + sc_missingRemote n + sc_noSigner n + sc_decryptFailed n"

lemmas side_defs = broken_def has_key_def differs_def

lemma diff_step_counts:
  "sc_differ (diff_step l r n) = sc_differ n + (if differs l r then 1 else 0)"
  "sc_decryptFailed (diff_step l r n) = sc_decryptFailed n + (if broken l \<or> broken r then 1 else 0)"
  "sc_missingLocal (diff_step l r n) = sc_missingLocal n + (if \<not> broken l \<and> \<not> broken r \<and> \<not> has_key l \<and> has_key r then 1 else 0)"
  "looked_at (diff_step l r n) = looked_at n + 1"
  by (auto simp: diff_step_def side_defs looked_at_def split: option.splits)

lemma fold_counts:
  "sc_differ (fold (\<lambda>i. diff_step (f i) (g i)) xs n) = sc_differ n + length (filter (\<lambda>i. differs (f i) (g i)) xs)"
  "sc_decryptFailed (fold (\<lambda>i. diff_step (f i) (g i)) xs n) = sc_decryptFailed n + length (filter (\<lambda>i. broken (f i) \<or> broken (g i)) xs)"
  "sc_missingLocal (fold (\<lambda>i. diff_step (f i) (g i)) xs n) =
     sc_missingLocal n + length (filter (\<lambda>i. \<not> broken (f i) \<and> \<not> broken (g i) \<and> \<not> has_key (f i) \<and> has_key (g i)) xs)"
  "looked_at (fold (\<lambda>i. diff_step (f i) (g i)) xs n) = looked_at n + length xs"
  by (induction xs arbitrary: n) (auto simp: diff_step_counts)

lemma unionKeys_simps: "set (unionKeys a b) = fst ` set a \<union> fst ` set b" "length (unionKeys a b) = card (fst ` set a \<union> fst ` set b)"
proof -
  show "set (unionKeys a b) = fst ` set a \<union> fst ` set b" by (simp add: unionKeys_def)
  have "length (unionKeys a b) = card (set (map fst a @ map fst b))" unfolding unionKeys_def length_sort by (rule length_remdups_card_conv)
  then show "length (unionKeys a b) = card (fst ` set a \<union> fst ` set b)" by simp
qed

text \<open>What a stored key says under a master key: the address it derives, if it opens and parses.\<close>

definition address_under :: "crypto \<Rightarrow> eth \<Rightarrow> string \<Rightarrow> string option \<Rightarrow> string option" where
  "address_under K E pass v =
     (if null_str v = [] then None
      else case DecryptSecret K pass (null_str v) of None \<Rightarrow> None
           | Some plain \<Rightarrow> map_option (PubkeyToAddress E) (HexToECDSA E (TrimPrefix ''0x'' plain)))"

definition opens :: "crypto \<Rightarrow> eth \<Rightarrow> string \<Rightarrow> string option \<Rightarrow> bool" where
  "opens K E pass v \<longleftrightarrow> null_str v = [] \<or> address_under K E pass v \<noteq> None"

lemma read_side_meaning:
  "ss_decryptErr (read_side K E pass name st v) \<longleftrightarrow> \<not> opens K E pass v"
  "ss_hasKey (read_side K E pass name st v) \<longleftrightarrow> address_under K E pass v \<noteq> None"
  "address_under K E pass v = Some a \<Longrightarrow> ss_derived (read_side K E pass name st v) = a"
  by (auto simp: read_side_def deriveSide_def opens_def address_under_def Let_def split: option.splits if_splits)

definition signer_enc :: "db \<Rightarrow> uuid \<Rightarrow> string option" where
  "signer_enc s i = (case credential_of s i of None \<Rightarrow> None | Some c \<Rightarrow> c_signer_key_enc c)"

text \<open>The row of each side under an id that is a primary key.\<close>

lemma map_of_rev_key:
  assumes "distinct (map k xs)" and "x \<in> set xs"
  shows "map_of (rev (map (\<lambda>x. (k x, f x)) xs)) (k x) = Some (f x)"
proof (rule map_of_is_SomeI)
  show "distinct (map fst (rev (map (\<lambda>x. (k x, f x)) xs)))" using assms(1) by (simp add: rev_map comp_def distinct_map)
  show "(k x, f x) \<in> set (rev (map (\<lambda>x. (k x, f x)) xs))" using assms(2) by simp
qed

lemma map_of_rev_none: "i \<notin> k ` set xs \<Longrightarrow> map_of (rev (map (\<lambda>x. (k x, f x)) xs)) i = None"
  by (force simp: map_of_eq_None_iff)

lemma local_row_side: "\<exists>name st. local_row K E p s t = read_side K E p name st (signer_enc s (t_id t))"
  by (cases "credential_of s (t_id t)") (auto simp: local_row_def signer_enc_def)

lemma local_side:
  assumes "distinct (map t_id (tenants s))"
  shows "\<exists>name st. map_of (rev (readLocal K E p s)) i =
     (if i \<in> t_id ` set (tenants s) then Some (read_side K E p name st (signer_enc s i)) else None)"
proof (cases "i \<in> t_id ` set (tenants s)")
  case True
  then obtain t where t: "t \<in> set (tenants s)" "t_id t = i" by blast
  from map_of_rev_key [OF assms t(1), of "local_row K E p s"] t(2)
  have "map_of (rev (readLocal K E p s)) i = Some (local_row K E p s t)" by (simp add: readLocal_def)
  moreover obtain name st where "local_row K E p s t = read_side K E p name st (signer_enc s i)"
    using local_row_side [of K E p s t] t(2) by blast
  ultimately have "map_of (rev (readLocal K E p s)) i = Some (read_side K E p name st (signer_enc s i))" by simp
  with True show ?thesis by auto
qed (simp add: readLocal_def map_of_rev_none)

lemma remote_side:
  assumes "distinct (map st_id kt)"
  shows "t \<in> set kt \<Longrightarrow> map_of (rev (readKaufmann K E p kt)) (st_id t) = Some (read_side K E p (st_name t) (st_signer t) (st_signer_key t))"
    and "i \<notin> st_id ` set kt \<Longrightarrow> map_of (rev (readKaufmann K E p kt)) i = None"
  unfolding readKaufmann_def by (simp_all add: map_of_rev_key [OF assms] map_of_rev_none)

lemma side_ids: "fst ` set (readLocal K E p s) = t_id ` set (tenants s)" "fst ` set (readKaufmann K E p kt) = st_id ` set kt"
  by (simp_all add: readLocal_def readKaufmann_def image_image)

lemma local_meaning:
  assumes "distinct (map t_id (tenants s))"
  shows "broken (map_of (rev (readLocal K E p s)) i) \<longleftrightarrow> i \<in> t_id ` set (tenants s) \<and> \<not> opens K E p (signer_enc s i)"
    and "has_key (map_of (rev (readLocal K E p s)) i) \<longleftrightarrow> i \<in> t_id ` set (tenants s) \<and> address_under K E p (signer_enc s i) \<noteq> None"
    and "has_key (map_of (rev (readLocal K E p s)) i) \<Longrightarrow>
      map_option ss_derived (map_of (rev (readLocal K E p s)) i) = address_under K E p (signer_enc s i)"
  using local_side [OF assms, of K E p i] by (auto simp: broken_def has_key_def read_side_meaning split: if_splits)

lemma remote_meaning:
  assumes "distinct (map st_id kt)" and "t \<in> set kt"
  shows "broken (map_of (rev (readKaufmann K E p kt)) (st_id t)) \<longleftrightarrow> \<not> opens K E p (st_signer_key t)"
    and "has_key (map_of (rev (readKaufmann K E p kt)) (st_id t)) \<longleftrightarrow> address_under K E p (st_signer_key t) \<noteq> None"
    and "has_key (map_of (rev (readKaufmann K E p kt)) (st_id t)) \<Longrightarrow>
      map_option ss_derived (map_of (rev (readKaufmann K E p kt)) (st_id t)) = address_under K E p (st_signer_key t)"
  using remote_side(1) [OF assms, of K E p] by (auto simp: broken_def has_key_def read_side_meaning)

lemma remote_absent:
  assumes "i \<notin> st_id ` set kt"
  shows "\<not> broken (map_of (rev (readKaufmann K E p kt)) i)" "\<not> has_key (map_of (rev (readKaufmann K E p kt)) i)"
  using assms by (simp_all add: readKaufmann_def map_of_rev_none broken_def has_key_def)

lemma any_broken:
  assumes ids: "distinct (map t_id (tenants s))" "distinct (map st_id kt)"
  shows "(\<forall>i\<in>t_id ` set (tenants s) \<union> st_id ` set kt.
      \<not> broken (map_of (rev (readLocal K E encKey s)) i) \<and> \<not> broken (map_of (rev (readKaufmann K E kKey kt)) i)) \<longleftrightarrow>
   (\<forall>t\<in>set (tenants s). opens K E encKey (signer_enc s (t_id t))) \<and> (\<forall>t\<in>set kt. opens K E kKey (st_signer_key t))"
  (is "(\<forall>i\<in>?ids. \<not> ?l i \<and> \<not> ?r i) \<longleftrightarrow> ?L \<and> ?R")
proof -
  have "?r i \<longleftrightarrow> (\<exists>t\<in>set kt. st_id t = i \<and> \<not> opens K E kKey (st_signer_key t))" for i
  proof (cases "i \<in> st_id ` set kt")
    case True
    then obtain t where t: "t \<in> set kt" "st_id t = i" by blast
    have inj: "inj_on st_id (set kt)" using ids(2) by (simp add: distinct_map)
    have "t' = t" if "t' \<in> set kt" "st_id t' = i" for t' using inj_onD [OF inj _ that(1) t(1)] that(2) t(2) by simp
    moreover have "?r i \<longleftrightarrow> \<not> opens K E kKey (st_signer_key t)" using remote_meaning(1) [OF ids(2) t(1), of K E kKey] t(2) by simp
    ultimately show ?thesis using t by blast
  next
    case False
    with remote_absent [of i kt K E kKey] show ?thesis by auto
  qed
  then show ?thesis by (auto simp: local_meaning(1) [OF ids(1)])
qed

lemma differs_pair:
  assumes ids: "distinct (map t_id (tenants s))" "distinct (map st_id kt)" and "t \<in> set kt"
  shows "differs (map_of (rev (readLocal K E encKey s)) (st_id t)) (map_of (rev (readKaufmann K E kKey kt)) (st_id t)) \<longleftrightarrow>
    opens K E kKey (st_signer_key t) \<and> (\<exists>a b. st_id t \<in> t_id ` set (tenants s) \<and>
      address_under K E encKey (signer_enc s (st_id t)) = Some a \<and> address_under K E kKey (st_signer_key t) = Some b \<and> a \<noteq> b)"
  using local_meaning [OF ids(1), of K E encKey "st_id t"] remote_meaning [OF ids(2) assms(3), of K E kKey]
  by (auto simp: differs_def opens_def)

lemma ball_Un_only: "(\<And>i. i \<notin> B \<Longrightarrow> P i) \<Longrightarrow> (\<forall>i\<in>A \<union> B. P i) \<longleftrightarrow> (\<forall>i\<in>B. P i)"
  by blast

lemma differs_only_pairs: "i \<notin> st_id ` set kt \<Longrightarrow> \<not> differs (map_of (rev (readLocal K E encKey s)) i) (map_of (rev (readKaufmann K E kKey kt)) i)"
  using remote_absent [of i kt K E kKey] by (simp add: differs_def)

text \<open>
  C32. The command exits well exactly when it was configured, nothing failed, every stored key of either
  side opens and parses under that side's master key, and no tenant has two keys with different
  addresses; and its counts account for every tenant of either side once, so it has looked at all.
\<close>

theorem SignerDiff_verdict:
  assumes "distinct (map t_id (tenants s))" and "distinct (map st_id kt)"
  shows "(snd (SignerDiff K E kDSN kKey encKey flt s kt) = ExitSuccess \<longleftrightarrow>
      kDSN \<noteq> [] \<and> kKey \<noteq> [] \<and> encKey \<noteq> [] \<and> \<not> flt 0 \<and> \<not> flt 1 \<and> \<not> flt 2 \<and>
      (\<forall>t\<in>set (tenants s). opens K E encKey (signer_enc s (t_id t))) \<and> (\<forall>t\<in>set kt. opens K E kKey (st_signer_key t)) \<and>
      (\<forall>t\<in>set kt. \<forall>a b. st_id t \<in> t_id ` set (tenants s) \<and> address_under K E encKey (signer_enc s (st_id t)) = Some a \<and>
         address_under K E kKey (st_signer_key t) = Some b \<longrightarrow> a = b)) \<and>
    (\<forall>n. fst (SignerDiff K E kDSN kKey encKey flt s kt) = Some n \<longrightarrow>
       looked_at n = card (t_id ` set (tenants s) \<union> st_id ` set kt))"
proof -
  let ?l = "\<lambda>i. map_of (rev (readLocal K E encKey s)) i" and ?r = "\<lambda>i. map_of (rev (readKaufmann K E kKey kt)) i"
  let ?n = "diff_counts (readLocal K E encKey s) (readKaufmann K E kKey kt)"
  let ?ids = "t_id ` set (tenants s) \<union> st_id ` set kt"
  have zero: "sc_differ no_counts = 0" "sc_decryptFailed no_counts = 0" "looked_at no_counts = 0"
    by (simp_all add: no_counts_def looked_at_def)
  have total: "looked_at ?n = card ?ids" by (simp add: diff_counts_def fold_counts unionKeys_simps side_ids zero)
  have bad: "sc_decryptFailed ?n = 0 \<longleftrightarrow> (\<forall>i\<in>?ids. \<not> broken (?l i) \<and> \<not> broken (?r i))"
    by (simp add: diff_counts_def fold_counts unionKeys_simps side_ids zero filter_empty_conv)
  have "sc_differ ?n = 0 \<longleftrightarrow> (\<forall>i\<in>?ids. \<not> differs (?l i) (?r i))"
    by (simp add: diff_counts_def fold_counts unionKeys_simps side_ids zero filter_empty_conv)
  also have "\<dots> \<longleftrightarrow> (\<forall>i\<in>st_id ` set kt. \<not> differs (?l i) (?r i))"
    by (rule ball_Un_only) (rule differs_only_pairs)
  also have "\<dots> \<longleftrightarrow> (\<forall>t\<in>set kt. \<not> differs (?l (st_id t)) (?r (st_id t)))" by simp
  also have "\<dots> \<longleftrightarrow> (\<forall>t\<in>set kt. \<not> (opens K E kKey (st_signer_key t) \<and> (\<exists>a b. st_id t \<in> t_id ` set (tenants s) \<and>
      address_under K E encKey (signer_enc s (st_id t)) = Some a \<and> address_under K E kKey (st_signer_key t) = Some b \<and> a \<noteq> b)))"
    (is "_ \<longleftrightarrow> ?dif") by (rule ball_cong) (simp_all add: differs_pair [OF assms])
  finally have dif: "sc_differ ?n = 0 \<longleftrightarrow> ?dif" .
  have "snd (SignerDiff K E kDSN kKey encKey flt s kt) = ExitSuccess \<longleftrightarrow>
      kDSN \<noteq> [] \<and> kKey \<noteq> [] \<and> encKey \<noteq> [] \<and> \<not> flt 0 \<and> \<not> flt 1 \<and> \<not> flt 2 \<and> sc_decryptFailed ?n = 0 \<and> sc_differ ?n = 0"
    by (simp add: SignerDiff_def Let_def)
  moreover have "fst (SignerDiff K E kDSN kKey encKey flt s kt) = Some n \<Longrightarrow> n = ?n" for n
    by (simp add: SignerDiff_def Let_def split: if_splits)
  ultimately show ?thesis using total unfolding bad any_broken [OF assms] dif by blast
qed

definition two_eth :: eth where
  "two_eth = demo_eth\<lparr>HexToECDSA := Some, PubkeyToAddress := (@) ''0x''\<rparr>"

definition demo_copy :: "string \<Rightarrow> src_tenant list" where
  "demo_copy key = [\<lparr>st_id = ''op'', st_name = ''Acme'', st_client = Some ''0xLIC'', st_secret = None, st_signer = None,
     st_signer_key = Some (EncryptSecret demo_crypto ''012345678901'' ''kk'' key)\<rparr>]"

lemma SignerDiff_verdict_witness:
  "snd (SignerDiff demo_crypto two_eth ''k'' ''kk'' ''pass'' no_faults demo_keys_db (demo_copy ''6c'')) \<noteq> ExitSuccess \<and>
   snd (SignerDiff demo_crypto two_eth ''k'' ''kk'' ''pass'' no_faults demo_keys_db (demo_copy ''6b'')) = ExitSuccess"
proof -
  have l: "address_under demo_crypto two_eth ''pass'' (signer_enc demo_keys_db ''op'') = Some ''0x6b''"
    "signer_enc demo_keys_db ''cu'' = None" "signer_enc demo_keys_db ''su'' = None" by code_simp+
  have r: "address_under demo_crypto two_eth ''kk'' (st_signer_key (hd (demo_copy ''6b''))) = Some ''0x6b''"
    "address_under demo_crypto two_eth ''kk'' (st_signer_key (hd (demo_copy ''6c''))) = Some ''0x6c''" by code_simp+
  have ids: "distinct (map t_id (tenants demo_keys_db))" "map t_id (tenants demo_keys_db) = [''op'', ''cu'', ''su'']" by code_simp+
  from arg_cong [OF ids(2), of set] have set: "t_id ` set (tenants demo_keys_db) = {''op'', ''cu'', ''su''}" by simp
  have "\<forall>i\<in>{''op'', ''cu'', ''su''}. opens demo_crypto two_eth ''pass'' (signer_enc demo_keys_db i)"
    by (simp add: opens_def l null_str_def)
  then have o: "\<forall>t\<in>set (tenants demo_keys_db). opens demo_crypto two_eth ''pass'' (signer_enc demo_keys_db (t_id t))"
    unfolding set [symmetric] by simp
  have kt: "distinct (map st_id (demo_copy key))" "set (demo_copy key) = {hd (demo_copy key)}" "st_id (hd (demo_copy key)) = ''op''" for key
    by (simp_all add: demo_copy_def)
  show ?thesis
    using SignerDiff_verdict [OF ids(1) kt(1), of demo_crypto two_eth "''k''" "''kk''" "''pass''" no_faults] o
    by (simp add: kt set l r opens_def)
qed

subsection \<open>After a backfill\<close>

lemma moved_address: "moved K k v k' v' \<Longrightarrow> address_under K E k' v' = address_under K E k v"
  by (auto simp: moved_def address_under_def null_str_def split: if_splits)

lemma Backfill_tenant_ids:
  assumes "Backfill L K rnd kDSN kKey fDSN fKey dstKey now flt s src False = (s', ExitSuccess)"
    and "distinct (map t_id (tenants s))"
  shows "distinct (map t_id (tenants s'))" and "st_id ` set (bk_tenants src) \<subseteq> t_id ` set (tenants s')"
proof -
  from Backfill_runs [OF assms(1)] obtain prepared selfServe f1 f2 s1 s2 n n' where
      p1: "prepare K rnd kKey dstKey (bk_tenants src) = Inr prepared"
      and t1: "write_tenants now True f1 prepared s = Inr s1" and t2: "write_tenants now False f2 selfServe s1 = Inr s2"
      and m: "writeMembers L now flt (in_key_order (fold take_claim (claims L src) [])) [] s2 n = Inr (s', n')" by auto
  have "distinct (map fst (fold take_claim (claims L src) []))" by (rule folded_keys) simp
  from arg_cong [OF writeMembers_result [OF m, unfolded distinct_key_order, OF this, THEN conjunct1], of tenants]
  have same: "tenants s' = tenants s2" by simp
  show "distinct (map t_id (tenants s'))"
    using write_tenants_ids [OF t1] write_tenants_ids [OF t2] assms(2) by (simp add: same unique_on_all)
  show "st_id ` set (bk_tenants src) \<subseteq> t_id ` set (tenants s')"
    using write_tenants_ids [OF t1] write_tenants_ids [OF t2] by (auto simp: same simp flip: prepare_tenants [OF p1])
qed

lemma Backfill_signer_key:
  assumes "crypto_laws K" and "good_nonces rnd" and "distinct (map st_id (bk_tenants src))" and "distinct (map ft_id (bf_tenants src))"
    and "Backfill L K rnd kDSN kKey fDSN fKey dstKey now flt s src False = (s', ExitSuccess)" and "t \<in> set (bk_tenants src)"
  shows "moved K kKey (st_signer_key t) dstKey (signer_enc s' (st_id t))"
proof (rule Backfill_credential_rows [OF assms(1-5)])
  fix prepared
  assume r: "map rk_tenant prepared = bk_tenants src"
    "\<And>r. r \<in> set prepared \<Longrightarrow> moved K kKey (st_secret (rk_tenant r)) dstKey (nullif (rk_api r)) \<and>
       moved K kKey (st_signer_key (rk_tenant r)) dstKey (nullif (rk_signer r))"
    "\<And>r. r \<in> set prepared \<Longrightarrow> credential_of s' (rk_id r) =
       Some (case credential_of s (rk_id r) of None \<Rightarrow> licence_row True r | Some c \<Rightarrow> relicensed True r c)"
  from from_map [OF r(1) assms(6)] obtain x where "x \<in> set prepared" "rk_tenant x = t" by blast
  with r(2,3) [of x] show ?thesis
    by (auto simp: signer_enc_def licence_row_def relicensed_def Let_def split: option.splits)
qed

text \<open>
  C31. The two commands agree. After a backfill that succeeded, a comparison against the same rows of
  kaufmann finds no tenant whose two keys differ and none whose key is missing here, whatever the
  source's keys are.
\<close>

theorem Backfill_then_SignerDiff:
  assumes "crypto_laws K" and "good_nonces rnd" and "distinct (map t_id (tenants s))"
    and "distinct (map st_id (bk_tenants src))" and "distinct (map ft_id (bf_tenants src))"
    and "Backfill L K rnd kDSN kKey fDSN fKey dstKey now flt s src False = (s', ExitSuccess)"
    and "fst (SignerDiff K E kDSN kKey dstKey flt' s' (bk_tenants src)) = Some n"
  shows "sc_differ n = 0 \<and> sc_missingLocal n = 0"
proof -
  let ?kt = "bk_tenants src"
  let ?l = "\<lambda>i. map_of (rev (readLocal K E dstKey s')) i" and ?r = "\<lambda>i. map_of (rev (readKaufmann K E kKey ?kt)) i"
  note ids = Backfill_tenant_ids [OF assms(6,3)]
  have same: "address_under K E dstKey (signer_enc s' (st_id t)) = address_under K E kKey (st_signer_key t)" if "t \<in> set ?kt" for t
    by (rule moved_address [OF Backfill_signer_key [OF assms(1,2,4,5,6) that]])
  have "\<not> differs (?l i) (?r i) \<and> (has_key (?r i) \<longrightarrow> has_key (?l i))" for i
  proof (cases "i \<in> st_id ` set ?kt")
    case True
    then obtain t where t: "t \<in> set ?kt" "st_id t = i" by blast
    moreover have "st_id t \<in> t_id ` set (tenants s')" using t(1) ids(2) by blast
    ultimately show ?thesis using differs_pair [OF ids(1) assms(4) t(1), of K E dstKey kKey] same [OF t(1)]
        remote_meaning(2) [OF assms(4) t(1), of K E kKey] local_meaning(2) [OF ids(1), of K E dstKey "st_id t"] by auto
  next
    case False
    with differs_only_pairs [OF False, of K E dstKey s' kKey] remote_absent [OF False, of K E kKey] show ?thesis by blast
  qed
  then have "filter (\<lambda>i. differs (?l i) (?r i)) xs = []"
    "filter (\<lambda>i. \<not> broken (?l i) \<and> \<not> broken (?r i) \<and> \<not> has_key (?l i) \<and> has_key (?r i)) xs = []" for xs
    by (auto simp: filter_empty_conv)
  moreover have "n = diff_counts (readLocal K E dstKey s') (readKaufmann K E kKey ?kt)"
    using assms(7) by (simp add: SignerDiff_def Let_def split: if_splits)
  ultimately show ?thesis by (simp add: diff_counts_def fold_counts no_counts_def)
qed

lemma Backfill_then_SignerDiff_witness:
  "\<exists>s' n. Backfill demo_library demo_crypto (\<lambda>_. Some ''012345678901'') ''k'' ''kk'' ''f'' ''fk'' ''dk'' 9 no_faults demo_keys_db
       (demo_sources\<lparr>bk_tenants := demo_copy ''6c''\<rparr>) False = (s', ExitSuccess) \<and>
     fst (SignerDiff demo_crypto two_eth ''k'' ''kk'' ''dk'' no_faults s' (demo_copy ''6c'')) = Some n \<and> sc_differ n = 0"
proof -
  let ?src = "demo_sources\<lparr>bk_tenants := demo_copy ''6c''\<rparr>"
  let ?run = "Backfill demo_library demo_crypto (\<lambda>_. Some ''012345678901'') ''k'' ''kk'' ''f'' ''fk'' ''dk'' 9 no_faults demo_keys_db ?src False"
  have "snd ?run = ExitSuccess" by code_simp
  then obtain s' where run: "?run = (s', ExitSuccess)" by (metis prod.collapse)
  obtain n where n: "fst (SignerDiff demo_crypto two_eth ''k'' ''kk'' ''dk'' no_faults s' (demo_copy ''6c'')) = Some n"
    by (simp add: SignerDiff_def Let_def)
  have "distinct (map t_id (tenants demo_keys_db))" "distinct (map st_id (bk_tenants ?src))" "distinct (map ft_id (bf_tenants ?src))"
    by code_simp+
  moreover have "good_nonces (\<lambda>_. Some ''012345678901'')" by (simp add: good_nonces_def NonceSize_def)
  moreover have "fst (SignerDiff demo_crypto two_eth ''k'' ''kk'' ''dk'' no_faults s' (bk_tenants ?src)) = Some n" using n by simp
  ultimately have "sc_differ n = 0" using Backfill_then_SignerDiff [OF demo_crypto_laws _ _ _ _ run] by blast
  with run n show ?thesis by blast
qed

end
