(* ===== verification/CredentialWrites.thy ===== *)
theory CredentialWrites
  imports Backfill Minting
begin

text \<open>
  Every writer of the credential table together: the running service and the command that provisions
  a signer (\<open>Minting.thy\<close>), and the migration (\<open>Backfill.thy\<close>). What no sequence of them breaks, and
  whose signers no sequence of them touches.
\<close>

subsection \<open>The migration keeps the constraints\<close>

text \<open>Where its statements would break a constraint of the tables they write, they fail.\<close>

lemma write_tenants_guards:
  assumes "write_tenants now b flt (r # rs) s = Inr s'"
  obtains s1 flt' where "write_tenants now b flt' rs s1 = Inr s'"
    and "\<not> name_clash s (rk_id r) (st_name (rk_tenant r))" and "\<not> licence_clash s r"
    and "s1 = s\<lparr>tenants := put_tenant now (if b then KindOperator else KindCustomer) (rk_id r) (st_name (rk_tenant r)) (tenants s),
           credentials := put_licence b r (credentials s)\<rparr>"
  using assms that by (fastforce simp: Let_def licence_clash_def split: if_splits)

lemma put_tenant_names:
  assumes "unique_on (\<lambda>_. True) t_id (tenants s)" and "names_per_parent (tenants s)" and "\<not> name_clash s i n"
  shows "names_per_parent (put_tenant now kind i n (tenants s))"
proof (cases "\<exists>t\<in>set (tenants s). t_id t = i")
  case True
  have "distinct (tenants s)" using assms(1) by (simp add: unique_on_def distinct_map)
  then have "names_per_parent (upd (\<lambda>t. t_id t = i) (\<lambda>t. t\<lparr>t_name := n\<rparr>) (tenants s))"
    using assms(2,3) unique_on_inj [OF assms(1)] unfolding names_per_parent_def
    by (intro unique_on_upd_one) (auto simp: name_clash_def list_ex_iff)
  with True show ?thesis by (simp add: put_tenant_def upsert_row_def)
next
  case False
  with assms(2) show ?thesis by (simp add: put_tenant_def upsert_row_def names_per_parent_def)
qed

lemma set_put_tenant:
  "t \<in> set (put_tenant now kind i n ts) \<Longrightarrow>
     (\<exists>t'\<in>set ts. t = t' \<or> t = t'\<lparr>t_name := n\<rparr>) \<or> t_status t = StatusActive \<and> t_parent t = None"
  by (auto simp: put_tenant_def set_upsert_row)

lemma put_tenant_mono:
  "t \<in> set ts \<Longrightarrow> \<exists>t'\<in>set (put_tenant now kind i n ts). t_id t' = t_id t \<and> t_kind t' = t_kind t"
  by (intro bexI [of _ "if t_id t = i then t\<lparr>t_name := n\<rparr> else t"])
    (auto simp: put_tenant_def upsert_row_def upd_def)

lemma put_tenant_shapes:
  assumes "list_all (tenant_shape s) (tenants s)"
  shows "list_all (tenant_shape (s\<lparr>tenants := put_tenant now kind i n (tenants s), credentials := cs\<rparr>))
    (put_tenant now kind i n (tenants s))"
proof -
  have op: "\<exists>o'\<in>set (put_tenant now kind i n (tenants s)). t_id o' = p \<and> t_kind o' = KindOperator"
    if "\<exists>o'\<in>set (tenants s). t_id o' = p \<and> t_kind o' = KindOperator" for p
    using that put_tenant_mono by metis
  show ?thesis
    using assms op
    by (fastforce simp: list_all_iff tenant_shape_def list_ex_iff dest!: set_put_tenant split: option.splits)
qed

lemma set_put_licence:
  "c \<in> set (put_licence b r cs) \<Longrightarrow> c \<in> set cs \<or> c = licence_row b r \<or> (\<exists>x\<in>set cs. c = relicensed b r x)"
  by (auto simp: put_licence_def set_upsert_row)

lemma put_licence_keys:
  assumes "licence_keys s" and "\<not> licence_clash s r"
  shows "licence_keys (s\<lparr>tenants := ts, credentials := put_licence b r (credentials s)\<rparr>)"
proof -
  have u: "unique_on (\<lambda>_. True) c_tenant (credentials s)" using assms(1) by (simp add: licence_keys_def)
  then have d: "distinct (credentials s)" by (simp add: unique_on_def distinct_map)
  have id: "c_client_id (relicensed b r c) = nullif (rk_client r)" "c_client_id (licence_row b r) = nullif (rk_client r)" for c
    by (simp_all add: relicensed_def licence_row_def Let_def)
  have other: "map_option lower (c_client_id c) \<noteq> map_option lower (nullif (rk_client r))"
    if "c \<in> set (credentials s)" "c_tenant c \<noteq> rk_id r" "\<exists>y. nullif (rk_client r) = Some y" for c
    using assms(2) that unfolding licence_clash_def list_ex_iff nullif_def by (cases "rk_client r = []") auto
  have "unique_on (\<lambda>c. c_client_id c \<noteq> None) (\<lambda>c. map_option lower (c_client_id c)) (put_licence b r (credentials s))"
  proof (cases "\<exists>c\<in>set (credentials s). c_tenant c = rk_id r")
    case True
    have "unique_on (\<lambda>c. c_client_id c \<noteq> None) (\<lambda>c. map_option lower (c_client_id c))
        (upd (\<lambda>c. c_tenant c = rk_id r) (relicensed b r) (credentials s))"
      using assms(1) unique_on_inj [OF u] d other
      by (intro unique_on_upd_one) (auto simp: licence_keys_def id)
    with True show ?thesis by (simp add: put_licence_def upsert_row_def)
  next
    case False
    with other have "\<forall>x\<in>set (credentials s). (\<exists>y. nullif (rk_client r) = Some y) \<longrightarrow>
        map_option lower (c_client_id x) \<noteq> map_option lower (nullif (rk_client r))" by blast
    with False assms(1) show ?thesis by (auto simp: put_licence_def upsert_row_def licence_keys_def id)
  qed
  moreover have "unique_on (\<lambda>_. True) c_tenant (put_licence b r (credentials s))"
    unfolding put_licence_def by (rule unique_on_upsert_row [OF u]) simp_all
  ultimately show ?thesis by (simp add: licence_keys_def)
qed

lemma written_tenant_inv:
  assumes "cred_inv s" and "\<not> name_clash s (rk_id r) n" and "\<not> licence_clash s r"
  shows "cred_inv (s\<lparr>tenants := put_tenant now kind (rk_id r) n (tenants s), credentials := put_licence b r (credentials s)\<rparr>)"
    (is "cred_inv ?s")
proof -
  note inv = assms(1) [unfolded cred_inv_def tenant_inv_def]
  have ex: "tenant_exists ?s i \<longleftrightarrow> tenant_exists s i \<or> i = rk_id r" for i
  proof -
    have "tenant_exists ?s i \<longleftrightarrow> i \<in> t_id ` set (put_tenant now kind (rk_id r) n (tenants s))"
      by (auto simp: tenant_exists_def list_ex_iff)
    then show ?thesis unfolding ids_put_tenant by (auto simp: tenant_exists_def list_ex_iff)
  qed
  have "\<forall>c\<in>set (put_licence b r (credentials s)). tenant_exists ?s (c_tenant c)"
    using inv by (auto simp: ex tenant_refs_def list_all_iff dest!: set_put_licence)
  moreover have "\<forall>c\<in>set (put_licence b r (credentials s)). aa_pair c"
    using inv by (auto simp: aa_pair_def licence_row_def relicensed_def Let_def dest!: set_put_licence split: if_splits)
  moreover have "list_all (tenant_shape ?s) (tenants ?s)"
    using put_tenant_shapes inv by simp
  ultimately show ?thesis
    using inv put_tenant_names [OF _ _ assms(2), of now kind]
      put_licence_keys [OF _ assms(3)] ids_put_tenant(2)
    by (simp add: cred_inv_def tenant_inv_def tenant_refs_def list_all_iff ex)
qed

lemma write_tenants_inv:
  "write_tenants now b flt rs s = Inr s' \<Longrightarrow> cred_inv s \<Longrightarrow> cred_inv s'"
proof (induction rs arbitrary: flt s)
  case (Cons r rs)
  from write_tenants_guards [OF Cons.prems(1)] obtain s1 flt' where
    run: "write_tenants now b flt' rs s1 = Inr s'"
    and ok: "\<not> name_clash s (rk_id r) (st_name (rk_tenant r))" "\<not> licence_clash s r"
    and s1: "s1 = s\<lparr>tenants := put_tenant now (if b then KindOperator else KindCustomer) (rk_id r) (st_name (rk_tenant r)) (tenants s),
       credentials := put_licence b r (credentials s)\<rparr>" .
  show ?case by (rule Cons.IH [OF run]) (unfold s1, rule written_tenant_inv [OF Cons.prems(2) ok])
qed simp

lemma copied_member_inv:
  assumes "cred_inv s" and "tenant_exists s (fst k)"
  shows "cred_inv (s\<lparr>users := us, memberships := put_copied (copied_member now k a) (memberships s)\<rparr>)" (is "cred_inv ?s")
proof -
  have same: "tenant_exists ?s = tenant_exists s" "tenant_shape ?s = tenant_shape s"
    by (rule tenants_same; simp)+
  have "\<forall>m\<in>set (put_copied (copied_member now k a) (memberships s)). tenant_exists s (m_tenant m)"
    unfolding put_copied_def using assms
    by (auto simp: set_upsert_row cred_inv_def tenant_inv_def tenant_refs_def list_all_iff replaced_member_def copied_member_def)
  with assms(1) show ?thesis
    by (simp add: cred_inv_def tenant_inv_def tenant_refs_def list_all_iff same licence_keys_def)
qed

lemma copied_members_inv:
  "writeMembers L now flt acc seen s n = Inr (s', n') \<Longrightarrow> cred_inv s \<Longrightarrow> cred_inv s' \<and> credentials s' = credentials s"
proof (induction acc arbitrary: seen s n)
  case (Cons p acc)
  obtain k a where p: "p = (k, a)" by (cases p)
  from writeMembers_step [OF Cons.prems(1) [unfolded p]] obtain us seen' n1 where
      run: "writeMembers L now flt acc seen' (s\<lparr>users := us, memberships := put_copied (copied_member now k a) (memberships s)\<rparr>) n1
        = Inr (s', n')"
      and ok: "tenant_exists s (fst k)" by blast
  from Cons.IH [OF run copied_member_inv [OF Cons.prems(2) ok]] show ?case by simp
qed simp

subsection \<open>Whose signers it may replace\<close>

text \<open>A row that keeps its tenant and, unless that is one of \<open>I\<close>, its signer.\<close>

definition kept_outside :: "uuid set \<Rightarrow> credential_row \<Rightarrow> credential_row \<Rightarrow> bool" where
  "kept_outside I c c' \<longleftrightarrow> c_tenant c' = c_tenant c \<and> (c_tenant c \<notin> I \<longrightarrow> signer_kept c c')"

lemma kept_outside_refl [simp]: "kept_outside I c c"
  by (simp add: kept_outside_def)

lemma kept_outside_rows_trans:
  "rows_rel (kept_outside I) rs rs' \<Longrightarrow> rows_rel (kept_outside I) rs' rs'' \<Longrightarrow> rows_rel (kept_outside I) rs rs''"
  by (erule rows_rel_trans, assumption) (auto simp: kept_outside_def intro: signer_kept_trans)

lemma signers_kept_outside: "signers_kept s s' \<Longrightarrow> rows_rel (kept_outside I) (credentials s) (credentials s')"
  by (fastforce simp: signers_kept_def rows_rel_def kept_outside_def signer_kept_def)

lemma put_licence_kept:
  "(b \<longrightarrow> rk_id r \<in> I) \<Longrightarrow> rows_rel (kept_outside I) cs (put_licence b r cs)"
  unfolding put_licence_def upsert_row_def
  by (auto simp: kept_outside_def signer_kept_def relicensed_def Let_def intro!: rows_rel_upd rows_rel_append)

lemma write_tenants_kept:
  "write_tenants now b flt rs s = Inr s' \<Longrightarrow> (b \<longrightarrow> rk_id ` set rs \<subseteq> I) \<Longrightarrow>
     rows_rel (kept_outside I) (credentials s) (credentials s')"
proof (induction rs arbitrary: flt s)
  case (Cons r rs)
  from write_tenants_guards [OF Cons.prems(1)] obtain s1 flt' where
    run: "write_tenants now b flt' rs s1 = Inr s'"
    and s1: "s1 = s\<lparr>tenants := put_tenant now (if b then KindOperator else KindCustomer) (rk_id r) (st_name (rk_tenant r)) (tenants s),
       credentials := put_licence b r (credentials s)\<rparr>" .
  have "rows_rel (kept_outside I) (credentials s1) (credentials s')" by (rule Cons.IH [OF run]) (use Cons.prems(2) in auto)
  moreover have "credentials s1 = put_licence b r (credentials s)" by (simp add: s1)
  ultimately show ?case
    using put_licence_kept [of b r I "credentials s"] Cons.prems(2) by (auto intro: kept_outside_rows_trans)
qed (simp add: rows_rel_refl)

lemma Backfill_writes:
  assumes "cred_inv s" and "st_id ` set (bk_tenants src) \<subseteq> I"
  shows "cred_inv (fst (Backfill L K rnd kDSN kKey fDSN fKey dstKey now flt s src dry)) \<and>
    rows_rel (kept_outside I) (credentials s)
      (credentials (fst (Backfill L K rnd kDSN kKey fDSN fKey dstKey now flt s src dry)))"
proof (cases dry)
  case True
  with assms(1) show ?thesis by (simp add: dry_runs rows_rel_refl)
next
  case False
  obtain s' st where run: "Backfill L K rnd kDSN kKey fDSN fKey dstKey now flt s src False = (s', st)" by fastforce
  from Backfill_runs [OF run] consider "s' = s"
    | prepared selfServe f1 f2 s1 s2 n n' where "prepare K rnd kKey dstKey (bk_tenants src) = Inr prepared"
      "write_tenants now True f1 prepared s = Inr s1" "write_tenants now False f2 selfServe s1 = Inr s2"
      "writeMembers L now flt (in_key_order (fold take_claim (claims L src) [])) [] s2 n = Inr (s', n')" by blast
  then have "cred_inv s' \<and> rows_rel (kept_outside I) (credentials s) (credentials s')"
  proof cases
    case 2
    note m = copied_members_inv [OF 2(4) write_tenants_inv [OF 2(3) write_tenants_inv [OF 2(2) assms(1)]]]
    have "rk_id ` set prepared = st_id ` set (bk_tenants src)"
      unfolding prepare_tenants [OF 2(1), symmetric] by (simp add: image_image)
    with write_tenants_kept [OF 2(2), of I] write_tenants_kept [OF 2(3), of I] assms(2) m show ?thesis
      by (auto intro: kept_outside_rows_trans)
  qed (simp add: assms(1) rows_rel_refl)
  with False run show ?thesis by simp
qed

subsection \<open>Every write to the credential table\<close>

text \<open>
  A write of the service, or a run of the migration with its randomness, its four source settings and
  this service's key, its time and faults and the rows its sources hold.
\<close>

datatype credential_write =
    Served cred_op
  | Migrated "nat \<Rightarrow> string option" string string string string string time faults backfill_sources bool

fun credential_step ::
  "library \<Rightarrow> crypto \<Rightarrow> eth \<Rightarrow> chain_settings \<Rightarrow> (string \<Rightarrow> string \<Rightarrow> bool) \<Rightarrow> (string \<Rightarrow> string option) \<Rightarrow>
   credential_write \<Rightarrow> db \<Rightarrow> db" where
  "credential_step L K E cfg vc seal (Served op) s = cred_step L K E cfg vc seal op s"
| "credential_step L K E cfg vc seal (Migrated rnd kDSN kKey fDSN fKey dstKey now flt src dry) s =
     fst (Backfill L K rnd kDSN kKey fDSN fKey dstKey now flt s src dry)"

text \<open>The tenants of kaufmann's that a run, unless dry, may write.\<close>

fun migrates :: "credential_write \<Rightarrow> uuid set" where
  "migrates (Served op) = {}"
| "migrates (Migrated rnd kDSN kKey fDSN fKey dstKey now flt src dry) = (if dry then {} else st_id ` set (bk_tenants src))"

lemma credential_step_ok:
  assumes "cred_inv s" and "migrates op \<subseteq> I"
  shows "cred_inv (credential_step L K E cfg vc seal op s) \<and>
    rows_rel (kept_outside I) (credentials s) (credentials (credential_step L K E cfg vc seal op s))"
proof (cases op)
  case (Served c)
  with cred_step_ok [OF assms(1)] signers_kept_outside show ?thesis by simp
next
  case (Migrated rnd kDSN kKey fDSN fKey dstKey now flt src dry)
  with assms Backfill_writes [OF assms(1), of src I] show ?thesis
    by (cases dry) (auto simp: dry_runs rows_rel_refl)
qed

lemma credential_steps_ok:
  "cred_inv s \<Longrightarrow> \<forall>op\<in>set ops. migrates op \<subseteq> I \<Longrightarrow>
     cred_inv (fold (credential_step L K E cfg vc seal) ops s) \<and>
     rows_rel (kept_outside I) (credentials s) (credentials (fold (credential_step L K E cfg vc seal) ops s))"
proof (induction ops arbitrary: s)
  case (Cons op ops)
  have "migrates op \<subseteq> I" using Cons.prems(2) by simp
  note one = credential_step_ok [OF Cons.prems(1) this, of L K E cfg vc seal]
  from Cons.IH [of "credential_step L K E cfg vc seal op s"] Cons.prems(2) one show ?case
    by (auto intro: kept_outside_rows_trans)
qed (simp add: rows_rel_refl)

text \<open>
  C18. A signer is permanent: over any sequence of writes to the credential table, the service's and
  whole runs of the migration alike, whichever fail, a tenant that has a signer keeps exactly its
  address and its sealed key, because kernel accounts registered that key and could never be signed
  for again. The one exception is the migration's own: a tenant that is one of kaufmann's in a run
  that is not dry, whose signer C30 describes. Nor does any sequence break the tenant hierarchy, the
  uniqueness of licences, or the pairing of a wallet address with its key.
\<close>

theorem signer_permanent:
  assumes "cred_inv s" and "s' = fold (credential_step L K E cfg vc seal) ops s"
  shows "cred_inv s' \<and>
    (\<forall>c\<in>set (credentials s). \<not> lacks_signer c \<and> (\<forall>op\<in>set ops. c_tenant c \<notin> migrates op) \<longrightarrow>
    (\<exists>c'\<in>set (credentials s'). c_tenant c' = c_tenant c \<and> c_signer_address c' = c_signer_address c \<and>
       c_signer_key_enc c' = c_signer_key_enc c))"
proof -
  have ok: "cred_inv s' \<and> rows_rel (kept_outside (\<Union>op\<in>set ops. migrates op)) (credentials s) (credentials s')"
    unfolding assms(2) by (rule credential_steps_ok [OF assms(1)]) blast
  then show ?thesis unfolding rows_rel_def kept_outside_def signer_kept_def by blast
qed

definition demo_credential_writes :: "credential_write list" where
  "demo_credential_writes =
     [Served (CSigner no_faults (Some ''k'') (Some ''012345678901'') ''op''),
      Migrated (\<lambda>_. Some ''012345678901'') ''k'' ''kk'' ''f'' ''fk'' ''dk'' 9 no_faults
        (demo_sources\<lparr>bk_tenants := map (st_id_update (\<lambda>_. ''cu'')) (bk_tenants demo_sources)\<rparr>) False,
      Served (CTenant (TCredentials no_faults ''op'' ''0xNEW'' ''key''))]"

lemma signer_permanent_witness:
  "\<exists>c'\<in>set (credentials (fold (credential_step demo_library demo_crypto demo_eth demo_settings_chain (\<lambda>_ _. True) Some)
       demo_credential_writes demo_keys_db)).
     c_tenant c' = ''op'' \<and> c_signer_address c' = Some ''0xsig''"
proof -
  let ?c = "hd (credentials demo_keys_db)"
  have c: "?c \<in> set (credentials demo_keys_db)" "\<not> lacks_signer ?c" "c_tenant ?c = ''op''" "c_signer_address ?c = Some ''0xsig''"
    by (simp_all add: demo_keys_db_def lacks_signer_def null_str_def demo_seal)
  then have "\<forall>op\<in>set demo_credential_writes. c_tenant ?c \<notin> migrates op" by (simp add: demo_credential_writes_def demo_sources_def)
  with c signer_permanent [OF demo_keys_inv refl] show ?thesis by metis
qed

end
