(* ===== verification/Operations.thy ===== *)
theory Operations
  imports Commands SharedSigner Mail Roster Publisher
begin

text \<open>
  The commands that run a service once (\<open>src/cmd/fleet-tenancy-api\<close>): \<open>warm-shared-accounts\<close>,
  \<open>provision-signer\<close>, \<open>publish-group-attestations\<close>, \<open>reconcile-vehicles\<close> and
  \<open>push-postmark-templates\<close>. Each adds its own guards around the service, and its exit status is
  what an operator or a scheduled job learns of the run.
\<close>

subsection \<open>Warming the shared accounts\<close>

text \<open>\<open>SELECT DISTINCT owner .. ORDER BY owner\<close>\<close>

definition readOwners :: "db \<Rightarrow> string list" where
  "readOwners s = sort (remdups (filter (\<lambda>w. w \<noteq> []) (map (null_str \<circ> v_owner) (vehicles s))))"

definition limited :: "nat \<Rightarrow> string list \<Rightarrow> string list" where
  "limited limit cold = (if 0 < limit \<and> limit < length cold then take limit cold else cold)"

text \<open>Statement 0 reads the owners, 1 what is known of them; the rest belong to \<open>Warm\<close>.\<close>

definition WarmSharedAccounts ::
  "env \<Rightarrow> faults \<Rightarrow> schedule \<Rightarrow> time \<Rightarrow> minters \<Rightarrow> db \<Rightarrow> uuid \<Rightarrow> nat \<Rightarrow> bool \<Rightarrow> db \<times> exit_status" where
  "WarmSharedAccounts V flt sched now cache s tenantID limit dryRun =
     (if tenantID = [] then (s, ExitUsageError)
      else if flt 0 then (s, ExitFailure)
      else let owners = readOwners s in
      if owners = [] then (s, ExitSuccess)
      else case ColdOwners (ev_lib V) (\<lambda>n. flt (n + 1)) now s owners of
        Inl e \<Rightarrow> (s, ExitFailure)
      | Inr allCold \<Rightarrow>
        let cold = limited limit allCold in
        if dryRun then (s, ExitSuccess)
        else if cold = [] then (s, ExitSuccess)
        else case Warm V (\<lambda>n. flt (n + 2)) sched now cache s tenantID cold of
          (cache', s', res, Some e) \<Rightarrow> (s', ExitFailure)
        | (cache', s', res, None) \<Rightarrow> (s', if 0 < Failed res then ExitFailure else ExitSuccess))"

subsection \<open>Giving one tenant a signer\<close>

text \<open>Statement 0 loads the tenant with its credential row, if any.\<close>

definition has_signer :: "db \<Rightarrow> uuid \<Rightarrow> bool" where
  "has_signer s tid \<longleftrightarrow> (\<exists>c\<in>set (credentials s). c_tenant c = tid \<and> \<not> lacks_signer c)"

definition ProvisionSignerCmd ::
  "crypto \<Rightarrow> eth \<Rightarrow> chain_settings \<Rightarrow> faults \<Rightarrow> string option \<Rightarrow> string option \<Rightarrow> db \<Rightarrow> uuid \<Rightarrow> bool \<Rightarrow> bool \<Rightarrow> db \<times> exit_status" where
  "ProvisionSignerCmd K E cfg flt gen nonce s tenantID forceCustomer dryRun =
     (if tenantID = [] then (s, ExitUsageError)
      else if TenantSecretEncKey cfg = [] then (s, ExitFailure)
      else if flt 0 then (s, ExitFailure)
      else case tenant_by_id tenantID s of
        None \<Rightarrow> (s, ExitFailure)
      | Some t \<Rightarrow>
        if has_signer s tenantID then (s, ExitFailure)
        else if t_kind t = KindCustomer \<and> \<not> forceCustomer then (s, ExitFailure)
        else if dryRun then (s, ExitSuccess)
        else case ProvisionSigner K E cfg (\<lambda>n. flt (n + 1)) gen nonce s tenantID of
          (s', Inl e) \<Rightarrow> (s', ExitFailure)
        | (s', Inr res) \<Rightarrow> (s', ExitSuccess))"

subsection \<open>Publishing, reconciling\<close>

definition PublishGroupAttestations ::
  "pub_env \<Rightarrow> string \<Rightarrow> faults \<Rightarrow> (uuid \<Rightarrow> faults) \<Rightarrow> (veh_key \<Rightarrow> faults) \<Rightarrow> minters \<Rightarrow> db \<Rightarrow> string \<Rightarrow> bool \<Rightarrow>
   db \<times> cloud_event list \<times> exit_status" where
  "PublishGroupAttestations P attestURL flt tf vf cache s tenantID dryRun =
     (if attestURL = [] \<and> \<not> dryRun then (s, [], ExitUsageError)
      else if ChainID (pe_cfg P) = 0 then (s, [], ExitUsageError)
      else case Run P flt tf vf cache s tenantID dryRun of
        (s', evs, Inl e) \<Rightarrow> (s', evs, ExitFailure)
      | (s', evs, Inr res) \<Rightarrow>
        if \<not> dryRun \<and> \<not> Balances res then (s', evs, ExitFailure)
        else if 0 < FailedN res then (s', evs, ExitFailure)
        else (s', evs, ExitSuccess))"

definition ReconcileVehicles :: "identity_api \<Rightarrow> faults \<Rightarrow> time \<Rightarrow> db \<Rightarrow> bool \<Rightarrow> db \<times> exit_status" where
  "ReconcileVehicles A flt now s dryRun =
     (case Reconcile A flt now s dryRun of
        (s', Inl e) \<Rightarrow> (s', ExitFailure)
      | (s', Inr report) \<Rightarrow> (s', if LicensesFailed report \<noteq> [] then ExitFailure else ExitSuccess))"

subsection \<open>Pushing the email templates\<close>

record template_entry =
  te_alias :: string
  te_name :: string
  te_subject :: string
  te_html :: string
  te_text :: string

text \<open>What the read and the decoding of the manifest gave.\<close>

datatype manifest_file = Unreadable | Unparseable | Manifest "template_entry list"

text \<open>\<open>file\<close> reads a file of the template directory; the aliases pushed so far go along.\<close>

fun push_templates :: "postmark \<Rightarrow> string \<Rightarrow> (string \<Rightarrow> string option) \<Rightarrow> template_entry list \<Rightarrow> string list \<Rightarrow> string list \<times> exit_status" where
  "push_templates http token file [] pushed = (pushed, ExitSuccess)"
| "push_templates http token file (t # ts) pushed =
     (case file (te_html t) of
        None \<Rightarrow> (pushed, ExitFailure)
      | Some html \<Rightarrow>
        (case (if te_text t \<noteq> [] then file (te_text t) else Some []) of
           None \<Rightarrow> (pushed, ExitFailure)
         | Some txt \<Rightarrow>
           (case UpsertTemplate http token (te_alias t) (te_name t) (te_subject t) html txt of
              Some e \<Rightarrow> (pushed, ExitFailure)
            | None \<Rightarrow> push_templates http token file ts (pushed @ [te_alias t]))))"

definition PushPostmarkTemplates ::
  "postmark \<Rightarrow> string \<Rightarrow> (string \<Rightarrow> string option) \<Rightarrow> manifest_file \<Rightarrow> string list \<times> exit_status" where
  "PushPostmarkTemplates http serverToken file manifest =
     (let token = NewPostmarkAPI serverToken in
      if \<not> postmark_Enabled token then ([], ExitFailure)
      else case manifest of
        Unreadable \<Rightarrow> ([], ExitFailure)
      | Unparseable \<Rightarrow> ([], ExitFailure)
      | Manifest ts \<Rightarrow> if ts = [] then ([], ExitFailure) else push_templates http token file ts [])"

subsection \<open>A template set is pushed in order, up to the first that fails\<close>

definition pushable :: "postmark \<Rightarrow> string \<Rightarrow> (string \<Rightarrow> string option) \<Rightarrow> template_entry \<Rightarrow> bool" where
  "pushable http token file t \<longleftrightarrow> (\<exists>html txt. file (te_html t) = Some html \<and>
     (if te_text t = [] then txt = [] else file (te_text t) = Some txt) \<and>
     UpsertTemplate http token (te_alias t) (te_name t) (te_subject t) html txt = None)"

lemma push_templates_step:
  "push_templates http token file (t # ts) pushed =
     (if pushable http token file t then push_templates http token file ts (pushed @ [te_alias t]) else (pushed, ExitFailure))"
  by (auto simp: pushable_def split: option.splits)

lemma push_templates_result:
  "push_templates http token file ts pushed =
     (pushed @ map te_alias (takeWhile (pushable http token file) ts),
      if list_all (pushable http token file) ts then ExitSuccess else ExitFailure)"
  by (induction ts arbitrary: pushed) (simp_all add: push_templates_step del: push_templates.simps(2))

text \<open>
  The command exits well exactly when every template of a non-empty manifest has its files and was
  taken by Postmark; otherwise what was pushed is what stands before the first that fails.
\<close>

theorem PushPostmarkTemplates_all:
  "PushPostmarkTemplates http serverToken file (Manifest ts) = (pushed, st) \<Longrightarrow>
   (st = ExitSuccess \<longleftrightarrow> TrimSpace serverToken \<noteq> [] \<and> ts \<noteq> [] \<and> (\<forall>t\<in>set ts. pushable http (TrimSpace serverToken) file t)) \<and>
   (pushed = (if TrimSpace serverToken = [] then [] else map te_alias (takeWhile (pushable http (TrimSpace serverToken) file) ts)))"
  by (auto simp: PushPostmarkTemplates_def NewPostmarkAPI_def postmark_Enabled_def push_templates_result Let_def list_all_iff
      split: if_splits)

subsection \<open>Limited warm runs walk forward\<close>

text \<open>What accounts-api answers with, when it answers: no signer or an address.\<close>

definition answers_addresses :: "env \<Rightarrow> bool" where
  "answers_addresses V \<longleftrightarrow> (\<forall>w token sa. GetAccountByWallet (ev_accounts V) w token = AccFound sa \<longrightarrow> sa = [] \<or> IsHexAddress (ev_lib V) sa)"

text \<open>An owner with no answer at \<open>now\<close> that can be used: recorded at all, and either a signer or young enough.\<close>

abbreviation settled_at :: "time \<Rightarrow> db \<Rightarrow> string \<Rightarrow> bool" where
  "settled_at now \<equiv> owner_settled (now - negativeRecheckAfter + 1)"

lemma canonical_owner:
  assumes "address_laws L" and "hex_law L" and "w \<in> set (distinct_owners L owners)"
  shows "IsHexAddress L w" and "HexAddr L w = w"
  using assms by (auto simp: set_distinct_owners hex_law_def HexAddr_idem)

lemma fresh_iff_settled:
  assumes "Lookup L flt s ws = Inr known" and "w \<in> set ws" and "\<forall>x\<in>set ws. IsHexAddress L x \<and> HexAddr L x = x"
  shows "known_fresh now known w \<noteq> None \<longleftrightarrow> settled_at now s w"
proof -
  have "known w = map_option account_of_row (stored_account s w)"
    using assms by (force simp: Lookup_def Let_def split: if_splits)
  then show ?thesis by (auto simp: owner_settled_def known_fresh_def Fresh_def account_of_row_def split: option.splits)
qed

lemma ColdOwners_Inr:
  assumes "address_laws L" and "hex_law L" and "ColdOwners L flt now s owners = Inr cold"
  shows "cold = filter (\<lambda>w. \<not> settled_at now s w) (distinct_owners L owners)"
proof (cases "distinct_owners L owners = []")
  case False
  with assms(3) obtain known where k: "Lookup L flt s (distinct_owners L owners) = Inr known"
      and c: "cold = filter (\<lambda>o'. known_fresh now known o' = None) (distinct_owners L owners)"
    by (auto simp: ColdOwners_def Let_def split: sum.splits)
  have "known_fresh now known w = None \<longleftrightarrow> \<not> settled_at now s w" if "w \<in> set (distinct_owners L owners)" for w
    using fresh_iff_settled [OF k that, of now] canonical_owner [OF assms(1,2)] by blast
  then show ?thesis unfolding c by (auto intro: filter_cong)
qed (use assms(3) in \<open>simp add: ColdOwners_def Let_def\<close>)

lemma ColdOwners_total: "\<exists>cold. ColdOwners L no_faults now s owners = Inr cold"
  by (simp add: ColdOwners_def Lookup_def Let_def)

text \<open>A canonical, distinct list of owners is its own list of distinct owners.\<close>

lemma distinct_owners_canonical:
  assumes "distinct ws" and "\<forall>w\<in>set ws. IsHexAddress L w \<and> HexAddr L w = w"
  shows "distinct_owners L ws = ws"
proof -
  have "filter (IsHexAddress L) ws = ws" "map (HexAddr L) ws = ws" using assms(2) by (auto simp: filter_id_conv intro: map_idI)
  then show ?thesis using assms(1) by (simp add: distinct_owners_def distinct_remdups_id)
qed

lemma record_answers_settle_one:
  assumes "address_laws (ev_lib V)" and "answers_addresses V" and "\<not> sc_faults sched w" and "t0 \<le> now"
    and "w \<in> set ws" and "lookupSigner V w token = Inr sa" and "IsHexAddress (ev_lib V) w" and "HexAddr (ev_lib V) w = w"
  shows "owner_settled t0 (fold (record_answer V sched now) (map (\<lambda>o'. (o', lookupSigner V o' token)) ws) s) w"
  using assms(5)
proof (induction ws arbitrary: s)
  case (Cons x ws)
  let ?s = "record_answer V sched now (x, lookupSigner V x token) s"
  have "sa = [] \<or> IsHexAddress (ev_lib V) sa"
    using assms(2,6) by (auto simp: answers_addresses_def lookupSigner_def split: account_answer.splits)
  then have "owner_settled t0 ?s w" if "w = x"
    using that assms(3,4,6) RecordAccount_settles [OF assms(1,7,8), of sa] by (simp add: record_answer_def)
  then show ?case using Cons by (cases "w = x") (simp_all add: record_answers_settled assms(4))
qed simp

lemma all_filtered: "length xs - (length (filter P xs) + length (filter Q xs)) = 0 \<Longrightarrow> (\<And>x. \<not> (P x \<and> Q x)) \<Longrightarrow> x \<in> set xs \<Longrightarrow> P x \<or> Q x"
proof (rule ccontr)
  assume z: "length xs - (length (filter P xs) + length (filter Q xs)) = 0" and d: "\<And>x. \<not> (P x \<and> Q x)" and x: "x \<in> set xs" "\<not> (P x \<or> Q x)"
  have "length (filter P xs) + length (filter Q xs) = length (filter (\<lambda>x. P x \<or> Q x) xs)"
    using d by (induction xs) auto
  moreover have "length (filter (\<lambda>x. P x \<or> Q x) xs) < length xs" using x by (rule length_filter_less)
  ultimately show False using z by simp
qed

text \<open>A warm-up of canonical cold owners that reports success has settled every one of them.\<close>

lemma Warm_settles:
  assumes "address_laws (ev_lib V)" and "hex_law (ev_lib V)" and "answers_addresses V" and "\<forall>w\<in>set ws. \<not> sc_faults sched w" and "t0 \<le> now"
    and canon: "distinct ws" "\<forall>w\<in>set ws. IsHexAddress (ev_lib V) w \<and> HexAddr (ev_lib V) w = w" "\<forall>w\<in>set ws. \<not> settled_at now s w"
    and run: "Warm V flt sched now cache s tid ws = (cache', s', res, None)" "Failed res = 0" and w: "w \<in> set ws"
  shows "owner_settled t0 s' w" and "\<And>t v. owner_settled t s v \<Longrightarrow> t \<le> now \<Longrightarrow> owner_settled t s' v" and "only_accounts s s'"
proof -
  from run(1) obtain cold where c: "ColdOwners (ev_lib V) flt now s ws = Inr cold" by (auto simp: Warm_def Let_def split: sum.splits)
  have "cold = ws" unfolding ColdOwners_Inr [OF assms(1,2) c] distinct_owners_canonical [OF canon(1,2)] using canon(3)
    by (simp add: filter_id_conv)
  with run(1) c w obtain resolved where r: "resolveMany V (\<lambda>n. flt (n + 1)) sched now cache s tid ws = (cache', s', Inr resolved)"
      and f: "Failed res = length ws - (length (filter (\<lambda>o'. resolved o' = Some []) ws) + length (filter (\<lambda>o'. resolved o' \<noteq> None \<and> resolved o' \<noteq> Some []) ws))"
    by (auto simp: Warm_def Let_def split: if_splits sum.splits prod.splits)
  from resolveMany_result [OF r] obtain token where
      res: "resolved = answered (map (\<lambda>o'. (o', lookupSigner V o' token)) (sc_order sched ws))"
      and s': "s' = fold (record_answer V sched now) (map (\<lambda>o'. (o', lookupSigner V o' token)) (sc_order sched ws)) s"
    and keep: "only_accounts s s'" by blast
  have "resolved w = Some [] \<or> resolved w \<noteq> None \<and> resolved w \<noteq> Some []"
    by (rule all_filtered [OF _ _ w]) (use f run(2) in auto)
  then obtain sa where "resolved w = Some sa" by auto
  then have "w \<in> set (sc_order sched ws)" "lookupSigner V w token = Inr sa" unfolding res answered_lookup by simp_all
  from record_answers_settle_one [OF assms(1,3) _ assms(5) this] show "owner_settled t0 s' w"
    unfolding s' using assms(4) canon(2) w by blast
  show "\<And>t v. owner_settled t s v \<Longrightarrow> t \<le> now \<Longrightarrow> owner_settled t s' v" unfolding s' by (rule record_answers_settled)
  show "only_accounts s s'" by (rule keep)
qed

definition leaves_cold :: "env \<Rightarrow> time \<Rightarrow> db \<Rightarrow> bool" where
  "leaves_cold V now s \<longleftrightarrow> ColdOwners (ev_lib V) no_faults now s (readOwners s) \<noteq> Inr []"

text \<open>Runs one after another, each a process of its own; a state after each, with its time and exit status.\<close>

fun warm_runs :: "env \<Rightarrow> uuid \<Rightarrow> nat \<Rightarrow> (faults \<times> schedule \<times> time) list \<Rightarrow> db \<Rightarrow> (time \<times> db \<times> exit_status) list" where
  "warm_runs V tid limit [] s = []"
| "warm_runs V tid limit ((flt, sched, now) # rs) s =
     (case WarmSharedAccounts V flt sched now Map.empty s tid limit False of
        (s', st) \<Rightarrow> (now, s', st) # warm_runs V tid limit rs s')"

lemma resolveMany_keeps:
  assumes "resolveMany V flt sched now cache s tid os = (cache', s', r)"
  shows "only_accounts s s'" and "owner_settled t s v \<Longrightarrow> t \<le> now \<Longrightarrow> owner_settled t s' v"
proof -
  show "only_accounts s s'" using resolveMany_result [OF assms] by blast
  show "owner_settled t s v \<Longrightarrow> t \<le> now \<Longrightarrow> owner_settled t s' v"
    using resolveMany_state [OF assms] record_answers_settled by blast
qed

lemma Warm_keeps:
  assumes "Warm V flt sched now cache s tid ws = (cache', s', res, r)"
  shows "only_accounts s s'" and "owner_settled t s v \<Longrightarrow> t \<le> now \<Longrightarrow> owner_settled t s' v"
proof -
  consider "s' = s" | f os r' where "resolveMany V f sched now cache s tid os = (cache', s', r')"
    using assms by (auto simp: Warm_def Let_def split: sum.splits if_splits prod.splits)
  note cases = this
  show "only_accounts s s'" by (rule cases) (simp, rule resolveMany_keeps(1))
  show "owner_settled t s v \<Longrightarrow> t \<le> now \<Longrightarrow> owner_settled t s' v" by (rule cases) (simp, rule resolveMany_keeps(2))
qed

lemma WarmSharedAccounts_keeps:
  assumes "WarmSharedAccounts V flt sched now cache s tid limit dry = (s', st)"
  shows "only_accounts s s'" and "owner_settled t s v \<Longrightarrow> t \<le> now \<Longrightarrow> owner_settled t s' v"
proof -
  consider "s' = s" | f c r ws res where "Warm V f sched now cache s tid ws = (c, s', res, r)"
    using assms by (auto simp: WarmSharedAccounts_def Let_def split: sum.splits if_splits prod.splits option.splits)
  note cases = this
  show "only_accounts s s'" by (rule cases) (simp, rule Warm_keeps(1))
  show "owner_settled t s v \<Longrightarrow> t \<le> now \<Longrightarrow> owner_settled t s' v" by (rule cases) (simp, rule Warm_keeps(2))
qed

lemma readOwners_frame: "only_accounts s s' \<Longrightarrow> readOwners s' = readOwners s"
proof -
  assume "only_accounts s s'"
  then obtain rs where "s' = s\<lparr>shared_accounts := rs\<rparr>" by (auto simp: only_accounts_def)
  then show ?thesis by (simp add: readOwners_def)
qed

text \<open>A run that records every answer, reports success and still leaves an owner cold has settled as many as its limit.\<close>

lemma warm_step:
  assumes laws: "address_laws (ev_lib V)" "hex_law (ev_lib V)" "answers_addresses V"
    and recorded: "\<forall>w\<in>set (distinct_owners (ev_lib V) (readOwners s)). \<not> sc_faults sched w"
    and "0 < limit" and t0: "t0 \<le> now" "now < t0 + negativeRecheckAfter"
    and run: "WarmSharedAccounts V flt sched now cache s tid limit False = (s', ExitSuccess)" and cold: "leaves_cold V now s'"
  shows "card (unsettled V (readOwners s) t0 s') + limit \<le> card (unsettled V (readOwners s) t0 s)"
proof -
  let ?all = "distinct_owners (ev_lib V) (readOwners s)"
  have left: "\<exists>w\<in>set ?all. \<not> settled_at now s' w"
  proof -
    obtain c where "ColdOwners (ev_lib V) no_faults now s' (readOwners s) = Inr c" "c \<noteq> []"
      using ColdOwners_total cold readOwners_frame [OF WarmSharedAccounts_keeps(1) [OF run]] unfolding leaves_cold_def by metis
    with ColdOwners_Inr [OF laws(1,2) this(1)] show ?thesis by (auto simp: filter_empty_conv)
  qed
  then have "readOwners s \<noteq> []" by (auto simp: distinct_owners_def)
  with run obtain allCold where a: "ColdOwners (ev_lib V) (\<lambda>n. flt (n + 1)) now s (readOwners s) = Inr allCold"
    by (auto simp: WarmSharedAccounts_def Let_def split: if_splits sum.splits)
  note ac = ColdOwners_Inr [OF laws(1,2) a]
  define ws where "ws = limited limit allCold"
  have sub: "set ws \<subseteq> set allCold" by (auto simp: ws_def limited_def dest: in_set_takeD)
  have "s' = s \<or> ws \<noteq> []" and w0: "ws = [] \<Longrightarrow> allCold = []"
    using run a \<open>readOwners s \<noteq> []\<close> \<open>0 < limit\<close> by (auto simp: WarmSharedAccounts_def Let_def ws_def limited_def split: if_splits)
  then have "ws \<noteq> []" using left ac by (auto simp: filter_empty_conv)
  with run a \<open>readOwners s \<noteq> []\<close> obtain c' res where
      w: "Warm V (\<lambda>n. flt (n + 2)) sched now cache s tid ws = (c', s', res, None)" "Failed res = 0"
    by (auto simp: WarmSharedAccounts_def Let_def ws_def split: if_splits prod.splits option.splits)
  have canon: "distinct ws" "\<forall>w\<in>set ws. IsHexAddress (ev_lib V) w \<and> HexAddr (ev_lib V) w = w" "\<forall>w\<in>set ws. \<not> settled_at now s w"
    using sub canonical_owner [OF laws(1,2)] by (auto simp: ws_def limited_def ac)
  have done': "owner_settled t s' v" if "v \<in> set ws" "t \<le> now" for v t
    by (rule Warm_settles(1) [OF laws _ that(2) canon w that(1)]) (use recorded sub in \<open>auto simp: ac\<close>)
  have "\<not> settled_at now s v \<Longrightarrow> v \<in> set ?all \<Longrightarrow> v \<in> set allCold" for v by (simp add: ac)
  then have "ws \<noteq> allCold"
    using left done' [of _ "now - negativeRecheckAfter + 1"] WarmSharedAccounts_keeps(2) [OF run, of "now - negativeRecheckAfter + 1"]
    by (force simp: negativeRecheckAfter_def second_def)
  then have "length ws = limit" by (auto simp: ws_def limited_def)
  have "set ws \<subseteq> unsettled V (readOwners s) t0 s"
    using canon(3) sub t0(2) by (auto simp: unsettled_def ac owner_settled_def)
  moreover have "unsettled V (readOwners s) t0 s' \<subseteq> unsettled V (readOwners s) t0 s - set ws"
    using done' [OF _ t0(1)] WarmSharedAccounts_keeps(2) [OF run _ t0(1)] by (auto simp: unsettled_def)
  ultimately have "card (unsettled V (readOwners s) t0 s') + card (set ws) \<le> card (unsettled V (readOwners s) t0 s)"
    by (metis card_Diff_subset card_mono finite_Diff finite_unsettled le_diff_conv2 List.finite_set card_mono)
  then show ?thesis using \<open>length ws = limit\<close> canon(1) by (simp add: distinct_card)
qed

text \<open>A run in which the recording of some owner's answer fails. The code only logs that.\<close>

definition misrecords :: "string list \<Rightarrow> faults \<times> schedule \<times> time \<Rightarrow> bool" where
  "misrecords owners run = (case run of (flt, sched, now) \<Rightarrow> list_ex (sc_faults sched) owners)"

text \<open>
  C26. Limited runs walk forward. Within a day, while accounts-api answers with no signer or an
  address, however the lookups of each run are scheduled and whatever fails, the successful runs
  that still leave an owner without a fresh answer number at most the distinct owners divided by
  the limit, and one more for each run in which an answer could not be recorded: such a run
  reports success all the same. No run asks again what an earlier one settled, and no cursor is kept.
\<close>

theorem warm_runs_converge:
  assumes "address_laws (ev_lib V)" and "hex_law (ev_lib V)" and "answers_addresses V" and "0 < limit"
    and "\<forall>(flt, sched, now)\<in>set rs. t0 \<le> now \<and> now < t0 + negativeRecheckAfter"
  shows "limit * length (filter (\<lambda>(now, s', st). st = ExitSuccess \<and> leaves_cold V now s') (warm_runs V tid limit rs s))
    \<le> length (distinct_owners (ev_lib V) (readOwners s)) +
      limit * length (filter (misrecords (distinct_owners (ev_lib V) (readOwners s))) rs)"
proof -
  have "limit * length (filter (\<lambda>(now, s', st). st = ExitSuccess \<and> leaves_cold V now s') (warm_runs V tid limit rs s))
      \<le> card (unsettled V (readOwners s) t0 s) +
        limit * length (filter (misrecords (distinct_owners (ev_lib V) (readOwners s))) rs)" using assms(5)
  proof (induction rs arbitrary: s)
    case (Cons q rs)
    obtain flt sched now where q: "q = (flt, sched, now)" by (metis prod_cases3)
    obtain s' st where r: "WarmSharedAccounts V flt sched now Map.empty s tid limit False = (s', st)" by fastforce
    have ok: "t0 \<le> now" "now < t0 + negativeRecheckAfter" using Cons.prems q by auto
    define bad where "bad \<longleftrightarrow> misrecords (distinct_owners (ev_lib V) (readOwners s)) q"
    have same: "readOwners s' = readOwners s" by (rule readOwners_frame [OF WarmSharedAccounts_keeps(1) [OF r]])
    have "unsettled V (readOwners s) t0 s' \<subseteq> unsettled V (readOwners s) t0 s"
      using WarmSharedAccounts_keeps(2) [OF r _ ok(1)] by (auto simp: unsettled_def)
    then have "card (unsettled V (readOwners s) t0 s') \<le> card (unsettled V (readOwners s) t0 s)" by (simp add: card_mono)
    moreover have "card (unsettled V (readOwners s) t0 s') + limit \<le> card (unsettled V (readOwners s) t0 s)"
      if "st = ExitSuccess" "leaves_cold V now s'" "\<not> bad"
      using warm_step [OF assms(1-3) _ assms(4) ok] r that by (auto simp: bad_def misrecords_def q list_ex_iff)
    moreover have "limit * length (filter (\<lambda>(now, s', st). st = ExitSuccess \<and> leaves_cold V now s') (warm_runs V tid limit rs s'))
        \<le> card (unsettled V (readOwners s) t0 s') +
          limit * length (filter (misrecords (distinct_owners (ev_lib V) (readOwners s))) rs)"
      using Cons.IH [of s'] Cons.prems by (simp add: same)
    ultimately show ?case
      by (cases "st = ExitSuccess \<and> leaves_cold V now s'"; cases bad) (auto simp: r q bad_def)
  qed simp
  moreover have "card (unsettled V (readOwners s) t0 s) \<le> card (set (distinct_owners (ev_lib V) (readOwners s)))"
    by (rule card_mono) (auto simp: unsettled_def)
  moreover have "card (set (distinct_owners (ev_lib V) (readOwners s))) = length (distinct_owners (ev_lib V) (readOwners s))"
    by (simp add: distinct_card)
  ultimately show ?thesis by simp
qed

definition demo_owners_db :: db where
  "demo_owners_db = demo_keys_db\<lparr>vehicles := map (\<lambda>(i, w). \<lparr>v_token = i, v_owner = Some w, v_definition = None, v_make = None,
     v_model = None, v_year = None, v_minted = None, v_vin = None, v_plate = None, v_synthetic = None, v_aftermarket = None,
     v_first_seen = 0, v_reconciled = 0, v_unseen_since = None\<rparr>) [(1, ''0xa''), (2, ''0xb''), (3, ''0xA'')]\<rparr>"

definition all_at_once :: schedule where
  "all_at_once = \<lparr>sc_order = id, sc_faults = (\<lambda>_. False)\<rparr>"

definition none_recorded :: schedule where
  "none_recorded = \<lparr>sc_order = id, sc_faults = (\<lambda>_. True)\<rparr>"

definition demo_runs :: "(faults \<times> schedule \<times> time) list" where
  "demo_runs = [(no_faults, all_at_once, 5), (no_faults, none_recorded, 9), (no_faults, all_at_once, 12)]"

lemma warm_runs_converge_witness:
  "1 * length (filter (\<lambda>(now, s', st). st = ExitSuccess \<and> leaves_cold demo_env now s') (warm_runs demo_env ''cu'' 1 demo_runs demo_owners_db))
     \<le> length (distinct_owners (ev_lib demo_env) (readOwners demo_owners_db)) +
       1 * length (filter (misrecords (distinct_owners (ev_lib demo_env) (readOwners demo_owners_db))) demo_runs) \<and>
   length (distinct_owners (ev_lib demo_env) (readOwners demo_owners_db)) = 2"
proof
  have lib: "ev_lib demo_env = demo_library" by (simp add: demo_env_def)
  have laws: "address_laws (ev_lib demo_env)" "hex_law (ev_lib demo_env)" unfolding lib by (rule demo_address_laws, rule demo_hex_law)
  have answers: "answers_addresses demo_env" by (simp add: answers_addresses_def demo_env_def demo_library_def)
  have runs: "\<forall>(flt, sched, now)\<in>set demo_runs. 5 \<le> now \<and> now < 5 + negativeRecheckAfter"
    by (simp add: demo_runs_def negativeRecheckAfter_def second_def)
  have one: "0 < (1 :: nat)" by simp
  show "1 * length (filter (\<lambda>(now, s', st). st = ExitSuccess \<and> leaves_cold demo_env now s') (warm_runs demo_env ''cu'' 1 demo_runs demo_owners_db))
      \<le> length (distinct_owners (ev_lib demo_env) (readOwners demo_owners_db)) +
        1 * length (filter (misrecords (distinct_owners (ev_lib demo_env) (readOwners demo_owners_db))) demo_runs)"
    by (rule warm_runs_converge [OF laws answers one runs])
  show "length (distinct_owners (ev_lib demo_env) (readOwners demo_owners_db)) = 2" by code_simp
qed

subsection \<open>Who gets a signer\<close>

lemma lacks_signer_none: "\<not> has_signer s tid \<longleftrightarrow> (\<forall>c\<in>set (credentials s). c_tenant c = tid \<longrightarrow> lacks_signer c)"
  by (auto simp: has_signer_def)

lemma put_signer_has:
  assumes "\<forall>c\<in>set cs. c_tenant c = tid \<longrightarrow> lacks_signer c" and "enc \<noteq> []"
  shows "\<exists>c\<in>set (put_signer tid a enc cs). c_tenant c = tid \<and> c_signer_address c = Some a \<and> c_signer_key_enc c = Some enc"
proof (cases "list_ex (\<lambda>c. c_tenant c = tid) cs")
  case True
  then obtain c where c: "c \<in> set cs" "c_tenant c = tid" by (auto simp: list_ex_iff)
  with assms(1) have l: "lacks_signer c" by blast
  have "c\<lparr>c_signer_address := Some a, c_signer_key_enc := Some enc\<rparr> \<in> set (put_signer tid a enc cs)"
    using True c l unfolding put_signer_def if_P [OF True] set_upd by blast
  with c(2) show ?thesis by (intro bexI) simp_all
qed (simp add: put_signer_def)

lemma put_signer_others: "filter (\<lambda>c. c_tenant c \<noteq> tid) (put_signer tid a enc cs) = filter (\<lambda>c. c_tenant c \<noteq> tid) cs"
proof -
  have "filter (\<lambda>c. c_tenant c \<noteq> tid) (upd (\<lambda>c. c_tenant c = tid \<and> lacks_signer c) f cs) = filter (\<lambda>c. c_tenant c \<noteq> tid) cs"
    if "\<And>c. c_tenant (f c) = c_tenant c" for f
    by (rule filter_upd_other) (auto simp: that)
  then show ?thesis by (simp add: put_signer_def)
qed

text \<open>
  The command changes something only by giving the tenant it names, which exists, had no signer and is
  not a customer unless that was forced, a signer whose sealed key opens under the service's master
  key to the generated one; every other row stays, and an exit that is not success wrote nothing.
  A run that is not dry succeeds only so.
\<close>

theorem ProvisionSignerCmd_guarded:
  assumes "crypto_laws K" and "\<And>n. nonce = Some n \<Longrightarrow> length n = NonceSize"
    and "ProvisionSignerCmd K E cfg flt gen nonce s tid force dry = (s', st)"
  shows "(st \<noteq> ExitSuccess \<or> dry \<longrightarrow> s' = s) \<and>
    (st = ExitSuccess \<longrightarrow> TenantSecretEncKey cfg \<noteq> [] \<and> \<not> has_signer s tid \<and>
       (\<exists>t. tenant_by_id tid s = Some t \<and> (t_kind t = KindCustomer \<longrightarrow> force))) \<and>
    (st = ExitSuccess \<and> \<not> dry \<longrightarrow>
       filter (\<lambda>c. c_tenant c \<noteq> tid) (credentials s') = filter (\<lambda>c. c_tenant c \<noteq> tid) (credentials s) \<and>
       s' = s\<lparr>credentials := credentials s'\<rparr> \<and>
       (\<exists>c\<in>set (credentials s'). \<exists>key enc. c_tenant c = tid \<and> gen = Some key \<and> c_signer_address c = Some (PubkeyToAddress E key) \<and>
          c_signer_key_enc c = Some enc \<and> DecryptSecret K (TenantSecretEncKey cfg) enc = Some (hexEncode key)))"
proof (cases "st = ExitSuccess \<and> \<not> dry")
  case True
  with assms(3) obtain t r where t: "TenantSecretEncKey cfg \<noteq> []" "tenant_by_id tid s = Some t" "\<not> has_signer s tid"
      "t_kind t = KindCustomer \<longrightarrow> force" and p: "ProvisionSigner K E cfg (\<lambda>n. flt (n + 1)) gen nonce s tid = (s', Inr r)"
    by (auto simp: ProvisionSignerCmd_def split: if_splits option.splits sum.splits prod.splits)
  from ProvisionSigner_result [OF p] obtain key n where k: "gen = Some key" "nonce = Some n"
      and s': "s' = s\<lparr>credentials := put_signer tid (PubkeyToAddress E key) (EncryptSecret K n (TenantSecretEncKey cfg) (hexEncode key)) (credentials s)\<rparr>"
    by auto
  note len = assms(2) [OF k(2)]
  have "n @ gcmSeal K (sha256 K (TenantSecretEncKey cfg)) n (hexEncode key) \<noteq> []" using len by (auto simp: NonceSize_def)
  then have "EncryptSecret K n (TenantSecretEncKey cfg) (hexEncode key) \<noteq> []"
    using assms(1) unfolding EncryptSecret_def crypto_laws_def by blast
  from put_signer_has [OF t(3) [unfolded lacks_signer_none] this, of "PubkeyToAddress E key"]
    secret_round_trip [OF assms(1) len, of "TenantSecretEncKey cfg" "hexEncode key"]
  show ?thesis using True t k by (auto simp: s' put_signer_others)
next
  case False
  with assms(3) show ?thesis
    by (auto simp: ProvisionSignerCmd_def split: if_splits option.splits sum.splits prod.splits dest!: ProvisionSigner_result)
qed

lemma ProvisionSignerCmd_guarded_witness:
  "\<exists>s' c enc. ProvisionSignerCmd demo_crypto demo_eth demo_settings_chain no_faults (Some ''k'') (Some ''012345678901'') demo_db ''op'' False False
      = (s', ExitSuccess) \<and> c \<in> set (credentials s') \<and> c_tenant c = ''op'' \<and> c_signer_key_enc c = Some enc \<and>
     DecryptSecret demo_crypto (TenantSecretEncKey demo_settings_chain) enc = Some (hexEncode ''k'')"
proof -
  have "snd (ProvisionSignerCmd demo_crypto demo_eth demo_settings_chain no_faults (Some ''k'') (Some ''012345678901'') demo_db ''op'' False False)
      = ExitSuccess" by code_simp
  then obtain s' where run: "ProvisionSignerCmd demo_crypto demo_eth demo_settings_chain no_faults (Some ''k'') (Some ''012345678901'') demo_db ''op'' False False
      = (s', ExitSuccess)" by (metis prod.collapse)
  have K: "crypto_laws demo_crypto" by (simp add: crypto_laws_def demo_crypto_def)
  have "length n = NonceSize" if "Some ''012345678901'' = Some n" for n using that by (auto simp: NonceSize_def)
  from ProvisionSignerCmd_guarded [OF K this run] run show ?thesis by auto
qed

subsection \<open>What a publishing run reports\<close>

text \<open>
  A scheduled run that is not dry exits well exactly when it is configured with the attestation
  service and the chain, both reads of the database succeeded, and no selected vehicle failed; the
  check that the counts balance never makes a run fail.
\<close>

theorem PublishGroupAttestations_exit:
  "snd (snd (PublishGroupAttestations P attestURL flt tf vf cache s tid False)) = ExitSuccess \<longleftrightarrow>
     attestURL \<noteq> [] \<and> ChainID (pe_cfg P) \<noteq> 0 \<and>
     (\<exists>s' evs res. Run P flt tf vf cache s tid False = (s', evs, Inr res) \<and> FailedN res = 0 \<and>
        Planned res = Published res + Retracted res + SkippedVehicles res)"
proof -
  obtain s' evs r where r: "Run P flt tf vf cache s tid False = (s', evs, r)" by (metis prod_cases3)
  show ?thesis
  proof (cases r)
    case (Inr res)
    with r have "Balances res" using Run_accounts by blast
    then show ?thesis by (auto simp: PublishGroupAttestations_def r Inr Balances_def)
  qed (simp add: PublishGroupAttestations_def r)
qed

end
