(* ===== verification/Router.thy ===== *)
theory Router
  imports FrontDoor
begin

text \<open>
  From the bytes of a request to its handler: the routes \<open>app/app.go\<close> registers, as data, with what
  each handler reads of the path, the query, the headers and the body, and what a request can be
  answered with on each. Matching a path against a pattern is the router's, decoding a body the JSON
  package's: both are parameters.
\<close>

subsection \<open>Requests as they arrive\<close>

text \<open>\<open>OTHER\<close> is any method no route is registered for.\<close>

datatype http_method = GET | HEAD | PUT | POST | PATCH | DELETE | OTHER

text \<open>A query parameter that is absent reads as empty, and so does the header.\<close>

record raw_request =
  rw_method :: http_method
  rw_path :: string
  rw_query :: "string \<Rightarrow> string"
  rw_actor :: string
  rw_body :: string

text \<open>\<open>ctx.BodyParser\<close> into the struct each handler declares.\<close>

record decoders =
  dc_member :: "string \<Rightarrow> member_write option"
  dc_login :: "string \<Rightarrow> string option"
  dc_provision :: "string \<Rightarrow> member_write option"
  dc_customer :: "string \<Rightarrow> create_tenant_input option"
  dc_self_serve :: "string \<Rightarrow> self_serve_input option"
  dc_update :: "string \<Rightarrow> update_tenant_input option"
  dc_credentials :: "string \<Rightarrow> (string \<times> string) option"
  dc_aa_wallet :: "string \<Rightarrow> (string \<times> string) option"
  dc_assign :: "string \<Rightarrow> (token_id list \<times> string) option"
  dc_membership :: "string \<Rightarrow> create_membership_input option"
  dc_move :: "string \<Rightarrow> token_id option"
  dc_renew :: "string \<Rightarrow> int option"
  dc_metadata :: "string \<Rightarrow> token_id list option"
  dc_invite :: "string \<Rightarrow> invitation_create option"
  dc_resend :: "string \<Rightarrow> (string \<times> string) option"
  dc_accept :: "string \<Rightarrow> invitation_accept option"
  dc_owners :: "string \<Rightarrow> string list option"
  dc_share :: "string \<Rightarrow> share_input option"
  dc_op :: "string \<Rightarrow> shared_op_input option"
  dc_group :: "string \<Rightarrow> (string \<times> string) option"
  dc_group_patch :: "string \<Rightarrow> (string option \<times> string option) option"
  dc_group_vehicles :: "string \<Rightarrow> token_id list option"

record route =
  rt_method :: http_method
  rt_pattern :: string
  rt_request :: "decoders \<Rightarrow> (string \<Rightarrow> string) \<Rightarrow> raw_request \<Rightarrow> request"

abbreviation tenant_of :: "(string \<Rightarrow> string) \<Rightarrow> uuid" where
  "tenant_of ps \<equiv> ps ''tenantId''"

definition on :: "http_method \<Rightarrow> string \<Rightarrow> (decoders \<Rightarrow> (string \<Rightarrow> string) \<Rightarrow> raw_request \<Rightarrow> request) \<Rightarrow> route" where
  "on m p f = \<lparr>rt_method = m, rt_pattern = p, rt_request = f\<rparr>"

definition lookup_routes :: "route list" where
  "lookup_routes =
     [on GET ''/v1/authz'' (\<lambda>D ps q. OnAuthz (QAuthz (rw_query q ''wallet'') (rw_query q ''tenant_id''))),
      on GET ''/v1/resolve/client-id/:clientId'' (\<lambda>D ps q. OnAuthz (QResolve (ps ''clientId''))),
      on GET ''/v1/tenants'' (\<lambda>D ps q. OnAuthz (QWalletTenants (rw_query q ''wallet'') (rw_query q ''surface'')))]"

definition member_routes :: "route list" where
  "member_routes =
     [on PUT ''/v1/tenants/:tenantId/members/:wallet''
        (\<lambda>D ps q. OnMembers (QPutMember (tenant_of ps) (ps ''wallet'') (dc_member D (rw_body q)))),
      on DELETE ''/v1/tenants/:tenantId/members/:wallet'' (\<lambda>D ps q. OnMembers (QDeleteMember (tenant_of ps) (ps ''wallet''))),
      on POST ''/v1/tenants/:tenantId/members/:wallet/login''
        (\<lambda>D ps q. OnMembers (QLoginTouch (tenant_of ps) (ps ''wallet'') (dc_login D (rw_body q)))),
      on POST ''/v1/tenants/:tenantId/members/provision''
        (\<lambda>D ps q. OnMembers (QProvision (tenant_of ps) (dc_provision D (rw_body q)))),
      on GET ''/v1/tenants/:tenantId/dimo-token'' (\<lambda>D ps q. OnMembers (QDimoToken (tenant_of ps)))]"

definition tenant_routes :: "route list" where
  "tenant_routes =
     [on GET ''/v1/operators/:operatorId/children'' (\<lambda>D ps q. OnTenants (QListChildren (ps ''operatorId''))),
      on POST ''/v1/operators/:operatorId/customers''
        (\<lambda>D ps q. OnTenants (QCreateCustomer (ps ''operatorId'') (dc_customer D (rw_body q)) (rw_actor q))),
      on POST ''/v1/tenants'' (\<lambda>D ps q. OnTenants (QCreateSelfServe (dc_self_serve D (rw_body q)))),
      on GET ''/v1/tenants/:tenantId'' (\<lambda>D ps q. OnTenants (QGetTenant (tenant_of ps))),
      on PATCH ''/v1/tenants/:tenantId'' (\<lambda>D ps q. OnTenants (QUpdateTenant (tenant_of ps) (dc_update D (rw_body q)))),
      on PUT ''/v1/tenants/:tenantId/credentials''
        (\<lambda>D ps q. OnTenants (QSetCredentials (tenant_of ps) (dc_credentials D (rw_body q)))),
      on PUT ''/v1/tenants/:tenantId/credentials/aa-wallet''
        (\<lambda>D ps q. OnTenants (QSetAAWallet (tenant_of ps) (dc_aa_wallet D (rw_body q)))),
      on GET ''/v1/tenants/:tenantId/credentials/aa-wallet'' (\<lambda>D ps q. OnTenants (QGetAAWallet (tenant_of ps))),
      on DELETE ''/v1/tenants/:tenantId/credentials/aa-wallet'' (\<lambda>D ps q. OnTenants (QClearAAWallet (tenant_of ps))),
      on GET ''/v1/tenants/:tenantId/members'' (\<lambda>D ps q. OnTenants (QListMembers (tenant_of ps)))]"

definition vehicle_routes :: "route list" where
  "vehicle_routes =
     [on GET ''/v1/tenants/:tenantId/vehicles'' (\<lambda>D ps q. OnVehicles (QListVehicles (tenant_of ps))),
      on POST ''/v1/tenants/:tenantId/vehicles''
        (\<lambda>D ps q. OnVehicles (QAssignVehicles (tenant_of ps) (dc_assign D (rw_body q)) (rw_actor q))),
      on DELETE ''/v1/tenants/:tenantId/vehicles/:tokenId''
        (\<lambda>D ps q. OnVehicles (QRevokeVehicle (tenant_of ps) (ps ''tokenId''))),
      on GET ''/v1/tenants/:tenantId/vehicle-memberships'' (\<lambda>D ps q. OnVehicles (QListMemberships (tenant_of ps))),
      on GET ''/v1/tenants/:tenantId/active-vehicle-memberships'' (\<lambda>D ps q. OnVehicles (QActiveMemberships (tenant_of ps))),
      on POST ''/v1/tenants/:tenantId/vehicle-memberships''
        (\<lambda>D ps q. OnVehicles (QCreateMembership (tenant_of ps) (dc_membership D (rw_body q)) (rw_actor q))),
      on POST ''/v1/tenants/:tenantId/vehicle-memberships/:membershipId/move''
        (\<lambda>D ps q. OnVehicles (QMoveMembership (tenant_of ps) (ps ''membershipId'') (dc_move D (rw_body q)) (rw_actor q))),
      on POST ''/v1/tenants/:tenantId/vehicle-memberships/:membershipId/renew''
        (\<lambda>D ps q. OnVehicles (QRenewMembership (tenant_of ps) (ps ''membershipId'') (dc_renew D (rw_body q)))),
      on DELETE ''/v1/tenants/:tenantId/vehicle-memberships/:membershipId''
        (\<lambda>D ps q. OnVehicles (QCancelMembership (tenant_of ps) (ps ''membershipId'')))]"

definition invitation_routes :: "route list" where
  "invitation_routes =
     [on GET ''/v1/tenants/:tenantId/invitations'' (\<lambda>D ps q. OnInvitations (QListInvitations (tenant_of ps))),
      on POST ''/v1/tenants/:tenantId/invitations''
        (\<lambda>D ps q. OnInvitations (QCreateInvitation (tenant_of ps) (dc_invite D (rw_body q)))),
      on DELETE ''/v1/tenants/:tenantId/invitations/:invitationId''
        (\<lambda>D ps q. OnInvitations (QRevokeInvitation (tenant_of ps) (ps ''invitationId''))),
      on POST ''/v1/tenants/:tenantId/invitations/:invitationId/resend''
        (\<lambda>D ps q. OnInvitations (QResendInvitation (tenant_of ps) (ps ''invitationId'') (dc_resend D (rw_body q)))),
      on POST ''/v1/invitations/accept'' (\<lambda>D ps q. OnInvitations (QAcceptInvitation (dc_accept D (rw_body q))))]"

definition sharing_routes :: "route list" where
  "sharing_routes =
     [on POST ''/v1/tenants/:tenantId/shareable-owners''
        (\<lambda>D ps q. OnSharing (QShareableOwners (tenant_of ps) (dc_owners D (rw_body q)))),
      on POST ''/v1/tenants/:tenantId/vehicles/:tokenId/share''
        (\<lambda>D ps q. OnSharing (QShareVehicle (tenant_of ps) (ps ''tokenId'') (dc_share D (rw_body q)))),
      on GET ''/v1/tenants/:tenantId/vehicles/:tokenId/share/status''
        (\<lambda>D ps q. OnSharing (QShareStatus (tenant_of ps) (rw_query q ''jobId''))),
      on DELETE ''/v1/tenants/:tenantId/vehicles/:tokenId/share/:grantee''
        (\<lambda>D ps q. OnSharing (QRevokeShare (tenant_of ps) (ps ''tokenId'') (ps ''grantee'') (rw_query q ''wallet''))),
      on POST ''/v1/tenants/:tenantId/vehicles/:tokenId/shared-ops''
        (\<lambda>D ps q. OnSharing (QSharedOperation (tenant_of ps) (ps ''tokenId'') (dc_op D (rw_body q)))),
      on GET ''/v1/tenants/:tenantId/vehicles/:tokenId/shared-ops/status''
        (\<lambda>D ps q. OnSharing (QSharedOpStatus (tenant_of ps) (rw_query q ''jobId''))),
      on POST ''/v1/tenants/:tenantId/vehicle-metadata''
        (\<lambda>D ps q. OnVehicles (QVehicleMetadata (tenant_of ps) (dc_metadata D (rw_body q))))]"

definition group_routes :: "route list" where
  "group_routes =
     [on GET ''/v1/tenants/:tenantId/groups'' (\<lambda>D ps q. OnGroups (QListGroups (tenant_of ps))),
      on GET ''/v1/tenants/:tenantId/vehicle-groups'' (\<lambda>D ps q. OnGroups (QListVehicleGroups (tenant_of ps))),
      on POST ''/v1/tenants/:tenantId/groups'' (\<lambda>D ps q. OnGroups (QCreateGroup (tenant_of ps) (dc_group D (rw_body q)))),
      on PATCH ''/v1/tenants/:tenantId/groups/:groupId''
        (\<lambda>D ps q. OnGroups (QUpdateGroup (tenant_of ps) (ps ''groupId'') (dc_group_patch D (rw_body q)))),
      on DELETE ''/v1/tenants/:tenantId/groups/:groupId'' (\<lambda>D ps q. OnGroups (QDeleteGroup (tenant_of ps) (ps ''groupId''))),
      on GET ''/v1/tenants/:tenantId/groups/:groupId/vehicles''
        (\<lambda>D ps q. OnGroups (QListGroupVehicles (tenant_of ps) (ps ''groupId''))),
      on POST ''/v1/tenants/:tenantId/groups/:groupId/vehicles''
        (\<lambda>D ps q. OnGroups (QAddGroupVehicles (tenant_of ps) (ps ''groupId'') (dc_group_vehicles D (rw_body q)))),
      on DELETE ''/v1/tenants/:tenantId/groups/:groupId/vehicles/:tokenId''
        (\<lambda>D ps q. OnGroups (QRemoveGroupVehicle (tenant_of ps) (ps ''groupId'') (ps ''tokenId'')))]"

definition v1_table :: "route list" where
  "v1_table = lookup_routes @ member_routes @ tenant_routes @ vehicle_routes @ invitation_routes @ sharing_routes @ group_routes"

text \<open>
  The router: what a pattern binds on a path, \<open>None\<close> when they do not match. The first route of the
  method that matches answers; \<open>miss\<close> is the status the router gives a path without one. Fiber's
  \<open>Get\<close> registers its handler for \<open>HEAD\<close> as well; the answer then goes out without its body.
\<close>

type_synonym router = "string \<Rightarrow> string \<Rightarrow> (string \<Rightarrow> string) option"

definition answers_to :: "http_method \<Rightarrow> route \<Rightarrow> bool" where
  "answers_to m r \<longleftrightarrow> rt_method r = m \<or> m = HEAD \<and> rt_method r = GET"

definition routes_for :: "router \<Rightarrow> route list \<Rightarrow> http_method \<Rightarrow> string \<Rightarrow> (route \<times> (string \<Rightarrow> string)) list" where
  "routes_for R tbl m path =
     concat (map (\<lambda>r. if answers_to m r then (case R (rt_pattern r) path of None \<Rightarrow> [] | Some ps \<Rightarrow> [(r, ps)]) else []) tbl)"

definition find_route :: "router \<Rightarrow> route list \<Rightarrow> http_method \<Rightarrow> string \<Rightarrow> (route \<times> (string \<Rightarrow> string)) option" where
  "find_route R tbl m path = (case routes_for R tbl m path of [] \<Rightarrow> None | p # _ \<Rightarrow> Some p)"

definition http_v1 ::
  "router \<Rightarrow> (raw_request \<Rightarrow> nat) \<Rightarrow> decoders \<Rightarrow> http_env \<Rightarrow> (string \<times> string) list \<Rightarrow> faults \<Rightarrow> chance \<Rightarrow> server \<Rightarrow>
   string \<Rightarrow> string option \<Rightarrow> raw_request \<Rightarrow> server \<times> response" where
  "http_v1 R miss D E keys gate x z key claim q =
     (case v1_gate keys gate (hs_db z) key claim of
        Inl c \<Rightarrow> (z, HttpError c)
      | Inr caller \<Rightarrow>
        (case find_route R v1_table (rw_method q) (rw_path q) of
           None \<Rightarrow> (z, HttpError (miss q))
         | Some (r, ps) \<Rightarrow> v1_route E x z (Some caller) (rt_request r D ps q)))"

text \<open>\<open>ErrorHandler\<close>, and what the metrics middleware files under before it has run.\<close>

datatype handler_error = FiberErr nat | OtherErr

definition ErrorHandler :: "handler_error \<Rightarrow> nat" where
  "ErrorHandler e = (case e of FiberErr c \<Rightarrow> c | OtherErr \<Rightarrow> 500)"

definition observed_status :: "nat \<Rightarrow> handler_error option \<Rightarrow> nat" where
  "observed_status written err = (case err of None \<Rightarrow> written | Some (FiberErr c) \<Rightarrow> c | Some OtherErr \<Rightarrow> 500)"

text \<open>\<open>at\<close> is the pattern of the last route the router executed.\<close>

definition routeLabel :: "string option \<Rightarrow> string \<Rightarrow> string" where
  "routeLabel at path =
     (case at of
        None \<Rightarrow> ''unmatched''
      | Some p \<Rightarrow> if p = [] then ''unmatched'' else if p = ''/'' \<and> path \<noteq> ''/'' then ''unmatched'' else p)"

subsection \<open>No path has two routes\<close>

text \<open>
  What is relied on of the router: the patterns that match a path have as many segments as it, a
  static segment matches only itself (whatever the case of its letters), and a matched parameter is
  bound to its segment, which is not empty. \<open>sp\<close> cuts a path at its slashes.
\<close>

definition segments :: "string \<Rightarrow> string list" where
  "segments p = filter (\<lambda>w. w \<noteq> []) (split_on (CHR ''/'') p)"

definition is_param :: "string \<Rightarrow> bool" where
  "is_param w \<longleftrightarrow> take 1 w = '':''"

definition router_laws :: "router \<Rightarrow> (string \<Rightarrow> string list) \<Rightarrow> bool" where
  "router_laws R sp \<longleftrightarrow> (\<forall>pat path ps. R pat path = Some ps \<longrightarrow>
     list_all2 (\<lambda>w v. if is_param w then ps (drop 1 w) = v \<and> v \<noteq> [] else lower w = lower v) (segments pat) (sp path))"

definition overlap :: "string \<Rightarrow> string \<Rightarrow> bool" where
  "overlap p q \<longleftrightarrow> list_all2 (\<lambda>v w. is_param v \<or> is_param w \<or> lower v = lower w) (segments p) (segments q)"

lemma overlap_matches:
  assumes "router_laws R sp" and "R p path = Some ps" and "R q path = Some qs"
  shows "overlap p q"
proof -
  note m = assms(1) [unfolded router_laws_def, rule_format, OF assms(2)] assms(1) [unfolded router_laws_def, rule_format, OF assms(3)]
  show ?thesis unfolding overlap_def list_all2_conv_all_nth
    using list_all2_lengthD [OF m(1)] list_all2_lengthD [OF m(2)] list_all2_nthD [OF m(1)] list_all2_nthD [OF m(2)]
    by (auto split: if_splits) metis
qed

text \<open>Checked from the last segment on, where patterns differ; a parameter is \<open>None\<close>.\<close>

definition keyed :: "string \<Rightarrow> string option" where
  "keyed w = (if is_param w then None else Some (lower w))"

definition route_key :: "route \<Rightarrow> http_method \<times> string option list" where
  "route_key r = (rt_method r, rev (map keyed (segments (rt_pattern r))))"

fun clash :: "string option list \<Rightarrow> string option list \<Rightarrow> bool" where
  "clash [] [] = True"
| "clash (v # vs) (w # ws) = (if (case (v, w) of (Some a, Some b) \<Rightarrow> a \<noteq> b | _ \<Rightarrow> False) then False else clash vs ws)"
| "clash _ _ = False"

lemma clash_list_all2: "clash vs ws \<longleftrightarrow> list_all2 (\<lambda>v w. v = None \<or> w = None \<or> v = w) vs ws"
  by (induction vs ws rule: clash.induct) (auto split: option.splits)

lemma overlap_clash: "overlap (rt_pattern a) (rt_pattern b) \<longleftrightarrow> clash (snd (route_key a)) (snd (route_key b))"
  by (simp add: overlap_def clash_list_all2 route_key_def list_all2_map1 list_all2_map2 keyed_def)
     (auto elim!: list_all2_mono)

lemma lookup_keys: "map route_key lookup_routes =
  [(GET, [Some ''authz'', Some ''v1'']),
   (GET, [None, Some ''client-id'', Some ''resolve'', Some ''v1'']),
   (GET, [Some ''tenants'', Some ''v1''])]"
  by code_simp

lemma member_keys: "map route_key member_routes =
  [(PUT, [None, Some ''members'', None, Some ''tenants'', Some ''v1'']),
   (DELETE, [None, Some ''members'', None, Some ''tenants'', Some ''v1'']),
   (POST, [Some ''login'', None, Some ''members'', None, Some ''tenants'', Some ''v1'']),
   (POST, [Some ''provision'', Some ''members'', None, Some ''tenants'', Some ''v1'']),
   (GET, [Some ''dimo-token'', None, Some ''tenants'', Some ''v1''])]"
  by code_simp

lemma tenant_keys: "map route_key tenant_routes =
  [(GET, [Some ''children'', None, Some ''operators'', Some ''v1'']),
   (POST, [Some ''customers'', None, Some ''operators'', Some ''v1'']),
   (POST, [Some ''tenants'', Some ''v1'']),
   (GET, [None, Some ''tenants'', Some ''v1'']),
   (PATCH, [None, Some ''tenants'', Some ''v1'']),
   (PUT, [Some ''credentials'', None, Some ''tenants'', Some ''v1'']),
   (PUT, [Some ''aa-wallet'', Some ''credentials'', None, Some ''tenants'', Some ''v1'']),
   (GET, [Some ''aa-wallet'', Some ''credentials'', None, Some ''tenants'', Some ''v1'']),
   (DELETE, [Some ''aa-wallet'', Some ''credentials'', None, Some ''tenants'', Some ''v1'']),
   (GET, [Some ''members'', None, Some ''tenants'', Some ''v1''])]"
  by code_simp

lemma vehicle_keys: "map route_key vehicle_routes =
  [(GET, [Some ''vehicles'', None, Some ''tenants'', Some ''v1'']),
   (POST, [Some ''vehicles'', None, Some ''tenants'', Some ''v1'']),
   (DELETE, [None, Some ''vehicles'', None, Some ''tenants'', Some ''v1'']),
   (GET, [Some ''vehicle-memberships'', None, Some ''tenants'', Some ''v1'']),
   (GET, [Some ''active-vehicle-memberships'', None, Some ''tenants'', Some ''v1'']),
   (POST, [Some ''vehicle-memberships'', None, Some ''tenants'', Some ''v1'']),
   (POST, [Some ''move'', None, Some ''vehicle-memberships'', None, Some ''tenants'', Some ''v1'']),
   (POST, [Some ''renew'', None, Some ''vehicle-memberships'', None, Some ''tenants'', Some ''v1'']),
   (DELETE, [None, Some ''vehicle-memberships'', None, Some ''tenants'', Some ''v1''])]"
  by code_simp

lemma invitation_keys: "map route_key invitation_routes =
  [(GET, [Some ''invitations'', None, Some ''tenants'', Some ''v1'']),
   (POST, [Some ''invitations'', None, Some ''tenants'', Some ''v1'']),
   (DELETE, [None, Some ''invitations'', None, Some ''tenants'', Some ''v1'']),
   (POST, [Some ''resend'', None, Some ''invitations'', None, Some ''tenants'', Some ''v1'']),
   (POST, [Some ''accept'', Some ''invitations'', Some ''v1''])]"
  by code_simp

lemma sharing_keys: "map route_key sharing_routes =
  [(POST, [Some ''shareable-owners'', None, Some ''tenants'', Some ''v1'']),
   (POST, [Some ''share'', None, Some ''vehicles'', None, Some ''tenants'', Some ''v1'']),
   (GET, [Some ''status'', Some ''share'', None, Some ''vehicles'', None, Some ''tenants'', Some ''v1'']),
   (DELETE, [None, Some ''share'', None, Some ''vehicles'', None, Some ''tenants'', Some ''v1'']),
   (POST, [Some ''shared-ops'', None, Some ''vehicles'', None, Some ''tenants'', Some ''v1'']),
   (GET, [Some ''status'', Some ''shared-ops'', None, Some ''vehicles'', None, Some ''tenants'', Some ''v1'']),
   (POST, [Some ''vehicle-metadata'', None, Some ''tenants'', Some ''v1''])]"
  by code_simp

lemma group_keys: "map route_key group_routes =
  [(GET, [Some ''groups'', None, Some ''tenants'', Some ''v1'']),
   (GET, [Some ''vehicle-groups'', None, Some ''tenants'', Some ''v1'']),
   (POST, [Some ''groups'', None, Some ''tenants'', Some ''v1'']),
   (PATCH, [None, Some ''groups'', None, Some ''tenants'', Some ''v1'']),
   (DELETE, [None, Some ''groups'', None, Some ''tenants'', Some ''v1'']),
   (GET, [Some ''vehicles'', None, Some ''groups'', None, Some ''tenants'', Some ''v1'']),
   (POST, [Some ''vehicles'', None, Some ''groups'', None, Some ''tenants'', Some ''v1'']),
   (DELETE, [None, Some ''vehicles'', None, Some ''groups'', None, Some ''tenants'', Some ''v1''])]"
  by code_simp

lemmas route_keys = lookup_keys member_keys tenant_keys vehicle_keys invitation_keys sharing_keys group_keys

definition keys_of :: "http_method \<Rightarrow> string option list list" where
  "keys_of m = map snd (filter (\<lambda>k. fst k = m \<or> m = HEAD \<and> fst k = GET) (map route_key v1_table))"

abbreviation no_clash :: "string option list list \<Rightarrow> bool" where
  "no_clash \<equiv> sorted_wrt (\<lambda>a b. \<not> clash a b)"

lemma keys_of_groups: "keys_of m = map snd (filter (\<lambda>k. fst k = m \<or> m = HEAD \<and> fst k = GET) (concat (map (map route_key)
     [lookup_routes, member_routes, tenant_routes, vehicle_routes, invitation_routes, sharing_routes, group_routes])))"
  by (simp add: keys_of_def v1_table_def)

lemma keys_apart: "no_clash (keys_of m)"
  by (cases m) (simp_all add: keys_of_groups route_keys)

text \<open>So at most one route of the table answers a request.\<close>

lemma routes_for_map: "routes_for R tbl m path =
   map (\<lambda>r. (r, the (R (rt_pattern r) path))) (filter (\<lambda>r. answers_to m r \<and> R (rt_pattern r) path \<noteq> None) tbl)"
  by (induction tbl) (auto simp: routes_for_def split: option.splits)

lemma no_clash_filter:
  assumes "sorted_wrt (\<lambda>a b. \<not> clash (snd (route_key a)) (snd (route_key b))) rs"
    and "\<And>a b. a \<in> set rs \<Longrightarrow> b \<in> set rs \<Longrightarrow> P a \<Longrightarrow> P b \<Longrightarrow> clash (snd (route_key a)) (snd (route_key b))"
  shows "length (filter P rs) \<le> 1"
  using assms
proof (induction rs)
  case (Cons r rs)
  show ?case
  proof (cases "P r")
    case True
    then have "filter P rs = []" using Cons.prems by (auto simp: filter_empty_conv)
    then show ?thesis by simp
  qed (use Cons in auto)
qed simp

lemma one_route:
  assumes "router_laws R sp"
  shows "length (routes_for R v1_table m path) \<le> 1"
proof -
  let ?rs = "filter (answers_to m) v1_table" and ?P = "\<lambda>r. R (rt_pattern r) path \<noteq> None"
  have "sorted_wrt (\<lambda>a b. \<not> clash (snd (route_key a)) (snd (route_key b))) ?rs"
    using keys_apart [of m] by (simp add: keys_of_def filter_map comp_def sorted_wrt_map route_key_def answers_to_def [abs_def])
  then have "length (filter ?P ?rs) \<le> 1"
    by (rule no_clash_filter) (auto simp: overlap_clash [symmetric] intro: overlap_matches [OF assms])
  then show ?thesis by (simp add: routes_for_map conj_commute)
qed

lemma routes_for_mset: "mset tbl = mset tbl' \<Longrightarrow> mset (routes_for R tbl m path) = mset (routes_for R tbl' m path)"
  by (simp add: routes_for_map)

lemma singleton_mset: "mset xs = mset ys \<Longrightarrow> length ys \<le> 1 \<Longrightarrow> xs = ys"
  by (cases ys rule: remdups_adj.cases) auto

subsection \<open>What a path names is what is checked\<close>

definition under_tenant :: "string list \<Rightarrow> bool" where
  "under_tenant ws \<longleftrightarrow> 2 < length ws \<and> lower (ws ! 0) = ''v1'' \<and> lower (ws ! 1) \<in> {''tenants'', ''operators''}"

text \<open>A pattern that can match such a path has the tenant's parameter third, and its handler is about that tenant.\<close>

definition tenant_third :: "route \<Rightarrow> bool" where
  "tenant_third r \<longleftrightarrow> (let ws = segments (rt_pattern r) in
     2 < length ws \<longrightarrow> \<not> is_param (ws ! 0) \<and> \<not> is_param (ws ! 1) \<and>
       (lower (ws ! 1) \<in> {''tenants'', ''operators''} \<longrightarrow>
          is_param (ws ! 2) \<and> (\<forall>D ps q. subject (rt_request r D ps q) = Some (ps (drop 1 (ws ! 2))))))"

lemma tenant_third_on: "tenant_third (on m p f) \<longleftrightarrow> (let ws = segments p in
     2 < length ws \<longrightarrow> \<not> is_param (ws ! 0) \<and> \<not> is_param (ws ! 1) \<and>
       (lower (ws ! 1) \<in> {''tenants'', ''operators''} \<longrightarrow>
          is_param (ws ! 2) \<and> (\<forall>D ps q. subject (f D ps q) = Some (ps (drop 1 (ws ! 2))))))"
  by (simp add: tenant_third_def on_def)

lemma lower_other: "lower ''resolve'' = ''resolve''" "lower ''invitations'' = ''invitations''"
  "lower ''authz'' = ''authz''" "lower ''tenants'' = ''tenants''" "lower ''operators'' = ''operators''"
  by code_simp+

lemmas third_simps = tenant_third_on segments_def is_param_def Let_def lower_other

lemma lookup_third: "list_all tenant_third lookup_routes"
  by (simp add: lookup_routes_def third_simps)

lemma member_third: "list_all tenant_third member_routes"
  by (simp add: member_routes_def third_simps)

lemma tenant_third': "list_all tenant_third tenant_routes"
  by (simp add: tenant_routes_def third_simps)

lemma vehicle_third: "list_all tenant_third vehicle_routes"
  by (simp add: vehicle_routes_def third_simps)

lemma invitation_third: "list_all tenant_third invitation_routes"
  by (simp add: invitation_routes_def third_simps)

lemma sharing_third: "list_all tenant_third sharing_routes"
  by (simp add: sharing_routes_def third_simps)

lemma group_third: "list_all tenant_third group_routes"
  by (simp add: group_routes_def third_simps)

lemma table_third: "r \<in> set v1_table \<Longrightarrow> tenant_third r"
  using lookup_third member_third tenant_third' vehicle_third invitation_third sharing_third group_third
  by (auto simp: v1_table_def list_all_iff)

lemma find_route_Some:
  assumes "find_route R tbl m path = Some (r, ps)"
  shows "r \<in> set tbl" "R (rt_pattern r) path = Some ps"
proof -
  have "(r, ps) \<in> set (routes_for R tbl m path)" using assms by (auto simp: find_route_def split: list.splits)
  then show "r \<in> set tbl" "R (rt_pattern r) path = Some ps" by (auto simp: routes_for_def split: if_splits option.splits)
qed

lemma lower_v1: "lower ''v1'' = ''v1''" by code_simp

lemma routed_subject:
  assumes laws: "router_laws R sp" and r: "find_route R v1_table m path = Some (r, ps)" and u: "under_tenant (sp path)"
  shows "subject (rt_request r D ps q) = Some (sp path ! 2)"
proof -
  let ?ws = "segments (rt_pattern r)"
  note f = find_route_Some [OF r]
  from laws f(2) have m: "list_all2 (\<lambda>w v. if is_param w then ps (drop 1 w) = v \<and> v \<noteq> [] else lower w = lower v) ?ws (sp path)"
    by (simp add: router_laws_def)
  have l: "2 < length ?ws" using list_all2_lengthD [OF m] u by (simp add: under_tenant_def)
  have at: "if is_param (?ws ! i) then ps (drop 1 (?ws ! i)) = sp path ! i \<and> sp path ! i \<noteq> [] else lower (?ws ! i) = lower (sp path ! i)"
    if "i \<le> 2" for i using list_all2_nthD [OF m, of i] that l by simp
  from table_third [OF f(1)] l have s: "\<not> is_param (?ws ! 1)"
      "lower (?ws ! 1) \<in> {''tenants'', ''operators''} \<longrightarrow>
         is_param (?ws ! 2) \<and> (\<forall>D ps q. subject (rt_request r D ps q) = Some (ps (drop 1 (?ws ! 2))))"
    by (simp_all add: tenant_third_def Let_def)
  have "lower (?ws ! 1) \<in> {''tenants'', ''operators''}" using at [of 1] s(1) u by (simp add: under_tenant_def)
  with s(2) have t: "is_param (?ws ! 2)" "subject (rt_request r D ps q) = Some (ps (drop 1 (?ws ! 2)))" by blast+
  show ?thesis using at [of 2] t by simp
qed

text \<open>
  C34. The order in which the routes are registered does not matter: at most one of them matches a request,
  whatever its path, so every order answers with the same route.
\<close>

theorem v1_route_order:
  assumes "router_laws R sp" and "mset tbl = mset v1_table"
  shows "find_route R tbl m path = find_route R v1_table m path \<and> length (routes_for R tbl m path) \<le> 1"
proof -
  have "routes_for R tbl m path = routes_for R v1_table m path"
    by (rule singleton_mset [OF routes_for_mset [OF assms(2)] one_route [OF assms(1)]])
  then show ?thesis using one_route [OF assms(1)] by (simp add: find_route_def)
qed

definition demo_router :: router where
  "demo_router pat path = (let
     ps = (\<lambda>k. case map_of (zip (segments pat) (segments path)) (CHR '':'' # k) of Some v \<Rightarrow> v | None \<Rightarrow> []) in
     if list_all2 (\<lambda>w v. if is_param w then ps (drop 1 w) = v \<and> v \<noteq> [] else lower w = lower v) (segments pat) (segments path)
     then Some ps else None)"

lemma demo_router_laws: "router_laws demo_router segments"
  by (auto simp: router_laws_def demo_router_def Let_def split: if_splits)

lemma v1_route_order_witness:
  "find_route demo_router (rev v1_table) POST ''/v1/tenants/op/members/provision'' =
     find_route demo_router v1_table POST ''/v1/tenants/op/members/provision'' \<and>
   length (routes_for demo_router (rev v1_table) POST ''/v1/tenants/op/members/provision'') \<le> 1"
  by (rule v1_route_order [OF demo_router_laws]) simp

text \<open>
  C4. Whatever is sent to a path below \<open>/v1/tenants/<t>\<close> or \<open>/v1/operators/<t>\<close>, with any method
  (\<open>HEAD\<close> and unknown ones included) and any rest of the path, an answer that is neither a refusal nor the router's miss went to a caller that
  passed the gates and may access exactly the tenant \<open>t\<close> the path names.
\<close>

theorem v1_paths_scoped:
  assumes "router_laws R sp" and "under_tenant (sp (rw_path q))"
    and "http_v1 R miss D E keys gate x z key claim q = (z', r)" and "status r \<notin> refusals" and "status r \<noteq> miss q"
  shows "\<exists>c. v1_gate keys gate (hs_db z) key claim = Inr c \<and> may_access (he_lib E) (hs_db z) (Some c) (sp (rw_path q) ! 2)"
proof (cases "v1_gate keys gate (hs_db z) key claim")
  case (Inl n)
  then have "n \<in> refusals"
    by (auto simp: v1_gate_def TrustedCallerGuard_def DeveloperLicenseTenantResolver_def Let_def
        split: sum.splits option.splits if_splits)
  with Inl assms show ?thesis by (auto simp: http_v1_def)
next
  case (Inr c)
  with assms obtain rt ps where f: "find_route R v1_table (rw_method q) (rw_path q) = Some (rt, ps)"
      and v: "v1_route E x z (Some c) (rt_request rt D ps q) = (z', r)"
    by (auto simp: http_v1_def split: option.splits)
  show ?thesis using v1_route_scoped [OF routed_subject [OF assms(1) f assms(2), of D q], of E x z "Some c"] v assms(4) Inr
    by simp
qed

definition demo_decoders :: decoders where
  "demo_decoders = \<lparr>dc_member = (\<lambda>_. None), dc_login = (\<lambda>_. None), dc_provision = (\<lambda>_. None), dc_customer = (\<lambda>_. None),
     dc_self_serve = (\<lambda>_. None), dc_update = (\<lambda>_. None), dc_credentials = (\<lambda>_. None), dc_aa_wallet = (\<lambda>_. None),
     dc_assign = (\<lambda>_. None), dc_membership = (\<lambda>_. None), dc_move = (\<lambda>_. None), dc_renew = (\<lambda>_. None),
     dc_metadata = (\<lambda>_. None), dc_invite = (\<lambda>_. None), dc_resend = (\<lambda>_. None), dc_accept = (\<lambda>_. None),
     dc_owners = (\<lambda>_. None), dc_share = (\<lambda>_. None), dc_op = (\<lambda>_. None), dc_group = (\<lambda>_. None),
     dc_group_patch = (\<lambda>_. None), dc_group_vehicles = (\<lambda>_. None)\<rparr>"

definition demo_raw :: raw_request where
  "demo_raw = \<lparr>rw_method = DELETE, rw_path = ''/v1/tenants/op/members/0xAA'', rw_query = (\<lambda>_. []), rw_actor = [], rw_body = []\<rparr>"

lemma http_v1_serve:
  "find_route R v1_table (rw_method q) (rw_path q) = Some (r, ps) \<Longrightarrow>
   http_v1 R miss D E keys gate x z key claim q = serve E keys gate x z key claim (rt_request r D ps q)"
  by (simp add: http_v1_def serve_def split: sum.split)

lemma demo_found:
  "map_option (\<lambda>(r, ps). rt_request r demo_decoders ps demo_raw) (find_route demo_router v1_table (rw_method demo_raw) (rw_path demo_raw))
     = Some (OnMembers (QDeleteMember ''op'' ''0xAA''))"
  by code_simp

lemma demo_http_v1:
  "\<exists>z'. http_v1 demo_router (\<lambda>_. 404) demo_decoders demo_http demo_callers no_faults demo_chance (demo_server demo_two_db)
     demo_key (Some ''0xlic'') demo_raw = (z', Reply 204 BNone)"
proof -
  obtain r ps where f: "find_route demo_router v1_table (rw_method demo_raw) (rw_path demo_raw) = Some (r, ps)"
      "rt_request r demo_decoders ps demo_raw = OnMembers (QDeleteMember ''op'' ''0xAA'')"
    using demo_found by (auto simp: map_option_eq_Some)
  show ?thesis by (simp only: http_v1_serve [OF f(1)] f(2) demo_Delete) blast
qed

lemma v1_paths_scoped_witness:
  "\<exists>z' c. http_v1 demo_router (\<lambda>_. 404) demo_decoders demo_http demo_callers no_faults demo_chance (demo_server demo_two_db)
     demo_key (Some ''0xlic'') demo_raw = (z', Reply 204 BNone) \<and> may_access demo_library demo_two_db (Some c) ''op''"
proof -
  obtain z' where run: "http_v1 demo_router (\<lambda>_. 404) demo_decoders demo_http demo_callers no_faults demo_chance (demo_server demo_two_db)
     demo_key (Some ''0xlic'') demo_raw = (z', Reply 204 BNone)" using demo_http_v1 by blast
  have "under_tenant (segments (rw_path demo_raw))" by code_simp
  moreover have "segments (rw_path demo_raw) ! 2 = ''op''" by code_simp
  ultimately show ?thesis using v1_paths_scoped [OF demo_router_laws _ run] run
    by (auto simp: refusals_def demo_http_lib demo_server_def)
qed

end
