(* ===== verification/Contracts.thy ===== *)
theory Contracts
  imports Router
begin

text \<open>
  What each route of \<open>/v1\<close> answers with: the status and the kind of body of its success, and the
  statuses its errors are translated into. A caller is written against this table; that every
  handler keeps to it is the type soundness of the surface.
\<close>

subsection \<open>The contract\<close>

datatype body_kind =
    KNone | KAuthz | KTenantRef | KWalletTenants | KTenant | KTenants | KMembers | KEntitlements | KAssigned | KMembership
  | KMemberships | KActive | KGroup | KGroups | KVehicleGroups | KTokens | KInvitations | KInvitation | KAccepted | KAAWallet
  | KProvisioned | KToken | KVehicles | KOwners | KJob | KStatus

fun kind_of :: "body \<Rightarrow> body_kind" where
  "kind_of BNone = KNone"
| "kind_of (BAuthz _) = KAuthz"
| "kind_of (BTenantRef _) = KTenantRef"
| "kind_of (BWalletTenants _) = KWalletTenants"
| "kind_of (BTenant _) = KTenant"
| "kind_of (BTenants _) = KTenants"
| "kind_of (BMembers _) = KMembers"
| "kind_of (BEntitlements _) = KEntitlements"
| "kind_of (BAssigned _ _) = KAssigned"
| "kind_of (BMembership _) = KMembership"
| "kind_of (BMemberships _ _) = KMemberships"
| "kind_of (BActive _ _) = KActive"
| "kind_of (BGroup _) = KGroup"
| "kind_of (BGroups _) = KGroups"
| "kind_of (BVehicleGroups _) = KVehicleGroups"
| "kind_of (BTokens _) = KTokens"
| "kind_of (BInvitations _) = KInvitations"
| "kind_of (BInvitation _ _) = KInvitation"
| "kind_of (BAccepted _) = KAccepted"
| "kind_of (BAAWallet _) = KAAWallet"
| "kind_of (BProvisioned _) = KProvisioned"
| "kind_of (BToken _) = KToken"
| "kind_of (BVehicles _) = KVehicles"
| "kind_of (BOwners _ _ _) = KOwners"
| "kind_of (BJob _) = KJob"
| "kind_of (BStatus _) = KStatus"

text \<open>Status and body of a success, and the statuses of the errors beside those of the gates and the scope check.\<close>

type_synonym contract = "nat \<times> body_kind \<times> nat list"

fun authz_contract :: "authz_request \<Rightarrow> contract" where
  "authz_contract (QAuthz _ _) = (200, KAuthz, [])"
| "authz_contract (QResolve _) = (200, KTenantRef, [404])"
| "authz_contract (QWalletTenants _ _) = (200, KWalletTenants, [])"

fun member_contract :: "member_request \<Rightarrow> contract" where
  "member_contract (QPutMember _ _ _) = (204, KNone, [])"
| "member_contract (QDeleteMember _ _) = (204, KNone, [])"
| "member_contract (QLoginTouch _ _ _) = (204, KNone, [])"
| "member_contract (QProvision _ _) = (200, KProvisioned, [409, 502])"
| "member_contract (QDimoToken _) = (200, KToken, [409, 502])"

fun tenant_contract :: "tenant_request \<Rightarrow> contract" where
  "tenant_contract (QListChildren _) = (200, KTenants, [])"
| "tenant_contract (QCreateCustomer _ _ _) = (201, KTenant, [409])"
| "tenant_contract (QCreateSelfServe _) = (201, KTenant, [409])"
| "tenant_contract (QGetTenant _) = (200, KTenant, [])"
| "tenant_contract (QUpdateTenant _ _) = (200, KTenant, [409])"
| "tenant_contract (QSetCredentials _ _) = (204, KNone, [409])"
| "tenant_contract (QSetAAWallet _ _) = (200, KAAWallet, [409, 503])"
| "tenant_contract (QGetAAWallet _) = (200, KAAWallet, [])"
| "tenant_contract (QClearAAWallet _) = (204, KNone, [])"
| "tenant_contract (QListMembers _) = (200, KMembers, [])"

fun vehicle_contract :: "vehicle_request \<Rightarrow> contract" where
  "vehicle_contract (QListVehicles _) = (200, KEntitlements, [])"
| "vehicle_contract (QAssignVehicles _ _ _) = (200, KAssigned, [])"
| "vehicle_contract (QRevokeVehicle _ _) = (204, KNone, [])"
| "vehicle_contract (QListMemberships _) = (200, KMemberships, [])"
| "vehicle_contract (QActiveMemberships _) = (200, KActive, [])"
| "vehicle_contract (QCreateMembership _ _ _) = (201, KMembership, [404, 409, 422])"
| "vehicle_contract (QMoveMembership _ _ _ _) = (200, KMembership, [404, 409, 422])"
| "vehicle_contract (QRenewMembership _ _ _) = (200, KMembership, [404, 409, 422])"
| "vehicle_contract (QCancelMembership _ _) = (204, KNone, [404, 409, 422])"
| "vehicle_contract (QVehicleMetadata _ _) = (200, KVehicles, [])"

fun invitation_contract :: "invitation_request \<Rightarrow> contract" where
  "invitation_contract (QListInvitations _) = (200, KInvitations, [])"
| "invitation_contract (QCreateInvitation _ _) = (201, KInvitation, [])"
| "invitation_contract (QRevokeInvitation _ _) = (204, KNone, [])"
| "invitation_contract (QResendInvitation _ _ _) = (200, KInvitation, [404])"
| "invitation_contract (QAcceptInvitation _) = (200, KAccepted, [410])"

fun sharing_contract :: "sharing_request \<Rightarrow> contract" where
  "sharing_contract (QShareableOwners _ _) = (200, KOwners, [409, 502])"
| "sharing_contract (QShareVehicle _ _ _) = (202, KJob, [404, 409, 502, 503])"
| "sharing_contract (QShareStatus _ _) = (200, KStatus, [404, 503])"
| "sharing_contract (QRevokeShare _ _ _ _) = (202, KJob, [404, 409, 502, 503])"
| "sharing_contract (QSharedOperation _ _ _) = (202, KJob, [404, 409, 502, 503])"
| "sharing_contract (QSharedOpStatus _ _) = (200, KStatus, [404, 503])"

fun group_contract :: "group_request \<Rightarrow> contract" where
  "group_contract (QListGroups _) = (200, KGroups, [404, 409])"
| "group_contract (QListVehicleGroups _) = (200, KVehicleGroups, [404, 409])"
| "group_contract (QCreateGroup _ _) = (201, KGroup, [404, 409])"
| "group_contract (QUpdateGroup _ _ _) = (200, KGroup, [404, 409])"
| "group_contract (QDeleteGroup _ _) = (204, KNone, [404, 409])"
| "group_contract (QListGroupVehicles _ _) = (200, KTokens, [404, 409])"
| "group_contract (QAddGroupVehicles _ _ _) = (204, KNone, [404, 409])"
| "group_contract (QRemoveGroupVehicle _ _ _) = (204, KNone, [404, 409])"

fun contract_of :: "request \<Rightarrow> contract" where
  "contract_of (OnAuthz q) = authz_contract q"
| "contract_of (OnMembers q) = member_contract q"
| "contract_of (OnTenants q) = tenant_contract q"
| "contract_of (OnVehicles q) = vehicle_contract q"
| "contract_of (OnInvitations q) = invitation_contract q"
| "contract_of (OnSharing q) = sharing_contract q"
| "contract_of (OnGroups q) = group_contract q"

definition keeps_to :: "contract \<Rightarrow> response \<Rightarrow> bool" where
  "keeps_to c r = (case r of
     Reply n b \<Rightarrow> n = fst c \<and> kind_of b = fst (snd c)
   | HttpError n \<Rightarrow> n \<in> refusals \<or> n \<in> set (snd (snd c)))"

lemma keeps_to_Reply [simp]: "keeps_to c (Reply n b) \<longleftrightarrow> n = fst c \<and> kind_of b = fst (snd c)"
  by (simp add: keeps_to_def)

lemma keeps_to_HttpError [simp]: "keeps_to c (HttpError n) \<longleftrightarrow> n \<in> refusals \<or> n \<in> set (snd (snd c))"
  by (simp add: keeps_to_def)

lemma keeps_to_answer:
  "keeps_to c (answer code b r) \<longleftrightarrow> (case r of Inl e \<Rightarrow> code e \<in> refusals \<or> code e \<in> set (snd (snd c))
     | Inr v \<Rightarrow> fst c = 200 \<and> kind_of (b v) = fst (snd c))"
  by (auto simp: answer_def split: sum.split)

subsection \<open>The translations of errors\<close>

lemma always_500_codes [simp]: "always_500 e \<in> refusals"
  by (simp add: always_500_def)

lemma tenants_mapError_codes [simp]: "tenants_mapError e \<in> refusals"
  by (simp add: tenants_mapError_def)

lemma groups_mapError_codes: "groups_mapError e \<in> refusals \<or> groups_mapError e = 404 \<or> groups_mapError e = 409"
  by (auto simp: groups_mapError_def split: svc_error.split)

lemma memberships_fail_codes: "memberships_fail e \<in> refusals \<or> memberships_fail e = 404 \<or> memberships_fail e = 409 \<or> memberships_fail e = 422"
  by (simp add: memberships_fail_def)

lemma provision_mapError_codes: "provision_mapError e \<in> refusals \<or> provision_mapError e = 409 \<or> provision_mapError e = 502"
  by (simp add: provision_mapError_def)

lemma shareAuthError_codes: "shareAuthError e \<in> refusals \<or> shareAuthError e = 404 \<or> shareAuthError e = 409 \<or> shareAuthError e = 502"
  by (simp add: shareAuthError_def)

lemma granteeClientIDError_codes: "granteeClientIDError e \<in> refusals \<or> granteeClientIDError e = 409"
  by (simp add: granteeClientIDError_def)

lemma queue_statuses: "queue_status e = 500 \<or> queue_status e = 503" "status_code e \<in> refusals \<or> status_code e = 404 \<or> status_code e = 503"
  by (simp_all add: queue_status_def status_code_def)

lemma assertCapability_refuses: "assertCapability E x z t w = Some c \<Longrightarrow> c \<in> refusals"
  by (auto simp: assertCapability_def split: if_splits sum.splits)

text \<open>An accept fails with a refusal of the scope check only when the check gave it.\<close>

lemma upsertMemberTx_error: "upsertMemberTx L flt now s t w inp = (s', Inl e) \<Longrightarrow> \<forall>c. root_error e \<noteq> FiberError c"
  by (auto simp: upsertMemberTx_def Let_def split: if_splits option.splits prod.splits sum.splits)

lemma Accept_error:
  assumes "Accept L K auth flt a n s inp = (s', Inl e)" and "root_error e = FiberError c"
  shows "\<exists>t e'. auth t = Some e' \<and> root_error e' = FiberError c"
  using assms by (auto simp: Accept_def Let_def split: if_splits option.splits prod.splits sum.splits dest: upsertMemberTx_error)

subsection \<open>Every handler keeps to it\<close>

lemma authz_keeps: "keeps_to (authz_contract q) (snd (authz_route E x z caller q))"
  by (cases q) (simp_all add: GetAuthz_def ResolveClientID_def ListWalletTenants_def keeps_to_answer split: sum.split)

lemma member_keeps: "keeps_to (member_contract q) (snd (member_route E x z caller q))"
  using provision_mapError_codes
  by (cases q) (auto simp: member_handlers keeps_to_answer Let_def split: option.split sum.split prod.split dest: scope_refuses)

lemma tenant_keeps: "keeps_to (tenant_contract q) (snd (tenant_route E x z caller q))"
  by (cases q) (auto simp: tenant_handlers tenant_reads keeps_to_answer Let_def
      split: option.split sum.split prod.split svc_error.split dest: scope_refuses)

lemma vehicle_keeps: "keeps_to (vehicle_contract q) (snd (vehicle_route E x z caller q))"
  using memberships_fail_codes
  by (cases q) (auto simp: vehicle_handlers vehicle_reads keeps_to_answer Let_def
      split: option.split sum.split prod.split dest: scope_refuses)

lemma Accept_keeps: "keeps_to (200, KAccepted, [410]) (snd (AcceptHandler E x z caller b))"
proof -
  have "c \<in> refusals" if "Accept L K (\<lambda>t. map_option FiberError (assertScope E x z caller t)) f a n s inp = (s', Inl e)"
      "root_error e = FiberError c" for L K f a n s inp s' e c
    using Accept_error [OF that] by (auto dest: scope_refuses)
  then show ?thesis
    by (auto simp: AcceptHandler_def split: option.split prod.split sum.split svc_error.split)
qed

lemma invitation_keeps: "keeps_to (invitation_contract q) (snd (invitation_route E x z caller q))"
  by (cases q) (auto simp: CreateInvitationHandler_def RevokeInvitationHandler_def ResendInvitationHandler_def
      ListInvitationsHandler_def keeps_to_answer Let_def Accept_keeps
      split: option.split sum.split prod.split invite_result.split dest: scope_refuses)

lemma enqueue_keeps: "503 \<in> set errs \<Longrightarrow> keeps_to (202, KJob, errs) (snd (enqueue x z j))"
  by (auto simp: enqueue_def queue_status_def split: prod.split sum.split)

lemma authorize_share_status: "authorize_share E x z t k = (z', Inl c) \<Longrightarrow> c \<in> refusals \<or> c = 404 \<or> c = 409 \<or> c = 502"
  using shareAuthError_codes by (auto simp: authorize_share_def split: prod.splits sum.splits)

lemma sharing_keeps: "keeps_to (sharing_contract q) (snd (sharing_route E x z caller q))"
  using granteeClientIDError_codes queue_statuses(2)
  by (cases q) (auto simp: sharing_handlers sharing_reads keeps_to_answer Let_def enqueue_keeps
      split: option.split sum.split prod.split shared_op.split dest: scope_refuses assertCapability_refuses authorize_share_status)

lemma group_keeps: "keeps_to (group_contract q) (snd (group_route E x z caller q))"
  using groups_mapError_codes
  by (cases q) (auto simp: group_handlers group_reads keeps_to_answer Let_def
      split: option.split sum.split prod.split dest: scope_refuses)

lemma v1_keeps: "keeps_to (contract_of req) (snd (v1_route E x z caller req))"
  by (cases req) (simp_all add: authz_keeps member_keeps tenant_keeps vehicle_keeps invitation_keeps sharing_keeps group_keeps)

text \<open>
  C7. Every answer of the surface is of the type its route promises: a success has exactly the status and
  the kind of body of the route's contract, an error one of its statuses or a refusal (400, 401, 403,
  500), whatever the request, the state and the failures met on the way.
\<close>

theorem v1_answers:
  "case snd (serve E keys gate x z key claim req) of
     Reply n b \<Rightarrow> (n, kind_of b) = (fst (contract_of req), fst (snd (contract_of req)))
   | HttpError n \<Rightarrow> n \<in> refusals \<union> set (snd (snd (contract_of req)))"
proof (cases "v1_gate keys gate (hs_db z) key claim")
  case (Inl n)
  then have "n \<in> refusals"
    by (auto simp: v1_gate_def TrustedCallerGuard_def DeveloperLicenseTenantResolver_def Let_def
        split: sum.splits option.splits if_splits)
  with Inl show ?thesis by (simp add: serve_def)
next
  case (Inr c)
  show ?thesis using v1_keeps [of req E x z "Some c"] Inr
    by (auto simp: serve_def split: response.split)
qed

end
