(* ===== verification/Accounts.thy ===== *)
theory Accounts
  imports Provisioning
begin

text \<open>
  The client of the DIMO accounts service, \<open>gateway/accounts_api.go\<close>: an account by email or by wallet,
  and the creation of one. A 404 is the answer "there is none"; everything else that goes wrong is a
  failure, for provisioning creates an account on the first and the signer gate remembers it.
\<close>

subsection \<open>What comes over the wire\<close>

text \<open>
  How a request failed: with a status, by running out of time, cancelled, or without an answer. A reply
  is a body that cannot be read, or is not JSON, or the fields of an account, absent ones empty.
\<close>

datatype exec_failure = Responded nat | TimedOut | ExecCanceled | NoAnswer

record account_body =
  ab_wallet :: string
  ab_signer :: string

datatype account_reply = Unread exec_failure | NotAnAccount | Account account_body

text \<open>
  \<open>aw_get\<close> is \<open>GET /api/account\<close> with one query parameter, its value and the bearer token; \<open>aw_post\<close> is
  \<open>POST /api/shared/account/email\<close> with the email, the signer and the token. Retries are the client
  wrapper's.
\<close>

record accounts_wire =
  aw_base :: string
  aw_get :: "string \<Rightarrow> string \<Rightarrow> string \<Rightarrow> exec_failure + account_reply"
  aw_post :: "string \<Rightarrow> string \<Rightarrow> string \<Rightarrow> exec_failure + account_reply"

subsection \<open>The client\<close>

datatype account_error = AccountNotFound | Missing string | NotConfigured | AccountFailure exec_failure | NotDecodable

definition decodeAccount :: "account_reply \<Rightarrow> account_error + account_body" where
  "decodeAccount r = (case r of
     Unread e \<Rightarrow> Inl (AccountFailure e)
   | NotAnAccount \<Rightarrow> Inl NotDecodable
   | Account a \<Rightarrow> Inr a)"

definition read_account :: "exec_failure + account_reply \<Rightarrow> account_error + account_body" where
  "read_account r = (case r of
     Inl e \<Rightarrow> Inl (if e = Responded 404 then AccountNotFound else AccountFailure e)
   | Inr reply \<Rightarrow> decodeAccount reply)"

definition account_by_email :: "accounts_wire \<Rightarrow> string \<Rightarrow> string \<Rightarrow> account_error + account_body" where
  "account_by_email W email developerJWT =
     (if email = [] then Inl (Missing ''email is required'')
      else if aw_base W = [] then Inl NotConfigured
      else read_account (aw_get W ''email'' email developerJWT))"

definition create_account :: "accounts_wire \<Rightarrow> string \<Rightarrow> string \<Rightarrow> string \<Rightarrow> account_error + account_body" where
  "create_account W email providedSignerAddress developerJWT =
     (if email = [] \<or> providedSignerAddress = [] \<or> developerJWT = []
      then Inl (Missing ''email, providedSignerAddress and developerJWT are required'')
      else if aw_base W = [] then Inl NotConfigured
      else case aw_post W email providedSignerAddress developerJWT of
        Inl e \<Rightarrow> Inl (AccountFailure e)
      | Inr reply \<Rightarrow> decodeAccount reply)"

definition account_by_wallet :: "accounts_wire \<Rightarrow> string \<Rightarrow> string \<Rightarrow> account_error + account_body" where
  "account_by_wallet W wallet developerJWT =
     (if wallet = [] then Inl (Missing ''wallet is required'')
      else if aw_base W = [] then Inl NotConfigured
      else read_account (aw_get W ''walletAddress'' wallet developerJWT))"

text \<open>As the services see it: the kinds of failure \<open>errors.Is\<close> tells apart, and the field they read.\<close>

definition answer_of :: "(account_body \<Rightarrow> string) \<Rightarrow> account_error + account_body \<Rightarrow> account_answer" where
  "answer_of field r = (case r of
     Inr a \<Rightarrow> AccFound (field a)
   | Inl e \<Rightarrow> (case e of AccountNotFound \<Rightarrow> AccNotFound | AccountFailure TimedOut \<Rightarrow> AccDeadline
               | AccountFailure ExecCanceled \<Rightarrow> AccCanceled | _ \<Rightarrow> AccFailed))"

definition accounts_client :: "accounts_wire \<Rightarrow> accounts_api" where
  "accounts_client W = \<lparr>
     GetAccountByWallet = (\<lambda>wallet token. answer_of ab_signer (account_by_wallet W wallet token)),
     GetAccountByEmail = (\<lambda>email token. answer_of ab_wallet (account_by_email W email token)),
     CreateAccount = (\<lambda>email signer token. case create_account W email signer token of Inl _ \<Rightarrow> None | Inr a \<Rightarrow> Some (ab_wallet a))\<rparr>"

subsection \<open>An outage is not an answer\<close>

lemma answer_of_NotFound: "answer_of f (read_account r) = AccNotFound \<longleftrightarrow> r = Inl (Responded 404)"
  by (auto simp: answer_of_def read_account_def decodeAccount_def split: sum.split account_reply.split exec_failure.split if_splits)

lemma answer_of_Found: "answer_of f (read_account r) = AccFound w \<longleftrightarrow> (\<exists>a. r = Inr (Account a) \<and> f a = w)"
  by (auto simp: answer_of_def read_account_def decodeAccount_def split: sum.split account_reply.split exec_failure.split if_splits)

lemma by_email_NotFound: "GetAccountByEmail (accounts_client W) email token = AccNotFound \<longleftrightarrow>
    email \<noteq> [] \<and> aw_base W \<noteq> [] \<and> aw_get W ''email'' email token = Inl (Responded 404)"
  by (simp add: accounts_client_def account_by_email_def answer_of_NotFound) (simp add: answer_of_def)

lemma create_Some: "CreateAccount (accounts_client W) email signer token = Some w \<longleftrightarrow>
    email \<noteq> [] \<and> signer \<noteq> [] \<and> token \<noteq> [] \<and> aw_base W \<noteq> [] \<and>
    (\<exists>a. aw_post W email signer token = Inr (Account a) \<and> ab_wallet a = w)"
  by (auto simp: accounts_client_def create_account_def decodeAccount_def split: sum.split account_reply.split)

text \<open>
  The signer gate takes an owner to have no signer exactly when the configured service said so: with a
  404, or with an account that carries none. A timeout, a refusal, any other status or a body that
  does not decode is an error, which the gate does not remember.
\<close>

theorem no_signer_is_an_answer:
  assumes "ev_accounts V = accounts_client W"
  shows "lookupSigner V w token = Inr [] \<longleftrightarrow>
     w \<noteq> [] \<and> aw_base W \<noteq> [] \<and>
     (aw_get W ''walletAddress'' w token = Inl (Responded 404) \<or>
      (\<exists>a. aw_get W ''walletAddress'' w token = Inr (Account a) \<and> ab_signer a = []))"
proof -
  have "lookupSigner V w token = Inr [] \<longleftrightarrow>
      GetAccountByWallet (ev_accounts V) w token = AccNotFound \<or> GetAccountByWallet (ev_accounts V) w token = AccFound []"
    by (auto simp: lookupSigner_def split: account_answer.split)
  also have "\<dots> \<longleftrightarrow> w \<noteq> [] \<and> aw_base W \<noteq> [] \<and>
      (answer_of ab_signer (read_account (aw_get W ''walletAddress'' w token)) = AccNotFound \<or>
       answer_of ab_signer (read_account (aw_get W ''walletAddress'' w token)) = AccFound [])"
    by (auto simp: assms accounts_client_def account_by_wallet_def) (auto simp: answer_of_def)
  finally show ?thesis by (auto simp: answer_of_NotFound answer_of_Found)
qed

definition demo_wire :: accounts_wire where
  "demo_wire = \<lparr>aw_base = ''https://accounts'',
     aw_get = (\<lambda>k v t. if v = ''0xOWN'' then Inr (Account \<lparr>ab_wallet = v, ab_signer = ''0xSIG''\<rparr>)
                     else if v = ''0xNEW'' then Inl (Responded 404) else Inl TimedOut),
     aw_post = (\<lambda>e a t. Inr (Account \<lparr>ab_wallet = ''0xAA'', ab_signer = a\<rparr>))\<rparr>"

lemma no_signer_is_an_answer_witness:
  "lookupSigner (demo_env\<lparr>ev_accounts := accounts_client demo_wire\<rparr>) ''0xNEW'' ''jwt'' = Inr [] \<and>
   lookupSigner (demo_env\<lparr>ev_accounts := accounts_client demo_wire\<rparr>) ''0xOUT'' ''jwt'' \<noteq> Inr []"
  using no_signer_is_an_answer [of "demo_env\<lparr>ev_accounts := accounts_client demo_wire\<rparr>" demo_wire "''0xNEW''" "''jwt''"]
    no_signer_is_an_answer [of "demo_env\<lparr>ev_accounts := accounts_client demo_wire\<rparr>" demo_wire "''0xOUT''" "''jwt''"]
  by (simp add: demo_wire_def)

text \<open>
  An account is asked for only for an email the service answered 404 for, with the acting tenant's
  signer, and the provision reports one created only if the service answered with the account.
\<close>

theorem Provision_creates_on_404:
  assumes "ev_accounts V = accounts_client W" and "Provision V email flt now cache s tid inp = (cache', s', accts, r)"
  shows "(\<forall>(e, signer)\<in>set accts. e = mw_email inp \<and> signer \<noteq> [] \<and>
       (\<exists>token. aw_get W ''email'' e token = Inl (Responded 404))) \<and>
     (\<forall>resp. r = Inr resp \<and> pv_created resp \<longrightarrow> (\<exists>e signer token a. accts = [(e, signer)] \<and> token \<noteq> [] \<and>
       aw_get W ''email'' e token = Inl (Responded 404) \<and> aw_post W e signer token = Inr (Account a)))"
proof (intro conjI)
  have resolve: "\<forall>(e, signer)\<in>set as. e = em \<and> signer \<noteq> [] \<and>
       (\<exists>token. aw_get W ''email'' e token = Inl (Responded 404))"
    if "resolve_wallet V f s tid em tok = (as, r')" for f em tok as r'
    using that assms(1)
    by (auto simp: resolve_wallet_def by_email_NotFound upstream_def
        split: account_answer.splits sum.splits if_splits option.splits)
  have "accts = [] \<or> (\<exists>f tok r'. resolve_wallet V f s tid (mw_email inp) tok = (accts, r'))"
    using assms(2) unfolding Provision_def Let_def by (auto split: if_splits sum.splits prod.splits)
  then show "\<forall>(e, signer)\<in>set accts. e = mw_email inp \<and> signer \<noteq> [] \<and>
       (\<exists>token. aw_get W ''email'' e token = Inl (Responded 404))" using resolve by (elim disjE exE) auto
  show "\<forall>resp. r = Inr resp \<and> pv_created resp \<longrightarrow> (\<exists>e signer token a. accts = [(e, signer)] \<and> token \<noteq> [] \<and>
       aw_get W ''email'' e token = Inl (Responded 404) \<and> aw_post W e signer token = Inr (Account a))"
  proof (rule Provision_result [OF assms(2)])
    fix wallet s1 created minted
    assume w: "wallet_answered V s tid (mw_email inp) (mt_token minted) created accts wallet"
      and r: "\<exists>m. r = Inr \<lparr>pv_created = created, pv_member = m,
         pv_email_sent = notifyAccessGranted email (\<lambda>n. flt (n + 13)) s' tid (mw_email inp)\<rparr> \<and>
         (m = written_member (ev_lib V) wallet inp \<or> GetMember no_faults s' tid wallet = Inr m)"
    show ?thesis using w r assms(1)
      by (fastforce simp: wallet_answered_def by_email_NotFound create_Some)
  qed auto
qed

end
