(* ===== verification/Startup.thy ===== *)
theory Startup
  imports Contracts
begin

text \<open>
  What the process decides before it serves: \<open>main.go\<close> with \<open>sharing/queue.go\<close>. The settings are
  checked, the workers and the queue are built only when sharing is configured, and some failures end
  the process while others only cost a feature.
\<close>

subsection \<open>What third parties answer\<close>

text \<open>Whether a client can be built, a worker registered, the pool opened, River built and started, a port taken.\<close>

record machine =
  mc_fleet :: bool
  mc_owner :: bool
  mc_register :: "string \<Rightarrow> bool"
  mc_pool :: bool
  mc_river :: bool
  mc_start :: bool
  mc_bind :: "int \<Rightarrow> bool"

datatype fatal =
    InvalidSettings config_error
  | InvalidKeys key_error
  | NoFleetClient
  | NoOwnerClient
  | NotRegistered string
  | NoQueue
  | NotStarted
  | WebhookPortTaken
  | PortTaken

subsection \<open>Workers and queue\<close>

definition NewFleetClient :: "chain_settings \<Rightarrow> machine \<Rightarrow> bool" where
  "NewFleetClient cfg M \<longleftrightarrow> SharingConfigured cfg \<and> mc_fleet M"

definition NewOwnerClient :: "chain_settings \<Rightarrow> machine \<Rightarrow> bool" where
  "NewOwnerClient cfg M \<longleftrightarrow> OwnerModeConfigured cfg \<and> mc_owner M"

text \<open>The worker bundle: the kinds registered, and whether the workers hold an owner-mode client.\<close>

record worker_bundle =
  bu_kinds :: "string list"
  bu_owner :: bool

fun register :: "machine \<Rightarrow> string list \<Rightarrow> string list \<Rightarrow> fatal + string list" where
  "register M [] acc = Inr acc"
| "register M (k # ks) acc = (if mc_register M k then register M ks (acc @ [k]) else Inl (NotRegistered k))"

definition shareWorkers :: "chain_settings \<Rightarrow> machine \<Rightarrow> fatal + worker_bundle option" where
  "shareWorkers cfg M =
     (if \<not> SharingConfigured cfg then Inr None
      else if \<not> NewFleetClient cfg M then Inl NoFleetClient
      else if OwnerModeConfigured cfg \<and> \<not> NewOwnerClient cfg M then Inl NoOwnerClient
      else case register M [''vehicle_share'', ''vehicle_share_revoke'', ''shared_operation''] [] of
        Inl e \<Rightarrow> Inl e
      | Inr ks \<Rightarrow> Inr (Some \<lparr>bu_kinds = ks, bu_owner = OwnerModeConfigured cfg\<rparr>))"

text \<open>\<open>stored\<close> is the job table met; a queue that is built serves it.\<close>

definition NewQueue :: "chain_settings \<Rightarrow> machine \<Rightarrow> worker_bundle option \<Rightarrow> queue \<Rightarrow> fatal + queue option" where
  "NewQueue cfg M workers stored =
     (if \<not> SharingConfigured cfg then Inr None
      else case workers of
        None \<Rightarrow> Inr None
      | Some w \<Rightarrow> if \<not> mc_pool M then Inl NoQueue else if \<not> mc_river M then Inl NoQueue else Inr (Some stored))"

definition StartQueue :: "machine \<Rightarrow> queue option \<Rightarrow> fatal option" where
  "StartQueue M q = (case q of None \<Rightarrow> None | Some _ \<Rightarrow> if mc_start M then None else Some NotStarted)"

subsection \<open>The process\<close>

record ports =
  pt_api :: int
  pt_webhook :: int
  pt_monitoring :: int

definition default_port :: "int \<Rightarrow> int \<Rightarrow> int" where
  "default_port d p = (if p = 0 then d else p)"

record running =
  rn_keys :: "(string \<times> string) list"
  rn_workers :: "worker_bundle option"
  rn_queue :: "queue option"
  rn_metrics :: bool

text \<open>
  The listeners run beside each other; one that cannot take its port ends the process, except that of
  the metrics. The outcome is that of a process in which every listener has tried.
\<close>

definition boot :: "chain_settings \<Rightarrow> machine \<Rightarrow> ports \<Rightarrow> queue \<Rightarrow> fatal + running" where
  "boot cfg M pt stored =
     (case Validate cfg of Some e \<Rightarrow> Inl (InvalidSettings e)
      | None \<Rightarrow>
        if \<not> mc_bind M (default_port 8087 (pt_webhook pt)) then Inl WebhookPortTaken
        else case shareWorkers cfg M of Inl e \<Rightarrow> Inl e
        | Inr workers \<Rightarrow>
          (case NewQueue cfg M workers stored of Inl e \<Rightarrow> Inl e
           | Inr q \<Rightarrow>
             (case StartQueue M q of Some e \<Rightarrow> Inl e
              | None \<Rightarrow>
                (case ParsedTrustedCallerKeys cfg of Inl e \<Rightarrow> Inl (InvalidKeys e)
                 | Inr keys \<Rightarrow>
                   if \<not> mc_bind M (default_port 3010 (pt_api pt)) then Inl PortTaken
                   else Inr \<lparr>rn_keys = keys, rn_workers = workers, rn_queue = q,
                              rn_metrics = mc_bind M (default_port 8085 (pt_monitoring pt))\<rparr>))))"

definition booted :: "running \<Rightarrow> db \<Rightarrow> server" where
  "booted rn s = \<lparr>hs_db = s, hs_cache = Map.empty, hs_queue = rn_queue rn, hs_accounts = []\<rparr>"

subsection \<open>What a boot guarantees\<close>

lemma register_Inr: "register M ks acc = Inr out \<Longrightarrow> out = acc @ ks \<and> list_all (mc_register M) ks"
  by (induction ks arbitrary: acc) (fastforce split: if_splits)+

lemma job_kinds: "job_kind j \<in> {''vehicle_share'', ''vehicle_share_revoke'', ''shared_operation''}"
  by (cases j) simp_all

lemma boot_queue:
  assumes "boot cfg M pt stored = Inr rn"
  shows "if SharingConfigured cfg
    then rn_queue rn = Some stored \<and> (\<exists>w. rn_workers rn = Some w \<and> bu_owner w \<and> (\<forall>j. job_kind j \<in> set (bu_kinds w)))
    else rn_queue rn = None \<and> rn_workers rn = None"
proof (cases "SharingConfigured cfg")
  case True
  then obtain w where w: "shareWorkers cfg M = Inr (Some w)" and q: "rn_queue rn = Some stored" "rn_workers rn = Some w"
    using assms by (auto simp: boot_def NewQueue_def shareWorkers_def split: option.splits sum.splits if_splits)
  from w True have "bu_owner w" "bu_kinds w = [''vehicle_share'', ''vehicle_share_revoke'', ''shared_operation'']"
    by (auto simp: shareWorkers_def OwnerModeConfigured_def split: if_splits sum.splits dest!: register_Inr)
  then show ?thesis using True q job_kinds by simp
next
  case False
  with assms show ?thesis
    by (auto simp: boot_def NewQueue_def shareWorkers_def split: option.splits sum.splits if_splits)
qed

lemma boot_unconfigured:
  assumes "\<not> SharingConfigured cfg" and "Validate cfg = None" and "ParsedTrustedCallerKeys cfg = Inr keys"
    and "mc_bind M (default_port 8087 (pt_webhook pt))" and "mc_bind M (default_port 3010 (pt_api pt))"
  shows "\<exists>rn. boot cfg M pt stored = Inr rn \<and> rn_queue rn = None"
  using assms by (simp add: boot_def shareWorkers_def NewQueue_def StartQueue_def)

text \<open>Without a queue nothing is ever accepted on the sharing routes.\<close>

lemma enqueue_none: "hs_queue z = None \<Longrightarrow> enqueue x z j = (z, HttpError 503)"
  by (cases z) (simp add: enqueue_def Enqueue_def queue_status_def)

lemma authorize_share_queue: "authorize_share E x z t k = (z', r) \<Longrightarrow> hs_queue z' = hs_queue z"
  by (auto simp: authorize_share_def split: prod.splits)

lemma sharing_off:
  assumes "hs_queue z = None"
  shows "snd (sharing_route E x z caller q) \<noteq> Reply 202 b"
proof (cases q)
  case (QShareVehicle t k i)
  then show ?thesis using assms
    by (auto simp: ShareVehicle_def enqueue_none dest: authorize_share_queue split: option.split prod.split sum.split)
next
  case (QRevokeShare t k g w)
  then show ?thesis using assms
    by (auto simp: RevokeShare_def enqueue_none dest: authorize_share_queue split: option.split prod.split sum.split)
next
  case (QSharedOperation t k i)
  then show ?thesis using assms
    by (auto simp: SharedOperation_def enqueue_none Let_def dest: authorize_share_queue
        split: option.split prod.split sum.split shared_op.split)
qed (auto simp: ShareableOwners_def sharing_reads answer_def split: option.split prod.split sum.split)

text \<open>
  A process whose settings are valid, whose caller keys parse and whose two service ports are free
  serves whenever sharing is not configured, whatever the bundler, the chain and the job table do; it
  then accepts no share, revocation or operation. When sharing is configured, a process that serves has
  a queue over the stored jobs and a worker for every kind of job it can be given, so nothing is queued
  that nothing drains.
\<close>

theorem boot_serves:
  "(\<not> SharingConfigured cfg \<and> Validate cfg = None \<and> ParsedTrustedCallerKeys cfg = Inr keys \<and>
      mc_bind M (default_port 8087 (pt_webhook pt)) \<and> mc_bind M (default_port 3010 (pt_api pt)) \<longrightarrow>
      (\<exists>rn. boot cfg M pt stored = Inr rn)) \<and>
   (\<forall>rn. boot cfg M pt stored = Inr rn \<longrightarrow> Validate cfg = None \<and>
      (if SharingConfigured cfg
       then rn_queue rn = Some stored \<and> (\<exists>w. rn_workers rn = Some w \<and> (\<forall>j. job_kind j \<in> set (bu_kinds w)))
       else \<forall>E x s caller q b. snd (sharing_route E x (booted rn s) caller q) \<noteq> Reply 202 b))"
proof (intro conjI allI impI)
  fix rn assume b: "boot cfg M pt stored = Inr rn"
  then show "Validate cfg = None" by (auto simp: boot_def split: option.splits)
  show "if SharingConfigured cfg
      then rn_queue rn = Some stored \<and> (\<exists>w. rn_workers rn = Some w \<and> (\<forall>j. job_kind j \<in> set (bu_kinds w)))
      else \<forall>E x s caller q b. snd (sharing_route E x (booted rn s) caller q) \<noteq> Reply 202 b"
    using boot_queue [OF b] sharing_off by (auto simp: booted_def split: if_splits)
qed (use boot_unconfigured in blast)

definition demo_machine :: machine where
  "demo_machine = \<lparr>mc_fleet = False, mc_owner = False, mc_register = (\<lambda>_. True), mc_pool = False, mc_river = False, mc_start = False,
     mc_bind = (\<lambda>p. p \<noteq> 8085)\<rparr>"

definition demo_quiet :: chain_settings where
  "demo_quiet = \<lparr>Environment = ''local'', TenantSecretEncKey = ''dk'', DimoAuthURL = [], SacdAddress = [], SacdUploadURL = [],
     SyntheticNftAddress = [], VehicleNftAddress = [], RPCURL = [], BundlerURL = [], ChainID = 0, TrustedCallerKeys = []\<rparr>"

lemma boot_serves_witness:
  "\<exists>rn. boot demo_quiet demo_machine \<lparr>pt_api = 0, pt_webhook = 0, pt_monitoring = 0\<rparr> \<lparr>q_jobs = [], q_next = 1\<rparr> = Inr rn"
proof -
  have "\<not> SharingConfigured demo_quiet" "Validate demo_quiet = None" "ParsedTrustedCallerKeys demo_quiet = Inr []" by code_simp+
  then show ?thesis using boot_serves [of demo_quiet "[]" demo_machine "\<lparr>pt_api = 0, pt_webhook = 0, pt_monitoring = 0\<rparr>" "\<lparr>q_jobs = [], q_next = 1\<rparr>"]
    by (simp add: demo_machine_def default_port_def)
qed

end
