(* ===== verification/Spec2Isabelle.thy ===== *)
theory Spec2Isabelle
  imports Roster Provisioning ShareQueue Publisher FrontDoor Webhooks Identity BackfillGroups BackfillInvitations Backfill
    SignerDiff CredentialWrites Operations Router Contracts Accounts Startup
begin

text \<open>
  \<^bold>\<open>fleet-tenancy-api\<close>: who may see and do what with a fleet of vehicles.

  The service keeps tenants (operators and the customers beneath them), their developer licences,
  the people who belong to them, and which vehicles each customer is entitled to, in one Postgres
  database. Other DIMO services ask it to authorize a wallet against a tenant, and consoles write
  through it. This development models the services under \<open>src/internal/service\<close> and
  \<open>src/internal/sharing\<close> with the data types of \<open>src/internal/models\<close>, statement by statement, the
  HTTP surface and the gateways around them, and the commands of \<open>src/cmd\<close> that seed and run the
  service, and proves what each promises.

  \<^bold>\<open>How the code is rendered.\<close> The database is the record \<open>db\<close> of theory \<open>Schema\<close>, one list of rows
  per table of \<open>src/internal/db/migrations\<close>; \<open>SELECT\<close>, \<open>UPDATE\<close>, \<open>DELETE\<close> and upserts are the
  functions of theory \<open>Prelude\<close>, and triggers, foreign keys and unique indexes are written out where
  a statement meets them. An operation of the code is a function of the same name from a database to
  the database it leaves and a result, \<open>Inl\<close> an error and \<open>Inr\<close> an answer. An operation in a
  transaction returns the database it was given on every error; one that is not, such as the
  creation of an invitation or a roster sweep, returns what its earlier statements left behind. A
  fault plan numbers the statements of one call and says which of them the driver fails, so error
  paths are branches of the model and theorems quantify over all of them; a theorem about success
  names \<open>no_faults\<close>. The clock, in microseconds, new ids, and random bytes are arguments. Every
  operation is a total function: all recursion is structural but the retry loop of the token mints
  (\<open>mint_from\<close>) and the cursor loop of identity-api's client (\<open>pages_from\<close>), each ended by a measure
  on the bound the code itself sets, so no fuel is needed. Integers are unbounded where the code has
  room to spare and words of their width where it does not (permission masks, the 64-bit duration of
  a share), and their bounds are checked where the code checks them (path and job ids). The job
  queue is the one component whose steps are not calls of its own: it is an \<open>inductive\<close> step
  relation over the queue's rows.

  Code outside the repository is a parameter: addresses, uuids and Postgres' month arithmetic
  (record \<open>library\<close>, with \<open>address_laws\<close> and \<open>month_laws\<close>), AEAD encryption, base64 and SHA-256
  (record \<open>crypto\<close>), go-ethereum's keys (record \<open>eth\<close>), the token service (\<open>dimo_auth\<close>), the chain
  (\<open>chain_reader\<close>, \<open>contracts\<close>, \<open>sender\<close>), accounts-api (\<open>accounts_wire\<close>, with \<open>answers_addresses\<close>),
  Postmark, the attestation service, the document store, identity-api (\<open>identity_api\<close>, with
  \<open>detail_law\<close>, over \<open>identity_wire\<close>), the HTTP router (\<open>router\<close>, with \<open>router_laws\<close>), the decoding
  of JSON bodies (\<open>decoders\<close>), the template files, and what the two source databases of the
  backfills hold. Each law is a hypothesis of the theorems that need it, and a concrete instance
  satisfies it in their witnesses. Where the code asks one of them concurrently or under a deadline,
  which requests finish and in which order is a schedule, an argument over which the theorems
  quantify.

  \<^bold>\<open>The theories.\<close>

  \<^item> \<open>Prelude\<close>: text, NULL, tables, unique indexes, JSON, the clock and faults; the locales
    \<open>upsert_table\<close> (what a keyed upsert promises its reader), \<open>op_system\<close> and \<open>op_history\<close>
    (operations that keep an invariant, and never move a record backwards, over any sequence).
  \<^item> \<open>Schema\<close>: the rows, the database, \<open>models/tenant.go\<close> constants, the parameters and a small
    concrete database on which the theorems are applied.
  \<^item> \<open>Access\<close>: \<open>authz.go\<close>, \<open>scope.go\<close>, \<open>tenant_resolve.go\<close>, \<open>wallet_tenants.go\<close> and credential
    resolution of \<open>credentials.go\<close>. Authorization is sound and complete against the rows that grant
    access (of several delegations it reports one, in full), a tenant that is not active grants
    nothing, a listing never discloses what a detail read would refuse, and scope agrees with
    credential resolution.
  \<^item> \<open>Members\<close>: \<open>members.go\<close>. A written member is what authorization then reports; a failed write
    changes nothing, a successful one nobody else; removal revokes; the invariant holds over every
    sequence of writes.
  \<^item> \<open>Tenants\<close>: \<open>tenants.go\<close>, \<open>selfserve.go\<close>, \<open>crypto.go\<close>. A new customer is reachable by its
    operator at once and created whole or not at all; self-serve signup likewise; a patch
    changes what it names; credentials graduate a tenant.
  \<^item> \<open>FleetGroups\<close>: \<open>groups.go\<close>. Slugs are canonical, ids name their tenant, deleting a group never
    widens what a member may see and leaves nothing that names it, vehicles of a group are exactly
    those added.
  \<^item> \<open>Entitlements\<close>: \<open>entitlements.go\<close>. At no time are two tenants entitled to one vehicle; an
    assignment says exactly what it did with every vehicle; a revocation frees it.
  \<^item> \<open>VehicleMemberships\<close>: \<open>memberships.go\<close>. Paid terms: one active per tenant and vehicle, only for
    entitled vehicles, moves carry the remaining term, renewals extend and never shorten.
  \<^item> \<open>Invitations\<close>: \<open>invitations.go\<close>. A link works, once, until it expires or is resent; accepting
    merges with what the person had; at most one is pending per address; delivery events commute.
    Its locales \<open>ranked_status\<close> and \<open>ranked_status_inj\<close> state what a monotone status promises.
  \<^item> \<open>Roster\<close>: \<open>roster.go\<close>, \<open>roster_read.go\<close>. A sweep leaves exactly the rows, field by field, and the
    change log that identity-api's answers dictate, repeats to nothing, loses nothing when it fails
    halfway, marks nobody unseen when a licence was silent; a dry run writes nothing and reports the
    same.

  \<^item> \<open>Config\<close>: \<open>settings.go\<close>, \<open>trusted_caller.go\<close>, \<open>api_auth.go\<close>. With settings the service boots on,
    the gates of \<open>/v1\<close> let through only a configured caller key and a licence that names a tenant.
  \<^item> \<open>Minting\<close>: the token minter of \<open>credentials.go\<close> with \<open>mint_retry.go\<close>, \<open>signer_provision.go\<close> and
    \<open>aa_wallet.go\<close>. A token is minted from the key stored now, whatever the cache holds; minting
    ends; a wallet is stored only if the chain confirms the key.
  \<^item> \<open>SharedSigner\<close>: \<open>shared_signer.go\<close>, \<open>shared_accounts.go\<close>. Permission to sign for an owner is
    sound, and repeated questions resolve every owner within a bounded number of rounds.
  \<^item> \<open>Mail\<close>, \<open>Provisioning\<close>: \<open>postmark.go\<close>, \<open>access_email.go\<close>, \<open>provision.go\<close>. Success means the wallet
    accounts-api answered is a member; an email is reported sent only if Postmark named no error.
  \<^item> \<open>Sacd\<close>: \<open>permissions.go\<close>, \<open>grant.go\<close>, \<open>call.go\<close>, \<open>sacd_document.go\<close>. What a permission mask
    permits, that the published document says the same, and how long a share lasts.
  \<^item> \<open>Sharing\<close>: \<open>service/sharing.go\<close>, \<open>worker.go\<close>, \<open>revoke.go\<close>, \<open>shared_ops.go\<close>. Every call a worker
    sends is authorized when it runs; documents of live grants are not lost; transfers are
    sequenced.
  \<^item> \<open>ShareQueue\<close>: \<open>enqueue.go\<close>, \<open>sequence.go\<close>, \<open>queue.go\<close>. The step relation \<open>river\<close> (insert, fetch,
    finish, snooze, crash, rescue) keeps the jobs of one vehicle in order, lets the earliest one
    through, and refines the abstract queue \<open>fifo_step\<close> of each vehicle.
  \<^item> \<open>Publisher\<close>: \<open>group_publisher.go\<close>, \<open>attest_api.go\<close>. A run accounts for every vehicle it selected
    and a second run has nothing left to do.

  \<^item> \<open>Isolation\<close>: which rows of the database belong to a tenant, and that each operation leaves the
    rows of every other tenant alone.
  \<^item> \<open>Http\<close>, \<open>Controllers\<close>, \<open>SharingController\<close>, \<open>Routes\<close>: \<open>internal/controllers\<close> and the routes of
    \<open>app/app.go\<close> behind the gates: a server state, a request per route, an answer with its status
    and body, the order of the checks in each handler.
  \<^item> \<open>FrontDoor\<close>: whatever is requested, a caller neither reads nor changes a tenant it may not access,
    a refusal changes nothing, and an accepted share is queued exactly as asked.
  \<^item> \<open>Router\<close>: the route table as data, with what each handler reads of path, query, header and body.
    No request has two routes, so the order of registration is irrelevant, and the tenant in a path
    is the one whose scope is checked. Also the error handler and the labels of \<open>app/metrics.go\<close>.
  \<^item> \<open>Contracts\<close>: the status, body and error statuses of each route, to which every answer keeps.
  \<^item> \<open>Startup\<close>: \<open>main.go\<close>, \<open>sharing/queue.go\<close>. A process serves without its optional parts, and one
    with sharing configured has a worker for every kind of job it can be given.
  \<^item> \<open>Webhooks\<close>: \<open>webhook_app.go\<close>, \<open>controllers/webhooks.go\<close>. Delivery events count only with the
    configured secret, and change nothing but the delivery state of an invitation.
  \<^item> \<open>Identity\<close>, \<open>Accounts\<close>: \<open>gateway/identity_api.go\<close>, \<open>gateway/accounts_api.go\<close>. A listing is whole or
    an error; only a 404 means that there is no account, so an outage is never taken for an answer.
  \<^item> \<open>Commands\<close>, \<open>Backfill\<close>, \<open>BackfillGroups\<close>, \<open>BackfillInvitations\<close>: the one-off migrations of
    \<open>src/cmd\<close>. Members keep every access either source gave them, secrets open under the new key,
    outstanding links still work, a failed run writes nothing; and a new environment cannot be
    seeded, for tenants and groups wait for each other.
  \<^item> \<open>SignerDiff\<close>: \<open>signer_diff.go\<close>. Its verdict is exactly the agreement of the two key stores, and it
    agrees with what a backfill leaves.
  \<^item> \<open>CredentialWrites\<close>: every writer of the credential table together. A signer is given once and kept,
    by any sequence of the service's writes and the migration's, but for the tenants the migration
    takes over from kaufmann.
  \<^item> \<open>Operations\<close>: the commands around one service each: warming accounts (limited runs walk forward, as
    fast as answers can be recorded),
    giving a tenant a signer, publishing, reconciling, pushing templates, and their exit statuses.

  The locales are interpreted where their operations are defined: \<open>upsert_table\<close> on memberships
  (written and migrated) and on remembered accounts, \<open>token_sets\<close> on the vehicles of groups,
  \<open>op_system\<close> and \<open>op_history\<close> on the writes of groups, entitlements, minter cache, members,
  tenants, credentials, memberships and invitations.

  \<^bold>\<open>Not modelled.\<close> The texts of error answers, the decoding of JSON and the parsing of RFC 3339
  times, the router itself, the counters of the metrics, the registration of subcommands, the
  signal handling and \<open>migrate.go\<close>, and the construction of third-party clients (Fiber, River, goose,
  Prometheus, account abstraction), which decide nothing. River inserts a job in one step: the order in
  which concurrent transactions commit is not modelled, nor are Postgres row locks and isolation;
  concurrent calls are sequences of whole calls. Logging has no counterpart, so neither have the
  reports of dry runs. Text is ASCII: lower-casing and trimming of other characters is not modelled.
\<close>

end
